(* ===== verification/Prelude.thy ===== *)
theory Prelude
  imports Main "HOL-Library.Word" "HOL-Library.Char_ord" "HOL-Library.List_Lexorder"
    "HOL-Library.Multiset"
begin

text \<open>
  What every component of the development shares: the three-way comparison of C++ and the
  locale of its laws, the standard library's stable sort under a comparator, and the ordered
  associative container \<open>std::map\<close>, each with the lemmas the components use.
\<close>

named_theorems order_simps \<open>characterisations of the comparators as three-way orders\<close>
named_theorems result_simps \<open>unfolding of the result combinators\<close>
named_theorems omap_simps \<open>facts on the ordered map\<close>

type_synonym u32 = "32 word"
type_synonym u64 = "64 word"
type_synonym byte = "8 word"

section \<open>Three-way comparison\<close>

text \<open>\<open>std::strong_ordering\<close>.\<close>

datatype ordering = Less | Equal | Greater

fun flip_ord :: "ordering \<Rightarrow> ordering" where
  "flip_ord Less = Greater"
| "flip_ord Equal = Equal"
| "flip_ord Greater = Less"

lemma flip_ord_flip [simp]: "flip_ord (flip_ord r) = r"
  by (cases r) auto

lemma flip_ord_iffs [simp]:
  "flip_ord r = Less \<longleftrightarrow> r = Greater" "flip_ord r = Equal \<longleftrightarrow> r = Equal"
  "flip_ord r = Greater \<longleftrightarrow> r = Less"
  by (cases r; simp)+

text \<open>The comparison of two values of an ordered type, as \<open>std::string::compare\<close> and the
  \<open>a != b ? (a < b ? less : greater) : equal\<close> of the code do it.\<close>

definition cmp_of :: "'a::linorder \<Rightarrow> 'a \<Rightarrow> ordering" where
  "cmp_of a b = (if a < b then Less else if a = b then Equal else Greater)"

lemma cmp_of_iffs [simp]:
  "cmp_of a b = Less \<longleftrightarrow> a < b" "cmp_of a b = Equal \<longleftrightarrow> a = b"
  "cmp_of a b = Greater \<longleftrightarrow> b < a"
  by (auto simp: cmp_of_def)

text \<open>Compare by the first key, and by the second where the first is equal.\<close>

definition then_cmp :: "ordering \<Rightarrow> ordering \<Rightarrow> ordering" where
  "then_cmp r s = (case r of Equal \<Rightarrow> s | _ \<Rightarrow> r)"

lemma then_cmp_simps [simp]:
  "then_cmp Equal s = s" "then_cmp Less s = Less" "then_cmp Greater s = Greater"
  by (simp_all add: then_cmp_def)

lemma then_cmp_Equal [simp]: "then_cmp r s = Equal \<longleftrightarrow> r = Equal \<and> s = Equal"
  by (cases r) auto

lemma then_cmp_Less: "then_cmp r s = Less \<longleftrightarrow> r = Less \<or> r = Equal \<and> s = Less"
  by (cases r) auto

lemma then_cmp_Greater: "then_cmp r s = Greater \<longleftrightarrow> r = Greater \<or> r = Equal \<and> s = Greater"
  by (cases r) auto

text \<open>Lexicographic comparison of two sequences, the shorter first on a common prefix.\<close>

fun lex_cmp :: "('a \<Rightarrow> 'a \<Rightarrow> ordering) \<Rightarrow> 'a list \<Rightarrow> 'a list \<Rightarrow> ordering" where
  "lex_cmp c [] [] = Equal"
| "lex_cmp c [] (y # ys) = Less"
| "lex_cmp c (x # xs) [] = Greater"
| "lex_cmp c (x # xs) (y # ys) = then_cmp (c x y) (lex_cmp c xs ys)"

subsection \<open>The laws of a comparator\<close>

text \<open>What every comparator of the program promises: swapping the arguments flips the answer,
  and \<open>not greater\<close> is transitive. Its clients are the sorts, the interval operations and the
  choice of a negotiated version.\<close>

locale three_way =
  fixes cmp :: "'a \<Rightarrow> 'a \<Rightarrow> ordering"
  assumes cmp_flip: "cmp y x = flip_ord (cmp x y)"
    and cmp_trans: "cmp x y \<noteq> Greater \<Longrightarrow> cmp y z \<noteq> Greater \<Longrightarrow> cmp x z \<noteq> Greater"
begin

lemma cmp_refl [simp]: "cmp x x = Equal"
  using cmp_flip [of x x] by (cases "cmp x x") auto

lemma less_iff_greater: "cmp x y = Less \<longleftrightarrow> cmp y x = Greater"
  by (simp add: cmp_flip [of y x])

lemma equal_sym: "cmp x y = Equal \<longleftrightarrow> cmp y x = Equal"
  by (simp add: cmp_flip [of y x])

lemma not_greater: "cmp x y \<noteq> Greater \<longleftrightarrow> cmp x y = Less \<or> cmp x y = Equal"
  by (cases "cmp x y") auto

lemma le_total: "cmp x y \<noteq> Greater \<or> cmp y x \<noteq> Greater"
  by (cases "cmp x y") (auto simp: cmp_flip [of x y])

lemma less_le_trans: "cmp x y = Less \<Longrightarrow> cmp y z \<noteq> Greater \<Longrightarrow> cmp x z = Less"
  by (metis cmp_trans less_iff_greater not_greater equal_sym ordering.distinct(3))

lemma le_less_trans: "cmp x y \<noteq> Greater \<Longrightarrow> cmp y z = Less \<Longrightarrow> cmp x z = Less"
  by (metis cmp_trans less_iff_greater not_greater equal_sym ordering.distinct(3))

lemma less_trans: "cmp x y = Less \<Longrightarrow> cmp y z = Less \<Longrightarrow> cmp x z = Less"
  by (rule less_le_trans) auto

lemma equal_trans: "cmp x y = Equal \<Longrightarrow> cmp y z = Equal \<Longrightarrow> cmp x z = Equal"
  by (metis cmp_trans equal_sym less_iff_greater not_greater ordering.distinct(3,5))

lemma less_equal_trans: "cmp x y = Less \<Longrightarrow> cmp y z = Equal \<Longrightarrow> cmp x z = Less"
  by (rule less_le_trans) auto

lemma equal_less_trans: "cmp x y = Equal \<Longrightarrow> cmp y z = Less \<Longrightarrow> cmp x z = Less"
  by (rule le_less_trans) auto

lemmas trans_rules = less_trans less_equal_trans equal_less_trans equal_trans

lemma flip_cases: "cmp x y = Less \<and> cmp y x = Greater \<or> cmp x y = Equal \<and> cmp y x = Equal \<or>
    cmp x y = Greater \<and> cmp y x = Less"
  by (cases "cmp x y") (auto simp: cmp_flip [of y x])

lemma equal_cong_left: "cmp x y = Equal \<Longrightarrow> cmp x z = cmp y z"
proof (cases "cmp y z")
  case Less
  assume "cmp x y = Equal"
  with Less show ?thesis using le_less_trans [of x y z] by simp
next
  case Equal
  assume "cmp x y = Equal"
  with Equal show ?thesis using equal_trans [of x y z] by simp
next
  case Greater
  assume "cmp x y = Equal"
  then have "cmp y x = Equal" using equal_sym by blast
  then have "cmp y x \<noteq> Greater" by simp
  moreover have "cmp z y = Less" using Greater by (simp add: less_iff_greater)
  ultimately have "cmp z x = Less" using less_le_trans by blast
  with Greater show ?thesis by (simp add: less_iff_greater)
qed

lemma equal_cong_right: "cmp x y = Equal \<Longrightarrow> cmp z x = cmp z y"
  using equal_cong_left [of x y z] by (simp add: cmp_flip [of z x] cmp_flip [of z y])

end

lemma three_way_cmp_of: "three_way (cmp_of :: 'a::linorder \<Rightarrow> 'a \<Rightarrow> ordering)"
  by unfold_locales (auto simp: cmp_of_def split: if_splits)

lemma three_way_on: "three_way f \<Longrightarrow> three_way (\<lambda>x y. f (h x) (h y))"
  unfolding three_way_def by blast

lemma three_way_then:
  assumes f: "three_way f" and g: "three_way g"
  shows "three_way (\<lambda>x y. then_cmp (f x y) (g x y))"
proof
  fix x y
  show "then_cmp (f y x) (g y x) = flip_ord (then_cmp (f x y) (g x y))"
    using three_way.cmp_flip [OF f, of y x] three_way.cmp_flip [OF g, of y x]
    by (cases "f x y") auto
next
  fix x y z
  assume "then_cmp (f x y) (g x y) \<noteq> Greater" and "then_cmp (f y z) (g y z) \<noteq> Greater"
  then show "then_cmp (f x z) (g x z) \<noteq> Greater"
    using three_way.cmp_trans [OF f, of x y z] three_way.cmp_trans [OF g, of x y z]
      three_way.less_le_trans [OF f, of x y z] three_way.le_less_trans [OF f, of x y z]
      three_way.equal_trans [OF f, of x y z]
    by (cases "f x y"; cases "f y z") auto
qed

lemma lex_cmp_flip:
  assumes "three_way c"
  shows "lex_cmp c ys xs = flip_ord (lex_cmp c xs ys)"
proof (induction xs ys rule: list_induct2')
  case (4 x xs y ys)
  then show ?case
    using three_way.cmp_flip [OF assms, of y x] by (cases "c x y") auto
qed auto

lemma lex_cmp_trans:
  assumes "three_way c"
  shows "lex_cmp c xs ys \<noteq> Greater \<Longrightarrow> lex_cmp c ys zs \<noteq> Greater \<Longrightarrow> lex_cmp c xs zs \<noteq> Greater"
proof (induction xs arbitrary: ys zs)
  case Nil
  then show ?case by (cases zs) auto
next
  case (Cons x xs)
  obtain y ys' z zs' where eqs: "ys = y # ys'" "zs = z # zs'"
    using Cons.prems by (cases ys; cases zs) auto
  show ?case
    using Cons.IH [of ys' zs'] Cons.prems three_way.less_le_trans [OF assms, of x y z]
      three_way.le_less_trans [OF assms, of x y z] three_way.equal_trans [OF assms, of x y z]
    unfolding eqs by (cases "c x y"; cases "c y z") auto
qed

lemma three_way_lex: "three_way c \<Longrightarrow> three_way (lex_cmp c)"
  by (rule three_way.intro) (auto intro: lex_cmp_flip dest: lex_cmp_trans)

lemma lex_cmp_Equal:
  "(\<And>x y. c x y = Equal \<longleftrightarrow> x = y) \<Longrightarrow> lex_cmp c xs ys = Equal \<longleftrightarrow> xs = ys"
  by (induction xs ys rule: list_induct2') auto

section \<open>Sorting under a comparator\<close>

text \<open>\<open>std::stable_sort(first, last, lt)\<close>: the stable permutation in which no element is
  \<open>lt\<close> an earlier one. \<open>std::sort\<close> leaves the order of equivalent elements open; the
  model fixes it to the stable one, which is one of the orders the standard allows.\<close>

fun insert_by :: "('a \<Rightarrow> 'a \<Rightarrow> bool) \<Rightarrow> 'a \<Rightarrow> 'a list \<Rightarrow> 'a list" where
  "insert_by lt x [] = [x]"
| "insert_by lt x (y # ys) = (if lt y x then y # insert_by lt x ys else x # y # ys)"

fun sort_by :: "('a \<Rightarrow> 'a \<Rightarrow> bool) \<Rightarrow> 'a list \<Rightarrow> 'a list" where
  "sort_by lt [] = []"
| "sort_by lt (x # xs) = insert_by lt x (sort_by lt xs)"

lemma mset_insert_by [simp]: "mset (insert_by lt x xs) = add_mset x (mset xs)"
  by (induction xs) auto

lemma mset_sort_by [simp]: "mset (sort_by lt xs) = mset xs"
  by (induction xs) auto

lemma set_insert_by [simp]: "set (insert_by lt x xs) = insert x (set xs)"
  by (induction xs) auto

lemma set_sort_by [simp]: "set (sort_by lt xs) = set xs"
  by (induction xs) auto

lemma length_sort_by [simp]: "length (sort_by lt xs) = length xs"
  by (metis mset_sort_by size_mset)

lemma sort_by_Nil_iff [simp]: "sort_by lt xs = [] \<longleftrightarrow> xs = []"
  by (metis length_0_conv length_sort_by)

text \<open>A comparator fit for sorting: a strict weak order.\<close>

locale strict_weak =
  fixes lt :: "'a \<Rightarrow> 'a \<Rightarrow> bool"
  assumes lt_asym: "lt x y \<Longrightarrow> \<not> lt y x"
    and not_lt_trans: "\<not> lt x y \<Longrightarrow> \<not> lt y z \<Longrightarrow> \<not> lt x z"
begin

lemma lt_irrefl [simp]: "\<not> lt x x"
  using lt_asym by blast

lemma lt_trans: "lt x y \<Longrightarrow> lt y z \<Longrightarrow> lt x z"
  using lt_asym not_lt_trans by blast

lemma insert_by_sorted:
  "sorted_wrt (\<lambda>x y. \<not> lt y x) xs \<Longrightarrow> sorted_wrt (\<lambda>x y. \<not> lt y x) (insert_by lt a xs)"
proof (induction xs)
  case (Cons y ys)
  then show ?case
    by (auto simp: lt_asym) (metis not_lt_trans)
qed simp

lemma sort_by_sorted: "sorted_wrt (\<lambda>x y. \<not> lt y x) (sort_by lt xs)"
  by (induction xs) (auto intro: insert_by_sorted)

lemma sort_by_id: "sorted_wrt (\<lambda>x y. \<not> lt y x) xs \<Longrightarrow> sort_by lt xs = xs"
proof (induction xs)
  case (Cons x xs)
  then show ?case by (cases xs) auto
qed simp

lemma sort_by_idem [simp]: "sort_by lt (sort_by lt xs) = sort_by lt xs"
  by (rule sort_by_id [OF sort_by_sorted])

lemma sorted_unique:
  assumes "sorted_wrt (\<lambda>x y. \<not> lt y x) xs" and "sorted_wrt (\<lambda>x y. \<not> lt y x) ys"
    and "mset xs = mset ys"
    and "\<And>x y. x \<in> set xs \<Longrightarrow> y \<in> set xs \<Longrightarrow> \<not> lt x y \<Longrightarrow> \<not> lt y x \<Longrightarrow> x = y"
  shows "xs = ys"
  using assms
proof (induction xs arbitrary: ys)
  case (Cons x xs)
  then obtain y ys' where ys: "ys = y # ys'" by (cases ys) auto
  have sets: "set (x # xs) = set ys" using Cons.prems(3) by (rule mset_eq_setD)
  have "\<not> lt y x" and "\<not> lt x y"
    using Cons.prems(1,2) sets ys by (auto simp: set_eq_iff)
  moreover have "y \<in> set (x # xs)" using sets ys by simp
  ultimately have "x = y" using Cons.prems(4) [of x y] by simp
  moreover have "xs = ys'"
    using Cons.prems \<open>x = y\<close> ys by (intro Cons.IH) auto
  ultimately show ?case using ys by simp
qed simp

lemma sort_by_perm:
  assumes "mset xs = mset ys"
    and "\<And>x y. x \<in> set xs \<Longrightarrow> y \<in> set xs \<Longrightarrow> \<not> lt x y \<Longrightarrow> \<not> lt y x \<Longrightarrow> x = y"
  shows "sort_by lt xs = sort_by lt ys"
  using assms by (intro sorted_unique) (auto intro: sort_by_sorted)

end

sublocale three_way < ascending: strict_weak "\<lambda>x y. cmp x y = Less"
proof
  fix x y
  show "cmp x y = Less \<Longrightarrow> \<not> cmp y x = Less" by (simp add: cmp_flip [of y x])
next
  fix x y z
  assume "\<not> cmp x y = Less" "\<not> cmp y z = Less"
  then show "\<not> cmp x z = Less"
    using cmp_trans [of z y x] by (auto simp: cmp_flip [of z y] cmp_flip [of y x] cmp_flip [of z x])
qed

section \<open>Ordered associative containers\<close>

text \<open>\<open>std::map\<close> as the list of its entries in iteration order: the keys ascend strictly.\<close>

type_synonym ('k, 'v) omap = "('k \<times> 'v) list"

fun omap_put :: "'k::linorder \<Rightarrow> 'v \<Rightarrow> ('k, 'v) omap \<Rightarrow> ('k, 'v) omap" where
  "omap_put k v [] = [(k, v)]"
| "omap_put k v (e # m) =
     (if k = fst e then (k, v) # m else if k < fst e then (k, v) # e # m else e # omap_put k v m)"

definition omap_get :: "('k, 'v) omap \<Rightarrow> 'k \<Rightarrow> 'v option" where
  "omap_get m k = map_of m k"

definition omap_has :: "('k, 'v) omap \<Rightarrow> 'k \<Rightarrow> bool" where
  "omap_has m k = (omap_get m k \<noteq> None)"

definition omap_erase :: "'k \<Rightarrow> ('k, 'v) omap \<Rightarrow> ('k, 'v) omap" where
  "omap_erase k m = filter (\<lambda>e. fst e \<noteq> k) m"

definition omap_ok :: "('k::linorder, 'v) omap \<Rightarrow> bool" where
  "omap_ok m = sorted_wrt (<) (map fst m)"

lemma omap_ok_Nil [simp]: "omap_ok []"
  by (simp add: omap_ok_def)

lemma omap_get_Nil [simp]: "omap_get [] k = None"
  by (simp add: omap_get_def)

lemma omap_get_put [omap_simps]: "omap_get (omap_put k v m) = (omap_get m)(k \<mapsto> v)"
  by (induction m) (auto simp: omap_get_def fun_eq_iff)

lemma keys_omap_put: "fst ` set (omap_put k v m) = insert k (fst ` set m)"
  by (induction m) auto

lemma ball_omap_put:
  "(\<forall>e \<in> set (omap_put k v m). P (fst e)) \<longleftrightarrow> P k \<and> (\<forall>e \<in> set m. P (fst e))"
  by (induction m) auto

lemma omap_ok_put [omap_simps]: "omap_ok m \<Longrightarrow> omap_ok (omap_put k v m)"
  by (induction m) (auto simp: omap_ok_def ball_omap_put sorted_wrt_map intro: less_trans)

lemma omap_get_erase [omap_simps]: "omap_get (omap_erase k m) = (omap_get m)(k := None)"
  by (induction m) (auto simp: omap_get_def omap_erase_def fun_eq_iff)

lemma omap_ok_erase [omap_simps]: "omap_ok m \<Longrightarrow> omap_ok (omap_erase k m)"
  by (auto simp: omap_ok_def omap_erase_def sorted_wrt_map intro: sorted_wrt_filter)

lemma omap_ok_distinct: "omap_ok m \<Longrightarrow> distinct (map fst m)"
  by (simp add: omap_ok_def strict_sorted_iff)

lemma omap_get_iff: "omap_ok m \<Longrightarrow> omap_get m k = Some v \<longleftrightarrow> (k, v) \<in> set m"
  by (simp add: omap_get_def omap_ok_distinct)

lemma omap_ext:
  assumes m: "omap_ok m" and n: "omap_ok n" and eq: "omap_get m = omap_get n"
  shows "m = n"
proof -
  have "e \<in> set m \<longleftrightarrow> e \<in> set n" for e
    using omap_get_iff [OF m, of "fst e" "snd e"] omap_get_iff [OF n, of "fst e" "snd e"] eq by simp
  then have sets: "set m = set n" by blast
  have "inj_on fst (set m \<union> set n)"
    using omap_ok_distinct [OF m] sets by (simp add: distinct_map)
  then show ?thesis
    using m n sets by (auto simp: omap_ok_def strict_sorted_iff
      intro!: map_sorted_distinct_set_unique [where f = fst])
qed

subsection \<open>The contract of a keyed container\<close>

text \<open>What the components rely on of any keyed container: a store changes the looked-up key
  and no other, keeps the invariant, and a container is determined by what its lookups say.\<close>

locale keyed_container =
  fixes get :: "'m \<Rightarrow> 'k \<Rightarrow> 'v option"
    and put :: "'k \<Rightarrow> 'v \<Rightarrow> 'm \<Rightarrow> 'm"
    and ok :: "'m \<Rightarrow> bool"
  assumes get_put: "ok m \<Longrightarrow> get (put k v m) = (get m)(k \<mapsto> v)"
    and ok_put: "ok m \<Longrightarrow> ok (put k v m)"
    and get_ext: "ok m \<Longrightarrow> ok n \<Longrightarrow> get m = get n \<Longrightarrow> m = n"
begin

lemma put_twice: "ok m \<Longrightarrow> put k v (put k w m) = put k v m"
  by (rule get_ext) (auto simp: get_put ok_put)

lemma put_commute: "ok m \<Longrightarrow> j \<noteq> k \<Longrightarrow> put j v (put k w m) = put k w (put j v m)"
  by (rule get_ext) (auto simp: get_put ok_put fun_upd_twist)

lemma put_known: "ok m \<Longrightarrow> get m k = Some v \<Longrightarrow> put k v m = m"
  by (rule get_ext) (auto simp: get_put ok_put fun_upd_idem)

lemma ok_fold: "ok m \<Longrightarrow> ok (fold (\<lambda>e. put (fst e) (snd e)) es m)"
  by (induction es arbitrary: m) (auto simp: ok_put)

lemma get_fold: "ok m \<Longrightarrow> distinct (map fst es) \<Longrightarrow>
    get (fold (\<lambda>e. put (fst e) (snd e)) es m) = (get m) ++ map_of es"
proof (induction es arbitrary: m)
  case (Cons e es)
  have "map_of es (fst e) = None"
    using Cons.prems(2) by (simp add: map_of_eq_None_iff)
  then show ?case
    using Cons by (auto simp: get_put ok_put fun_eq_iff map_add_def split: option.splits)
qed simp

text \<open>The order in which distinct entries are stored does not matter.\<close>

lemma fold_put_perm:
  assumes "ok m" and "distinct (map fst es)" and "mset es = mset fs"
  shows "fold (\<lambda>e. put (fst e) (snd e)) es m = fold (\<lambda>e. put (fst e) (snd e)) fs m"
proof -
  have "distinct (map fst fs)"
    using assms(2,3) by (metis mset_eq_imp_distinct_iff mset_map)
  moreover have "map_of es = map_of fs"
    using assms(2,3) \<open>distinct (map fst fs)\<close> by (metis map_of_inject_set set_mset_mset)
  ultimately show ?thesis
    using assms by (intro get_ext) (auto simp: get_fold ok_fold)
qed

end

interpretation std_map: keyed_container omap_get omap_put omap_ok
  by unfold_locales (auto simp: omap_simps dest: omap_ext)

end
