(* ===== verification/Errors.thy ===== *)
theory Errors
  imports Prelude
begin

text \<open>
  The error vocabulary (\<open>include/fcr/error.hpp\<close>, \<open>src/error.cpp\<close>) and the result
  type every fallible operation of the development returns. A failure carries the error code
  callers branch on; message and detail texts are not modelled. Two further failures keep the
  model total without hiding what the code does: an operation C++ leaves undefined, and a
  recursion that ran out of fuel.
\<close>

datatype ErrorCode =
    Ok
  | InvalidArgument
  | InvalidIdentifier
  | InvalidVersion
  | InvalidRange
  | InvalidJson
  | InvalidDocument
  | InvalidCapabilityValue
  | InvalidConstraint
  | InvalidSelection
  | NotFound
  | DuplicateIdentity
  | ConflictingRules
  | ValidationFailed
  | UnsatisfiableConstraint
  | UnreachableRule
  | CycleDetected
  | UndefinedReference
  | ImmutableGeneration
  | DigestMismatch
  | CorruptPersistence
  | UnsupportedFormatVersion
  | StaleGeneration
  | StaleEpoch
  | StaleIncarnation
  | GenerationLimitReached
  | ParentDigestMismatch
  | Cancelled
  | ShuttingDown
  | ResourceExhausted
  | LimitExceeded
  | ArithmeticOverflow
  | TransportError
  | ProtocolError
  | HandshakeFailed
  | ConnectionLimitReached
  | IoError
  | LockContention
  | Internal

fun ErrorCodeName :: "ErrorCode \<Rightarrow> string" where
  "ErrorCodeName Ok = ''ok''"
| "ErrorCodeName InvalidArgument = ''invalid_argument''"
| "ErrorCodeName InvalidIdentifier = ''invalid_identifier''"
| "ErrorCodeName InvalidVersion = ''invalid_version''"
| "ErrorCodeName InvalidRange = ''invalid_range''"
| "ErrorCodeName InvalidJson = ''invalid_json''"
| "ErrorCodeName InvalidDocument = ''invalid_document''"
| "ErrorCodeName InvalidCapabilityValue = ''invalid_capability_value''"
| "ErrorCodeName InvalidConstraint = ''invalid_constraint''"
| "ErrorCodeName InvalidSelection = ''invalid_selection''"
| "ErrorCodeName NotFound = ''not_found''"
| "ErrorCodeName DuplicateIdentity = ''duplicate_identity''"
| "ErrorCodeName ConflictingRules = ''conflicting_rules''"
| "ErrorCodeName ValidationFailed = ''validation_failed''"
| "ErrorCodeName UnsatisfiableConstraint = ''unsatisfiable_constraint''"
| "ErrorCodeName UnreachableRule = ''unreachable_rule''"
| "ErrorCodeName CycleDetected = ''cycle_detected''"
| "ErrorCodeName UndefinedReference = ''undefined_reference''"
| "ErrorCodeName ImmutableGeneration = ''immutable_generation''"
| "ErrorCodeName DigestMismatch = ''digest_mismatch''"
| "ErrorCodeName CorruptPersistence = ''corrupt_persistence''"
| "ErrorCodeName UnsupportedFormatVersion = ''unsupported_format_version''"
| "ErrorCodeName StaleGeneration = ''stale_generation''"
| "ErrorCodeName StaleEpoch = ''stale_epoch''"
| "ErrorCodeName StaleIncarnation = ''stale_incarnation''"
| "ErrorCodeName GenerationLimitReached = ''generation_limit_reached''"
| "ErrorCodeName ParentDigestMismatch = ''parent_digest_mismatch''"
| "ErrorCodeName Cancelled = ''cancelled''"
| "ErrorCodeName ShuttingDown = ''shutting_down''"
| "ErrorCodeName ResourceExhausted = ''resource_exhausted''"
| "ErrorCodeName LimitExceeded = ''limit_exceeded''"
| "ErrorCodeName ArithmeticOverflow = ''arithmetic_overflow''"
| "ErrorCodeName TransportError = ''transport_error''"
| "ErrorCodeName ProtocolError = ''protocol_error''"
| "ErrorCodeName HandshakeFailed = ''handshake_failed''"
| "ErrorCodeName ConnectionLimitReached = ''connection_limit_reached''"
| "ErrorCodeName IoError = ''io_error''"
| "ErrorCodeName LockContention = ''lock_contention''"
| "ErrorCodeName Internal = ''internal''"

text \<open>The codes in the order of their enumerators, as the loop of \<open>ErrorCodeFromName\<close>
  visits them.\<close>

definition all_error_codes :: "ErrorCode list" where
  "all_error_codes =
    [Ok, InvalidArgument, InvalidIdentifier, InvalidVersion, InvalidRange, InvalidJson,
     InvalidDocument, InvalidCapabilityValue, InvalidConstraint, InvalidSelection, NotFound,
     DuplicateIdentity, ConflictingRules, ValidationFailed, UnsatisfiableConstraint,
     UnreachableRule, CycleDetected, UndefinedReference, ImmutableGeneration, DigestMismatch,
     CorruptPersistence, UnsupportedFormatVersion, StaleGeneration, StaleEpoch,
     StaleIncarnation, GenerationLimitReached, ParentDigestMismatch, Cancelled, ShuttingDown,
     ResourceExhausted, LimitExceeded, ArithmeticOverflow, TransportError, ProtocolError,
     HandshakeFailed, ConnectionLimitReached, IoError, LockContention, Internal]"

definition ErrorCodeFromName :: "string \<Rightarrow> ErrorCode" where
  "ErrorCodeFromName name =
     (case find (\<lambda>code. ErrorCodeName code = name) all_error_codes of
        Some code \<Rightarrow> code | None \<Rightarrow> Internal)"

section \<open>Results\<close>

datatype failure = Failed ErrorCode | Undefined_Behaviour | Out_Of_Fuel

type_synonym 'a result = "failure + 'a"

abbreviation Fail :: "ErrorCode \<Rightarrow> 'a result" where
  "Fail c \<equiv> Inl (Failed c)"

definition res_bind :: "'a result \<Rightarrow> ('a \<Rightarrow> 'b result) \<Rightarrow> 'b result" where
  "res_bind r f = (case r of Inl e \<Rightarrow> Inl e | Inr x \<Rightarrow> f x)"

definition has_value :: "'a result \<Rightarrow> bool" where
  "has_value r = (case r of Inl _ \<Rightarrow> False | Inr _ \<Rightarrow> True)"

text \<open>The loop that applies a fallible step to each element and returns the first failure.\<close>

fun res_mapM :: "('a \<Rightarrow> 'b result) \<Rightarrow> 'a list \<Rightarrow> 'b list result" where
  "res_mapM f [] = Inr []"
| "res_mapM f (x # xs) =
     (case f x of Inl e \<Rightarrow> Inl e
      | Inr y \<Rightarrow> (case res_mapM f xs of Inl e \<Rightarrow> Inl e | Inr ys \<Rightarrow> Inr (y # ys)))"

lemma res_bind_simps [simp]:
  "res_bind (Inr x) f = f x" "res_bind (Inl e) f = Inl e"
  by (simp_all add: res_bind_def)

lemma res_bind_Inr [result_simps]: "res_bind r f = Inr y \<longleftrightarrow> (\<exists>x. r = Inr x \<and> f x = Inr y)"
  by (cases r) auto

lemma res_bind_Inl [result_simps]:
  "res_bind r f = Inl e \<longleftrightarrow> r = Inl e \<or> (\<exists>x. r = Inr x \<and> f x = Inl e)"
  by (cases r) auto

lemma has_value_iff [result_simps]: "has_value r \<longleftrightarrow> (\<exists>x. r = Inr x)"
  by (cases r) (auto simp: has_value_def)

lemma has_value_simps [simp]: "has_value (Inr x)" "\<not> has_value (Inl e)"
  by (simp_all add: has_value_def)

lemma res_mapM_Inr: "res_mapM f xs = Inr ys \<longleftrightarrow> list_all2 (\<lambda>x y. f x = Inr y) xs ys"
proof (induction xs arbitrary: ys)
  case (Cons x xs)
  show ?case
    by (cases "f x"; cases "res_mapM f xs") (auto simp: list_all2_Cons1 Cons.IH [symmetric])
qed auto

text \<open>An error code survives the trip over the wire: the name a response carries is read
  back as the code it was rendered from.\<close>

theorem ErrorCodeFromName_ErrorCodeName: "ErrorCodeFromName (ErrorCodeName c) = c"
  by (cases c) (simp_all add: ErrorCodeFromName_def all_error_codes_def)

end
