(* ===== verification/Text_Lib.thy ===== *)
theory Text_Lib
  imports Errors
begin

text \<open>
  The text operations of the standard library that the parsers and printers use: character
  classes, decimal numbers (\<open>std::to_string\<close> and the digit loops), \<open>find\<close> with
  \<open>substr\<close>, and splitting at a separator.
\<close>

named_theorems text_simps \<open>facts on the text operations\<close>

section \<open>Characters\<close>

definition char_code :: "char \<Rightarrow> nat" where
  "char_code c = of_char c"

definition IsDigit :: "char \<Rightarrow> bool" where
  "IsDigit c = (48 \<le> char_code c \<and> char_code c \<le> 57)"

definition is_alnum :: "char \<Rightarrow> bool" where
  "is_alnum c = ((97 \<le> char_code c \<and> char_code c \<le> 122) \<or> (65 \<le> char_code c \<and> char_code c \<le> 90)
     \<or> IsDigit c)"

definition digit_value :: "char \<Rightarrow> nat" where
  "digit_value c = char_code c - 48"

definition digit_char :: "nat \<Rightarrow> char" where
  "digit_char d = char_of (48 + d)"

lemma char_code_char_of [simp]: "n < 256 \<Longrightarrow> char_code (char_of n) = n"
  by (simp add: char_code_def)

lemma char_of_char_code [simp]: "char_of (char_code c) = c"
  by (simp add: char_code_def)

lemma digit_char_simps [simp]:
  "d < 10 \<Longrightarrow> IsDigit (digit_char d)" "d < 10 \<Longrightarrow> digit_value (digit_char d) = d"
  by (auto simp: IsDigit_def digit_char_def digit_value_def)

lemma digit_char_0 [simp]: "digit_char 0 = CHR ''0''"
  by code_simp

lemma digit_value_less: "IsDigit c \<Longrightarrow> digit_value c < 10"
  by (auto simp: IsDigit_def digit_value_def)

lemma digit_char_value: "IsDigit c \<Longrightarrow> digit_char (digit_value c) = c"
  by (auto simp: IsDigit_def digit_char_def digit_value_def)

lemma digit_value_0: "IsDigit c \<Longrightarrow> digit_value c = 0 \<longleftrightarrow> c = CHR ''0''"
  using digit_char_value [of c] by (auto simp: digit_value_def char_code_def)

lemma digit_is_alnum: "IsDigit c \<Longrightarrow> is_alnum c"
  by (simp add: is_alnum_def)

section \<open>Decimal numbers\<close>

text \<open>\<open>value = value * 10 + digit\<close>, over the text from left to right.\<close>

fun decimal_from :: "nat \<Rightarrow> string \<Rightarrow> nat" where
  "decimal_from v [] = v"
| "decimal_from v (c # cs) = decimal_from (v * 10 + digit_value c) cs"

abbreviation decimal :: "string \<Rightarrow> nat" where
  "decimal \<equiv> decimal_from 0"

text \<open>\<open>std::to_string\<close> of an unsigned number.\<close>

fun to_string :: "nat \<Rightarrow> string" where
  "to_string n = (if n < 10 then [digit_char n] else to_string (n div 10) @ [digit_char (n mod 10)])"

declare to_string.simps [simp del]

definition int_to_string :: "int \<Rightarrow> string" where
  "int_to_string i = (if i < 0 then CHR ''-'' # to_string (nat (- i)) else to_string (nat i))"

lemma decimal_from_append [simp]: "decimal_from v (xs @ ys) = decimal_from (decimal_from v xs) ys"
  by (induction xs arbitrary: v) auto

lemma to_string_not_Nil [simp]: "to_string n \<noteq> []"
  by (subst to_string.simps) simp

lemma to_string_digits [text_simps]: "list_all IsDigit (to_string n)"
  by (induction n rule: to_string.induct) (subst to_string.simps, auto)

lemma decimal_to_string [simp]: "decimal (to_string n) = n"
  by (induction n rule: to_string.induct) (subst to_string.simps, auto)

lemma to_string_hd: "n \<noteq> 0 \<Longrightarrow> hd (to_string n) \<noteq> CHR ''0''"
proof (induction n rule: to_string.induct)
  case (1 n)
  show ?case
  proof (cases "n < 10")
    case True
    have "char_code (digit_char n) \<noteq> char_code CHR ''0''"
      using True "1.prems" by (simp add: digit_char_def) (simp add: char_code_def)
    then show ?thesis using True by (subst to_string.simps) auto
  next
    case False
    then show ?thesis
      using "1.IH" by (subst to_string.simps) auto
  qed
qed

lemma to_string_length_le: "n < 10 ^ Suc k \<Longrightarrow> length (to_string n) \<le> Suc k"
proof (induction k arbitrary: n)
  case 0
  then show ?case by (subst to_string.simps) simp
next
  case (Suc k)
  have "n div 10 < 10 ^ Suc k" using Suc.prems by (simp add: less_mult_imp_div_less)
  then show ?case using Suc.IH [of "n div 10"] by (subst to_string.simps) auto
qed

lemma decimal_from_le: "v \<le> decimal_from v ds"
proof (induction ds arbitrary: v)
  case (Cons c cs)
  show ?case using Cons.IH [of "v * 10 + digit_value c"] by simp
qed simp

lemma decimal_bound: "list_all IsDigit ds \<Longrightarrow> decimal_from v ds < (v + 1) * 10 ^ length ds"
proof (induction ds arbitrary: v)
  case (Cons c cs)
  then have "decimal_from (v * 10 + digit_value c) cs < (v * 10 + digit_value c + 1) * 10 ^ length cs"
    by simp
  also have "\<dots> \<le> (v * 10 + 10) * 10 ^ length cs"
    using Cons.prems digit_value_less [of c] by (intro mult_le_mono1) simp
  finally show ?case by (simp add: algebra_simps)
qed simp

text \<open>A numeral with no leading zero is the one \<open>std::to_string\<close> prints.\<close>

lemma to_string_decimal:
  "ds \<noteq> [] \<Longrightarrow> list_all IsDigit ds \<Longrightarrow> length ds = 1 \<or> hd ds \<noteq> CHR ''0'' \<Longrightarrow>
     to_string (decimal ds) = ds"
proof (induction ds rule: rev_induct)
  case (snoc c cs)
  have c: "IsDigit c" "digit_value c < 10"
    using snoc.prems(2) by (auto intro: digit_value_less)
  show ?case
  proof (cases "cs = []")
    case True
    then show ?thesis using c by (subst to_string.simps) (simp add: digit_char_value)
  next
    case False
    have cs: "list_all IsDigit cs" "hd cs \<noteq> CHR ''0''"
      using snoc.prems False by (auto simp: hd_append)
    obtain d ds where d: "cs = d # ds" using False by (cases cs) auto
    have "digit_value d \<noteq> 0"
      using cs d digit_value_0 [of d] by simp
    then have "0 < decimal cs"
      using decimal_from_le [of "digit_value d" ds] d by simp
    moreover have "to_string (decimal cs) = cs"
      using snoc.IH cs False by simp
    ultimately show ?thesis
      using c by (subst to_string.simps) (auto simp: digit_char_value)
  qed
qed simp

section \<open>Searching and splitting\<close>

text \<open>\<open>pos = s.find(c)\<close> together with \<open>s.substr(0, pos)\<close> and \<open>s.substr(pos + 1)\<close>;
  \<open>None\<close> for \<open>npos\<close>.\<close>

definition cut_at :: "char \<Rightarrow> string \<Rightarrow> (string \<times> string) option" where
  "cut_at c s = (if c \<in> set s then Some (takeWhile (\<lambda>x. x \<noteq> c) s, tl (dropWhile (\<lambda>x. x \<noteq> c) s))
     else None)"

text \<open>The pieces a loop over \<open>find(sep, start)\<close> visits: one more than the separators, the
  empty ones included.\<close>

fun split_on :: "char \<Rightarrow> string \<Rightarrow> string list" where
  "split_on sep [] = [[]]"
| "split_on sep (c # cs) =
     (if c = sep then [] # split_on sep cs
      else case split_on sep cs of p # ps \<Rightarrow> (c # p) # ps | [] \<Rightarrow> [[c]])"

text \<open>The loops that append the pieces with a separator between them.\<close>

fun join_with :: "string \<Rightarrow> string list \<Rightarrow> string" where
  "join_with sep [] = []"
| "join_with sep [p] = p"
| "join_with sep (p # q # ps) = p @ sep @ join_with sep (q # ps)"

lemma cut_at_None [simp]: "cut_at c s = None \<longleftrightarrow> c \<notin> set s"
  by (simp add: cut_at_def)

lemma cut_at_Some: "cut_at c s = Some (a, b) \<longleftrightarrow> s = a @ c # b \<and> c \<notin> set a"
proof
  assume l: "cut_at c s = Some (a, b)"
  then have "c \<in> set s" and a: "a = takeWhile (\<lambda>x. x \<noteq> c) s"
    and b: "b = tl (dropWhile (\<lambda>x. x \<noteq> c) s)"
    by (auto simp: cut_at_def split: if_splits)
  then obtain u v where uv: "s = u @ c # v" "c \<notin> set u" by (auto dest: split_list_first)
  then have "takeWhile (\<lambda>x. x \<noteq> c) s = u" "dropWhile (\<lambda>x. x \<noteq> c) s = c # v"
    by (auto simp: takeWhile_append dropWhile_append)
  with a b uv show "s = a @ c # b \<and> c \<notin> set a" by simp
next
  assume "s = a @ c # b \<and> c \<notin> set a"
  then show "cut_at c s = Some (a, b)"
    by (auto simp: cut_at_def takeWhile_append dropWhile_append)
qed

lemma split_on_not_Nil [simp]: "split_on sep s \<noteq> []"
  by (induction sep s rule: split_on.induct) (auto split: list.splits)

lemma join_split [simp]: "join_with [sep] (split_on sep s) = s"
proof (induction sep s rule: split_on.induct)
  case (2 sep c cs)
  obtain p ps where "split_on sep cs = p # ps" by (cases "split_on sep cs") auto
  then show ?case using 2 by (cases ps) auto
qed simp

lemma split_on_append: "sep \<notin> set p \<Longrightarrow> split_on sep (p @ sep # s) = p # split_on sep s"
  by (induction p) auto

lemma split_on_single: "sep \<notin> set p \<Longrightarrow> split_on sep p = [p]"
  by (induction p) auto

lemma split_join:
  "ps \<noteq> [] \<Longrightarrow> \<forall>p \<in> set ps. sep \<notin> set p \<Longrightarrow> split_on sep (join_with [sep] ps) = ps"
  by (induction "[sep]" ps rule: join_with.induct) (auto simp: split_on_append split_on_single)

lemma split_on_free: "p \<in> set (split_on sep s) \<Longrightarrow> sep \<notin> set p"
  by (induction sep s arbitrary: p rule: split_on.induct) (fastforce split: list.splits if_splits)+

lemma set_split_on: "p \<in> set (split_on sep s) \<Longrightarrow> set p \<subseteq> set s"
  by (induction sep s arbitrary: p rule: split_on.induct) (fastforce split: list.splits if_splits)+

lemma set_join_with: "set (join_with sep ps) \<subseteq> set sep \<union> \<Union> (set ` set ps)"
  by (induction sep ps rule: join_with.induct) auto

end
