(* ===== verification/Json.thy ===== *)
theory Json
  imports Text_Lib
begin

text \<open>
  JSON values (\<open>include/fcr/json.hpp\<close>, \<open>src/json.cpp\<close>): construction, object access by
  key, canonical and pretty printing and the typed field accessors. Objects keep their members
  sorted by key. A double is its IEEE 754 bit pattern; its shortest decimal text
  (\<open>std::to_chars\<close>) is computed from the exact value. The parser is not in this theory.
\<close>

section \<open>Doubles\<close>

type_synonym double = u64

definition double_negative :: "double \<Rightarrow> bool" where
  "double_negative b = bit b 63"

definition double_exponent :: "double \<Rightarrow> nat" where
  "double_exponent b = unat (take_bit 11 (drop_bit 52 b))"

definition double_fraction :: "double \<Rightarrow> nat" where
  "double_fraction b = unat (take_bit 52 b)"

definition double_finite :: "double \<Rightarrow> bool" where
  "double_finite b = (double_exponent b \<noteq> 2047)"

definition double_zero :: "double \<Rightarrow> bool" where
  "double_zero b = (double_exponent b = 0 \<and> double_fraction b = 0)"

text \<open>The magnitude of a finite double is \<open>m * 2 ^ p / 2 ^ q\<close>.\<close>

definition double_mantissa :: "double \<Rightarrow> nat" where
  "double_mantissa b =
     (if double_exponent b = 0 then double_fraction b else double_fraction b + 2 ^ 52)"

definition double_num :: "double \<Rightarrow> nat" where
  "double_num b = double_mantissa b * 2 ^ (double_exponent b - 1075)"

definition double_den :: "double \<Rightarrow> nat" where
  "double_den b = 2 ^ (1075 - max 1 (double_exponent b))"

text \<open>The cast to \<open>std::int64_t\<close> truncates towards zero.\<close>

definition double_trunc :: "double \<Rightarrow> int" where
  "double_trunc b =
     (let t = int (double_num b div double_den b) in if double_negative b then - t else t)"

definition round_half_even :: "nat \<Rightarrow> nat \<Rightarrow> nat" where
  "round_half_even n d =
     (let q = n div d; r = n mod d in
      if 2 * r < d then q else if 2 * r > d then q + 1 else if even q then q else q + 1)"

fun bit_length :: "nat \<Rightarrow> nat" where
  "bit_length n = (if n = 0 then 0 else Suc (bit_length (n div 2)))"

declare bit_length.simps [simp del]

text \<open>The double nearest to \<open>n / d\<close>, ties to even; the exponent \<open>e\<close> is counted from the
  smallest one, \<open>- 1074\<close>. No double is large enough beyond the largest exponent.\<close>

definition double_at :: "nat \<Rightarrow> nat \<Rightarrow> nat \<Rightarrow> nat" where
  "double_at n d e =
     (if e \<le> 1074 then round_half_even (n * 2 ^ (1074 - e)) d
      else round_half_even n (d * 2 ^ (e - 1074)))"

fun double_search :: "nat \<Rightarrow> nat \<Rightarrow> nat \<Rightarrow> nat \<Rightarrow> nat" where
  "double_search 0 n d e = e"
| "double_search (Suc k) n d e =
     (if double_at n d e < 2 ^ 53 then e else double_search k n d (Suc e))"

definition nearest_double :: "nat \<Rightarrow> nat \<Rightarrow> double option" where
  "nearest_double n d =
     (let start = bit_length n + 1074 - (bit_length d + 54);
          e = double_search 4 n d start;
          q = double_at n d e
      in if e > 2045 then None else Some (of_nat (q + e * 2 ^ 52)))"

text \<open>The shortest digits that read back as the double: the first precision whose rounding
  does.\<close>

definition pow10_scale :: "nat \<Rightarrow> nat \<Rightarrow> int \<Rightarrow> nat" where
  "pow10_scale n d x =
     (if x \<ge> 0 then round_half_even n (d * 10 ^ nat x) else round_half_even (n * 10 ^ nat (- x)) d)"

definition reads_back :: "double \<Rightarrow> nat \<Rightarrow> int \<Rightarrow> bool" where
  "reads_back b digits x =
     (nearest_double (if x \<ge> 0 then digits * 10 ^ nat x else digits) (if x \<ge> 0 then 1 else 10 ^ nat (- x)) =
        Some (take_bit 63 b))"

fun shortest_digits :: "nat \<Rightarrow> double \<Rightarrow> int \<Rightarrow> nat \<times> int" where
  "shortest_digits 0 b x = (pow10_scale (double_num b) (double_den b) x, x)"
| "shortest_digits (Suc k) b x =
     (let digits = pow10_scale (double_num b) (double_den b) x in
      if reads_back b digits x then (digits, x) else shortest_digits k b (x - 1))"

text \<open>The decimal exponent of the leading digit.\<close>

definition decimal_exponent :: "nat \<Rightarrow> nat \<Rightarrow> int" where
  "decimal_exponent n d =
     (if n \<ge> d then int (length (to_string (n div d))) - 1
      else - int (length (to_string ((d - 1) div n))))"

definition strip_zeros :: "string \<Rightarrow> string" where
  "strip_zeros s = rev (dropWhile (\<lambda>c. c = CHR ''0'') (rev s))"

definition exponent_text :: "int \<Rightarrow> string" where
  "exponent_text x =
     (let s = to_string (nat \<bar>x\<bar>) in
      (if x < 0 then ''-'' else ''+'') @ (if length s < 2 then ''0'' @ s else s))"

text \<open>\<open>std::to_chars\<close> chooses the shorter of the fixed and the scientific notation, the fixed
  one when they are equally long.\<close>

definition fixed_text :: "double \<Rightarrow> string \<Rightarrow> int \<Rightarrow> string" where
  "fixed_text b digits x =
     (if x \<ge> int (length digits) - 1 then to_string (double_num b div double_den b)
      else if x \<ge> 0 then take (nat x + 1) digits @ ''.'' @ drop (nat x + 1) digits
      else ''0.'' @ replicate (nat (- x) - 1) CHR ''0'' @ digits)"

definition scientific_text :: "string \<Rightarrow> int \<Rightarrow> string" where
  "scientific_text digits x =
     take 1 digits @ (if length digits > 1 then ''.'' @ drop 1 digits else []) @ ''e'' @ exponent_text x"

definition double_to_chars :: "double \<Rightarrow> string" where
  "double_to_chars b =
     (let x = decimal_exponent (double_num b) (double_den b);
          (n, y) = shortest_digits 16 b x;
          all = to_string n;
          digits = strip_zeros all;
          lead = y + int (length all) - 1;
          fixed = fixed_text b digits lead;
          sci = scientific_text digits lead
      in (if double_negative b then ''-'' else []) @ (if length fixed \<le> length sci then fixed else sci))"

definition DumpDouble :: "double \<Rightarrow> string" where
  "DumpDouble b =
     (if double_zero b then ''0.0''
      else if \<not> double_finite b then
        (if double_negative b then ''-'' else []) @ (if double_fraction b = 0 then ''inf'' else ''nan'')
      else (let t = double_to_chars b in
        if CHR ''.'' \<notin> set t \<and> CHR ''e'' \<notin> set t then t @ ''.0'' else t))"

section \<open>Values\<close>

datatype JsonValue =
    JNull
  | JBool bool
  | JInt int
  | JUInt u64
  | JDouble double
  | JStr string
  | JArr "JsonValue list"
  | JObj "(string \<times> JsonValue) list"

definition IsObject :: "JsonValue \<Rightarrow> bool" where
  "IsObject j = (case j of JObj _ \<Rightarrow> True | _ \<Rightarrow> False)"

definition IsNull :: "JsonValue \<Rightarrow> bool" where
  "IsNull j = (case j of JNull \<Rightarrow> True | _ \<Rightarrow> False)"

definition IsBool :: "JsonValue \<Rightarrow> bool" where
  "IsBool j = (case j of JBool _ \<Rightarrow> True | _ \<Rightarrow> False)"

definition IsInt :: "JsonValue \<Rightarrow> bool" where
  "IsInt j = (case j of JInt _ \<Rightarrow> True | _ \<Rightarrow> False)"

definition IsUInt :: "JsonValue \<Rightarrow> bool" where
  "IsUInt j = (case j of JUInt _ \<Rightarrow> True | _ \<Rightarrow> False)"

definition AsBool :: "JsonValue \<Rightarrow> bool \<Rightarrow> bool" where
  "AsBool j fallback = (case j of JBool b \<Rightarrow> b | _ \<Rightarrow> fallback)"

definition AsInt :: "JsonValue \<Rightarrow> int option" where
  "AsInt j =
     (case j of
        JInt i \<Rightarrow> Some i
      | JUInt u \<Rightarrow> if uint u \<le> 9223372036854775807 then Some (uint u) else None
      | JDouble b \<Rightarrow>
          if double_finite b \<and> - 9223372036854775808 \<le> double_trunc b \<and>
             double_trunc b < 9223372036854775808
          then Some (double_trunc b) else None
      | _ \<Rightarrow> None)"

definition AsUInt :: "JsonValue \<Rightarrow> u64 option" where
  "AsUInt j =
     (case j of JUInt u \<Rightarrow> Some u | JInt i \<Rightarrow> if i \<ge> 0 then Some (of_int i) else None | _ \<Rightarrow> None)"

definition AsString :: "JsonValue \<Rightarrow> string option" where
  "AsString j = (case j of JStr s \<Rightarrow> Some s | _ \<Rightarrow> None)"

definition AsArray :: "JsonValue \<Rightarrow> JsonValue list option" where
  "AsArray j = (case j of JArr a \<Rightarrow> Some a | _ \<Rightarrow> None)"

definition json_size :: "JsonValue \<Rightarrow> nat" where
  "json_size j = (case j of JArr a \<Rightarrow> length a | JObj ms \<Rightarrow> length ms | _ \<Rightarrow> 0)"

definition Push :: "JsonValue \<Rightarrow> JsonValue \<Rightarrow> JsonValue" where
  "Push j v = (case j of JArr a \<Rightarrow> JArr (a @ [v]) | _ \<Rightarrow> JArr [v])"

definition At :: "JsonValue \<Rightarrow> nat \<Rightarrow> JsonValue option" where
  "At j i = (case j of JArr a \<Rightarrow> if i < length a then Some (a ! i) else None | _ \<Rightarrow> None)"

text \<open>\<open>Set\<close> and \<open>Find\<close> go to the first key that is not smaller (\<open>std::lower_bound\<close>).\<close>

definition Set :: "JsonValue \<Rightarrow> string \<Rightarrow> JsonValue \<Rightarrow> JsonValue" where
  "Set j key v = (case j of JObj ms \<Rightarrow> JObj (omap_put key v ms) | _ \<Rightarrow> JObj [(key, v)])"

definition Find :: "JsonValue \<Rightarrow> string \<Rightarrow> JsonValue option" where
  "Find j key =
     (case j of
        JObj ms \<Rightarrow>
          (case dropWhile (\<lambda>m. fst m < key) ms of
             [] \<Rightarrow> None | m # _ \<Rightarrow> if fst m = key then Some (snd m) else None)
      | _ \<Rightarrow> None)"

definition Has :: "JsonValue \<Rightarrow> string \<Rightarrow> bool" where
  "Has j key = (Find j key \<noteq> None)"

definition json_keys :: "JsonValue \<Rightarrow> string list" where
  "json_keys j = (case j of JObj ms \<Rightarrow> map fst ms | _ \<Rightarrow> [])"

definition json_values :: "JsonValue \<Rightarrow> JsonValue list" where
  "json_values j = (case j of JObj ms \<Rightarrow> map snd ms | _ \<Rightarrow> [])"

section \<open>Printing\<close>

definition hex_digit :: "nat \<Rightarrow> char" where
  "hex_digit n = ''0123456789abcdef'' ! n"

definition dump_char :: "char \<Rightarrow> string" where
  "dump_char c =
     (if c = CHR 0x22 then [CHR 0x5C, CHR 0x22]
      else if c = CHR 0x5C then [CHR 0x5C, CHR 0x5C]
      else if c = CHR 0x08 then [CHR 0x5C, CHR ''b'']
      else if c = CHR 0x0C then [CHR 0x5C, CHR ''f'']
      else if c = CHR 0x0A then [CHR 0x5C, CHR ''n'']
      else if c = CHR 0x0D then [CHR 0x5C, CHR ''r'']
      else if c = CHR 0x09 then [CHR 0x5C, CHR ''t'']
      else if char_code c < 32 then
        [CHR 0x5C] @ ''u00'' @ [hex_digit (char_code c div 16), hex_digit (char_code c mod 16)]
      else [c])"

definition DumpString :: "string \<Rightarrow> string" where
  "DumpString t = [CHR 0x22] @ concat (map dump_char t) @ [CHR 0x22]"

definition newline_indent :: "bool \<Rightarrow> nat \<Rightarrow> string" where
  "newline_indent pretty level =
     (if pretty then CHR 0x0A # replicate (level * 2) CHR '' '' else [])"

fun DumpTo :: "bool \<Rightarrow> nat \<Rightarrow> JsonValue \<Rightarrow> string" where
  "DumpTo pretty level JNull = ''null''"
| "DumpTo pretty level (JBool b) = (if b then ''true'' else ''false'')"
| "DumpTo pretty level (JInt i) = int_to_string i"
| "DumpTo pretty level (JUInt u) = to_string (unat u)"
| "DumpTo pretty level (JDouble d) = DumpDouble d"
| "DumpTo pretty level (JStr s) = DumpString s"
| "DumpTo pretty level (JArr a) =
     (if a = [] then ''[]''
      else ''['' @ join_with '','' (map (\<lambda>v. newline_indent pretty (level + 1) @ DumpTo pretty (level + 1) v) a) @
        newline_indent pretty level @ '']'')"
| "DumpTo pretty level (JObj ms) =
     (if ms = [] then ''{}''
      else ''{'' @ join_with '','' (map (\<lambda>m. newline_indent pretty (level + 1) @ DumpString (fst m) @ '':'' @
          (if pretty then '' '' else []) @ DumpTo pretty (level + 1) (snd m)) ms) @
        newline_indent pretty level @ ''}'')"

definition Dump :: "JsonValue \<Rightarrow> bool \<Rightarrow> string" where
  "Dump j pretty = DumpTo pretty 0 j"

section \<open>Typed field access\<close>

definition RequireField :: "JsonValue \<Rightarrow> string \<Rightarrow> JsonValue result" where
  "RequireField j key =
     (if \<not> IsObject j then Fail InvalidJson
      else (case Find j key of None \<Rightarrow> Fail InvalidJson | Some v \<Rightarrow> Inr v))"

definition RequireString :: "JsonValue \<Rightarrow> string \<Rightarrow> string result" where
  "RequireString j key =
     res_bind (RequireField j key)
       (\<lambda>v. case AsString v of None \<Rightarrow> Fail InvalidJson | Some s \<Rightarrow> Inr s)"

definition RequireUInt :: "JsonValue \<Rightarrow> string \<Rightarrow> u64 result" where
  "RequireUInt j key =
     res_bind (RequireField j key)
       (\<lambda>v. case AsUInt v of None \<Rightarrow> Fail InvalidJson | Some n \<Rightarrow> Inr n)"

definition RequireInt :: "JsonValue \<Rightarrow> string \<Rightarrow> int result" where
  "RequireInt j key =
     res_bind (RequireField j key)
       (\<lambda>v. case AsInt v of None \<Rightarrow> Fail InvalidJson | Some n \<Rightarrow> Inr n)"

definition RequireBool :: "JsonValue \<Rightarrow> string \<Rightarrow> bool result" where
  "RequireBool j key =
     res_bind (RequireField j key)
       (\<lambda>v. if \<not> IsBool v then Fail InvalidJson else Inr (AsBool v False))"

definition RequireArray :: "JsonValue \<Rightarrow> string \<Rightarrow> JsonValue list result" where
  "RequireArray j key =
     res_bind (RequireField j key)
       (\<lambda>v. case AsArray v of None \<Rightarrow> Fail InvalidJson | Some a \<Rightarrow> Inr a)"

definition OptionalField :: "JsonValue \<Rightarrow> string \<Rightarrow> JsonValue result" where
  "OptionalField j key =
     (if \<not> IsObject j then Fail InvalidJson
      else (case Find j key of
          None \<Rightarrow> Fail NotFound
        | Some v \<Rightarrow> if IsNull v then Fail NotFound else Inr v))"

definition OptionalString :: "JsonValue \<Rightarrow> string \<Rightarrow> string \<Rightarrow> string result" where
  "OptionalString j key fallback =
     (case Find j key of
        None \<Rightarrow> Inr fallback
      | Some v \<Rightarrow>
          if IsNull v then Inr fallback
          else (case AsString v of None \<Rightarrow> Fail InvalidJson | Some s \<Rightarrow> Inr s))"

section \<open>Objects as keyed containers\<close>

named_theorems json_simps \<open>reading back what was stored in an object\<close>

definition json_object :: "JsonValue \<Rightarrow> bool" where
  "json_object j = (case j of JObj ms \<Rightarrow> omap_ok ms | _ \<Rightarrow> False)"

lemma json_object_iff: "json_object j \<longleftrightarrow> (\<exists>ms. j = JObj ms \<and> omap_ok ms)"
  by (auto simp: json_object_def split: JsonValue.splits)

lemma lower_bound_get:
  "omap_ok ms \<Longrightarrow>
     (case dropWhile (\<lambda>m. fst m < k) ms of [] \<Rightarrow> None | m # _ \<Rightarrow> if fst m = k then Some (snd m) else None) =
     omap_get ms k"
proof (induction ms)
  case (Cons m ms)
  have "k < fst m \<Longrightarrow> omap_get ms k = None"
    using Cons.prems by (auto simp: omap_ok_def omap_get_def map_of_eq_None_iff dest: less_trans)
  then show ?case
    using Cons by (auto simp: omap_ok_def omap_get_def)
qed simp

lemma Find_object: "omap_ok ms \<Longrightarrow> Find (JObj ms) k = omap_get ms k"
  by (simp add: Find_def lower_bound_get)

interpretation json_object: keyed_container Find "\<lambda>k v j. Set j k v" json_object
proof
  fix m n :: JsonValue and k v
  show "json_object m \<Longrightarrow> Find (Set m k v) = (Find m)(k \<mapsto> v)"
    by (auto simp: json_object_iff Set_def Find_object omap_simps fun_eq_iff)
  show "json_object m \<Longrightarrow> json_object (Set m k v)"
    by (auto simp: json_object_def Set_def omap_simps split: JsonValue.splits)
  show "json_object m \<Longrightarrow> json_object n \<Longrightarrow> Find m = Find n \<Longrightarrow> m = n"
    by (auto simp: json_object_iff fun_eq_iff Find_object intro!: omap_ext)
qed

lemma json_object_Nil [json_simps]: "json_object (JObj [])"
  by (simp add: json_object_def)

lemma Find_Nil [json_simps]: "Find (JObj []) k = None"
  by (simp add: Find_def)

lemma Find_Set [json_simps]:
  "json_object j \<Longrightarrow> Find (Set j k v) k' = (if k' = k then Some v else Find j k')"
  by (simp add: json_object.get_put)

lemma json_object_Set [json_simps]: "json_object j \<Longrightarrow> json_object (Set j k v)"
  by (rule json_object.ok_put)

lemma json_object_IsObject: "json_object j \<Longrightarrow> IsObject j"
  by (auto simp: json_object_iff IsObject_def)

lemma IsObject_Set [json_simps]: "IsObject (Set j k v)"
  by (simp add: IsObject_def Set_def split: JsonValue.split)

lemma AsString_simps [simp]: "AsString (JStr s) = Some s" "AsString JNull = None"
  "AsString (JArr a) = None" "AsString (JObj ms) = None" "AsString (JBool b) = None"
  "AsString (JInt i) = None" "AsString (JUInt u) = None"
  by (simp_all add: AsString_def)

lemma AsArray_simps [simp]: "AsArray (JArr a) = Some a"
  by (simp add: AsArray_def)

lemma IsNull_simps [simp]: "\<not> IsNull (JStr s)" "\<not> IsNull (JArr a)" "\<not> IsNull (JObj ms)"
  "\<not> IsNull (JBool b)" "\<not> IsNull (JInt i)" "\<not> IsNull (JUInt u)" "\<not> IsNull (Set j k v)" "IsNull JNull"
  by (simp_all add: IsNull_def Set_def split: JsonValue.split)

lemma RequireString_Find:
  "IsObject j \<Longrightarrow> Find j k = Some (JStr s) \<Longrightarrow> RequireString j k = Inr s"
  by (simp add: RequireString_def RequireField_def)

lemma OptionalString_Find:
  "Find j k = Some (JStr s) \<Longrightarrow> OptionalString j k d = Inr s"
  "Find j k = None \<Longrightarrow> OptionalString j k d = Inr d"
  by (simp_all add: OptionalString_def)

end
