(* ===== verification/Identity.thy ===== *)
theory Identity
  imports Text_Lib
begin

text \<open>
  Domain identities (\<open>include/fcr/identity.hpp\<close>, \<open>src/identity.cpp\<close>): the identifier
  grammar and the typed identifiers, the checked counters, content digests and their hex form,
  rule references and generation identifiers with the parser of their text form.
\<close>

unbundle bit_operations_syntax

section \<open>Typed identifiers\<close>

datatype IdGrammar = QualifiedName | Opaque

text \<open>The loop over a qualified name: every character is a letter, a digit or a separator, and
  no two separators are adjacent.\<close>

definition is_separator :: "char \<Rightarrow> bool" where
  "is_separator c = (c = CHR ''.'' \<or> c = CHR ''_'' \<or> c = CHR ''-'')"

fun qualified_loop :: "bool \<Rightarrow> string \<Rightarrow> unit result" where
  "qualified_loop previous_separator [] = Inr ()"
| "qualified_loop previous_separator (c # cs) =
     (let separator = is_separator c in
      if \<not> is_alnum c \<and> \<not> separator then Fail InvalidIdentifier
      else if separator \<and> previous_separator then Fail InvalidIdentifier
      else qualified_loop separator cs)"

definition ValidateIdText :: "IdGrammar \<Rightarrow> string \<Rightarrow> unit result" where
  "ValidateIdText grammar text =
     (if text = [] then Fail InvalidIdentifier
      else if length text > 64 then Fail InvalidIdentifier
      else (case grammar of
        Opaque \<Rightarrow>
          (if list_ex (\<lambda>c. char_code c < 0x21 \<or> char_code c > 0x7e) text
           then Fail InvalidIdentifier else Inr ())
      | QualifiedName \<Rightarrow>
          (if \<not> is_alnum (hd text) \<or> \<not> is_alnum (last text) then Fail InvalidIdentifier
           else qualified_loop False text)))"

text \<open>\<open>TypedId<Tag>\<close>: a phantom tag keeps the identifier types apart. The default-constructed
  identifier is empty.\<close>

datatype 'tag TypedId = TypedId (id_value: string)

datatype ComponentFamilyTag = ComponentFamilyTag
datatype ComponentKindTag = ComponentKindTag
datatype ProtocolTag = ProtocolTag
datatype SchemaTag = SchemaTag
datatype CapabilityTag = CapabilityTag
datatype FeatureTag = FeatureTag
datatype HardwareClassTag = HardwareClassTag
datatype RuleTag = RuleTag
datatype PublisherTag = PublisherTag
datatype InstanceTag = InstanceTag
datatype VendorTag = VendorTag

type_synonym ComponentFamilyId = "ComponentFamilyTag TypedId"
type_synonym ComponentKindId = "ComponentKindTag TypedId"
type_synonym ProtocolId = "ProtocolTag TypedId"
type_synonym SchemaId = "SchemaTag TypedId"
type_synonym CapabilityId = "CapabilityTag TypedId"
type_synonym FeatureId = "FeatureTag TypedId"
type_synonym HardwareClassId = "HardwareClassTag TypedId"
type_synonym RuleId = "RuleTag TypedId"
type_synonym PublisherId = "PublisherTag TypedId"
type_synonym ComponentInstanceId = "InstanceTag TypedId"
type_synonym VendorId = "VendorTag TypedId"

definition TypedId_Parse :: "IdGrammar \<Rightarrow> string \<Rightarrow> 'tag TypedId result" where
  "TypedId_Parse grammar text =
     (case ValidateIdText grammar text of Inl e \<Rightarrow> Inl e | Inr _ \<Rightarrow> Inr (TypedId text))"

text \<open>Identifiers are ordered by their text.\<close>

definition TypedId_lt :: "'tag TypedId \<Rightarrow> 'tag TypedId \<Rightarrow> bool" where
  "TypedId_lt a b = (id_value a < id_value b)"

definition TypedId_le :: "'tag TypedId \<Rightarrow> 'tag TypedId \<Rightarrow> bool" where
  "TypedId_le a b = (\<not> id_value b < id_value a)"

instantiation TypedId :: (type) linorder
begin

definition less_eq_TypedId :: "'a TypedId \<Rightarrow> 'a TypedId \<Rightarrow> bool" where
  "less_eq_TypedId a b = TypedId_le a b"

definition less_TypedId :: "'a TypedId \<Rightarrow> 'a TypedId \<Rightarrow> bool" where
  "less_TypedId a b = TypedId_lt a b"

instance
  by intro_classes (auto simp: less_eq_TypedId_def less_TypedId_def TypedId_le_def TypedId_lt_def not_less TypedId.expand)

end

section \<open>Counters\<close>

type_synonym GenerationNumber = u64
type_synonym PublisherEpoch = u64
type_synonym Incarnation = u64
type_synonym RuleRevision = u32

text \<open>A rule priority is a signed 32-bit number that is compared and printed, never computed
  with.\<close>

type_synonym RulePriority = int

text \<open>Nanoseconds since the epoch.\<close>

type_synonym Timestamp = int

abbreviation UINT64_MAX :: u64 where
  "UINT64_MAX \<equiv> - 1"

definition NextGeneration :: "GenerationNumber \<Rightarrow> GenerationNumber result" where
  "NextGeneration g = (if g = UINT64_MAX then Fail ArithmeticOverflow else Inr (g + 1))"

definition NextIncarnation :: "Incarnation \<Rightarrow> Incarnation result" where
  "NextIncarnation i = (if i = UINT64_MAX then Fail ArithmeticOverflow else Inr (i + 1))"

definition NextEpoch :: "PublisherEpoch \<Rightarrow> PublisherEpoch result" where
  "NextEpoch e = (if e = UINT64_MAX then Fail ArithmeticOverflow else Inr (e + 1))"

section \<open>Content digests\<close>

text \<open>\<open>std::array<std::byte, 32>\<close>; the length, part of the type in C++, is the predicate
  \<open>digest_ok\<close>.\<close>

type_synonym ContentDigest = "byte list"

definition kDigestSize :: nat where
  "kDigestSize = 32"

definition digest_ok :: "ContentDigest \<Rightarrow> bool" where
  "digest_ok d = (length d = kDigestSize)"

definition digest_zero :: ContentDigest where
  "digest_zero = replicate kDigestSize 0"

definition digest_IsZero :: "ContentDigest \<Rightarrow> bool" where
  "digest_IsZero d = list_all (\<lambda>b. b = 0) d"

definition HexValue :: "char \<Rightarrow> int" where
  "HexValue c =
     (if 48 \<le> char_code c \<and> char_code c \<le> 57 then int (char_code c) - 48
      else if 97 \<le> char_code c \<and> char_code c \<le> 102 then int (char_code c) - 97 + 10
      else if 65 \<le> char_code c \<and> char_code c \<le> 70 then int (char_code c) - 65 + 10
      else - 1)"

definition kHex :: string where
  "kHex = ''0123456789abcdef''"

fun from_hex_loop :: "string \<Rightarrow> byte list result" where
  "from_hex_loop (h # l # rest) =
     (if HexValue h < 0 \<or> HexValue l < 0 then Fail InvalidArgument
      else (case from_hex_loop rest of Inl e \<Rightarrow> Inl e
        | Inr bs \<Rightarrow> Inr (word_of_int (push_bit 4 (HexValue h) OR HexValue l) # bs)))"
| "from_hex_loop _ = Inr []"

definition FromHex :: "string \<Rightarrow> ContentDigest result" where
  "FromHex hex = (if length hex \<noteq> kDigestSize * 2 then Fail InvalidArgument else from_hex_loop hex)"

definition ToHex :: "ContentDigest \<Rightarrow> string" where
  "ToHex d = concat (map (\<lambda>b. [kHex ! unat (drop_bit 4 b AND 0x0f), kHex ! unat (b AND 0x0f)]) d)"

section \<open>Composite identities\<close>

datatype RuleRef = RuleRef (ref_id: RuleId) (ref_revision: RuleRevision)

definition RuleRef_ToString :: "RuleRef \<Rightarrow> string" where
  "RuleRef_ToString r = id_value (ref_id r) @ ''@r'' @ to_string (unat (ref_revision r))"

definition RuleRef_lt :: "RuleRef \<Rightarrow> RuleRef \<Rightarrow> bool" where
  "RuleRef_lt a b =
     (if ref_id a \<noteq> ref_id b then ref_id a < ref_id b else ref_revision a < ref_revision b)"

instantiation RuleRef :: linorder
begin

definition less_RuleRef :: "RuleRef \<Rightarrow> RuleRef \<Rightarrow> bool" where
  "less_RuleRef a b = RuleRef_lt a b"

definition less_eq_RuleRef :: "RuleRef \<Rightarrow> RuleRef \<Rightarrow> bool" where
  "less_eq_RuleRef a b = (a < b \<or> a = b)"

instance
proof intro_classes
  fix a b :: RuleRef
  show "a \<le> b \<or> b \<le> a"
    unfolding less_eq_RuleRef_def less_RuleRef_def RuleRef_lt_def
    by (metis RuleRef.expand linorder_less_linear)
qed (auto simp: less_eq_RuleRef_def less_RuleRef_def RuleRef_lt_def split: if_splits)

end

text \<open>A generation is identified by its ordinal and its content digest.\<close>

datatype GenerationId = GenerationId (gen_number: GenerationNumber) (gen_digest: ContentDigest)

definition GenerationId_IsValid :: "GenerationId \<Rightarrow> bool" where
  "GenerationId_IsValid g = (\<not> digest_IsZero (gen_digest g))"

definition GenerationId_ToString :: "GenerationId \<Rightarrow> string" where
  "GenerationId_ToString g = ''gen-'' @ to_string (unat (gen_number g)) @ '':'' @ ToHex (gen_digest g)"

text \<open>The loop over the digits of the ordinal, on 64 bits: the guard keeps \<open>number * 10\<close> in
  range, and the sum with the digit wraps.\<close>

fun gen_number_loop :: "u64 \<Rightarrow> string \<Rightarrow> u64 result" where
  "gen_number_loop number [] = Inr number"
| "gen_number_loop number (c # cs) =
     (if \<not> IsDigit c then Fail InvalidArgument
      else if number > UINT64_MAX div 10 then Fail ArithmeticOverflow
      else gen_number_loop (number * 10 + of_nat (digit_value c)) cs)"

definition ParseGenerationId :: "string \<Rightarrow> GenerationId result" where
  "ParseGenerationId text =
     (if length text < 8 \<or> take 4 text \<noteq> ''gen-'' then Fail InvalidArgument
      else (case cut_at CHR '':'' text of
        None \<Rightarrow> Fail InvalidArgument
      | Some (before, rest) \<Rightarrow>
          (if length before \<le> 4 then Fail InvalidArgument
           else (case gen_number_loop 0 (drop 4 before) of
             Inl e \<Rightarrow> Inl e
           | Inr number \<Rightarrow>
               (case FromHex rest of Inl e \<Rightarrow> Inl e
                | Inr digest \<Rightarrow> Inr (GenerationId number digest))))))"

text \<open>Process incarnation plus the generation that incarnation published.\<close>

datatype IncarnationStamp =
  IncarnationStamp (stamp_incarnation: Incarnation) (stamp_generation: GenerationId)

section \<open>Properties\<close>

subsection \<open>The identifier grammar\<close>

definition no_adjacent_separators :: "string \<Rightarrow> bool" where
  "no_adjacent_separators s =
     (\<forall>i. Suc i < length s \<longrightarrow> \<not> (is_separator (s ! i) \<and> is_separator (s ! Suc i)))"

definition qualified_name :: "string \<Rightarrow> bool" where
  "qualified_name s = (s \<noteq> [] \<and> length s \<le> 64 \<and> is_alnum (hd s) \<and> is_alnum (last s) \<and>
     (\<forall>c \<in> set s. is_alnum c \<or> is_separator c) \<and> no_adjacent_separators s)"

lemma no_adjacent_Cons:
  "no_adjacent_separators (c # s) \<longleftrightarrow>
     no_adjacent_separators s \<and> \<not> (s \<noteq> [] \<and> is_separator c \<and> is_separator (hd s))"
proof -
  have all_nat: "(\<forall>i::nat. P i) \<longleftrightarrow> P 0 \<and> (\<forall>i. P (Suc i))" for P
    by (metis not0_implies_Suc)
  show ?thesis
    unfolding no_adjacent_separators_def
    by (subst all_nat) (cases s; auto)
qed

lemma qualified_loop_iff:
  "qualified_loop prev s = Inr () \<longleftrightarrow>
     (\<forall>c \<in> set s. is_alnum c \<or> is_separator c) \<and> no_adjacent_separators s \<and>
     \<not> (prev \<and> s \<noteq> [] \<and> is_separator (hd s))"
proof (induction s arbitrary: prev)
  case (Cons c s)
  show ?case
    by (auto simp: no_adjacent_Cons Cons.IH Let_def)
qed (simp add: no_adjacent_separators_def)

lemma ValidateIdText_qualified: "ValidateIdText QualifiedName s = Inr () \<longleftrightarrow> qualified_name s"
  by (auto simp: ValidateIdText_def qualified_name_def qualified_loop_iff)

lemma TypedId_Parse_Inr:
  "TypedId_Parse g s = Inr i \<longleftrightarrow> ValidateIdText g s = Inr () \<and> i = TypedId s"
  by (auto simp: TypedId_Parse_def split: sum.splits)

subsection \<open>Hexadecimal digests\<close>

lemma HexValue_kHex: "n < 16 \<Longrightarrow> HexValue (kHex ! n) = int n"
proof -
  have "\<forall>n \<in> set [0..<16]. HexValue (kHex ! n) = int n" by code_simp
  then show "n < 16 \<Longrightarrow> HexValue (kHex ! n) = int n" by simp
qed

lemma nibbles_join:
  fixes b :: byte
  shows "word_of_int (push_bit 4 (uint (drop_bit 4 b AND 0x0f)) OR uint (b AND 0x0f)) = b"
proof (rule bit_word_eqI)
  fix n assume "n < LENGTH(8)"
  then have "n \<in> {0, 1, 2, 3, 4, 5, 6, 7}" by auto
  then show "bit (word_of_int (push_bit 4 (uint (drop_bit 4 b AND 0x0f)) OR uint (b AND 0x0f)) :: byte) n
      = bit b n"
    by (auto simp: bit_simps)
qed

lemma nibble_less:
  fixes b :: byte
  shows "unat (b AND 0x0f) < 16"
  using word_and_le1 [of b "0x0f"] by (simp add: word_le_nat_alt le_imp_less_Suc [of _ 15, simplified])

lemma from_hex_ToHex: "from_hex_loop (ToHex d) = Inr d"
proof (induction d)
  case (Cons b d)
  have "word_of_int (push_bit 4 (int (unat (drop_bit 4 b AND 0x0f))) OR int (unat (b AND 0x0f))) = b"
    using nibbles_join [of b] by simp
  then show ?case
    using Cons HexValue_kHex [OF nibble_less, of b] HexValue_kHex [OF nibble_less, of "drop_bit 4 b"]
    by (simp add: ToHex_def)
qed (simp add: ToHex_def)

lemma length_ToHex [simp]: "length (ToHex d) = 2 * length d"
  by (induction d) (simp_all add: ToHex_def)

lemma FromHex_ToHex: "digest_ok d \<Longrightarrow> FromHex (ToHex d) = Inr d"
  by (simp add: FromHex_def digest_ok_def from_hex_ToHex)

lemma from_hex_loop_length: "from_hex_loop h = Inr d \<Longrightarrow> length d = length h div 2"
  by (induction h arbitrary: d rule: from_hex_loop.induct) (auto split: if_splits sum.splits)

lemma FromHex_ok: "FromHex h = Inr d \<Longrightarrow> digest_ok d"
  by (auto simp: FromHex_def digest_ok_def dest: from_hex_loop_length split: if_splits)

subsection \<open>Generation identifiers\<close>

lemma gen_number_loop_decimal:
  "list_all IsDigit ds \<Longrightarrow> decimal_from (unat v) ds < 2 ^ 64 \<Longrightarrow>
     gen_number_loop v ds = Inr (of_nat (decimal_from (unat v) ds))"
proof (induction ds arbitrary: v)
  case (Cons c cs)
  let ?w = "v * 10 + of_nat (digit_value c) :: u64"
  have le: "unat v * 10 + digit_value c < 2 ^ 64"
    using Cons.prems(2) decimal_from_le [of "unat v * 10 + digit_value c" cs] by simp
  then have w: "unat ?w = unat v * 10 + digit_value c"
    by (simp add: unat_word_ariths unat_of_nat)
  have "\<not> v > UINT64_MAX div 10"
    using le by (simp add: word_less_nat_alt unat_div)
  then show ?case
    using Cons w by simp
qed simp

lemma gen_number_loop_to_string: "gen_number_loop 0 (to_string (unat n)) = Inr n"
proof -
  have "decimal (to_string (unat n)) < 2 ^ 64" using unsigned_less [of n, where ?'a = nat] by simp
  then show ?thesis
    using gen_number_loop_decimal [of "to_string (unat n)" 0] by (simp add: text_simps)
qed

lemma digits_no_char: "list_all IsDigit ds \<Longrightarrow> \<not> IsDigit c \<Longrightarrow> c \<notin> set ds"
  by (auto simp: list_all_iff)

lemma not_digit_colon [simp]: "\<not> IsDigit CHR '':''" "\<not> IsDigit CHR ''.''" "\<not> IsDigit CHR ''-''"
    "\<not> IsDigit CHR ''+''"
  by code_simp+

text \<open>The text accepted as a qualified identifier is exactly the documented grammar: one to 64
  letters, digits and separators, a letter or digit at both ends, no two separators adjacent; and
  the identifier holds the text unchanged.\<close>

theorem TypedId_Parse_qualified:
  "TypedId_Parse QualifiedName s = Inr i \<longleftrightarrow> qualified_name s \<and> i = TypedId s"
  by (simp add: TypedId_Parse_Inr ValidateIdText_qualified)

text \<open>The text form of a generation identifier is read back as the same ordinal and digest.\<close>

theorem ParseGenerationId_ToString:
  assumes "digest_ok (gen_digest g)"
  shows "ParseGenerationId (GenerationId_ToString g) = Inr g"
proof -
  let ?n = "to_string (unat (gen_number g))"
  have "cut_at CHR '':'' (GenerationId_ToString g) = Some (''gen-'' @ ?n, ToHex (gen_digest g))"
    using digits_no_char [OF to_string_digits [of "unat (gen_number g)"], of "CHR '':''"]
    by (simp add: cut_at_Some GenerationId_ToString_def)
  moreover have "8 \<le> length (GenerationId_ToString g)" "take 4 (GenerationId_ToString g) = ''gen-''"
    using assms by (simp_all add: GenerationId_ToString_def digest_ok_def kDigestSize_def)
  ultimately show ?thesis
    using assms gen_number_loop_to_string [of "gen_number g"]
    by (simp add: ParseGenerationId_def FromHex_ToHex)
qed

theorem ParseGenerationId_ToString_witness:
  "digest_ok (gen_digest (GenerationId 7 digest_zero)) \<and>
   ParseGenerationId (GenerationId_ToString (GenerationId 7 digest_zero))
     = Inr (GenerationId 7 digest_zero)"
proof -
  have ok: "digest_ok (gen_digest (GenerationId 7 digest_zero))"
    by (simp add: digest_ok_def digest_zero_def)
  show ?thesis using ok ParseGenerationId_ToString [OF ok] by blast
qed

text \<open>The overflow guard of the generation parser admits an ordinal one past the 64-bit range and
  wraps it: \<open>gen-18446744073709551616\<close> is read as generation 0 instead of being refused with
  \<open>arithmetic_overflow\<close>.\<close>

theorem ParseGenerationId_wraps:
  "ParseGenerationId (''gen-18446744073709551616:'' @ ToHex digest_zero)
     = Inr (GenerationId 0 digest_zero)"
proof -
  let ?n = "''18446744073709551616''"
  have cut: "cut_at CHR '':'' (''gen-18446744073709551616:'' @ ToHex digest_zero)
      = Some (''gen-18446744073709551616'', ToHex digest_zero)"
    by (simp add: cut_at_Some)
  have len: "length (''gen-18446744073709551616:'' @ ToHex digest_zero) = 89"
    by (simp add: digest_zero_def kDigestSize_def)
  have num: "gen_number_loop 0 ?n = Inr 0"
    by (simp add: IsDigit_def digit_value_def char_code_def)
  have hex: "FromHex (ToHex digest_zero) = Inr digest_zero"
    by (rule FromHex_ToHex) (simp add: digest_ok_def digest_zero_def)
  show ?thesis
    unfolding ParseGenerationId_def cut len using num hex by simp
qed

end
