(* ===== verification/Version.thy ===== *)
theory Version
  imports Identity
begin

text \<open>
  Semantic versions (\<open>SemVersion\<close> of \<open>include/fcr/version.hpp\<close>, first half of
  \<open>src/version.cpp\<close>): the parser of full and partial versions, the printer, and the two
  orders, SemVer precedence and the total order that also looks at build metadata.
\<close>

section \<open>Data\<close>

definition kMaxVersionTextLength :: nat where "kMaxVersionTextLength = 512"
definition kMaxPrereleaseIdentifiers :: nat where "kMaxPrereleaseIdentifiers = 32"
definition kMaxRangeTextLength :: nat where "kMaxRangeTextLength = 4096"
definition kMaxRangeGroups :: nat where "kMaxRangeGroups = 64"
definition kMaxComparatorsPerGroup :: nat where "kMaxComparatorsPerGroup = 64"

record SemVersion =
  major :: u32
  minor :: u32
  patch :: u32
  prerelease :: "string list"
  build :: string

definition SemVersion_of :: "u32 \<Rightarrow> u32 \<Rightarrow> u32 \<Rightarrow> SemVersion" where
  "SemVersion_of ma mi pa =
     \<lparr>major = ma, minor = mi, patch = pa, prerelease = [], build = []\<rparr>"

definition has_prerelease :: "SemVersion \<Rightarrow> bool" where
  "has_prerelease v = (prerelease v \<noteq> [])"

section \<open>Lexical checks\<close>

definition IsAlphaNumHyphen :: "char \<Rightarrow> bool" where
  "IsAlphaNumHyphen c = (is_alnum c \<or> c = CHR ''-'')"

definition IsAllDigits :: "string \<Rightarrow> bool" where
  "IsAllDigits s = (s \<noteq> [] \<and> list_all IsDigit s)"

text \<open>At most ten digits are accumulated, so the 64-bit accumulator of the code cannot
  overflow and the number is the decimal value.\<close>

definition ParseU32Component :: "string \<Rightarrow> u32 result" where
  "ParseU32Component text =
     (if text = [] then Fail InvalidVersion
      else if length text > 10 then Fail InvalidVersion
      else if length text > 1 \<and> hd text = CHR ''0'' then Fail InvalidVersion
      else if \<not> list_all IsDigit text then Fail InvalidVersion
      else if decimal text > 4294967295 then Fail InvalidVersion
      else Inr (of_nat (decimal text)))"

text \<open>The loop over the dotted pieces, with the identifiers accepted so far.\<close>

fun split_identifiers_loop :: "bool \<Rightarrow> string list \<Rightarrow> string list \<Rightarrow> string list result" where
  "split_identifiers_loop pre [] out = Inr out"
| "split_identifiers_loop pre (piece # pieces) out =
     (if piece = [] then Fail InvalidVersion
      else if \<not> list_all IsAlphaNumHyphen piece then Fail InvalidVersion
      else if pre \<and> IsAllDigits piece \<and> length piece > 1 \<and> hd piece = CHR ''0''
        then Fail InvalidVersion
      else if length out \<ge> kMaxPrereleaseIdentifiers then Fail LimitExceeded
      else split_identifiers_loop pre pieces (out @ [piece]))"

definition SplitIdentifiers :: "string \<Rightarrow> bool \<Rightarrow> string list result" where
  "SplitIdentifiers text pre = split_identifiers_loop pre (split_on CHR ''.'' text) []"

section \<open>Partial versions\<close>

record PartialVersion =
  pv_major :: "u32 option"
  pv_minor :: "u32 option"
  pv_patch :: "u32 option"
  pv_prerelease :: "string list"
  wildcard_tail :: bool

definition PartialVersion_empty :: PartialVersion where
  "PartialVersion_empty = \<lparr>pv_major = None, pv_minor = None, pv_patch = None, pv_prerelease = [],
     wildcard_tail = False\<rparr>"

definition is_full :: "PartialVersion \<Rightarrow> bool" where
  "is_full pv = (pv_major pv \<noteq> None \<and> pv_minor pv \<noteq> None \<and> pv_patch pv \<noteq> None)"

definition value_or :: "'a option \<Rightarrow> 'a \<Rightarrow> 'a" where
  "value_or x d = (case x of None \<Rightarrow> d | Some y \<Rightarrow> y)"

definition Filled :: "PartialVersion \<Rightarrow> SemVersion" where
  "Filled pv = SemVersion_of (value_or (pv_major pv) 0) (value_or (pv_minor pv) 0)
     (value_or (pv_patch pv) 0)"

definition set_slot :: "nat \<Rightarrow> u32 \<Rightarrow> PartialVersion \<Rightarrow> PartialVersion" where
  "set_slot slot n pv =
     (if slot = 0 then pv\<lparr>pv_major := Some n\<rparr>
      else if slot = 1 then pv\<lparr>pv_minor := Some n\<rparr>
      else pv\<lparr>pv_patch := Some n\<rparr>)"

definition is_wildcard :: "string \<Rightarrow> bool" where
  "is_wildcard piece = (piece = ''*'' \<or> piece = ''x'' \<or> piece = ''X'')"

text \<open>The loop over the dotted components of the core. \<open>slot\<close> counts the components stored
  (\<open>index\<close> in the code always equals it); the piece is the last one when no dot follows.\<close>

fun parse_slots :: "string list \<Rightarrow> nat \<Rightarrow> PartialVersion \<Rightarrow> (PartialVersion \<times> nat) result" where
  "parse_slots [] slot pv = Inr (pv, slot)"
| "parse_slots (piece # pieces) slot pv =
     (if piece = [] then Fail InvalidVersion
      else if slot \<ge> 3 then Fail InvalidVersion
      else if is_wildcard piece then
        (if pieces \<noteq> [] then Fail InvalidVersion else Inr (pv\<lparr>wildcard_tail := True\<rparr>, slot))
      else if wildcard_tail pv then Fail InvalidVersion
      else (case ParseU32Component piece of
          Inl e \<Rightarrow> Inl e
        | Inr n \<Rightarrow> parse_slots pieces (Suc slot) (set_slot slot n pv)))"

text \<open>The text is cut at the first \<open>+\<close> into core and build metadata, and the core at its first
  \<open>-\<close> into numbers and prerelease.\<close>

definition parse_build_part :: "string \<Rightarrow> string result" where
  "parse_build_part text =
     (case cut_at CHR ''+'' text of
        None \<Rightarrow> Inr text
      | Some (core, bld) \<Rightarrow>
          (if bld = [] then Fail InvalidVersion
           else (case SplitIdentifiers bld False of Inl e \<Rightarrow> Inl e | Inr _ \<Rightarrow> Inr core)))"

definition parse_prerelease_part :: "string \<Rightarrow> (string \<times> string list) result" where
  "parse_prerelease_part core =
     (case cut_at CHR ''-'' core of
        None \<Rightarrow> Inr (core, [])
      | Some (nums, pre) \<Rightarrow>
          (case SplitIdentifiers pre True of Inl e \<Rightarrow> Inl e | Inr ids \<Rightarrow> Inr (nums, ids)))"

definition ParsePartial :: "string \<Rightarrow> PartialVersion result" where
  "ParsePartial text =
     (if text = [] then Fail InvalidVersion
      else if length text > kMaxVersionTextLength then Fail LimitExceeded
      else (case parse_build_part text of
        Inl e \<Rightarrow> Inl e
      | Inr core \<Rightarrow>
          (case parse_prerelease_part core of
            Inl e \<Rightarrow> Inl e
          | Inr (nums, ids) \<Rightarrow>
              (case parse_slots (split_on CHR ''.'' nums) 0
                      (PartialVersion_empty\<lparr>pv_prerelease := ids\<rparr>) of
                Inl e \<Rightarrow> Inl e
              | Inr (pv, index) \<Rightarrow>
                  (if index = 0 \<and> \<not> wildcard_tail pv then Fail InvalidVersion
                   else if pv_prerelease pv \<noteq> [] \<and> \<not> is_full pv then Fail InvalidVersion
                   else Inr pv)))))"

section \<open>Full versions\<close>

definition SemVersion_Parse :: "string \<Rightarrow> SemVersion result" where
  "SemVersion_Parse text =
     (case ParsePartial text of
        Inl e \<Rightarrow> Inl e
      | Inr pv \<Rightarrow>
          (case (pv_major pv, pv_minor pv, pv_patch pv) of
             (Some ma, Some mi, Some pa) \<Rightarrow>
               (if wildcard_tail pv then Fail InvalidVersion
                else let v = (SemVersion_of ma mi pa)\<lparr>prerelease := pv_prerelease pv\<rparr> in
                 (case cut_at CHR ''+'' text of
                    None \<Rightarrow> Inr v
                  | Some (_, bld) \<Rightarrow>
                      (case SplitIdentifiers bld False of
                         Inl e \<Rightarrow> Inl e | Inr _ \<Rightarrow> Inr (v\<lparr>build := bld\<rparr>))))
           | _ \<Rightarrow> Fail InvalidVersion))"

definition SemVersion_ToString :: "SemVersion \<Rightarrow> string" where
  "SemVersion_ToString v =
     to_string (unat (major v)) @ ''.'' @ to_string (unat (minor v)) @ ''.'' @
     to_string (unat (patch v)) @
     (if prerelease v \<noteq> [] then ''-'' @ join_with ''.'' (prerelease v) else []) @
     (if build v \<noteq> [] then ''+'' @ build v else [])"

text \<open>The partial version with its prerelease, rebuilt through its text.\<close>

definition FilledWithPrerelease :: "PartialVersion \<Rightarrow> SemVersion" where
  "FilledWithPrerelease pv =
     (if pv_prerelease pv \<noteq> [] then
        (case SemVersion_Parse (SemVersion_ToString (Filled pv) @ ''-'' @
                join_with ''.'' (pv_prerelease pv)) of
           Inr parsed \<Rightarrow> parsed | Inl _ \<Rightarrow> Filled pv)
      else Filled pv)"

section \<open>Orders\<close>

definition compare_identifier :: "string \<Rightarrow> string \<Rightarrow> ordering" where
  "compare_identifier a b =
     (if IsAllDigits a \<and> IsAllDigits b then
        (if length a \<noteq> length b then (if length a < length b then Less else Greater)
         else cmp_of a b)
      else if IsAllDigits a \<noteq> IsAllDigits b then (if IsAllDigits a then Less else Greater)
      else cmp_of a b)"

text \<open>The loop over the common length and the size comparison after it.\<close>

fun compare_identifiers :: "string list \<Rightarrow> string list \<Rightarrow> ordering" where
  "compare_identifiers [] [] = Equal"
| "compare_identifiers [] (_ # _) = Less"
| "compare_identifiers (_ # _) [] = Greater"
| "compare_identifiers (x # xs) (y # ys) =
     (case compare_identifier x y of Equal \<Rightarrow> compare_identifiers xs ys | r \<Rightarrow> r)"

definition ComparePrerelease :: "string list \<Rightarrow> string list \<Rightarrow> ordering" where
  "ComparePrerelease a b =
     (if a = [] \<and> b = [] then Equal
      else if a = [] then Greater
      else if b = [] then Less
      else compare_identifiers a b)"

definition Precedence :: "SemVersion \<Rightarrow> SemVersion \<Rightarrow> ordering" where
  "Precedence v other =
     (if major v \<noteq> major other then (if major v < major other then Less else Greater)
      else if minor v \<noteq> minor other then (if minor v < minor other then Less else Greater)
      else if patch v \<noteq> patch other then (if patch v < patch other then Less else Greater)
      else ComparePrerelease (prerelease v) (prerelease other))"

definition TotalOrder :: "SemVersion \<Rightarrow> SemVersion \<Rightarrow> ordering" where
  "TotalOrder v other =
     (let p = Precedence v other in
      if p \<noteq> Equal then p else cmp_of (build v) (build other))"

definition SameRelease :: "SemVersion \<Rightarrow> SemVersion \<Rightarrow> bool" where
  "SameRelease v other = (Precedence v other = Equal)"

definition version_lt :: "SemVersion \<Rightarrow> SemVersion \<Rightarrow> bool" where
  "version_lt a b = (Precedence a b = Less)"

section \<open>The two orders are lawful\<close>

lemma compare_identifier_then [order_simps]:
  "compare_identifier a b = then_cmp (cmp_of (\<not> IsAllDigits a) (\<not> IsAllDigits b))
     (then_cmp (cmp_of (if IsAllDigits a then length a else 0) (if IsAllDigits b then length b else 0))
       (cmp_of a b))"
  by (auto simp: compare_identifier_def cmp_of_def)

lemma compare_identifiers_lex [order_simps]: "compare_identifiers = lex_cmp compare_identifier"
proof (intro ext)
  fix xs ys
  show "compare_identifiers xs ys = lex_cmp compare_identifier xs ys"
    by (induction xs ys rule: compare_identifiers.induct)
      (auto simp: then_cmp_def split: ordering.splits)
qed

lemma ComparePrerelease_then [order_simps]:
  "ComparePrerelease a b = then_cmp (cmp_of (a = []) (b = [])) (lex_cmp compare_identifier a b)"
  by (auto simp: ComparePrerelease_def cmp_of_def compare_identifiers_lex)

lemma Precedence_then [order_simps]:
  "Precedence v w = then_cmp (cmp_of (major v) (major w)) (then_cmp (cmp_of (minor v) (minor w))
     (then_cmp (cmp_of (patch v) (patch w)) (ComparePrerelease (prerelease v) (prerelease w))))"
  by (auto simp: Precedence_def cmp_of_def)

lemma TotalOrder_then [order_simps]:
  "TotalOrder v w = then_cmp (Precedence v w) (cmp_of (build v) (build w))"
  by (cases "Precedence v w") (auto simp: TotalOrder_def Let_def)

lemma three_way_compare_identifier: "three_way compare_identifier"
  unfolding compare_identifier_then [abs_def]
  by (intro three_way_then three_way_on [OF three_way_cmp_of])

lemma three_way_ComparePrerelease: "three_way ComparePrerelease"
  unfolding ComparePrerelease_then [abs_def]
  by (intro three_way_then three_way_on [OF three_way_cmp_of]
      three_way_lex three_way_compare_identifier)

interpretation prec: three_way Precedence
  unfolding Precedence_then [abs_def]
  by (intro three_way_then three_way_on [OF three_way_cmp_of]
      three_way_on [OF three_way_ComparePrerelease])

interpretation total: three_way TotalOrder
  unfolding TotalOrder_then [abs_def]
  by (intro three_way_then three_way_on [OF three_way_cmp_of] prec.three_way_axioms)

lemma compare_identifier_Equal [simp]: "compare_identifier a b = Equal \<longleftrightarrow> a = b"
  by (auto simp: compare_identifier_then)

lemma ComparePrerelease_Equal [simp]: "ComparePrerelease a b = Equal \<longleftrightarrow> a = b"
  by (auto simp: ComparePrerelease_then lex_cmp_Equal)

lemma Precedence_Equal:
  "Precedence v w = Equal \<longleftrightarrow> major v = major w \<and> minor v = minor w \<and> patch v = patch w \<and>
     prerelease v = prerelease w"
  by (simp add: Precedence_then)

lemma TotalOrder_Equal: "TotalOrder v w = Equal \<longleftrightarrow> v = w"
  by (auto simp: TotalOrder_then Precedence_Equal)

lemma TotalOrder_Less_imp: "TotalOrder v w = Less \<Longrightarrow> Precedence v w \<noteq> Greater"
  by (auto simp: TotalOrder_then then_cmp_Less)

text \<open>Numeric identifiers without leading zeros compare as numbers.\<close>

lemma decimal_from_lower: "v * 10 ^ length ds \<le> decimal_from v ds"
proof (induction ds arbitrary: v)
  case (Cons c cs)
  have "v * 10 ^ length (c # cs) \<le> (v * 10 + digit_value c) * 10 ^ length cs"
    by (simp add: algebra_simps)
  also have "\<dots> \<le> decimal_from (v * 10 + digit_value c) cs" by (rule Cons.IH)
  finally show ?case by simp
qed simp

lemma decimal_from_mono_start:
  assumes "v < w" and "list_all IsDigit xs" and "length xs = length ys"
  shows "decimal_from v xs < decimal_from w ys"
proof -
  have "decimal_from v xs < (v + 1) * 10 ^ length xs" by (rule decimal_bound) (rule assms(2))
  also have "\<dots> \<le> w * 10 ^ length ys" using assms(1,3) by (intro mult_le_mono) auto
  also have "\<dots> \<le> decimal_from w ys" by (rule decimal_from_lower)
  finally show ?thesis .
qed

lemma digit_less_iff:
  "IsDigit c \<Longrightarrow> IsDigit d \<Longrightarrow> c < d \<longleftrightarrow> digit_value c < digit_value d"
  by (auto simp: IsDigit_def digit_value_def less_char_def char_code_def)

lemma cmp_digits_same_length:
  "length xs = length ys \<Longrightarrow> list_all IsDigit xs \<Longrightarrow> list_all IsDigit ys \<Longrightarrow>
     cmp_of xs ys = cmp_of (decimal_from v xs) (decimal_from v ys)"
proof (induction xs ys arbitrary: v rule: list_induct2)
  case (Cons x xs y ys)
  consider "x < y" | "x = y" | "y < x" by (meson linorder_less_linear)
  then show ?case
  proof cases
    case 1
    then show ?thesis
      using Cons.prems Cons.hyps decimal_from_mono_start [of "v * 10 + digit_value x" _ xs ys]
      by (simp add: cmp_of_def digit_less_iff)
  next
    case 2
    then have "cmp_of (x # xs) (y # ys) = cmp_of xs ys" by (simp add: cmp_of_def)
    then show ?thesis using Cons.IH [of "v * 10 + digit_value y"] Cons.prems 2 by simp
  next
    case 3
    have "digit_value y < digit_value x" using 3 Cons.prems digit_less_iff [of y x] by simp
    then have "decimal_from (v * 10 + digit_value y) ys < decimal_from (v * 10 + digit_value x) xs"
      using Cons.prems Cons.hyps decimal_from_mono_start [of _ _ ys xs] by simp
    then show ?thesis using 3 by (auto simp: cmp_of_def)
  qed
qed (simp add: cmp_of_def)

definition no_leading_zero :: "string \<Rightarrow> bool" where
  "no_leading_zero s = (length s = 1 \<or> hd s \<noteq> CHR ''0'')"

lemma decimal_shorter_less:
  assumes a: "IsAllDigits a" and b: "IsAllDigits b" "no_leading_zero b"
    and len: "length a < length b"
  shows "decimal a < decimal b"
proof -
  obtain d ds where d: "b = d # ds" using b(1) by (cases b) (auto simp: IsAllDigits_def)
  have "a \<noteq> []" using a by (simp add: IsAllDigits_def)
  then have "2 \<le> length b" using len by (cases a) auto
  then have "d \<noteq> CHR ''0''" using b d by (cases ds) (auto simp: no_leading_zero_def)
  then have "digit_value d \<noteq> 0"
    using b d digit_value_0 [of d] by (simp add: IsAllDigits_def)
  have "decimal a < 10 ^ length a"
    using decimal_bound [of a 0] a by (simp add: IsAllDigits_def)
  also have "\<dots> \<le> 10 ^ length ds" using len d by (intro power_increasing) auto
  also have "\<dots> \<le> digit_value d * 10 ^ length ds" using \<open>digit_value d \<noteq> 0\<close> by simp
  also have "\<dots> \<le> decimal b" using decimal_from_lower [of "digit_value d" ds] d by simp
  finally show ?thesis .
qed

lemma compare_identifier_numeric:
  assumes "IsAllDigits a" and "IsAllDigits b" and "no_leading_zero a" and "no_leading_zero b"
  shows "compare_identifier a b = cmp_of (decimal a) (decimal b)"
  using assms cmp_digits_same_length [of a b 0] decimal_shorter_less [of a b]
    decimal_shorter_less [of b a]
  by (auto simp: compare_identifier_def IsAllDigits_def cmp_of_def)

section \<open>The parser and the printer are inverse\<close>

definition identifier_ok :: "bool \<Rightarrow> string \<Rightarrow> bool" where
  "identifier_ok pre s = (s \<noteq> [] \<and> list_all IsAlphaNumHyphen s \<and>
     (pre \<longrightarrow> IsAllDigits s \<longrightarrow> no_leading_zero s))"

definition identifiers_ok :: "bool \<Rightarrow> string list \<Rightarrow> bool" where
  "identifiers_ok pre ids = (length ids \<le> kMaxPrereleaseIdentifiers \<and> (\<forall>p \<in> set ids. identifier_ok pre p))"

definition version_ok :: "SemVersion \<Rightarrow> bool" where
  "version_ok v = (identifiers_ok True (prerelease v) \<and>
     (build v = [] \<or> identifiers_ok False (split_on CHR ''.'' (build v))))"

lemma split_identifiers_loop_Inr:
  "length out \<le> kMaxPrereleaseIdentifiers \<Longrightarrow>
     split_identifiers_loop pre ps out = Inr ids \<longleftrightarrow>
       ids = out @ ps \<and> (\<forall>p \<in> set ps. identifier_ok pre p) \<and>
       length (out @ ps) \<le> kMaxPrereleaseIdentifiers"
proof (induction ps arbitrary: out)
  case (Cons p ps)
  have "length p > 1 \<and> hd p = CHR ''0'' \<longleftrightarrow> \<not> no_leading_zero p" if "p \<noteq> []"
    using that by (cases p) (auto simp: no_leading_zero_def)
  then show ?case
    using Cons.IH [of "out @ [p]"] Cons.prems by (auto simp: identifier_ok_def)
qed auto

lemma SplitIdentifiers_Inr:
  "SplitIdentifiers text pre = Inr ids \<longleftrightarrow> ids = split_on CHR ''.'' text \<and> identifiers_ok pre ids"
  by (auto simp: SplitIdentifiers_def split_identifiers_loop_Inr identifiers_ok_def)

lemma SplitIdentifiers_cases:
  "SplitIdentifiers t pre = Inr (split_on CHR ''.'' t) \<and>
     identifiers_ok pre (split_on CHR ''.'' t) \<or>
   (\<exists>e. SplitIdentifiers t pre = Inl e) \<and> \<not> identifiers_ok pre (split_on CHR ''.'' t)"
  using SplitIdentifiers_Inr [of t pre] by (cases "SplitIdentifiers t pre") auto

lemma ParseU32Component_Inr: "ParseU32Component s = Inr n \<longleftrightarrow> s = to_string (unat n)"
proof
  assume l: "ParseU32Component s = Inr n"
  then have s: "s \<noteq> []" "list_all IsDigit s" "decimal s \<le> 4294967295" "n = of_nat (decimal s)"
    and z: "length s \<le> 1 \<or> hd s \<noteq> CHR ''0''"
    by (auto simp: ParseU32Component_def split: if_splits)
  have "length s = 1 \<or> hd s \<noteq> CHR ''0''" using z s(1) by (cases s) auto
  moreover have "unat n = decimal s" using s by (simp add: unat_of_nat)
  ultimately show "s = to_string (unat n)" using to_string_decimal [OF s(1,2)] by simp
next
  assume r: "s = to_string (unat n)"
  have n: "unat n < 4294967296" using unsigned_less [of n, where ?'a = nat] by simp
  then have "length s \<le> 10" using to_string_length_le [of "unat n" 9] r by simp
  moreover have "length s > 1 \<Longrightarrow> hd s \<noteq> CHR ''0''"
  proof -
    assume "length s > 1"
    then have "unat n \<noteq> 0" using r to_string.simps [of 0] by (metis One_nat_def length_Cons
      less_irrefl list.size(3) zero_less_numeral)
    then show "hd s \<noteq> CHR ''0''" using r to_string_hd by simp
  qed
  ultimately show "ParseU32Component s = Inr n"
    using n r by (auto simp: ParseU32Component_def text_simps)
qed

lemma not_wildcard_number [simp]: "\<not> is_wildcard (to_string n)"
proof
  assume "is_wildcard (to_string n)"
  then have "\<exists>c \<in> set (to_string n). \<not> IsDigit c"
    by (auto simp: is_wildcard_def IsDigit_def char_code_def)
  then show False using to_string_digits [of n] by (auto simp: list_all_iff)
qed

definition numbers_text :: "u32 \<Rightarrow> u32 \<Rightarrow> u32 \<Rightarrow> string list" where
  "numbers_text ma mi pa = [to_string (unat ma), to_string (unat mi), to_string (unat pa)]"

definition full_partial :: "u32 \<Rightarrow> u32 \<Rightarrow> u32 \<Rightarrow> string list \<Rightarrow> PartialVersion" where
  "full_partial ma mi pa ids = \<lparr>pv_major = Some ma, pv_minor = Some mi, pv_patch = Some pa,
     pv_prerelease = ids, wildcard_tail = False\<rparr>"

lemma parse_slots_step:
  "parse_slots (to_string (unat n) # ps) slot pv =
     (if slot \<ge> 3 then Fail InvalidVersion else if wildcard_tail pv then Fail InvalidVersion
      else parse_slots ps (Suc slot) (set_slot slot n pv))"
  using ParseU32Component_Inr [of "to_string (unat n)" n] by simp

lemma parse_slots_numbers:
  "parse_slots (numbers_text ma mi pa) 0 (PartialVersion_empty\<lparr>pv_prerelease := ids\<rparr>) =
     Inr (full_partial ma mi pa ids, 3)"
  by (simp add: numbers_text_def full_partial_def parse_slots_step PartialVersion_empty_def
      set_slot_def del: parse_slots.simps(2))

lemma parse_slots_Cons_Inr:
  "parse_slots (p # ps) slot pv = Inr r \<longleftrightarrow>
     slot < 3 \<and> ((is_wildcard p \<and> ps = [] \<and> r = (pv\<lparr>wildcard_tail := True\<rparr>, slot)) \<or>
      (\<not> wildcard_tail pv \<and> (\<exists>n. p = to_string (unat n) \<and>
         parse_slots ps (Suc slot) (set_slot slot n pv) = Inr r)))"
proof (cases "is_wildcard p")
  case True
  then have "p \<noteq> []" and "p \<noteq> to_string (unat n)" for n :: u32
    by (auto simp: is_wildcard_def) (metis is_wildcard_def not_wildcard_number)+
  with True show ?thesis by auto
next
  case False
  note num = ParseU32Component_Inr [of p]
  show ?thesis
  proof (cases "ParseU32Component p")
    case (Inl e)
    then have "p \<noteq> to_string (unat n)" for n :: u32 using num [of n] by simp
    with Inl False show ?thesis by auto
  next
    case (Inr n)
    then have p: "p = to_string (unat n)" and only: "p = to_string (unat m) \<longleftrightarrow> m = n" for m
      using num [of m] num [of n] by auto
    show ?thesis using Inr False only by (auto simp: p [symmetric]) (metis p to_string_not_Nil)+
  qed
qed

lemma parse_slots_full:
  assumes "parse_slots ps 0 (PartialVersion_empty\<lparr>pv_prerelease := ids\<rparr>) = Inr (pv, i)"
    and "is_full pv"
  shows "\<exists>ma mi pa. ps = numbers_text ma mi pa \<and> pv = full_partial ma mi pa ids \<and> i = 3"
proof -
  consider "ps = []" | a where "ps = [a]" | a b where "ps = [a, b]" | a b c where "ps = [a, b, c]"
    | a b c d r where "ps = a # b # c # d # r"
    by (metis list.exhaust)
  then show ?thesis
    using assms
    by cases (auto simp: parse_slots_Cons_Inr is_full_def numbers_text_def full_partial_def
        PartialVersion_empty_def set_slot_def simp del: parse_slots.simps(2))
qed

lemma parse_build_part_Inr:
  "parse_build_part t = Inr core \<longleftrightarrow>
     (CHR ''+'' \<notin> set t \<and> core = t) \<or>
     (\<exists>bld. t = core @ CHR ''+'' # bld \<and> CHR ''+'' \<notin> set core \<and> bld \<noteq> [] \<and>
        identifiers_ok False (split_on CHR ''.'' bld))"
proof (cases "cut_at CHR ''+'' t")
  case None
  then have "CHR ''+'' \<notin> set t" by simp
  then show ?thesis using None by (auto simp add: parse_build_part_def simp del: cut_at_None)
next
  case (Some ab)
  obtain a b where ab: "ab = (a, b)" by fastforce
  have t: "t = a @ CHR ''+'' # b" "CHR ''+'' \<notin> set a" using Some ab by (auto simp: cut_at_Some)
  have uniq: "t = c @ CHR ''+'' # d \<and> CHR ''+'' \<notin> set c \<longleftrightarrow> c = a \<and> d = b" for c d
    using cut_at_Some [of "CHR ''+''" t c d] Some ab by auto
  have "parse_build_part t = Inr core \<longleftrightarrow>
      core = a \<and> b \<noteq> [] \<and> identifiers_ok False (split_on CHR ''.'' b)"
    using Some ab SplitIdentifiers_cases [of b False] by (auto simp: parse_build_part_def)
  moreover have "(\<exists>bld. t = core @ CHR ''+'' # bld \<and> CHR ''+'' \<notin> set core \<and> bld \<noteq> [] \<and>
      identifiers_ok False (split_on CHR ''.'' bld)) \<longleftrightarrow>
      core = a \<and> b \<noteq> [] \<and> identifiers_ok False (split_on CHR ''.'' b)"
    using uniq [of core] by blast
  moreover have "CHR ''+'' \<in> set t" using t by simp
  ultimately show ?thesis by blast
qed

lemma parse_prerelease_part_Inr:
  "parse_prerelease_part core = Inr (nums, ids) \<longleftrightarrow>
     (CHR ''-'' \<notin> set core \<and> nums = core \<and> ids = []) \<or>
     (\<exists>pre. core = nums @ CHR ''-'' # pre \<and> CHR ''-'' \<notin> set nums \<and>
        ids = split_on CHR ''.'' pre \<and> identifiers_ok True ids)"
proof (cases "cut_at CHR ''-'' core")
  case None
  then have "CHR ''-'' \<notin> set core" by simp
  then show ?thesis using None by (auto simp add: parse_prerelease_part_def simp del: cut_at_None)
next
  case (Some ab)
  obtain a b where ab: "ab = (a, b)" by fastforce
  have t: "core = a @ CHR ''-'' # b" "CHR ''-'' \<notin> set a" using Some ab by (auto simp: cut_at_Some)
  have uniq: "core = c @ CHR ''-'' # d \<and> CHR ''-'' \<notin> set c \<longleftrightarrow> c = a \<and> d = b" for c d
    using cut_at_Some [of "CHR ''-''" core c d] Some ab by auto
  have "parse_prerelease_part core = Inr (nums, ids) \<longleftrightarrow>
      nums = a \<and> ids = split_on CHR ''.'' b \<and> identifiers_ok True ids"
    using Some ab SplitIdentifiers_cases [of b True] by (auto simp: parse_prerelease_part_def)
  moreover have "(\<exists>pre. core = nums @ CHR ''-'' # pre \<and> CHR ''-'' \<notin> set nums \<and>
      ids = split_on CHR ''.'' pre \<and> identifiers_ok True ids) \<longleftrightarrow>
      nums = a \<and> ids = split_on CHR ''.'' b \<and> identifiers_ok True ids"
    using uniq [of nums] by blast
  moreover have "CHR ''-'' \<in> set core" using t by simp
  ultimately show ?thesis by blast
qed

definition core_text :: "SemVersion \<Rightarrow> string" where
  "core_text v = join_with ''.'' (numbers_text (major v) (minor v) (patch v)) @
     (if prerelease v \<noteq> [] then ''-'' @ join_with ''.'' (prerelease v) else [])"

lemma ToString_core:
  "SemVersion_ToString v = core_text v @ (if build v \<noteq> [] then ''+'' @ build v else [])"
  by (simp add: SemVersion_ToString_def core_text_def numbers_text_def)

lemma number_free [simp]: "\<not> IsDigit c \<Longrightarrow> c \<notin> set (to_string n)"
  using to_string_digits [of n] by (auto simp: list_all_iff)

lemma numbers_text_free:
  "\<not> IsDigit c \<Longrightarrow> c \<noteq> CHR ''.'' \<Longrightarrow> c \<notin> set (join_with ''.'' (numbers_text ma mi pa))"
  by (simp add: numbers_text_def)

lemma split_numbers:
  "split_on CHR ''.'' (join_with ''.'' (numbers_text ma mi pa)) = numbers_text ma mi pa"
  by (rule split_join) (auto simp: numbers_text_def)

lemma identifiers_free:
  "identifiers_ok pre ids \<Longrightarrow> p \<in> set ids \<Longrightarrow> \<not> IsAlphaNumHyphen c \<Longrightarrow> c \<notin> set p"
  by (auto simp: identifiers_ok_def identifier_ok_def list_all_iff)

lemma not_identifier_char [simp]:
  "\<not> IsAlphaNumHyphen CHR ''+''" "\<not> IsAlphaNumHyphen CHR ''.''"
  by code_simp+

lemma split_prerelease:
  assumes "identifiers_ok pre ids" and "ids \<noteq> []"
  shows "split_on CHR ''.'' (join_with ''.'' ids) = ids"
  using assms identifiers_free [of pre ids] by (intro split_join) auto

lemma prerelease_no_plus:
  assumes "identifiers_ok pre ids"
  shows "CHR ''+'' \<notin> set (join_with ''.'' ids)"
  using identifiers_free [OF assms] set_join_with [of "''.''" ids] by auto

lemma core_text_no_plus: "version_ok v \<Longrightarrow> CHR ''+'' \<notin> set (core_text v)"
  using prerelease_no_plus [of True "prerelease v"]
  by (auto simp: core_text_def version_ok_def numbers_text_free)

lemma parse_core_text:
  assumes "version_ok v"
  shows "parse_prerelease_part (core_text v) =
     Inr (join_with ''.'' (numbers_text (major v) (minor v) (patch v)), prerelease v)"
  using assms split_prerelease [of True "prerelease v"]
  by (auto simp: parse_prerelease_part_Inr core_text_def version_ok_def numbers_text_free)

lemma ParsePartial_Inr:
  "ParsePartial t = Inr pv \<longleftrightarrow> t \<noteq> [] \<and> length t \<le> kMaxVersionTextLength \<and>
     (\<exists>core nums ids i. parse_build_part t = Inr core \<and> parse_prerelease_part core = Inr (nums, ids) \<and>
        parse_slots (split_on CHR ''.'' nums) 0 (PartialVersion_empty\<lparr>pv_prerelease := ids\<rparr>) = Inr (pv, i) \<and>
        (i \<noteq> 0 \<or> wildcard_tail pv) \<and> (pv_prerelease pv = [] \<or> is_full pv))"
  by (auto simp: ParsePartial_def split: sum.splits if_splits)

lemma ParsePartial_ToString:
  assumes ok: "version_ok v" and len: "length (SemVersion_ToString v) \<le> kMaxVersionTextLength"
  shows "ParsePartial (SemVersion_ToString v) =
    Inr (full_partial (major v) (minor v) (patch v) (prerelease v))"
proof -
  have "parse_build_part (SemVersion_ToString v) = Inr (core_text v)"
    using ok core_text_no_plus [OF ok]
    by (auto simp: parse_build_part_Inr ToString_core version_ok_def)
  moreover have "SemVersion_ToString v \<noteq> []" by (simp add: SemVersion_ToString_def)
  ultimately show ?thesis
    using len parse_core_text [OF ok] parse_slots_numbers
    by (auto simp: ParsePartial_Inr split_numbers is_full_def full_partial_def)
qed

lemma cut_plus_ToString:
  "version_ok v \<Longrightarrow> cut_at CHR ''+'' (SemVersion_ToString v) =
     (if build v = [] then None else Some (core_text v, build v))"
  using core_text_no_plus [of v] by (auto simp: ToString_core cut_at_Some)

lemma SemVersion_print_parse:
  assumes ok: "version_ok v" and len: "length (SemVersion_ToString v) \<le> kMaxVersionTextLength"
  shows "SemVersion_Parse (SemVersion_ToString v) = Inr v"
proof -
  have "build v \<noteq> [] \<Longrightarrow> SplitIdentifiers (build v) False = Inr (split_on CHR ''.'' (build v))"
    using ok by (simp add: SplitIdentifiers_Inr version_ok_def)
  then show ?thesis
    using ParsePartial_ToString [OF ok len] cut_plus_ToString [OF ok]
    by (auto simp: SemVersion_Parse_def full_partial_def SemVersion_of_def Let_def)
qed

lemma ParsePartial_full:
  assumes "ParsePartial t = Inr pv" and "is_full pv"
  obtains v where "version_ok v" "t = SemVersion_ToString v"
    "pv = full_partial (major v) (minor v) (patch v) (prerelease v)"
proof -
  obtain core nums ids i where
    core: "parse_build_part t = Inr core" and pre: "parse_prerelease_part core = Inr (nums, ids)"
    and "parse_slots (split_on CHR ''.'' nums) 0 (PartialVersion_empty\<lparr>pv_prerelease := ids\<rparr>) = Inr (pv, i)"
    using assms(1) by (auto simp: ParsePartial_Inr)
  then obtain ma mi pa where sp: "split_on CHR ''.'' nums = numbers_text ma mi pa"
    and pv: "pv = full_partial ma mi pa ids"
    using parse_slots_full assms(2) by blast
  have nums: "nums = join_with ''.'' (numbers_text ma mi pa)"
    using join_split [of "CHR ''.''" nums] sp by simp
  obtain bld where b: "t = core @ (if bld \<noteq> [] then ''+'' @ bld else [])"
      "bld = [] \<or> identifiers_ok False (split_on CHR ''.'' bld)"
    using core [unfolded parse_build_part_Inr] by force
  define v where "v = (SemVersion_of ma mi pa)\<lparr>prerelease := ids, build := bld\<rparr>"
  have v: "major v = ma" "minor v = mi" "patch v = pa" "prerelease v = ids" "build v = bld"
    by (simp_all add: v_def SemVersion_of_def)
  have "core = core_text v \<and> identifiers_ok True ids"
    using pre [unfolded parse_prerelease_part_Inr]
    by (auto simp: core_text_def v nums identifiers_ok_def)
  then have "version_ok v" and "t = SemVersion_ToString v"
    using b by (simp_all add: version_ok_def v ToString_core)
  with pv v that show thesis by simp
qed

text \<open>C35. The parser accepts exactly the texts the printer can produce, of at most 512 bytes, for the
  well-formed versions, and reads back the version that was printed: parsing and printing are
  inverse to each other, so no two texts denote the same version and none is altered by a
  round trip.\<close>

theorem SemVersion_Parse_iff:
  "SemVersion_Parse t = Inr v \<longleftrightarrow>
     version_ok v \<and> t = SemVersion_ToString v \<and> length t \<le> kMaxVersionTextLength"
proof
  assume l: "SemVersion_Parse t = Inr v"
  then obtain pv where pv: "ParsePartial t = Inr pv" "is_full pv"
    by (auto simp: SemVersion_Parse_def is_full_def split: sum.splits option.splits)
  then have len: "length t \<le> kMaxVersionTextLength" by (simp add: ParsePartial_Inr)
  obtain w where w: "version_ok w" "t = SemVersion_ToString w" using pv by (rule ParsePartial_full)
  then have "SemVersion_Parse t = Inr w" using SemVersion_print_parse len by simp
  then show "version_ok v \<and> t = SemVersion_ToString v \<and> length t \<le> kMaxVersionTextLength"
    using l w len by simp
next
  assume "version_ok v \<and> t = SemVersion_ToString v \<and> length t \<le> kMaxVersionTextLength"
  then show "SemVersion_Parse t = Inr v" using SemVersion_print_parse [of v] by auto
qed

end
