(* ===== verification/Range.thy ===== *)
theory Range
  imports Version
begin

text \<open>
  Version intervals and ranges (\<open>VersionInterval\<close>, \<open>VersionRange\<close> of
  \<open>include/fcr/version.hpp\<close>, second half of \<open>src/version.cpp\<close>). A range is the list of its
  intervals; the canonical ranges the operations produce are sorted and pairwise separated.
  The text parser calls itself once, on a rebuilt \<open>~\<close> comparator, and is modelled with fuel.
\<close>

section \<open>Intervals\<close>

record VersionInterval =
  low :: "SemVersion option"
  low_inclusive :: bool
  high :: "SemVersion option"
  high_inclusive :: bool

definition VersionInterval_Any :: VersionInterval where
  "VersionInterval_Any =
     \<lparr>low = None, low_inclusive = True, high = None, high_inclusive = True\<rparr>"

definition VersionInterval_Exact :: "SemVersion \<Rightarrow> VersionInterval" where
  "VersionInterval_Exact v = VersionInterval_Any\<lparr>low := Some v, high := Some v\<rparr>"

definition bound_equal :: "SemVersion option \<Rightarrow> SemVersion option \<Rightarrow> bool" where
  "bound_equal x y =
     (case (x, y) of
        (Some a, Some b) \<Rightarrow> Precedence a b = Equal | (None, None) \<Rightarrow> True | _ \<Rightarrow> False)"

definition interval_eq :: "VersionInterval \<Rightarrow> VersionInterval \<Rightarrow> bool" where
  "interval_eq a b =
     (bound_equal (low a) (low b) \<and> bound_equal (high a) (high b) \<and>
      (if low a \<noteq> None then low_inclusive a = low_inclusive b else True) \<and>
      (if high a \<noteq> None then high_inclusive a = high_inclusive b else True))"

definition StructurallyEmpty :: "VersionInterval \<Rightarrow> bool" where
  "StructurallyEmpty iv =
     (case (low iv, high iv) of
        (Some l, Some h) \<Rightarrow>
          (case Precedence l h of
             Greater \<Rightarrow> True | Equal \<Rightarrow> \<not> (low_inclusive iv \<and> high_inclusive iv) | Less \<Rightarrow> False)
      | _ \<Rightarrow> False)"

definition interval_IsExact :: "VersionInterval \<Rightarrow> bool" where
  "interval_IsExact iv =
     (case (low iv, high iv) of
        (Some l, Some h) \<Rightarrow> low_inclusive iv \<and> high_inclusive iv \<and> Precedence l h = Equal
      | _ \<Rightarrow> False)"

definition low_admits :: "VersionInterval \<Rightarrow> SemVersion \<Rightarrow> bool" where
  "low_admits iv v =
     (case low iv of None \<Rightarrow> True
      | Some l \<Rightarrow> (case Precedence v l of
          Less \<Rightarrow> False | Equal \<Rightarrow> low_inclusive iv | Greater \<Rightarrow> True))"

definition high_admits :: "VersionInterval \<Rightarrow> SemVersion \<Rightarrow> bool" where
  "high_admits iv v =
     (case high iv of None \<Rightarrow> True
      | Some h \<Rightarrow> (case Precedence v h of
          Greater \<Rightarrow> False | Equal \<Rightarrow> high_inclusive iv | Less \<Rightarrow> True))"

definition ContainsBound :: "VersionInterval \<Rightarrow> SemVersion \<Rightarrow> bool" where
  "ContainsBound iv v = (low_admits iv v \<and> high_admits iv v)"

definition interval_Contains :: "VersionInterval \<Rightarrow> SemVersion \<Rightarrow> bool" where
  "interval_Contains iv v =
     (if \<not> ContainsBound iv v then False
      else if \<not> has_prerelease v then True
      else (case low iv of
          None \<Rightarrow> False
        | Some l \<Rightarrow> has_prerelease l \<and>
            major l = major v \<and> minor l = minor v \<and> patch l = patch v))"

definition interval_Subsumes :: "VersionInterval \<Rightarrow> VersionInterval \<Rightarrow> bool" where
  "interval_Subsumes iv other =
     ((case low iv of None \<Rightarrow> True
       | Some l \<Rightarrow> (case low other of None \<Rightarrow> False
         | Some l' \<Rightarrow> (case Precedence l l' of
              Greater \<Rightarrow> False
            | Equal \<Rightarrow> \<not> (low_inclusive iv \<and> \<not> low_inclusive other)
            | Less \<Rightarrow> True))) \<and>
      (case high iv of None \<Rightarrow> True
       | Some h \<Rightarrow> (case high other of None \<Rightarrow> False
         | Some h' \<Rightarrow> (case Precedence h h' of
              Less \<Rightarrow> False
            | Equal \<Rightarrow> \<not> (high_inclusive iv \<and> \<not> high_inclusive other)
            | Greater \<Rightarrow> True))))"

definition interval_ToString :: "VersionInterval \<Rightarrow> string" where
  "interval_ToString iv =
     (case (low iv, high iv) of
        (Some l, Some h) \<Rightarrow>
          (if interval_IsExact iv then ''='' @ SemVersion_ToString l
           else (if low_inclusive iv then ''>='' else ''>'') @ SemVersion_ToString l @ '' '' @
             (if high_inclusive iv then ''<='' else ''<'') @ SemVersion_ToString h)
      | (Some l, None) \<Rightarrow> (if low_inclusive iv then ''>='' else ''>'') @ SemVersion_ToString l
      | (None, Some h) \<Rightarrow> (if high_inclusive iv then ''<='' else ''<'') @ SemVersion_ToString h
      | (None, None) \<Rightarrow> ''*'')"

section \<open>Ranges\<close>

type_synonym VersionRange = "VersionInterval list"

definition VersionRange_Any :: VersionRange where
  "VersionRange_Any = [VersionInterval_Any]"

definition VersionRange_Exact :: "SemVersion \<Rightarrow> VersionRange" where
  "VersionRange_Exact v = [VersionInterval_Exact v]"

definition VersionRange_IsAny :: "VersionRange \<Rightarrow> bool" where
  "VersionRange_IsAny r = (length r = 1 \<and> low (hd r) = None \<and> high (hd r) = None)"

definition VersionRange_IsExact :: "VersionRange \<Rightarrow> bool" where
  "VersionRange_IsExact r = (length r = 1 \<and> interval_IsExact (hd r))"

definition ExactVersion :: "VersionRange \<Rightarrow> SemVersion option" where
  "ExactVersion r = (if VersionRange_IsExact r then low (hd r) else None)"

definition range_eq :: "VersionRange \<Rightarrow> VersionRange \<Rightarrow> bool" where
  "range_eq a b = list_all2 interval_eq a b"

definition VersionRange_Contains :: "VersionRange \<Rightarrow> SemVersion \<Rightarrow> bool" where
  "VersionRange_Contains r v = list_ex (\<lambda>iv. interval_Contains iv v) r"

text \<open>The comparator of the sort: by lower bound, then by upper bound.\<close>

definition interval_lt :: "VersionInterval \<Rightarrow> VersionInterval \<Rightarrow> bool" where
  "interval_lt a b =
     (let by_high =
        (case (high a, high b) of
           (None, Some _) \<Rightarrow> True
         | (Some _, None) \<Rightarrow> False
         | (None, None) \<Rightarrow> False
         | (Some x, Some y) \<Rightarrow>
             (let c = Precedence x y in
              if c \<noteq> Equal then c = Less
              else if high_inclusive a \<noteq> high_inclusive b then \<not> high_inclusive a
              else False))
      in case (low a, low b) of
           (None, Some _) \<Rightarrow> True
         | (Some _, None) \<Rightarrow> False
         | (None, None) \<Rightarrow> by_high
         | (Some x, Some y) \<Rightarrow>
             (let c = Precedence x y in
              if c \<noteq> Equal then c = Less
              else if low_inclusive a \<noteq> low_inclusive b then low_inclusive a
              else by_high))"

definition joins :: "VersionInterval \<Rightarrow> VersionInterval \<Rightarrow> bool" where
  "joins cur iv =
     (case (high cur, low iv) of
        (Some h, Some l) \<Rightarrow>
          (case Precedence h l of
             Greater \<Rightarrow> True | Equal \<Rightarrow> high_inclusive cur \<or> low_inclusive iv | Less \<Rightarrow> False)
      | _ \<Rightarrow> True)"

definition extend_high :: "VersionInterval \<Rightarrow> VersionInterval \<Rightarrow> VersionInterval" where
  "extend_high cur iv =
     (case (high cur, high iv) of
        (Some h, Some h') \<Rightarrow>
          (case Precedence h h' of
             Less \<Rightarrow> cur\<lparr>high := high iv, high_inclusive := high_inclusive iv\<rparr>
           | Equal \<Rightarrow> cur\<lparr>high_inclusive := high_inclusive cur \<or> high_inclusive iv\<rparr>
           | Greater \<Rightarrow> cur)
      | _ \<Rightarrow> cur\<lparr>high := None, high_inclusive := True\<rparr>)"

definition merge_step :: "VersionInterval list \<Rightarrow> VersionInterval \<Rightarrow> VersionInterval list" where
  "merge_step merged iv =
     (if merged = [] then [iv]
      else if joins (last merged) iv then butlast merged @ [extend_high (last merged) iv]
      else merged @ [iv])"

definition FromIntervals :: "VersionInterval list \<Rightarrow> VersionRange result" where
  "FromIntervals intervals =
     (let kept = filter (\<lambda>iv. \<not> StructurallyEmpty iv) intervals;
          sorted = sort_by interval_lt kept
      in Inr (foldl merge_step [] sorted))"

definition intersect_interval :: "VersionInterval \<Rightarrow> VersionInterval \<Rightarrow> VersionInterval" where
  "intersect_interval x y =
     (let (lo, lo_inc) =
        (case (low x, low y) of
           (None, _) \<Rightarrow> (low y, low_inclusive y)
         | (Some _, None) \<Rightarrow> (low x, low_inclusive x)
         | (Some a, Some b) \<Rightarrow>
             (case Precedence a b of
                Greater \<Rightarrow> (low x, low_inclusive x)
              | Less \<Rightarrow> (low y, low_inclusive y)
              | Equal \<Rightarrow> (low x, low_inclusive x \<and> low_inclusive y)));
          (hi, hi_inc) =
        (case (high x, high y) of
           (None, _) \<Rightarrow> (high y, high_inclusive y)
         | (Some _, None) \<Rightarrow> (high x, high_inclusive x)
         | (Some a, Some b) \<Rightarrow>
             (case Precedence a b of
                Less \<Rightarrow> (high x, high_inclusive x)
              | Greater \<Rightarrow> (high y, high_inclusive y)
              | Equal \<Rightarrow> (high x, high_inclusive x \<and> high_inclusive y)))
      in \<lparr>low = lo, low_inclusive = lo_inc, high = hi, high_inclusive = hi_inc\<rparr>)"

text \<open>Advance whichever interval ends first.\<close>

definition advance_x :: "VersionInterval \<Rightarrow> VersionInterval \<Rightarrow> bool" where
  "advance_x x y =
     (case (high x, high y) of
        (None, _) \<Rightarrow> False
      | (Some _, None) \<Rightarrow> True
      | (Some a, Some b) \<Rightarrow>
          (case Precedence a b of
             Less \<Rightarrow> True | Greater \<Rightarrow> False | Equal \<Rightarrow> \<not> high_inclusive x))"

fun intersect_sweep :: "VersionInterval list \<Rightarrow> VersionInterval list \<Rightarrow> VersionInterval list" where
  "intersect_sweep (x # xs) (y # ys) =
     (let iv = intersect_interval x y;
          rest = (if advance_x x y then intersect_sweep xs (y # ys) else intersect_sweep (x # xs) ys)
      in if StructurallyEmpty iv then rest else iv # rest)"
| "intersect_sweep _ _ = []"

definition Intersect :: "VersionRange \<Rightarrow> VersionRange \<Rightarrow> VersionRange" where
  "Intersect a b =
     (case FromIntervals (intersect_sweep a b) of Inr r \<Rightarrow> r | Inl _ \<Rightarrow> [])"

definition Union :: "VersionRange \<Rightarrow> VersionRange \<Rightarrow> VersionRange" where
  "Union a b = (case FromIntervals (a @ b) of Inr r \<Rightarrow> r | Inl _ \<Rightarrow> [])"

definition Overlaps :: "VersionRange \<Rightarrow> VersionRange \<Rightarrow> bool" where
  "Overlaps a b = (Intersect a b \<noteq> [])"

definition VersionRange_Subsumes :: "VersionRange \<Rightarrow> VersionRange \<Rightarrow> bool" where
  "VersionRange_Subsumes r other =
     list_all (\<lambda>iv. list_ex (\<lambda>mine. interval_Subsumes mine iv) r) other"

definition VersionRange_ToString :: "VersionRange \<Rightarrow> string" where
  "VersionRange_ToString r =
     (if r = [] then ''<none>''
      else if VersionRange_IsAny r then ''*''
      else join_with '' || '' (map interval_ToString r))"

section \<open>Range texts\<close>

definition is_token_space :: "char \<Rightarrow> bool" where
  "is_token_space c = (c = CHR '' '' \<or> c = CHR 0x09 \<or> c = CHR 0x0D \<or> c = CHR 0x0A \<or> c = CHR '','')"

fun tokenize_loop :: "string \<Rightarrow> string \<Rightarrow> string list" where
  "tokenize_loop [] current = (if current \<noteq> [] then [current] else [])"
| "tokenize_loop (c # cs) current =
     (if is_token_space c then
        (if current \<noteq> [] then current # tokenize_loop cs [] else tokenize_loop cs [])
      else tokenize_loop cs (current @ [c]))"

definition Tokenize :: "string \<Rightarrow> string list" where
  "Tokenize t = tokenize_loop t []"

definition split_operator :: "string \<Rightarrow> string \<times> string" where
  "split_operator token =
     (if length token \<ge> 2 \<and> (take 2 token = ''>='' \<or> take 2 token = ''<='')
        then (take 2 token, drop 2 token)
      else if token \<noteq> [] \<and> hd token \<in> {CHR ''>'', CHR ''<'', CHR ''='', CHR ''^'', CHR ''~''}
        then (take 1 token, drop 1 token)
      else ([], token))"

text \<open>The comparators, each from the parsed partial version. A component one above the largest
  32-bit number wraps to zero, as \<open>std::uint32_t\<close> does.\<close>

definition caret_interval :: "PartialVersion \<Rightarrow> u32 \<Rightarrow> VersionInterval" where
  "caret_interval pv maj =
     (let mi = value_or (pv_minor pv) 0; pat = value_or (pv_patch pv) 0;
          lo = (if is_full pv \<and> pv_prerelease pv \<noteq> [] then FilledWithPrerelease pv
                else SemVersion_of maj mi pat);
          hi = (if maj > 0 then SemVersion_of (maj + 1) 0 0
                else if pv_minor pv \<noteq> None \<and> mi > 0 then SemVersion_of 0 (mi + 1) 0
                else if is_full pv then SemVersion_of 0 mi (pat + 1)
                else if pv_minor pv \<noteq> None then SemVersion_of 0 1 0
                else SemVersion_of 1 0 0)
      in VersionInterval_Any\<lparr>low := Some lo, high := Some hi, high_inclusive := False\<rparr>)"

definition tilde_interval :: "PartialVersion \<Rightarrow> u32 \<Rightarrow> VersionInterval" where
  "tilde_interval pv maj =
     (let mi = value_or (pv_minor pv) 0; pat = value_or (pv_patch pv) 0;
          lo = (if is_full pv \<and> pv_prerelease pv \<noteq> [] then FilledWithPrerelease pv
                else SemVersion_of maj mi pat);
          hi = (if pv_minor pv \<noteq> None then SemVersion_of maj (mi + 1) 0
                else SemVersion_of (maj + 1) 0 0)
      in VersionInterval_Any\<lparr>low := Some lo, high := Some hi, high_inclusive := False\<rparr>)"

definition greater_interval :: "PartialVersion \<Rightarrow> VersionInterval" where
  "greater_interval pv =
     (if is_full pv then
        VersionInterval_Any\<lparr>low := Some (FilledWithPrerelease pv), low_inclusive := False\<rparr>
      else (case (pv_major pv, pv_minor pv) of
          (Some ma, Some mi) \<Rightarrow> VersionInterval_Any\<lparr>low := Some (SemVersion_of ma (mi + 1) 0)\<rparr>
        | (Some ma, None) \<Rightarrow> VersionInterval_Any\<lparr>low := Some (SemVersion_of (ma + 1) 0 0)\<rparr>
        | _ \<Rightarrow> VersionInterval_Any))"

text \<open>\<open><\<close> and \<open><=\<close> read \<open>*pv.major\<close> without checking that it holds a value.\<close>

definition less_interval :: "PartialVersion \<Rightarrow> VersionInterval result" where
  "less_interval pv =
     (if is_full pv then
        Inr (VersionInterval_Any\<lparr>high := Some (FilledWithPrerelease pv), high_inclusive := False\<rparr>)
      else (case pv_major pv of
          None \<Rightarrow> Inl Undefined_Behaviour
        | Some ma \<Rightarrow> Inr (VersionInterval_Any\<lparr>high := Some (SemVersion_of ma (value_or (pv_minor pv) 0) 0),
            high_inclusive := False\<rparr>)))"

definition less_eq_interval :: "PartialVersion \<Rightarrow> VersionInterval result" where
  "less_eq_interval pv =
     (if is_full pv then Inr (VersionInterval_Any\<lparr>high := Some (FilledWithPrerelease pv)\<rparr>)
      else (case pv_major pv of
          None \<Rightarrow> Inl Undefined_Behaviour
        | Some ma \<Rightarrow>
            (case pv_minor pv of
               Some mi \<Rightarrow> Inr (VersionInterval_Any\<lparr>high := Some (SemVersion_of ma (mi + 1) 0),
                 high_inclusive := False\<rparr>)
             | None \<Rightarrow> Inr (VersionInterval_Any\<lparr>high := Some (SemVersion_of (ma + 1) 0 0),
                 high_inclusive := False\<rparr>))))"

text \<open>The band a partial version names is parsed again as the \<open>~\<close> comparator it stands for.\<close>

definition tilde_text :: "u32 \<Rightarrow> u32 option \<Rightarrow> string" where
  "tilde_text ma mi =
     ''~'' @ to_string (unat ma) @
     (case mi of None \<Rightarrow> [] | Some n \<Rightarrow> ''.'' @ to_string (unat n))"

definition ComparatorToRange ::
  "(string \<Rightarrow> VersionRange result) \<Rightarrow> string \<Rightarrow> VersionRange result" where
  "ComparatorToRange parse token =
     (let (op0, rest) = split_operator token in
      case ParsePartial rest of
        Inl _ \<Rightarrow> Fail InvalidRange
      | Inr pv \<Rightarrow>
          (let op = (if op0 = [] \<and> wildcard_tail pv then ''^partial-wildcard'' else op0) in
           if op = [] \<or> op = ''='' then
             (if is_full pv then Inr (VersionRange_Exact (FilledWithPrerelease pv))
              else (case (pv_major pv, pv_minor pv) of
                  (Some ma, Some mi) \<Rightarrow> parse (tilde_text ma (Some mi))
                | (Some ma, None) \<Rightarrow> parse (tilde_text ma None)
                | _ \<Rightarrow> Inr VersionRange_Any))
           else if op = ''*'' then Inr VersionRange_Any
           else if op = ''^'' then
             (case pv_major pv of
                None \<Rightarrow> Inr VersionRange_Any
              | Some maj \<Rightarrow> FromIntervals [caret_interval pv maj])
           else if op = ''~'' then
             (case pv_major pv of
                None \<Rightarrow> Inr VersionRange_Any
              | Some maj \<Rightarrow> FromIntervals [tilde_interval pv maj])
           else if op = ''^partial-wildcard'' then
             (case pv_major pv of
                None \<Rightarrow> Inr VersionRange_Any
              | Some ma \<Rightarrow> parse (tilde_text ma (pv_minor pv)))
           else if op = ''>'' then FromIntervals [greater_interval pv]
           else if op = ''>='' then
             FromIntervals [VersionInterval_Any\<lparr>low := Some (FilledWithPrerelease pv)\<rparr>]
           else if op = ''<'' then
             (case less_interval pv of Inl e \<Rightarrow> Inl e | Inr iv \<Rightarrow> FromIntervals [iv])
           else if op = ''<='' then
             (case less_eq_interval pv of Inl e \<Rightarrow> Inl e | Inr iv \<Rightarrow> FromIntervals [iv])
           else Fail InvalidRange))"

text \<open>The loop of \<open>ParseGroup\<close>: a hyphen range takes three tokens, a comparator one.\<close>

fun parse_group_loop ::
  "(string \<Rightarrow> VersionRange result) \<Rightarrow> VersionRange \<Rightarrow> string list \<Rightarrow> VersionRange result" where
  "parse_group_loop parse acc [] = Inr acc"
| "parse_group_loop parse acc (t # u # w # ts) =
     (if u = ''-'' then
        (case ParsePartial t of Inl e \<Rightarrow> Inl e
         | Inr lo \<Rightarrow>
           (case ParsePartial w of Inl e \<Rightarrow> Inl e
            | Inr hi \<Rightarrow>
              (case FromIntervals [VersionInterval_Any\<lparr>low := Some (FilledWithPrerelease lo),
                     high := Some (FilledWithPrerelease hi)\<rparr>] of
                 Inl e \<Rightarrow> Inl e
               | Inr piece \<Rightarrow> parse_group_loop parse (Intersect acc piece) ts)))
      else
        (case ComparatorToRange parse t of Inl e \<Rightarrow> Inl e
         | Inr piece \<Rightarrow> parse_group_loop parse (Intersect acc piece) (u # w # ts)))"
| "parse_group_loop parse acc (t # ts) =
     (case ComparatorToRange parse t of Inl e \<Rightarrow> Inl e
      | Inr piece \<Rightarrow> parse_group_loop parse (Intersect acc piece) ts)"

definition ParseGroup ::
  "(string \<Rightarrow> VersionRange result) \<Rightarrow> string list \<Rightarrow> VersionRange result" where
  "ParseGroup parse tokens = parse_group_loop parse VersionRange_Any tokens"

definition is_blank :: "char \<Rightarrow> bool" where
  "is_blank c = (c = CHR '' '' \<or> c = CHR 0x09)"

definition trim_blanks :: "string \<Rightarrow> string" where
  "trim_blanks t = rev (dropWhile is_blank (rev (dropWhile is_blank t)))"

text \<open>The alternatives, split on \<open>||\<close> or on a single \<open>|\<close>.\<close>

fun split_groups :: "string \<Rightarrow> string \<Rightarrow> string list" where
  "split_groups [] current = [current]"
| "split_groups (c # cs) current =
     (if c = CHR ''|'' then
        current # (if cs \<noteq> [] \<and> hd cs = CHR ''|'' then split_groups (tl cs) []
                   else split_groups cs [])
      else split_groups cs (current @ [c]))"

definition op_only :: "string \<Rightarrow> bool" where
  "op_only t = (t \<in> {''>'', ''>='', ''<'', ''<='', ''='', ''^'', ''~''})"

text \<open>An operator separated from its version by blanks is joined to it.\<close>

fun fold_operators :: "string list \<Rightarrow> string list" where
  "fold_operators (t # u # ts) =
     (if op_only t \<and> u \<noteq> ''-'' then (t @ u) # fold_operators ts
      else t # fold_operators (u # ts))"
| "fold_operators ts = ts"

fun parse_groups ::
  "(string \<Rightarrow> VersionRange result) \<Rightarrow> string list \<Rightarrow> VersionInterval list \<Rightarrow> VersionRange result" where
  "parse_groups parse [] all = FromIntervals all"
| "parse_groups parse (g # gs) all =
     (let folded = fold_operators (Tokenize g) in
      if folded = [] then Inr VersionRange_Any
      else if length folded > kMaxComparatorsPerGroup then Fail LimitExceeded
      else (case ParseGroup parse folded of
          Inl e \<Rightarrow> Inl e
        | Inr r \<Rightarrow> parse_groups parse gs (all @ r)))"

definition parse_range_with ::
  "(string \<Rightarrow> VersionRange result) \<Rightarrow> string \<Rightarrow> VersionRange result" where
  "parse_range_with parse t =
     (if length t > kMaxRangeTextLength then Fail LimitExceeded
      else let trimmed = trim_blanks t in
        if trimmed \<in> {[], ''*'', ''x'', ''X'', ''any''} then Inr VersionRange_Any
        else if trimmed = ''<none>'' then Inr []
        else let groups = split_groups trimmed [] in
          if length groups > kMaxRangeGroups then Fail LimitExceeded
          else parse_groups parse groups [])"

fun parse_range :: "nat \<Rightarrow> string \<Rightarrow> VersionRange result" where
  "parse_range 0 t = Inl Out_Of_Fuel"
| "parse_range (Suc n) t = parse_range_with (parse_range n) t"

definition VersionRange_Parse :: "string \<Rightarrow> VersionRange result" where
  "VersionRange_Parse t = parse_range 2 t"

section \<open>Bounds\<close>

lemma low_admits_iff:
  "low_admits iv v \<longleftrightarrow> (\<forall>l. low iv = Some l \<longrightarrow>
     Precedence l v = Less \<or> Precedence l v = Equal \<and> low_inclusive iv)"
proof (cases "low iv")
  case (Some l)
  then show ?thesis using prec.flip_cases [of l v] by (auto simp: low_admits_def)
qed (simp add: low_admits_def)

lemma high_admits_iff:
  "high_admits iv v \<longleftrightarrow> (\<forall>h. high iv = Some h \<longrightarrow>
     Precedence v h = Less \<or> Precedence v h = Equal \<and> high_inclusive iv)"
  by (auto simp: high_admits_def split: option.splits ordering.splits)

text \<open>Lower bounds and upper bounds as three-way comparisons, unbounded ends included.\<close>

definition opt_cmp :: "('a \<Rightarrow> 'a \<Rightarrow> ordering) \<Rightarrow> 'a option \<Rightarrow> 'a option \<Rightarrow> ordering" where
  "opt_cmp c x y =
     (case (x, y) of
        (None, None) \<Rightarrow> Equal | (None, Some _) \<Rightarrow> Less | (Some _, None) \<Rightarrow> Greater
      | (Some a, Some b) \<Rightarrow> c a b)"

lemma three_way_opt_cmp:
  assumes c: "three_way c"
  shows "three_way (opt_cmp c)"
proof
  fix x y
  show "opt_cmp c y x = flip_ord (opt_cmp c x y)"
    by (cases x; cases y) (auto simp: opt_cmp_def intro: three_way.cmp_flip [OF c])
next
  fix x y z
  assume "opt_cmp c x y \<noteq> Greater" "opt_cmp c y z \<noteq> Greater"
  then show "opt_cmp c x z \<noteq> Greater"
    using three_way.cmp_trans [OF c] by (auto simp: opt_cmp_def split: option.splits)
qed

definition low_cmp :: "VersionInterval \<Rightarrow> VersionInterval \<Rightarrow> ordering" where
  "low_cmp a b = then_cmp (opt_cmp Precedence (low a) (low b))
     (cmp_of (low a \<noteq> None \<and> \<not> low_inclusive a) (low b \<noteq> None \<and> \<not> low_inclusive b))"

definition high_key_cmp :: "VersionInterval \<Rightarrow> VersionInterval \<Rightarrow> ordering" where
  "high_key_cmp a b = then_cmp (opt_cmp Precedence (high a) (high b))
     (cmp_of (high a \<noteq> None \<and> high_inclusive a) (high b \<noteq> None \<and> high_inclusive b))"

interpretation low_cmp: three_way low_cmp
  unfolding low_cmp_def [abs_def]
  by (intro three_way_then three_way_on [OF three_way_cmp_of]
      three_way_on [OF three_way_opt_cmp [OF prec.three_way_axioms]])

interpretation interval_cmp: three_way "\<lambda>a b. then_cmp (low_cmp a b) (high_key_cmp a b)"
  unfolding high_key_cmp_def [abs_def]
  by (intro three_way_then low_cmp.three_way_axioms three_way_on [OF three_way_cmp_of]
      three_way_on [OF three_way_opt_cmp [OF prec.three_way_axioms]])

lemma interval_lt_iff: "interval_lt a b \<longleftrightarrow> then_cmp (low_cmp a b) (high_key_cmp a b) = Less"
  unfolding interval_lt_def low_cmp_def high_key_cmp_def opt_cmp_def then_cmp_Less
  by (cases "low a"; cases "low b"; cases "high a"; cases "high b") (auto simp: Let_def)

lemma sorted_kept:
  "sorted_wrt (\<lambda>a b. low_cmp a b \<noteq> Greater) (sort_by interval_lt ivs)"
proof -
  have lt: "interval_lt = (\<lambda>a b. then_cmp (low_cmp a b) (high_key_cmp a b) = Less)"
    by (intro ext) (rule interval_lt_iff)
  have "sorted_wrt (\<lambda>a b. \<not> interval_lt b a) (sort_by interval_lt ivs)"
    unfolding lt by (rule interval_cmp.ascending.sort_by_sorted)
  then show ?thesis
    by (rule sorted_wrt_mono_rel [rotated])
      (auto simp: interval_lt_iff then_cmp_Less low_cmp.less_iff_greater)
qed

lemma low_cmp_admits:
  assumes le: "low_cmp a b \<noteq> Greater" and b: "low_admits b v"
  shows "low_admits a v"
proof (cases "low a")
  case (Some x)
  then obtain y where y: "low b = Some y" and
    xy: "Precedence x y = Less \<or> Precedence x y = Equal \<and> (low_inclusive b \<longrightarrow> low_inclusive a)"
    using le by (auto simp: low_cmp_def opt_cmp_def then_cmp_Greater prec.not_greater
        split: option.splits)
  moreover have "Precedence y v = Less \<or> Precedence y v = Equal \<and> low_inclusive b"
    using b y by (auto simp: low_admits_iff)
  ultimately show ?thesis
    using Some by (auto simp: low_admits_iff dest: prec.trans_rules)
qed (simp add: low_admits_iff)

section \<open>Merging\<close>

definition bound_member :: "VersionInterval list \<Rightarrow> SemVersion \<Rightarrow> bool" where
  "bound_member ivs v = (\<exists>iv \<in> set ivs. ContainsBound iv v)"

lemma bound_member_simps [simp]:
  "\<not> bound_member [] v"
  "bound_member (iv # ivs) v \<longleftrightarrow> ContainsBound iv v \<or> bound_member ivs v"
  "bound_member (as @ bs) v \<longleftrightarrow> bound_member as v \<or> bound_member bs v"
  by (auto simp: bound_member_def)

text \<open>\<open>a\<close> ends before \<open>b\<close> begins, with a gap between them.\<close>

definition separated :: "VersionInterval \<Rightarrow> VersionInterval \<Rightarrow> bool" where
  "separated a b = (\<not> joins a b)"

definition canonical :: "VersionRange \<Rightarrow> bool" where
  "canonical r = (sorted_wrt separated r \<and> (\<forall>iv \<in> set r. \<not> StructurallyEmpty iv))"

text \<open>The loop of \<open>FromIntervals\<close> with the interval that is still growing apart.\<close>

fun absorb :: "VersionInterval \<Rightarrow> VersionInterval list \<Rightarrow> VersionInterval list" where
  "absorb cur [] = [cur]"
| "absorb cur (iv # ivs) =
     (if joins cur iv then absorb (extend_high cur iv) ivs else cur # absorb iv ivs)"

lemma merge_fold_absorb: "foldl merge_step (pre @ [cur]) ivs = pre @ absorb cur ivs"
proof (induction ivs arbitrary: pre cur)
  case (Cons iv ivs)
  show ?case
    using Cons.IH [of pre "extend_high cur iv"] Cons.IH [of "pre @ [cur]" iv]
    by (simp add: merge_step_def)
qed simp

lemma merge_fold: "foldl merge_step [] (iv # ivs) = absorb iv ivs"
  using merge_fold_absorb [of "[]" iv ivs] by (simp add: merge_step_def)

lemma extend_high_low [simp]:
  "low (extend_high a b) = low a" "low_inclusive (extend_high a b) = low_inclusive a"
  by (auto simp: extend_high_def split: option.splits ordering.splits)

lemma low_admits_extend [simp]: "low_admits (extend_high a b) v = low_admits a v"
  by (simp add: low_admits_iff)

lemma low_cmp_extend [simp]:
  "low_cmp (extend_high a b) c = low_cmp a c" "low_cmp c (extend_high a b) = low_cmp c a"
  by (simp_all add: low_cmp_def)

lemma high_admits_extend: "high_admits (extend_high a b) v \<longleftrightarrow> high_admits a v \<or> high_admits b v"
proof (cases "high a = None \<or> high b = None")
  case True
  then show ?thesis by (auto simp: extend_high_def high_admits_def split: option.splits)
next
  case False
  then obtain x y where h: "high a = Some x" "high b = Some y" by auto
  show ?thesis
  proof (cases "Precedence x y")
    case Less
    then show ?thesis using h by (auto simp: extend_high_def high_admits_iff dest: prec.trans_rules)
  next
    case Equal
    then show ?thesis
      using h prec.equal_cong_right [of x y v] by (auto simp: extend_high_def high_admits_iff)
  next
    case Greater
    then have "Precedence y x = Less" using prec.flip_cases [of x y] by auto
    then show ?thesis
      using h Greater by (auto simp: extend_high_def high_admits_iff dest: prec.trans_rules)
  qed
qed

text \<open>Past the end of \<open>a\<close>, every version lies above the lower end of an interval that joins it.\<close>

lemma joins_admits:
  assumes "joins a b" and "\<not> high_admits a v"
  shows "low_admits b v"
proof (cases "low b")
  case (Some l)
  then obtain h where h: "high a = Some h" using assms(2) by (cases "high a") (auto simp: high_admits_def)
  have "Precedence h v = Less \<or> Precedence h v = Equal \<and> \<not> high_inclusive a"
    using assms(2) h prec.flip_cases [of h v] by (auto simp: high_admits_iff)
  moreover have "Precedence l h = Less \<or> Precedence l h = Equal \<and> (high_inclusive a \<or> low_inclusive b)"
    using assms(1) h Some prec.flip_cases [of h l]
    by (auto simp: joins_def split: ordering.splits)
  ultimately show ?thesis
    using Some by (auto simp: low_admits_iff dest: prec.trans_rules)
qed (simp add: low_admits_iff)

lemma separated_admits:
  assumes "separated a b" and "low_admits b v"
  shows "\<not> high_admits a v"
proof -
  obtain h l where hl: "high a = Some h" "low b = Some l"
    and sep: "Precedence h l = Less \<or> Precedence h l = Equal \<and> \<not> high_inclusive a \<and> \<not> low_inclusive b"
    using assms(1) by (auto simp: separated_def joins_def split: option.splits ordering.splits)
  have "Precedence l v = Less \<or> Precedence l v = Equal \<and> low_inclusive b"
    using assms(2) hl by (simp add: low_admits_iff)
  then have "Precedence h v = Less"
    using sep by (auto dest: prec.trans_rules)
  then show ?thesis
    using hl prec.flip_cases [of h v] by (auto simp: high_admits_iff)
qed

lemma ContainsBound_extend:
  assumes "joins a b" and "low_cmp a b \<noteq> Greater"
  shows "ContainsBound (extend_high a b) v \<longleftrightarrow> ContainsBound a v \<or> ContainsBound b v"
  using joins_admits [OF assms(1)] low_cmp_admits [OF assms(2)]
  by (auto simp: ContainsBound_def high_admits_extend)

lemma bound_member_absorb:
  "sorted_wrt (\<lambda>a b. low_cmp a b \<noteq> Greater) (cur # ivs) \<Longrightarrow>
     bound_member (absorb cur ivs) v \<longleftrightarrow> bound_member (cur # ivs) v"
  by (induction cur ivs rule: absorb.induct) (auto simp: ContainsBound_extend)

lemma not_empty_iff:
  "\<not> StructurallyEmpty iv \<longleftrightarrow> (\<forall>l h. low iv = Some l \<longrightarrow> high iv = Some h \<longrightarrow>
     Precedence l h = Less \<or> Precedence l h = Equal \<and> low_inclusive iv \<and> high_inclusive iv)"
  by (auto simp: StructurallyEmpty_def split: option.splits ordering.splits)

lemma not_empty_extend:
  assumes "\<not> StructurallyEmpty a"
  shows "\<not> StructurallyEmpty (extend_high a b)"
proof (cases "high a = None \<or> high b = None")
  case True
  then show ?thesis by (auto simp: extend_high_def StructurallyEmpty_def split: option.splits)
next
  case False
  then obtain x y where h: "high a = Some x" "high b = Some y" by auto
  show ?thesis
    using assms h by (cases "Precedence x y")
      (auto simp: not_empty_iff extend_high_def dest: prec.trans_rules)
qed

lemma separated_mono:
  assumes "separated a b" and "low_cmp b c \<noteq> Greater"
  shows "separated a c"
proof -
  obtain h l where hl: "high a = Some h" "low b = Some l"
    and sep: "Precedence h l = Less \<or> Precedence h l = Equal \<and> \<not> high_inclusive a \<and> \<not> low_inclusive b"
    using assms(1) by (auto simp: separated_def joins_def split: option.splits ordering.splits)
  obtain k where k: "low c = Some k"
    and "Precedence l k = Less \<or> Precedence l k = Equal \<and> (low_inclusive c \<longrightarrow> low_inclusive b)"
    using assms(2) hl
    by (auto simp: low_cmp_def opt_cmp_def then_cmp_Greater prec.not_greater split: option.splits)
  then have "Precedence h k = Less \<or> Precedence h k = Equal \<and> \<not> high_inclusive a \<and> \<not> low_inclusive c"
    using sep by (auto dest: prec.trans_rules)
  then show ?thesis using hl k by (auto simp: separated_def joins_def)
qed

lemma absorb_low:
  "sorted_wrt (\<lambda>a b. low_cmp a b \<noteq> Greater) (cur # ivs) \<Longrightarrow> x \<in> set (absorb cur ivs) \<Longrightarrow>
     low_cmp cur x \<noteq> Greater"
proof (induction cur ivs rule: absorb.induct)
  case (2 cur iv ivs)
  then show ?case
    using low_cmp.cmp_trans [of cur iv x] by (auto split: if_splits)
qed simp

lemma absorb_canonical:
  "sorted_wrt (\<lambda>a b. low_cmp a b \<noteq> Greater) (cur # ivs) \<Longrightarrow>
     \<forall>iv \<in> set (cur # ivs). \<not> StructurallyEmpty iv \<Longrightarrow> canonical (absorb cur ivs)"
proof (induction cur ivs rule: absorb.induct)
  case (1 cur)
  then show ?case by (simp add: canonical_def)
next
  case (2 cur iv ivs)
  show ?case
  proof (cases "joins cur iv")
    case True
    then show ?thesis using 2 by (simp add: not_empty_extend)
  next
    case False
    have "separated cur x" if "x \<in> set (absorb iv ivs)" for x
      using False 2(3) that
      by (intro separated_mono [OF _ absorb_low [of iv ivs x]]) (auto simp: separated_def)
    then show ?thesis using 2 False by (auto simp: canonical_def)
  qed
qed

lemma FromIntervals_Inr: "\<exists>r. FromIntervals ivs = Inr r"
  by (simp add: FromIntervals_def Let_def)

lemma StructurallyEmpty_ContainsBound:
  assumes "StructurallyEmpty iv"
  shows "\<not> ContainsBound iv v"
proof
  assume "ContainsBound iv v"
  moreover obtain l h where lh: "low iv = Some l" "high iv = Some h"
    using assms by (auto simp: StructurallyEmpty_def split: option.splits)
  ultimately have "Precedence l v = Less \<or> Precedence l v = Equal \<and> low_inclusive iv"
    and "Precedence v h = Less \<or> Precedence v h = Equal \<and> high_inclusive iv"
    by (auto simp: ContainsBound_def low_admits_iff high_admits_iff)
  then have "Precedence l h = Less \<or> Precedence l h = Equal \<and> low_inclusive iv \<and> high_inclusive iv"
    by (auto dest: prec.trans_rules)
  then show False using assms lh by (auto simp: StructurallyEmpty_def)
qed

lemma FromIntervals_spec:
  assumes "FromIntervals ivs = Inr r"
  shows FromIntervals_canonical: "canonical r"
    and FromIntervals_member: "bound_member r v \<longleftrightarrow> bound_member ivs v"
proof -
  define kept where "kept = sort_by interval_lt (filter (\<lambda>iv. \<not> StructurallyEmpty iv) ivs)"
  have r: "r = foldl merge_step [] kept"
    using assms by (simp add: FromIntervals_def kept_def Let_def)
  have s: "sorted_wrt (\<lambda>a b. low_cmp a b \<noteq> Greater) kept"
    unfolding kept_def by (rule sorted_kept)
  have ne: "\<forall>iv \<in> set kept. \<not> StructurallyEmpty iv" by (simp add: kept_def)
  have m: "bound_member kept v \<longleftrightarrow> bound_member ivs v"
    by (auto simp: bound_member_def kept_def dest: StructurallyEmpty_ContainsBound)
  have "canonical r \<and> (bound_member r v \<longleftrightarrow> bound_member kept v)"
  proof (cases kept)
    case Nil
    then show ?thesis using r by (simp add: canonical_def)
  next
    case (Cons iv ivs')
    then have "r = absorb iv ivs'" using r merge_fold by simp
    then show ?thesis
      using absorb_canonical [of iv ivs'] bound_member_absorb [of iv ivs'] s ne Cons by simp
  qed
  then show "canonical r" and "bound_member r v \<longleftrightarrow> bound_member ivs v"
    using m by simp_all
qed

section \<open>Intersection\<close>

lemma low_admits_intersect:
  "low_admits (intersect_interval x y) v \<longleftrightarrow> low_admits x v \<and> low_admits y v"
proof (cases "low x = None \<or> low y = None")
  case True
  then show ?thesis
    by (auto simp: intersect_interval_def low_admits_iff split: option.splits prod.splits)
next
  case False
  then obtain a b where h: "low x = Some a" "low y = Some b" by auto
  have "low (intersect_interval x y) = (if Precedence a b = Less then low y else low x)"
    and "low_inclusive (intersect_interval x y) = (case Precedence a b of Less \<Rightarrow> low_inclusive y
      | Greater \<Rightarrow> low_inclusive x | Equal \<Rightarrow> low_inclusive x \<and> low_inclusive y)"
    using h by (cases "Precedence a b"; auto simp: intersect_interval_def split: prod.splits)+
  note res = this
  show ?thesis
  proof (cases "Precedence a b")
    case Less
    then show ?thesis using h res by (auto simp: low_admits_iff dest: prec.trans_rules)
  next
    case Equal
    then show ?thesis
      using h res prec.equal_cong_left [of a b v] by (auto simp: low_admits_iff)
  next
    case Greater
    then have "Precedence b a = Less" using prec.flip_cases [of a b] by auto
    then show ?thesis using h res Greater by (auto simp: low_admits_iff dest: prec.trans_rules)
  qed
qed

lemma high_admits_intersect:
  "high_admits (intersect_interval x y) v \<longleftrightarrow> high_admits x v \<and> high_admits y v"
proof (cases "high x = None \<or> high y = None")
  case True
  then show ?thesis
    by (auto simp: intersect_interval_def high_admits_iff split: option.splits prod.splits)
next
  case False
  then obtain a b where h: "high x = Some a" "high y = Some b" by auto
  have "high (intersect_interval x y) = (if Precedence a b = Greater then high y else high x)"
    and "high_inclusive (intersect_interval x y) = (case Precedence a b of Less \<Rightarrow> high_inclusive x
      | Greater \<Rightarrow> high_inclusive y | Equal \<Rightarrow> high_inclusive x \<and> high_inclusive y)"
    using h by (cases "Precedence a b"; auto simp: intersect_interval_def split: prod.splits)+
  note res = this
  show ?thesis
  proof (cases "Precedence a b")
    case Less
    then show ?thesis using h res by (auto simp: high_admits_iff dest: prec.trans_rules)
  next
    case Equal
    then show ?thesis
      using h res prec.equal_cong_right [of a b v] by (auto simp: high_admits_iff)
  next
    case Greater
    then have "Precedence b a = Less" using prec.flip_cases [of a b] by auto
    then show ?thesis using h res Greater by (auto simp: high_admits_iff dest: prec.trans_rules)
  qed
qed

lemma ContainsBound_intersect:
  "ContainsBound (intersect_interval x y) v \<longleftrightarrow> ContainsBound x v \<and> ContainsBound y v"
  by (auto simp: ContainsBound_def low_admits_intersect high_admits_intersect)

text \<open>An interval the sweep leaves behind meets none of the intervals still to come on the
  other side.\<close>

lemma advance_x_disjoint:
  assumes "advance_x x y" and "separated y z" and "ContainsBound x v"
  shows "\<not> ContainsBound z v"
proof -
  have "high_admits y v"
  proof (cases "high y")
    case (Some b)
    then obtain a where a: "high x = Some a"
      and "Precedence a b = Less \<or> Precedence a b = Equal \<and> \<not> high_inclusive x"
      using assms(1) by (auto simp: advance_x_def split: option.splits ordering.splits)
    moreover have "Precedence v a = Less \<or> Precedence v a = Equal \<and> high_inclusive x"
      using assms(3) a by (simp add: ContainsBound_def high_admits_iff)
    ultimately show ?thesis using Some by (auto simp: high_admits_iff dest: prec.trans_rules)
  qed (simp add: high_admits_iff)
  then show ?thesis using separated_admits [OF assms(2)] by (auto simp: ContainsBound_def)
qed

lemma advance_y_disjoint:
  assumes "\<not> advance_x x y" and "separated x z" and "ContainsBound y v"
  shows "\<not> ContainsBound z v"
proof -
  have "high_admits x v"
  proof (cases "high x")
    case (Some a)
    then obtain b where b: "high y = Some b"
      and "Precedence b a = Less \<or> Precedence b a = Equal \<and> high_inclusive x"
      using assms(1) prec.flip_cases [of a "the (high y)"]
      by (auto simp: advance_x_def split: option.splits ordering.splits)
    moreover have "Precedence v b = Less \<or> Precedence v b = Equal \<and> high_inclusive y"
      using assms(3) b by (simp add: ContainsBound_def high_admits_iff)
    ultimately show ?thesis using Some by (auto simp: high_admits_iff dest: prec.trans_rules)
  qed (simp add: high_admits_iff)
  then show ?thesis using separated_admits [OF assms(2)] by (auto simp: ContainsBound_def)
qed

lemma intersect_sweep_member:
  "sorted_wrt separated xs \<Longrightarrow> sorted_wrt separated ys \<Longrightarrow>
     bound_member (intersect_sweep xs ys) v \<longleftrightarrow> bound_member xs v \<and> bound_member ys v"
proof (induction xs ys rule: intersect_sweep.induct)
  case (1 x xs y ys)
  let ?rest = "if advance_x x y then intersect_sweep xs (y # ys) else intersect_sweep (x # xs) ys"
  have "bound_member (intersect_sweep (x # xs) (y # ys)) v \<longleftrightarrow>
      ContainsBound x v \<and> ContainsBound y v \<or> bound_member ?rest v"
    using StructurallyEmpty_ContainsBound [of "intersect_interval x y" v]
    by (auto simp: Let_def ContainsBound_intersect)
  moreover have "bound_member ?rest v \<or> ContainsBound x v \<and> ContainsBound y v \<longleftrightarrow>
      bound_member (x # xs) v \<and> bound_member (y # ys) v"
  proof (cases "advance_x x y")
    case True
    then have "ContainsBound x v \<Longrightarrow> \<not> bound_member ys v"
      using 1(4) advance_x_disjoint [OF True] by (auto simp: bound_member_def)
    then show ?thesis using 1 True by auto
  next
    case False
    then have "ContainsBound y v \<Longrightarrow> \<not> bound_member xs v"
      using 1(3) advance_y_disjoint [OF False] by (auto simp: bound_member_def)
    then show ?thesis using 1 False by auto
  qed
  ultimately show ?case by blast
qed (auto)

lemma Intersect_canonical: "canonical (Intersect a b)"
  using FromIntervals_Inr [of "intersect_sweep a b"]
  by (auto simp: Intersect_def dest: FromIntervals_canonical)

lemma bound_member_Intersect:
  "canonical a \<Longrightarrow> canonical b \<Longrightarrow>
     bound_member (Intersect a b) v \<longleftrightarrow> bound_member a v \<and> bound_member b v"
  using FromIntervals_Inr [of "intersect_sweep a b"]
  by (auto simp: Intersect_def FromIntervals_member intersect_sweep_member canonical_def)

lemma Union_canonical: "canonical (Union a b)"
  using FromIntervals_Inr [of "a @ b"] by (auto simp: Union_def dest: FromIntervals_canonical)

lemma bound_member_Union: "bound_member (Union a b) v \<longleftrightarrow> bound_member a v \<or> bound_member b v"
  using FromIntervals_Inr [of "a @ b"] by (auto simp: Union_def FromIntervals_member)

lemma Contains_bound: "VersionRange_Contains r v \<Longrightarrow> bound_member r v"
  by (auto simp: VersionRange_Contains_def bound_member_def list_ex_iff interval_Contains_def
      split: if_splits)

lemma Contains_release: "\<not> has_prerelease v \<Longrightarrow> VersionRange_Contains r v \<longleftrightarrow> bound_member r v"
  by (auto simp: VersionRange_Contains_def bound_member_def list_ex_iff interval_Contains_def)

lemma Overlaps_common:
  assumes "canonical a" and "canonical b" and "VersionRange_Contains a v" and "VersionRange_Contains b v"
  shows "Overlaps a b"
  using bound_member_Intersect [OF assms(1,2), of v] assms(3,4)
  by (auto simp: Overlaps_def dest: Contains_bound)

lemma canonical_simps [simp]:
  "canonical []" "canonical VersionRange_Any" "canonical (VersionRange_Exact v)"
  by (simp_all add: canonical_def VersionRange_Any_def VersionRange_Exact_def
      VersionInterval_Any_def VersionInterval_Exact_def StructurallyEmpty_def)

section \<open>Properties\<close>

text \<open>Building a range from any intervals never fails, and the range is canonical (its intervals
  sorted, non-empty and pairwise separated by a gap) and covers exactly the versions that lie
  within one of the given intervals.\<close>

theorem FromIntervals_refines_union:
  "\<exists>r. FromIntervals ivs = Inr r \<and> canonical r \<and> (\<forall>v. bound_member r v \<longleftrightarrow> bound_member ivs v)"
  using FromIntervals_Inr [of ivs] FromIntervals_canonical FromIntervals_member by blast

text \<open>C36. On canonical ranges the single-pass sweep computes the intersection: a release is
  admitted by \<open>Intersect a b\<close> exactly when both ranges admit it.\<close>

theorem Intersect_Contains:
  assumes "canonical a" and "canonical b" and "\<not> has_prerelease v"
  shows "VersionRange_Contains (Intersect a b) v \<longleftrightarrow>
    VersionRange_Contains a v \<and> VersionRange_Contains b v"
  using assms by (simp add: Contains_release bound_member_Intersect)

definition at_least :: "SemVersion \<Rightarrow> VersionInterval" where
  "at_least v = VersionInterval_Any\<lparr>low := Some v\<rparr>"

definition below :: "SemVersion \<Rightarrow> VersionInterval" where
  "below v = VersionInterval_Any\<lparr>high := Some v, high_inclusive := False\<rparr>"

lemma Intersect_Contains_witness:
  "VersionRange_Contains (Intersect [at_least (SemVersion_of 1 0 0)] [below (SemVersion_of 2 0 0)])
     (SemVersion_of 1 5 0)"
proof -
  have "canonical [at_least (SemVersion_of 1 0 0)]" and "canonical [below (SemVersion_of 2 0 0)]"
    and "\<not> has_prerelease (SemVersion_of 1 5 0)"
    by code_simp+
  note Intersect_Contains [OF this]
  moreover have "VersionRange_Contains [at_least (SemVersion_of 1 0 0)] (SemVersion_of 1 5 0)"
    and "VersionRange_Contains [below (SemVersion_of 2 0 0)] (SemVersion_of 1 5 0)"
    by code_simp+
  ultimately show ?thesis by simp
qed

text \<open>\<open>Overlaps\<close> misses no common version: whenever two canonical ranges both admit some
  version, prereleases included, they are reported to overlap.\<close>

theorem Overlaps_complete:
  assumes "canonical a" and "canonical b"
    and "VersionRange_Contains a v" and "VersionRange_Contains b v"
  shows "Overlaps a b"
  using assms by (rule Overlaps_common)

lemma Overlaps_complete_witness:
  "Overlaps [at_least (SemVersion_of 1 0 0)] [below (SemVersion_of 2 0 0)]"
  by (rule Overlaps_complete [where v = "SemVersion_of 1 5 0"]; code_simp)

text \<open>The subsumption test on intervals has the inclusive and exclusive ends the wrong way
  round: the open interval above 1.0.0 claims to subsume the closed one, which holds a version
  it does not, and the closed one denies subsuming the open one, all of whose versions it holds.\<close>

theorem interval_Subsumes_ends_swapped:
  "let closed_iv = at_least (SemVersion_of 1 0 0);
       open_iv = closed_iv\<lparr>low_inclusive := False\<rparr>
   in interval_Subsumes open_iv closed_iv \<and> interval_Contains closed_iv (SemVersion_of 1 0 0) \<and>
    \<not> interval_Contains open_iv (SemVersion_of 1 0 0) \<and> \<not> interval_Subsumes closed_iv open_iv"
  unfolding Let_def by (intro conjI; code_simp)

text \<open>C5. Joining intervals loses prereleases: \<open>[1.0.0, 2.0.0)\<close> and \<open>[1.5.0-rc.1, 3.0.0)\<close> are merged
  to one interval whose lower bound has no prerelease, so the union refuses \<open>1.5.0-rc.2\<close>, which
  the second range admits.\<close>

definition release_candidate :: "u32 \<Rightarrow> u32 \<Rightarrow> u32 \<Rightarrow> string \<Rightarrow> SemVersion" where
  "release_candidate ma mi pa n = (SemVersion_of ma mi pa)\<lparr>prerelease := [''rc'', n]\<rparr>"

theorem Union_loses_prereleases:
  "let a = [(below (SemVersion_of 2 0 0))\<lparr>low := Some (SemVersion_of 1 0 0)\<rparr>];
       b = [(below (SemVersion_of 3 0 0))\<lparr>low := Some (release_candidate 1 5 0 ''1'')\<rparr>];
       v = release_candidate 1 5 0 ''2''
   in VersionRange_Contains b v \<and> \<not> VersionRange_Contains (Union a b) v \<and> bound_member (Union a b) v"
  unfolding Let_def by (intro conjI; code_simp)

end
