(* ===== verification/Taxonomy.thy ===== *)
theory Taxonomy
  imports Json Range
begin

text \<open>
  The vocabulary of a registry generation (\<open>include/fcr/taxonomy.hpp\<close>,
  \<open>src/taxonomy.cpp\<close>): typed capability values and their comparisons, the sets a component
  observation is made of, and the taxonomy with its operations and its JSON form.
\<close>

section \<open>Capability values\<close>

datatype CapabilityType = FlagType | IntegerType | TextType | VersionType

fun CapabilityTypeName :: "CapabilityType \<Rightarrow> string" where
  "CapabilityTypeName FlagType = ''flag''"
| "CapabilityTypeName IntegerType = ''integer''"
| "CapabilityTypeName TextType = ''text''"
| "CapabilityTypeName VersionType = ''version''"

definition ParseCapabilityType :: "string \<Rightarrow> CapabilityType result" where
  "ParseCapabilityType t =
     (if t = ''flag'' then Inr FlagType
      else if t = ''integer'' then Inr IntegerType
      else if t = ''text'' then Inr TextType
      else if t = ''version'' then Inr VersionType
      else Fail InvalidCapabilityValue)"

datatype CapabilityValue = Flag bool | Integer int | Text string | Version SemVersion

fun value_type :: "CapabilityValue \<Rightarrow> CapabilityType" where
  "value_type (Flag _) = FlagType"
| "value_type (Integer _) = IntegerType"
| "value_type (Text _) = TextType"
| "value_type (Version _) = VersionType"

fun CapabilityValue_ToString :: "CapabilityValue \<Rightarrow> string" where
  "CapabilityValue_ToString (Flag b) = (if b then ''true'' else ''false'')"
| "CapabilityValue_ToString (Integer i) = int_to_string i"
| "CapabilityValue_ToString (Text t) = t"
| "CapabilityValue_ToString (Version v) = SemVersion_ToString v"

fun CapabilityValue_ToJson :: "CapabilityValue \<Rightarrow> JsonValue" where
  "CapabilityValue_ToJson (Flag b) = JBool b"
| "CapabilityValue_ToJson (Integer i) = JInt i"
| "CapabilityValue_ToJson (Text t) = JStr t"
| "CapabilityValue_ToJson (Version v) = JStr (SemVersion_ToString v)"

definition kMaxCapabilityTextBytes :: nat where "kMaxCapabilityTextBytes = 256"
definition kMaxCapabilityVersionsPerId :: nat where "kMaxCapabilityVersionsPerId = 64"

fun CapabilityValue_FromJson :: "CapabilityType \<Rightarrow> JsonValue \<Rightarrow> CapabilityValue result" where
  "CapabilityValue_FromJson FlagType j =
     (if \<not> IsBool j then Fail InvalidCapabilityValue else Inr (Flag (AsBool j False)))"
| "CapabilityValue_FromJson IntegerType j =
     (case AsInt j of None \<Rightarrow> Fail InvalidCapabilityValue | Some i \<Rightarrow> Inr (Integer i))"
| "CapabilityValue_FromJson TextType j =
     (case AsString j of
        None \<Rightarrow> Fail InvalidCapabilityValue
      | Some t \<Rightarrow> if length t > kMaxCapabilityTextBytes then Fail LimitExceeded else Inr (Text t))"
| "CapabilityValue_FromJson VersionType j =
     (case AsString j of
        None \<Rightarrow> Fail InvalidCapabilityValue
      | Some t \<Rightarrow> res_bind (SemVersion_Parse t) (\<lambda>v. Inr (Version v)))"

definition value_eq :: "CapabilityValue \<Rightarrow> CapabilityValue \<Rightarrow> bool" where
  "value_eq a b =
     (case (a, b) of
        (Flag x, Flag y) \<Rightarrow> x = y
      | (Integer x, Integer y) \<Rightarrow> x = y
      | (Text x, Text y) \<Rightarrow> x = y
      | (Version x, Version y) \<Rightarrow> Precedence x y = Equal
      | _ \<Rightarrow> False)"

section \<open>Comparison operators\<close>

datatype ComparisonOp = Eq | Ne | Lt | Le | Gt | Ge

fun ComparisonOpName :: "ComparisonOp \<Rightarrow> string" where
  "ComparisonOpName Eq = ''eq''"
| "ComparisonOpName Ne = ''ne''"
| "ComparisonOpName Lt = ''lt''"
| "ComparisonOpName Le = ''le''"
| "ComparisonOpName Gt = ''gt''"
| "ComparisonOpName Ge = ''ge''"

definition ParseComparisonOp :: "string \<Rightarrow> ComparisonOp result" where
  "ParseComparisonOp t =
     (if t = ''eq'' \<or> t = ''=='' \<or> t = ''='' then Inr Eq
      else if t = ''ne'' \<or> t = ''!='' then Inr Ne
      else if t = ''lt'' \<or> t = ''<'' then Inr Lt
      else if t = ''le'' \<or> t = ''<='' then Inr Le
      else if t = ''gt'' \<or> t = ''>'' then Inr Gt
      else if t = ''ge'' \<or> t = ''>='' then Inr Ge
      else Fail InvalidConstraint)"

fun ComparisonOpSupported :: "CapabilityType \<Rightarrow> ComparisonOp \<Rightarrow> bool" where
  "ComparisonOpSupported FlagType op = (op = Eq \<or> op = Ne)"
| "ComparisonOpSupported IntegerType op = True"
| "ComparisonOpSupported VersionType op = True"
| "ComparisonOpSupported TextType op = True"

text \<open>The six relations on a value of an ordered type and on a three-way result.\<close>

fun apply_linear :: "ComparisonOp \<Rightarrow> 'a::linorder \<Rightarrow> 'a \<Rightarrow> bool" where
  "apply_linear Eq a b = (a = b)"
| "apply_linear Ne a b = (a \<noteq> b)"
| "apply_linear Lt a b = (a < b)"
| "apply_linear Le a b = (a \<le> b)"
| "apply_linear Gt a b = (a > b)"
| "apply_linear Ge a b = (a \<ge> b)"

fun apply_ordering :: "ComparisonOp \<Rightarrow> ordering \<Rightarrow> bool" where
  "apply_ordering Eq c = (c = Equal)"
| "apply_ordering Ne c = (c \<noteq> Equal)"
| "apply_ordering Lt c = (c = Less)"
| "apply_ordering Le c = (c \<noteq> Greater)"
| "apply_ordering Gt c = (c = Greater)"
| "apply_ordering Ge c = (c \<noteq> Less)"

definition ApplyComparison :: "ComparisonOp \<Rightarrow> CapabilityValue \<Rightarrow> CapabilityValue \<Rightarrow> bool" where
  "ApplyComparison op lhs rhs =
     (case (lhs, rhs) of
        (Flag a, Flag b) \<Rightarrow> if op = Eq then a = b else if op = Ne then a \<noteq> b else False
      | (Integer a, Integer b) \<Rightarrow> apply_linear op a b
      | (Text a, Text b) \<Rightarrow> apply_linear op a b
      | (Version a, Version b) \<Rightarrow> apply_ordering op (Precedence a b)
      | _ \<Rightarrow> False)"

section \<open>Knowledge and support sets\<close>

datatype KnowledgeClosure = Open | Closed

fun KnowledgeClosureName :: "KnowledgeClosure \<Rightarrow> string" where
  "KnowledgeClosureName Closed = ''closed''"
| "KnowledgeClosureName Open = ''open''"

definition ParseKnowledgeClosure :: "string \<Rightarrow> KnowledgeClosure result" where
  "ParseKnowledgeClosure t =
     (if t = ''closed'' then Inr Closed else if t = ''open'' then Inr Open else Fail InvalidDocument)"

record KnowledgeProfile =
  kn_capabilities :: KnowledgeClosure
  kn_protocols :: KnowledgeClosure
  kn_schemas :: KnowledgeClosure

definition KnowledgeProfile_default :: KnowledgeProfile where
  "KnowledgeProfile_default = \<lparr>kn_capabilities = Open, kn_protocols = Open, kn_schemas = Open\<rparr>"

definition AllClosed :: "KnowledgeProfile \<Rightarrow> bool" where
  "AllClosed k = (kn_capabilities k = Closed \<and> kn_protocols k = Closed \<and> kn_schemas k = Closed)"

type_synonym CapabilitySet = "(CapabilityId, CapabilityValue) omap"
type_synonym ProtocolSupportSet = "(ProtocolId, SemVersion list) omap"
type_synonym SchemaSupportSet = "(SchemaId, SemVersion list) omap"
type_synonym FeatureSet = "(FeatureId, unit) omap"

definition CapabilitySet_Set :: "CapabilitySet \<Rightarrow> CapabilityId \<Rightarrow> CapabilityValue \<Rightarrow> CapabilitySet result" where
  "CapabilitySet_Set s i v = Inr (omap_put i v s)"

text \<open>\<open>std::unique\<close>: an element equivalent to the last one kept is dropped.\<close>

fun unique_by :: "('a \<Rightarrow> 'a \<Rightarrow> bool) \<Rightarrow> 'a list \<Rightarrow> 'a list" where
  "unique_by eq (x # y # ys) =
     (if eq x y then unique_by eq (x # ys) else x # unique_by eq (y # ys))"
| "unique_by eq xs = xs"

definition normalize_versions :: "SemVersion list \<Rightarrow> SemVersion list" where
  "normalize_versions vs =
     unique_by (\<lambda>a b. Precedence a b = Equal) (sort_by (\<lambda>a b. TotalOrder a b = Less) vs)"

definition SetSupport :: "('k::linorder, SemVersion list) omap \<Rightarrow> 'k \<Rightarrow> SemVersion list \<Rightarrow>
    ('k, SemVersion list) omap result" where
  "SetSupport target i versions =
     (if versions = [] then Fail InvalidDocument
      else if length versions > kMaxCapabilityVersionsPerId then Fail LimitExceeded
      else Inr (omap_put i (normalize_versions versions) target))"

definition ProtocolSupportSet_Set ::
  "ProtocolSupportSet \<Rightarrow> ProtocolId \<Rightarrow> SemVersion list \<Rightarrow> ProtocolSupportSet result" where
  "ProtocolSupportSet_Set = SetSupport"

definition SchemaSupportSet_Set ::
  "SchemaSupportSet \<Rightarrow> SchemaId \<Rightarrow> SemVersion list \<Rightarrow> SchemaSupportSet result" where
  "SchemaSupportSet_Set = SetSupport"

definition FeatureSet_Add :: "FeatureSet \<Rightarrow> FeatureId \<Rightarrow> FeatureSet" where
  "FeatureSet_Add s i = omap_put i () s"

definition FeatureSet_Remove :: "FeatureSet \<Rightarrow> FeatureId \<Rightarrow> FeatureSet" where
  "FeatureSet_Remove s i = omap_erase i s"

section \<open>The taxonomy\<close>

record KindDescriptor =
  kind_family :: ComponentFamilyId
  kind_description :: string

record CapabilityDeclaration =
  decl_type :: CapabilityType
  decl_description :: string

text \<open>The descriptors of the other five tables hold a description only; each identifier is the
  key of its entry.\<close>

record Taxonomy =
  families :: "(ComponentFamilyId, string) omap"
  kinds :: "(ComponentKindId, KindDescriptor) omap"
  protocols :: "(ProtocolId, string) omap"
  schemas :: "(SchemaId, string) omap"
  hardware_classes :: "(HardwareClassId, string) omap"
  features :: "(FeatureId, string) omap"
  capabilities :: "(CapabilityId, CapabilityDeclaration) omap"

definition Taxonomy_empty :: Taxonomy where
  "Taxonomy_empty = \<lparr>families = [], kinds = [], protocols = [], schemas = [], hardware_classes = [],
     features = [], capabilities = []\<rparr>"

definition add_entry :: "'k::linorder \<Rightarrow> 'v \<Rightarrow> ('k, 'v) omap \<Rightarrow> ('k, 'v) omap result" where
  "add_entry i d m = (if omap_has m i then Fail DuplicateIdentity else Inr (omap_put i d m))"

definition AddFamily :: "Taxonomy \<Rightarrow> ComponentFamilyId \<Rightarrow> string \<Rightarrow> Taxonomy result" where
  "AddFamily t i d = res_bind (add_entry i d (families t)) (\<lambda>m. Inr (t\<lparr>families := m\<rparr>))"

definition AddKind :: "Taxonomy \<Rightarrow> ComponentKindId \<Rightarrow> KindDescriptor \<Rightarrow> Taxonomy result" where
  "AddKind t i d = res_bind (add_entry i d (kinds t)) (\<lambda>m. Inr (t\<lparr>kinds := m\<rparr>))"

definition AddProtocol :: "Taxonomy \<Rightarrow> ProtocolId \<Rightarrow> string \<Rightarrow> Taxonomy result" where
  "AddProtocol t i d = res_bind (add_entry i d (protocols t)) (\<lambda>m. Inr (t\<lparr>protocols := m\<rparr>))"

definition AddSchema :: "Taxonomy \<Rightarrow> SchemaId \<Rightarrow> string \<Rightarrow> Taxonomy result" where
  "AddSchema t i d = res_bind (add_entry i d (schemas t)) (\<lambda>m. Inr (t\<lparr>schemas := m\<rparr>))"

definition AddHardwareClass :: "Taxonomy \<Rightarrow> HardwareClassId \<Rightarrow> string \<Rightarrow> Taxonomy result" where
  "AddHardwareClass t i d =
     res_bind (add_entry i d (hardware_classes t)) (\<lambda>m. Inr (t\<lparr>hardware_classes := m\<rparr>))"

definition AddFeature :: "Taxonomy \<Rightarrow> FeatureId \<Rightarrow> string \<Rightarrow> Taxonomy result" where
  "AddFeature t i d = res_bind (add_entry i d (features t)) (\<lambda>m. Inr (t\<lparr>features := m\<rparr>))"

definition AddCapability :: "Taxonomy \<Rightarrow> CapabilityId \<Rightarrow> CapabilityDeclaration \<Rightarrow> Taxonomy result" where
  "AddCapability t i d =
     res_bind (add_entry i d (capabilities t)) (\<lambda>m. Inr (t\<lparr>capabilities := m\<rparr>))"

definition HasFamily :: "Taxonomy \<Rightarrow> ComponentFamilyId \<Rightarrow> bool" where
  "HasFamily t i = omap_has (families t) i"

definition HasKind :: "Taxonomy \<Rightarrow> ComponentKindId \<Rightarrow> bool" where
  "HasKind t i = omap_has (kinds t) i"

definition HasProtocol :: "Taxonomy \<Rightarrow> ProtocolId \<Rightarrow> bool" where
  "HasProtocol t i = omap_has (protocols t) i"

definition HasSchema :: "Taxonomy \<Rightarrow> SchemaId \<Rightarrow> bool" where
  "HasSchema t i = omap_has (schemas t) i"

definition HasHardwareClass :: "Taxonomy \<Rightarrow> HardwareClassId \<Rightarrow> bool" where
  "HasHardwareClass t i = omap_has (hardware_classes t) i"

definition HasFeature :: "Taxonomy \<Rightarrow> FeatureId \<Rightarrow> bool" where
  "HasFeature t i = omap_has (features t) i"

definition HasCapability :: "Taxonomy \<Rightarrow> CapabilityId \<Rightarrow> bool" where
  "HasCapability t i = omap_has (capabilities t) i"

definition FindKind :: "Taxonomy \<Rightarrow> ComponentKindId \<Rightarrow> KindDescriptor option" where
  "FindKind t i = omap_get (kinds t) i"

definition FindCapability :: "Taxonomy \<Rightarrow> CapabilityId \<Rightarrow> CapabilityDeclaration option" where
  "FindCapability t i = omap_get (capabilities t) i"

definition TotalEntries :: "Taxonomy \<Rightarrow> nat" where
  "TotalEntries t = length (families t) + length (kinds t) + length (protocols t) +
     length (schemas t) + length (hardware_classes t) + length (features t) + length (capabilities t)"

section \<open>JSON\<close>

record TaxonomyLimits =
  max_families :: nat
  max_kinds :: nat
  max_protocols :: nat
  max_schemas :: nat
  max_hardware_classes :: nat
  max_features :: nat
  max_capabilities :: nat

definition TaxonomyLimits_default :: TaxonomyLimits where
  "TaxonomyLimits_default = \<lparr>max_families = 256, max_kinds = 1024, max_protocols = 512,
     max_schemas = 512, max_hardware_classes = 256, max_features = 1024, max_capabilities = 4096\<rparr>"

fun read_entries :: "(JsonValue \<Rightarrow> string \<Rightarrow> string \<Rightarrow> 't \<Rightarrow> 't result) \<Rightarrow> JsonValue list \<Rightarrow> 't \<Rightarrow> 't result" where
  "read_entries add [] t = Inr t"
| "read_entries add (e # es) t =
     (if \<not> IsObject e then Fail InvalidDocument
      else res_bind (RequireString e ''id'') (\<lambda>i.
        res_bind (OptionalString e ''description'' []) (\<lambda>d.
          res_bind (add e i d t) (read_entries add es))))"

definition read_ids :: "JsonValue \<Rightarrow> string \<Rightarrow> nat \<Rightarrow>
    (JsonValue \<Rightarrow> string \<Rightarrow> string \<Rightarrow> 't \<Rightarrow> 't result) \<Rightarrow> 't \<Rightarrow> 't result" where
  "read_ids j key cap add t =
     (case Find j key of
        None \<Rightarrow> Inr t
      | Some field \<Rightarrow>
          (case AsArray field of
             None \<Rightarrow> Fail InvalidDocument
           | Some entries \<Rightarrow>
               if length entries > cap then Fail LimitExceeded else read_entries add entries t))"

definition read_simple :: "IdGrammar \<Rightarrow> (Taxonomy \<Rightarrow> 'tag TypedId \<Rightarrow> string \<Rightarrow> Taxonomy result) \<Rightarrow>
    JsonValue \<Rightarrow> string \<Rightarrow> string \<Rightarrow> Taxonomy \<Rightarrow> Taxonomy result" where
  "read_simple g add e i d t = res_bind (TypedId_Parse g i) (\<lambda>x. add t x d)"

definition read_kind :: "JsonValue \<Rightarrow> string \<Rightarrow> string \<Rightarrow> Taxonomy \<Rightarrow> Taxonomy result" where
  "read_kind e i d t =
     res_bind (TypedId_Parse QualifiedName i) (\<lambda>x.
     res_bind (RequireString e ''family'') (\<lambda>f.
     res_bind (TypedId_Parse QualifiedName f) (\<lambda>fam.
       AddKind t x \<lparr>kind_family = fam, kind_description = d\<rparr>)))"

definition read_capability :: "JsonValue \<Rightarrow> string \<Rightarrow> string \<Rightarrow> Taxonomy \<Rightarrow> Taxonomy result" where
  "read_capability e i d t =
     res_bind (TypedId_Parse QualifiedName i) (\<lambda>x.
     res_bind (RequireString e ''type'') (\<lambda>ty.
     res_bind (ParseCapabilityType ty) (\<lambda>c.
       AddCapability t x \<lparr>decl_type = c, decl_description = d\<rparr>)))"

definition ParseTaxonomy :: "JsonValue \<Rightarrow> TaxonomyLimits \<Rightarrow> Taxonomy result" where
  "ParseTaxonomy j lim =
     (if \<not> IsObject j then Fail InvalidDocument
      else
        res_bind (read_ids j ''families'' (max_families lim) (read_simple QualifiedName AddFamily) Taxonomy_empty) (\<lambda>t.
        res_bind (read_ids j ''kinds'' (max_kinds lim) read_kind t) (\<lambda>t.
        res_bind (read_ids j ''protocols'' (max_protocols lim) (read_simple QualifiedName AddProtocol) t) (\<lambda>t.
        res_bind (read_ids j ''schemas'' (max_schemas lim) (read_simple QualifiedName AddSchema) t) (\<lambda>t.
        res_bind (read_ids j ''hardware_classes'' (max_hardware_classes lim)
            (read_simple QualifiedName AddHardwareClass) t) (\<lambda>t.
        res_bind (read_ids j ''features'' (max_features lim) (read_simple QualifiedName AddFeature) t) (\<lambda>t.
          read_ids j ''capabilities'' (max_capabilities lim) read_capability t)))))))"

definition set_description :: "string \<Rightarrow> JsonValue \<Rightarrow> JsonValue" where
  "set_description d e = (if d \<noteq> [] then Set e ''description'' (JStr d) else e)"

definition simple_entry :: "'tag TypedId \<Rightarrow> string \<Rightarrow> JsonValue" where
  "simple_entry i d = set_description d (Set (JObj []) ''id'' (JStr (id_value i)))"

definition kind_entry :: "ComponentKindId \<Rightarrow> KindDescriptor \<Rightarrow> JsonValue" where
  "kind_entry i k = set_description (kind_description k)
     (Set (Set (JObj []) ''id'' (JStr (id_value i))) ''family'' (JStr (id_value (kind_family k))))"

definition capability_entry :: "CapabilityId \<Rightarrow> CapabilityDeclaration \<Rightarrow> JsonValue" where
  "capability_entry i c = set_description (decl_description c)
     (Set (Set (JObj []) ''id'' (JStr (id_value i))) ''type'' (JStr (CapabilityTypeName (decl_type c))))"

definition entries_json :: "('k \<Rightarrow> 'v \<Rightarrow> JsonValue) \<Rightarrow> ('k, 'v) omap \<Rightarrow> JsonValue" where
  "entries_json entry m = JArr (map (\<lambda>(k, v). entry k v) m)"

definition TaxonomyToJson :: "Taxonomy \<Rightarrow> JsonValue" where
  "TaxonomyToJson t =
     Set (Set (Set (Set (Set (Set (Set (JObj [])
       ''families'' (entries_json simple_entry (families t)))
       ''kinds'' (entries_json kind_entry (kinds t)))
       ''protocols'' (entries_json simple_entry (protocols t)))
       ''schemas'' (entries_json simple_entry (schemas t)))
       ''hardware_classes'' (entries_json simple_entry (hardware_classes t)))
       ''features'' (entries_json simple_entry (features t)))
       ''capabilities'' (entries_json capability_entry (capabilities t))"

section \<open>Names are read back\<close>

lemma ParseCapabilityType_Name [simp]: "ParseCapabilityType (CapabilityTypeName c) = Inr c"
  by (cases c) (simp_all add: ParseCapabilityType_def)

lemma ParseComparisonOp_Name [simp]: "ParseComparisonOp (ComparisonOpName c) = Inr c"
  by (cases c) (simp_all add: ParseComparisonOp_def)

lemma ParseKnowledgeClosure_Name [simp]: "ParseKnowledgeClosure (KnowledgeClosureName c) = Inr c"
  by (cases c) (simp_all add: ParseKnowledgeClosure_def)

section \<open>Supported versions\<close>

lemma unique_by_hd: "xs \<noteq> [] \<Longrightarrow> unique_by eq xs \<noteq> [] \<and> hd (unique_by eq xs) = hd xs"
  by (induction eq xs rule: unique_by.induct) auto

lemma set_unique_by: "set (unique_by eq xs) \<subseteq> set xs"
  by (induction eq xs rule: unique_by.induct) auto

text \<open>In a list that ascends, dropping equivalent neighbours leaves one element of each class.\<close>

lemma unique_by_ascending:
  assumes "sorted_wrt (\<lambda>a b. TotalOrder a b \<noteq> Greater) vs"
  shows "sorted_wrt (\<lambda>a b. Precedence a b = Less) (unique_by (\<lambda>a b. Precedence a b = Equal) vs) \<and>
    (\<forall>v \<in> set vs. \<exists>w \<in> set (unique_by (\<lambda>a b. Precedence a b = Equal) vs). Precedence w v = Equal)"
  using assms
proof (induction "\<lambda>a b. Precedence a b = Equal" vs rule: unique_by.induct)
  case (1 x y ys)
  have le: "Precedence a b \<noteq> Greater" if "TotalOrder a b \<noteq> Greater" for a b
    using that by (auto simp: TotalOrder_then then_cmp_Greater)
  show ?case
  proof (cases "Precedence x y = Equal")
    case True
    have "sorted_wrt (\<lambda>a b. TotalOrder a b \<noteq> Greater) (x # ys)" using 1(3) by simp
    note ih = 1(1) [OF True this]
    have "\<exists>w \<in> set (unique_by (\<lambda>a b. Precedence a b = Equal) (x # ys)). Precedence w y = Equal"
      using ih True by (auto intro: prec.equal_trans)
    then show ?thesis using ih True by auto
  next
    case False
    let ?u = "unique_by (\<lambda>a b. Precedence a b = Equal) (y # ys)"
    have "sorted_wrt (\<lambda>a b. TotalOrder a b \<noteq> Greater) (y # ys)" using 1(3) by simp
    note ih = 1(2) [OF False this]
    have xy: "Precedence x y = Less" using False 1(3) le [of x y] by (auto simp: prec.not_greater)
    have "Precedence x w = Less" if "w \<in> set ?u" for w
    proof -
      have "w \<in> set (y # ys)" using that set_unique_by [of _ "y # ys"] by blast
      then have "Precedence y w \<noteq> Greater" using 1(3) le by auto
      then show ?thesis using xy prec.less_le_trans by blast
    qed
    then show ?thesis using ih False by auto
  qed
qed auto

lemma sorted_TotalOrder: "sorted_wrt (\<lambda>a b. TotalOrder a b \<noteq> Greater) (sort_by (\<lambda>a b. TotalOrder a b = Less) vs)"
  using total.ascending.sort_by_sorted [of vs]
  by (rule sorted_wrt_mono_rel [rotated]) (simp add: total.less_iff_greater)

text \<open>A supported-version list is stored in strictly ascending precedence, so no release occurs
  twice, and it supports exactly the releases it was given; empty and over-long lists are
  refused.\<close>

theorem SetSupport_spec:
  "case SetSupport m i vs of
     Inl e \<Rightarrow> vs = [] \<or> length vs > kMaxCapabilityVersionsPerId
   | Inr m' \<Rightarrow> \<exists>ws. omap_get m' = (omap_get m)(i \<mapsto> ws) \<and> ws \<noteq> [] \<and>
       sorted_wrt (\<lambda>a b. Precedence a b = Less) ws \<and>
       (\<forall>v. (\<exists>w \<in> set ws. SameRelease w v) \<longleftrightarrow> (\<exists>w \<in> set vs. SameRelease w v))"
proof (cases "vs = [] \<or> length vs > kMaxCapabilityVersionsPerId")
  case False
  let ?s = "sort_by (\<lambda>a b. TotalOrder a b = Less) vs"
  let ?ws = "normalize_versions vs"
  note u = unique_by_ascending [OF sorted_TotalOrder [of vs], folded normalize_versions_def]
  have "set ?ws \<subseteq> set vs" using set_unique_by [of _ ?s] by (auto simp: normalize_versions_def)
  then have "(\<exists>w \<in> set ?ws. SameRelease w v) \<longleftrightarrow> (\<exists>w \<in> set vs. SameRelease w v)" for v
    using u [simplified] unfolding SameRelease_def by (meson prec.equal_trans subsetD)
  moreover have "?ws \<noteq> []"
    using unique_by_hd [of ?s] False by (simp add: normalize_versions_def)
  ultimately show ?thesis using u False by (auto simp: SetSupport_def omap_simps)
qed (auto simp: SetSupport_def)

section \<open>Tables\<close>

lemma omap_put_snoc: "\<forall>e \<in> set m. fst e < k \<Longrightarrow> omap_put k v m = m @ [(k, v)]"
  by (induction m) auto

lemma add_entry_Inr: "add_entry i d m = Inr m' \<longleftrightarrow> \<not> omap_has m i \<and> m' = omap_put i d m"
  by (auto simp: add_entry_def)

lemma add_entry_snoc:
  assumes "omap_ok (m @ (k, v) # m')"
  shows "add_entry k v m = Inr (m @ [(k, v)])"
proof -
  have less: "\<forall>e \<in> set m. fst e < k" using assms by (simp add: omap_ok_def sorted_wrt_append)
  then have "\<not> omap_has m k" by (auto simp: omap_has_def omap_get_def map_of_eq_None_iff)
  then show ?thesis using less by (simp add: add_entry_def omap_put_snoc)
qed

text \<open>Reading back a printed table, for any table of the taxonomy.\<close>

lemma read_entries_table:
  assumes entry: "\<And>k v t. (k, v) \<in> set m \<Longrightarrow> IsObject (entry k v) \<and>
      (\<exists>i d. RequireString (entry k v) ''id'' = Inr i \<and> OptionalString (entry k v) ''description'' [] = Inr d \<and>
        add (entry k v) i d t = res_bind (add_entry k v (sel t)) (\<lambda>m. Inr (upd m t)))"
    and lens: "\<And>m t. sel (upd m t) = m" "\<And>m m' t. upd m (upd m' t) = upd m t" "\<And>t. upd (sel t) t = t"
    and ok: "omap_ok (sel t @ m)"
  shows "read_entries add (map (\<lambda>(k, v). entry k v) m) t = Inr (upd (sel t @ m) t)"
  using entry ok
proof (induction m arbitrary: t)
  case Nil
  then show ?case by (simp add: lens)
next
  case (Cons kv m)
  obtain k v where kv: "kv = (k, v)" by fastforce
  obtain i d where e: "IsObject (entry k v)" "RequireString (entry k v) ''id'' = Inr i"
      "OptionalString (entry k v) ''description'' [] = Inr d"
      "add (entry k v) i d t = res_bind (add_entry k v (sel t)) (\<lambda>m. Inr (upd m t))"
    using Cons.prems(1) [of k v t] kv by auto
  have "add_entry k v (sel t) = Inr (sel t @ [(k, v)])"
    using Cons.prems(2) kv by (intro add_entry_snoc) simp
  then have "add (entry k v) i d t = Inr (upd (sel t @ [(k, v)]) t)" using e(4) by simp
  moreover have "read_entries add (map (\<lambda>(k, v). entry k v) m) (upd (sel t @ [(k, v)]) t) =
      Inr (upd (sel t @ kv # m) t)"
    using Cons.IH [of "upd (sel t @ [(k, v)]) t"] Cons.prems kv by (simp add: lens)
  ultimately show ?case using e kv by simp
qed

section \<open>The taxonomy survives its JSON form\<close>

definition id_ok :: "'tag TypedId \<Rightarrow> bool" where
  "id_ok i = has_value (ValidateIdText QualifiedName (id_value i))"

definition table_ok :: "nat \<Rightarrow> ('tag TypedId, 'v) omap \<Rightarrow> bool" where
  "table_ok cap m = (omap_ok m \<and> length m \<le> cap \<and> (\<forall>e \<in> set m. id_ok (fst e)))"

definition taxonomy_ok :: "TaxonomyLimits \<Rightarrow> Taxonomy \<Rightarrow> bool" where
  "taxonomy_ok lim t =
     (table_ok (max_families lim) (families t) \<and> table_ok (max_kinds lim) (kinds t) \<and>
      (\<forall>e \<in> set (kinds t). id_ok (kind_family (snd e))) \<and>
      table_ok (max_protocols lim) (protocols t) \<and> table_ok (max_schemas lim) (schemas t) \<and>
      table_ok (max_hardware_classes lim) (hardware_classes t) \<and>
      table_ok (max_features lim) (features t) \<and> table_ok (max_capabilities lim) (capabilities t))"

lemma TypedId_Parse_ok: "TypedId_Parse QualifiedName s = Inr i \<longleftrightarrow> id_ok i \<and> s = id_value i"
  by (cases i) (auto simp: TypedId_Parse_def id_ok_def has_value_iff split: sum.splits)

lemma entry_fields [json_simps]:
  "Find (set_description d e) ''id'' = (if d \<noteq> [] then Find (Set e ''description'' (JStr d)) ''id'' else Find e ''id'')"
  by (simp add: set_description_def)

lemma set_description_facts:
  assumes "json_object e" and "Find e ''description'' = None" and "Find e ''id'' = Some (JStr i)"
  shows "IsObject (set_description d e)"
    and "RequireString (set_description d e) ''id'' = Inr i"
    and "OptionalString (set_description d e) ''description'' [] = Inr d"
    and "k \<noteq> ''description'' \<Longrightarrow> Find (set_description d e) k = Find e k"
proof -
  have o: "IsObject (set_description d e)" and f: "Find (set_description d e) ''id'' = Some (JStr i)"
    and g: "Find (set_description d e) ''description'' = (if d = [] then None else Some (JStr d))"
    using assms by (auto simp: set_description_def json_simps json_object_IsObject)
  show "IsObject (set_description d e)" by (rule o)
  show "RequireString (set_description d e) ''id'' = Inr i" using o f by (rule RequireString_Find)
  show "OptionalString (set_description d e) ''description'' [] = Inr d"
    using g by (auto simp: OptionalString_Find split: if_splits)
  show "k \<noteq> ''description'' \<Longrightarrow> Find (set_description d e) k = Find e k"
    using assms by (auto simp: set_description_def json_simps)
qed

lemma simple_entry_reads:
  "IsObject (simple_entry i d) \<and> RequireString (simple_entry i d) ''id'' = Inr (id_value i) \<and>
     OptionalString (simple_entry i d) ''description'' [] = Inr d"
  unfolding simple_entry_def
  by (intro conjI set_description_facts) (simp_all add: json_simps)

lemma kind_entry_reads:
  "IsObject (kind_entry i k) \<and> RequireString (kind_entry i k) ''id'' = Inr (id_value i) \<and>
     OptionalString (kind_entry i k) ''description'' [] = Inr (kind_description k) \<and>
     RequireString (kind_entry i k) ''family'' = Inr (id_value (kind_family k))"
proof -
  let ?e = "Set (Set (JObj []) ''id'' (JStr (id_value i))) ''family'' (JStr (id_value (kind_family k)))"
  have e: "json_object ?e" "Find ?e ''description'' = None" "Find ?e ''id'' = Some (JStr (id_value i))"
    "Find ?e ''family'' = Some (JStr (id_value (kind_family k)))"
    by (simp_all add: json_simps)
  note facts = set_description_facts [OF e(1-3), where d = "kind_description k"]
  show ?thesis
    using facts(1-3) facts(4) [where k = "''family''"] e(4) unfolding kind_entry_def
    by (auto intro: RequireString_Find)
qed

lemma capability_entry_reads:
  "IsObject (capability_entry i c) \<and> RequireString (capability_entry i c) ''id'' = Inr (id_value i) \<and>
     OptionalString (capability_entry i c) ''description'' [] = Inr (decl_description c) \<and>
     RequireString (capability_entry i c) ''type'' = Inr (CapabilityTypeName (decl_type c))"
proof -
  let ?e = "Set (Set (JObj []) ''id'' (JStr (id_value i))) ''type'' (JStr (CapabilityTypeName (decl_type c)))"
  have e: "json_object ?e" "Find ?e ''description'' = None" "Find ?e ''id'' = Some (JStr (id_value i))"
    "Find ?e ''type'' = Some (JStr (CapabilityTypeName (decl_type c)))"
    by (simp_all add: json_simps)
  note facts = set_description_facts [OF e(1-3), where d = "decl_description c"]
  show ?thesis
    using facts(1-3) facts(4) [where k = "''type''"] e(4) unfolding capability_entry_def
    by (auto intro: RequireString_Find)
qed

lemma read_ids_table:
  assumes "Find j key = Some (entries_json entry m)" and "length m \<le> cap"
    and "read_entries add (map (\<lambda>(k, v). entry k v) m) t = Inr t'"
  shows "read_ids j key cap add t = Inr t'"
  using assms by (simp add: read_ids_def entries_json_def)

lemma read_simple_table:
  assumes "Find j key = Some (entries_json simple_entry m)" and ok: "table_ok cap m"
    and add: "\<And>t k v. add t k v = res_bind (add_entry k v (sel t)) (\<lambda>m. Inr (upd m t))"
    and lens: "\<And>m t. sel (upd m t) = m" "\<And>m m' t. upd m (upd m' t) = upd m t" "\<And>t. upd (sel t) t = t"
    and empty: "sel t = []"
  shows "read_ids j key cap (read_simple QualifiedName add) t = Inr (upd m t)"
proof (rule read_ids_table [OF assms(1)])
  show "length m \<le> cap" using ok by (simp add: table_ok_def)
  have "read_entries (read_simple QualifiedName add) (map (\<lambda>(k, v). simple_entry k v) m) t =
      Inr (upd (sel t @ m) t)"
  proof (rule read_entries_table [where sel = sel and upd = upd])
    fix k v t
    assume "(k, v) \<in> set m"
    then have "TypedId_Parse QualifiedName (id_value k) = Inr k"
      using ok by (auto simp: table_ok_def TypedId_Parse_ok)
    then show "IsObject (simple_entry k v) \<and> (\<exists>i d. RequireString (simple_entry k v) ''id'' = Inr i \<and>
        OptionalString (simple_entry k v) ''description'' [] = Inr d \<and>
        read_simple QualifiedName add (simple_entry k v) i d t =
          res_bind (add_entry k v (sel t)) (\<lambda>m. Inr (upd m t)))"
      using simple_entry_reads [of k v] by (simp add: read_simple_def add)
  qed (use lens ok empty in \<open>simp_all add: table_ok_def\<close>)
  then show "read_entries (read_simple QualifiedName add) (map (\<lambda>(k, v). simple_entry k v) m) t = Inr (upd m t)"
    using empty by simp
qed

lemma read_kind_table:
  assumes "Find j ''kinds'' = Some (entries_json kind_entry m)" and ok: "table_ok cap m"
    and fam: "\<forall>e \<in> set m. id_ok (kind_family (snd e))" and empty: "kinds t = []"
  shows "read_ids j ''kinds'' cap read_kind t = Inr (t\<lparr>kinds := m\<rparr>)"
proof (rule read_ids_table [OF assms(1)])
  show "length m \<le> cap" using ok by (simp add: table_ok_def)
  have "read_entries read_kind (map (\<lambda>(k, v). kind_entry k v) m) t = Inr (t\<lparr>kinds := kinds t @ m\<rparr>)"
  proof (rule read_entries_table [where sel = kinds and upd = "\<lambda>m t. t\<lparr>kinds := m\<rparr>"])
    fix k v t
    assume "(k, v) \<in> set m"
    then have "TypedId_Parse QualifiedName (id_value k) = Inr k"
      and "TypedId_Parse QualifiedName (id_value (kind_family v)) = Inr (kind_family v)"
      using ok fam by (auto simp: table_ok_def TypedId_Parse_ok)
    then show "IsObject (kind_entry k v) \<and> (\<exists>i d. RequireString (kind_entry k v) ''id'' = Inr i \<and>
        OptionalString (kind_entry k v) ''description'' [] = Inr d \<and>
        read_kind (kind_entry k v) i d t = res_bind (add_entry k v (kinds t)) (\<lambda>m. Inr (t\<lparr>kinds := m\<rparr>)))"
      using kind_entry_reads [of k v] by (cases v) (simp add: read_kind_def AddKind_def)
  qed (use ok empty in \<open>simp_all add: table_ok_def\<close>)
  then show "read_entries read_kind (map (\<lambda>(k, v). kind_entry k v) m) t = Inr (t\<lparr>kinds := m\<rparr>)"
    using empty by simp
qed

lemma read_capability_table:
  assumes "Find j ''capabilities'' = Some (entries_json capability_entry m)" and ok: "table_ok cap m"
    and empty: "capabilities t = []"
  shows "read_ids j ''capabilities'' cap read_capability t = Inr (t\<lparr>capabilities := m\<rparr>)"
proof (rule read_ids_table [OF assms(1)])
  show "length m \<le> cap" using ok by (simp add: table_ok_def)
  have "read_entries read_capability (map (\<lambda>(k, v). capability_entry k v) m) t =
      Inr (t\<lparr>capabilities := capabilities t @ m\<rparr>)"
  proof (rule read_entries_table [where sel = capabilities and upd = "\<lambda>m t. t\<lparr>capabilities := m\<rparr>"])
    fix k v t
    assume "(k, v) \<in> set m"
    then have "TypedId_Parse QualifiedName (id_value k) = Inr k"
      using ok by (auto simp: table_ok_def TypedId_Parse_ok)
    then show "IsObject (capability_entry k v) \<and> (\<exists>i d. RequireString (capability_entry k v) ''id'' = Inr i \<and>
        OptionalString (capability_entry k v) ''description'' [] = Inr d \<and>
        read_capability (capability_entry k v) i d t =
          res_bind (add_entry k v (capabilities t)) (\<lambda>m. Inr (t\<lparr>capabilities := m\<rparr>)))"
      using capability_entry_reads [of k v] by (cases v) (simp add: read_capability_def AddCapability_def)
  qed (use ok empty in \<open>simp_all add: table_ok_def\<close>)
  then show "read_entries read_capability (map (\<lambda>(k, v). capability_entry k v) m) t =
      Inr (t\<lparr>capabilities := m\<rparr>)"
    using empty by simp
qed

lemma Find_TaxonomyToJson:
  "Find (TaxonomyToJson t) ''families'' = Some (entries_json simple_entry (families t))"
  "Find (TaxonomyToJson t) ''kinds'' = Some (entries_json kind_entry (kinds t))"
  "Find (TaxonomyToJson t) ''protocols'' = Some (entries_json simple_entry (protocols t))"
  "Find (TaxonomyToJson t) ''schemas'' = Some (entries_json simple_entry (schemas t))"
  "Find (TaxonomyToJson t) ''hardware_classes'' = Some (entries_json simple_entry (hardware_classes t))"
  "Find (TaxonomyToJson t) ''features'' = Some (entries_json simple_entry (features t))"
  "Find (TaxonomyToJson t) ''capabilities'' = Some (entries_json capability_entry (capabilities t))"
  by (simp_all add: TaxonomyToJson_def json_simps)

lemma ParseTaxonomy_print:
  assumes "taxonomy_ok lim t"
  shows "ParseTaxonomy (TaxonomyToJson t) lim = Inr t"
proof -
  note ok = assms [unfolded taxonomy_ok_def]
  note adds = AddFamily_def AddProtocol_def AddSchema_def AddHardwareClass_def AddFeature_def
  have 1: "read_ids (TaxonomyToJson t) ''families'' (max_families lim)
      (read_simple QualifiedName AddFamily) u = Inr (u\<lparr>families := families t\<rparr>)" if "families u = []" for u
    by (rule read_simple_table [where sel = families]) (use ok that in \<open>simp_all add: Find_TaxonomyToJson adds\<close>)
  have 3: "read_ids (TaxonomyToJson t) ''protocols'' (max_protocols lim)
      (read_simple QualifiedName AddProtocol) u = Inr (u\<lparr>protocols := protocols t\<rparr>)" if "protocols u = []" for u
    by (rule read_simple_table [where sel = protocols]) (use ok that in \<open>simp_all add: Find_TaxonomyToJson adds\<close>)
  have 4: "read_ids (TaxonomyToJson t) ''schemas'' (max_schemas lim)
      (read_simple QualifiedName AddSchema) u = Inr (u\<lparr>schemas := schemas t\<rparr>)" if "schemas u = []" for u
    by (rule read_simple_table [where sel = schemas]) (use ok that in \<open>simp_all add: Find_TaxonomyToJson adds\<close>)
  have 5: "read_ids (TaxonomyToJson t) ''hardware_classes'' (max_hardware_classes lim)
      (read_simple QualifiedName AddHardwareClass) u = Inr (u\<lparr>hardware_classes := hardware_classes t\<rparr>)"
    if "hardware_classes u = []" for u
    by (rule read_simple_table [where sel = hardware_classes])
      (use ok that in \<open>simp_all add: Find_TaxonomyToJson adds\<close>)
  have 6: "read_ids (TaxonomyToJson t) ''features'' (max_features lim)
      (read_simple QualifiedName AddFeature) u = Inr (u\<lparr>features := features t\<rparr>)" if "features u = []" for u
    by (rule read_simple_table [where sel = features]) (use ok that in \<open>simp_all add: Find_TaxonomyToJson adds\<close>)
  have 2: "read_ids (TaxonomyToJson t) ''kinds'' (max_kinds lim) read_kind u = Inr (u\<lparr>kinds := kinds t\<rparr>)"
    if "kinds u = []" for u
    using ok that by (intro read_kind_table) (simp_all add: Find_TaxonomyToJson)
  have 7: "read_ids (TaxonomyToJson t) ''capabilities'' (max_capabilities lim) read_capability u =
      Inr (u\<lparr>capabilities := capabilities t\<rparr>)" if "capabilities u = []" for u
    using ok that by (intro read_capability_table) (simp_all add: Find_TaxonomyToJson)
  have "IsObject (TaxonomyToJson t)" by (simp add: TaxonomyToJson_def json_simps)
  then show ?thesis by (simp add: ParseTaxonomy_def 1 2 3 4 5 6 7 Taxonomy_empty_def)
qed

section \<open>A parsed taxonomy is well-formed\<close>

lemma add_entry_facts:
  assumes "add_entry k v m = Inr m'" and "omap_ok m"
  shows "omap_ok m'" and "length m' = Suc (length m)" and "set m' = insert (k, v) (set m)"
proof -
  have n: "\<not> omap_has m k" and m': "m' = omap_put k v m" using assms(1) by (auto simp: add_entry_Inr)
  show "omap_ok m'" using assms(2) m' by (simp add: omap_ok_put)
  have "k \<notin> fst ` set m" using n by (simp add: omap_has_def omap_get_def map_of_eq_None_iff)
  then have "length (omap_put k v m) = Suc (length m) \<and> set (omap_put k v m) = insert (k, v) (set m)"
    by (induction m) auto
  then show "length m' = Suc (length m)" and "set m' = insert (k, v) (set m)" by (simp_all add: m')
qed

lemma read_entries_grows:
  assumes add: "\<And>e i d t t'. add e i d t = Inr t' \<Longrightarrow>
      \<exists>k v m. add_entry k v (sel t) = Inr m \<and> t' = upd m t \<and> P k v"
    and lens: "\<And>m t. sel (upd m t) = m" "\<And>m m' t. upd m (upd m' t) = upd m t" "\<And>t. upd (sel t) t = t"
  shows "read_entries add es t = Inr t' \<Longrightarrow> omap_ok (sel t) \<Longrightarrow>
    \<exists>m. t' = upd m t \<and> omap_ok m \<and> length m = length (sel t) + length es \<and>
      (\<forall>e \<in> set m. e \<in> set (sel t) \<or> P (fst e) (snd e))"
proof (induction es arbitrary: t)
  case Nil
  then show ?case using lens(3) [of t] by (intro exI [of _ "sel t"]) auto
next
  case (Cons e es)
  then obtain i d u where "add e i d t = Inr u" and rest: "read_entries add es u = Inr t'"
    by (auto simp: result_simps split: if_splits)
  then obtain k v m where m: "add_entry k v (sel t) = Inr m" "u = upd m t" "P k v"
    using add by blast
  note facts = add_entry_facts [OF m(1) Cons.prems(2)]
  obtain m' where "t' = upd m' u" "omap_ok m'" "length m' = length m + length es"
      "\<forall>e \<in> set m'. e \<in> set m \<or> P (fst e) (snd e)"
    using Cons.IH [OF rest] facts m lens by auto
  then show ?case using facts m lens by (intro exI [of _ m']) auto
qed

lemma read_ids_grows:
  assumes add: "\<And>e i d t t'. add e i d t = Inr t' \<Longrightarrow>
      \<exists>k v m. add_entry k v (sel t) = Inr m \<and> t' = upd m t \<and> id_ok k \<and> P v"
    and lens: "\<And>m t. sel (upd m t) = m" "\<And>m m' t. upd m (upd m' t) = upd m t" "\<And>t. upd (sel t) t = t"
    and read: "read_ids j key cap add t = Inr t'" and empty: "sel t = []"
  shows "\<exists>m. t' = upd m t \<and> table_ok cap m \<and> (\<forall>e \<in> set m. P (snd e))"
proof (cases "Find j key")
  case None
  then show ?thesis using read empty lens(3) [of t] by (intro exI [of _ "[]"]) (auto simp: read_ids_def table_ok_def)
next
  case (Some field)
  then obtain es where es: "read_entries add es t = Inr t'" "length es \<le> cap"
    using read by (auto simp: read_ids_def split: option.splits if_splits)
  have "\<exists>m. t' = upd m t \<and> omap_ok m \<and> length m = length (sel t) + length es \<and>
      (\<forall>e \<in> set m. e \<in> set (sel t) \<or> (id_ok (fst e) \<and> P (snd e)))"
    by (rule read_entries_grows [OF add lens es(1)]) (simp_all add: empty)
  then show ?thesis using es(2) empty by (auto simp: table_ok_def)
qed

lemma read_simple_grows:
  assumes "\<And>t k v. add t k v = res_bind (add_entry k v (sel t)) (\<lambda>m. Inr (upd m t))"
    and "\<And>m t. sel (upd m t) = m" "\<And>m m' t. upd m (upd m' t) = upd m t" "\<And>t. upd (sel t) t = t"
    and "read_ids j key cap (read_simple QualifiedName add) t = Inr t'" and "sel t = []"
  shows "\<exists>m. t' = upd m t \<and> table_ok cap m"
proof -
  have "\<exists>m. t' = upd m t \<and> table_ok cap m \<and> (\<forall>e \<in> set m. True)"
    by (rule read_ids_grows [OF _ assms(2-6)])
      (auto simp: read_simple_def assms(1) result_simps TypedId_Parse_ok)
  then show ?thesis by auto
qed

lemma ParseTaxonomy_ok:
  assumes "ParseTaxonomy j lim = Inr t"
  shows "taxonomy_ok lim t"
proof -
  note adds = AddFamily_def AddProtocol_def AddSchema_def AddHardwareClass_def AddFeature_def
  obtain t1 t2 t3 t4 t5 t6 where r:
    "read_ids j ''families'' (max_families lim) (read_simple QualifiedName AddFamily) Taxonomy_empty = Inr t1"
    "read_ids j ''kinds'' (max_kinds lim) read_kind t1 = Inr t2"
    "read_ids j ''protocols'' (max_protocols lim) (read_simple QualifiedName AddProtocol) t2 = Inr t3"
    "read_ids j ''schemas'' (max_schemas lim) (read_simple QualifiedName AddSchema) t3 = Inr t4"
    "read_ids j ''hardware_classes'' (max_hardware_classes lim) (read_simple QualifiedName AddHardwareClass) t4 = Inr t5"
    "read_ids j ''features'' (max_features lim) (read_simple QualifiedName AddFeature) t5 = Inr t6"
    "read_ids j ''capabilities'' (max_capabilities lim) read_capability t6 = Inr t"
    using assms by (auto simp: ParseTaxonomy_def result_simps split: if_splits)
  obtain m1 where 1: "t1 = Taxonomy_empty\<lparr>families := m1\<rparr>" "table_ok (max_families lim) m1"
    using read_simple_grows [where sel = families and upd = "\<lambda>m t. t\<lparr>families := m\<rparr>", OF _ _ _ _ r(1)]
    by (auto simp: adds Taxonomy_empty_def)
  have "\<exists>m. t2 = t1\<lparr>kinds := m\<rparr> \<and> table_ok (max_kinds lim) m \<and> (\<forall>e \<in> set m. id_ok (kind_family (snd e)))"
    by (rule read_ids_grows [where sel = kinds and upd = "\<lambda>m t. t\<lparr>kinds := m\<rparr>", OF _ _ _ _ r(2)])
      (fastforce simp: read_kind_def AddKind_def result_simps TypedId_Parse_ok 1 Taxonomy_empty_def)+
  then obtain m2 where 2: "t2 = t1\<lparr>kinds := m2\<rparr>" "table_ok (max_kinds lim) m2"
      "\<forall>e \<in> set m2. id_ok (kind_family (snd e))" by blast
  obtain m3 where 3: "t3 = t2\<lparr>protocols := m3\<rparr>" "table_ok (max_protocols lim) m3"
    using read_simple_grows [where sel = protocols and upd = "\<lambda>m t. t\<lparr>protocols := m\<rparr>", OF _ _ _ _ r(3)]
    by (auto simp: adds Taxonomy_empty_def 1 2)
  obtain m4 where 4: "t4 = t3\<lparr>schemas := m4\<rparr>" "table_ok (max_schemas lim) m4"
    using read_simple_grows [where sel = schemas and upd = "\<lambda>m t. t\<lparr>schemas := m\<rparr>", OF _ _ _ _ r(4)]
    by (auto simp: adds Taxonomy_empty_def 1 2 3)
  obtain m5 where 5: "t5 = t4\<lparr>hardware_classes := m5\<rparr>" "table_ok (max_hardware_classes lim) m5"
    using read_simple_grows [where sel = hardware_classes and upd = "\<lambda>m t. t\<lparr>hardware_classes := m\<rparr>", OF _ _ _ _ r(5)]
    by (auto simp: adds Taxonomy_empty_def 1 2 3 4)
  obtain m6 where 6: "t6 = t5\<lparr>features := m6\<rparr>" "table_ok (max_features lim) m6"
    using read_simple_grows [where sel = features and upd = "\<lambda>m t. t\<lparr>features := m\<rparr>", OF _ _ _ _ r(6)]
    by (auto simp: adds Taxonomy_empty_def 1 2 3 4 5)
  have "\<exists>m. t = t6\<lparr>capabilities := m\<rparr> \<and> table_ok (max_capabilities lim) m \<and> (\<forall>e \<in> set m. True)"
    by (rule read_ids_grows [where sel = capabilities and upd = "\<lambda>m t. t\<lparr>capabilities := m\<rparr>", OF _ _ _ _ r(7)])
      (fastforce simp: read_capability_def AddCapability_def result_simps TypedId_Parse_ok 1 2 3 4 5 6 Taxonomy_empty_def)+
  then obtain m7 where 7: "t = t6\<lparr>capabilities := m7\<rparr>" "table_ok (max_capabilities lim) m7" by blast
  show ?thesis using 1 2 3 4 5 6 7 by (simp add: taxonomy_ok_def)
qed

text \<open>Whatever document a taxonomy was read from, it is well-formed (every table ascends by
  identifier without duplicates, holds valid identifiers only and stays within its limit), and its
  JSON form is read back as the same taxonomy.\<close>

theorem ParseTaxonomy_roundtrip:
  "case ParseTaxonomy j lim of
     Inl e \<Rightarrow> True
   | Inr t \<Rightarrow> taxonomy_ok lim t \<and> ParseTaxonomy (TaxonomyToJson t) lim = Inr t"
  using ParseTaxonomy_ok ParseTaxonomy_print by (auto split: sum.split)

end
