(* ===== verification/RangeText.thy ===== *)
theory RangeText
  imports Range
begin

text \<open>
  The range parser (\<open>VersionRange::Parse\<close>, \<open>src/version.cpp\<close>) against the range
  operations and the printer: the parser always answers and only with canonical ranges, the
  caret operator names the versions below the next breaking release, and the canonical text of a
  range is read back as the range it was printed from.
\<close>

section \<open>Every parsed range is canonical\<close>

definition parses_canonical :: "(string \<Rightarrow> VersionRange result) \<Rightarrow> bool" where
  "parses_canonical parse = (\<forall>t r. parse t = Inr r \<longrightarrow> canonical r)"

lemma parses_canonicalD: "parses_canonical parse \<Longrightarrow> parse t = Inr r \<Longrightarrow> canonical r"
  by (auto simp: parses_canonical_def)

lemma ComparatorToRange_canonical:
  "parses_canonical parse \<Longrightarrow> ComparatorToRange parse token = Inr r \<Longrightarrow> canonical r"
  by (auto simp: ComparatorToRange_def Let_def dest: FromIntervals_canonical parses_canonicalD
      split: prod.splits sum.splits if_splits option.splits)

lemma parse_group_loop_canonical:
  "parses_canonical parse \<Longrightarrow> canonical acc \<Longrightarrow>
     parse_group_loop parse acc ts = Inr r \<Longrightarrow> canonical r"
  by (induction parse acc ts rule: parse_group_loop.induct)
    (auto simp: Intersect_canonical split: sum.splits if_splits)

lemma parse_groups_canonical: "parse_groups parse gs all = Inr r \<Longrightarrow> canonical r"
  by (induction parse gs all rule: parse_groups.induct)
    (auto simp: Let_def dest: FromIntervals_canonical split: sum.splits if_splits)

lemma parse_range_with_canonical: "parse_range_with parse t = Inr r \<Longrightarrow> canonical r"
  by (auto simp: parse_range_with_def Let_def dest: parse_groups_canonical split: if_splits)

section \<open>The fuel is enough\<close>

lemma ParsePartial_failure:
  "ParsePartial t = Inl e \<Longrightarrow> \<exists>c. e = Failed c"
proof -
  have num: "\<exists>c. e = Failed c" if "ParseU32Component s = Inl e" for s e
    using that by (auto simp: ParseU32Component_def split: if_splits)
  have ids: "\<exists>c. e = Failed c" if "split_identifiers_loop p ps out = Inl e" for p ps out e
    using that by (induction p ps out rule: split_identifiers_loop.induct) (auto split: if_splits)
  have slots: "\<exists>c. e = Failed c" if "parse_slots ps k pv = Inl e" for ps k pv e
    using that num by (induction ps k pv rule: parse_slots.induct) (auto split: if_splits sum.splits)
  assume "ParsePartial t = Inl e"
  then show ?thesis
    using ids slots
    by (auto simp: ParsePartial_def parse_build_part_def parse_prerelease_part_def
        SplitIdentifiers_def split: if_splits sum.splits option.splits)
qed

text \<open>A comparator asks the parser again only for the texts \<open>~M\<close> and \<open>~M.m\<close>, and those are read
  without asking again.\<close>

lemma ComparatorToRange_fuel:
  assumes "\<And>ma mi. parse (tilde_text ma mi) \<noteq> Inl Out_Of_Fuel"
  shows "ComparatorToRange parse token \<noteq> Inl Out_Of_Fuel"
proof -
  have f: "FromIntervals ivs \<noteq> Inl e" for ivs e using FromIntervals_Inr [of ivs] by auto
  show ?thesis
    using assms ParsePartial_failure f
    by (auto simp: ComparatorToRange_def Let_def less_interval_def less_eq_interval_def
        split: prod.splits sum.splits if_splits option.splits)
qed

lemma parse_group_loop_fuel:
  "(\<And>t. ComparatorToRange parse t \<noteq> Inl Out_Of_Fuel) \<Longrightarrow>
     parse_group_loop parse acc ts \<noteq> Inl Out_Of_Fuel"
proof (induction parse acc ts rule: parse_group_loop.induct)
  case (2 parse acc t u w ts)
  have "ParsePartial s \<noteq> Inl Out_Of_Fuel" for s using ParsePartial_failure by fastforce
  moreover have "FromIntervals ivs \<noteq> Inl e" for ivs e using FromIntervals_Inr [of ivs] by auto
  ultimately show ?case using 2 by (auto split: sum.splits)
qed (auto split: sum.splits)

lemma parse_groups_fuel:
  "(\<And>t. ComparatorToRange parse t \<noteq> Inl Out_Of_Fuel) \<Longrightarrow> parse_groups parse gs all \<noteq> Inl Out_Of_Fuel"
proof (induction parse gs all rule: parse_groups.induct)
  case (1 parse all)
  then show ?case using FromIntervals_Inr [of all] by auto
next
  case (2 parse g gs all)
  then show ?case
    using parse_group_loop_fuel [of parse] by (auto simp: Let_def ParseGroup_def split: sum.splits)
qed

lemma parse_range_with_fuel:
  "(\<And>t. ComparatorToRange parse t \<noteq> Inl Out_Of_Fuel) \<Longrightarrow> parse_range_with parse t \<noteq> Inl Out_Of_Fuel"
  using parse_groups_fuel by (auto simp: parse_range_with_def Let_def)

subsection \<open>Texts without blanks and bars\<close>

definition plain :: "string \<Rightarrow> bool" where
  "plain w = (w \<noteq> [] \<and> (\<forall>c \<in> set w. \<not> is_token_space c \<and> c \<noteq> CHR ''|''))"

lemma tokenize_loop_plain:
  "\<forall>c \<in> set w. \<not> is_token_space c \<Longrightarrow> tokenize_loop (w @ s) cur = tokenize_loop s (cur @ w)"
  by (induction w arbitrary: cur) auto

lemma Tokenize_plain: "plain w \<Longrightarrow> Tokenize w = [w]"
  using tokenize_loop_plain [of w "[]" "[]"] by (simp add: Tokenize_def plain_def)

lemma Tokenize_plain_blank: "plain w \<Longrightarrow> Tokenize (w @ CHR '' '' # s) = w # Tokenize s"
  using tokenize_loop_plain [of w "CHR '' '' # s" "[]"]
  by (simp add: Tokenize_def plain_def is_token_space_def)

lemma Tokenize_blank: "Tokenize (CHR '' '' # s) = Tokenize s"
  by (simp add: Tokenize_def is_token_space_def)

lemma split_groups_plain:
  "CHR ''|'' \<notin> set w \<Longrightarrow> split_groups w cur = [cur @ w]"
  by (induction w arbitrary: cur) auto

lemma split_groups_bars:
  "CHR ''|'' \<notin> set w \<Longrightarrow>
     split_groups (w @ CHR ''|'' # CHR ''|'' # s) cur = (cur @ w) # split_groups s []"
  by (induction w arbitrary: cur) auto

lemma trim_plain_ends:
  assumes "t \<noteq> []" and "\<not> is_blank (hd t)" and "\<not> is_blank (last t)"
  shows "trim_blanks t = t"
proof -
  have "dropWhile is_blank t = t" using assms(1,2) by (cases t) auto
  moreover have "dropWhile is_blank (rev t) = rev t"
    using assms(1,3) by (cases t rule: rev_cases) auto
  ultimately show ?thesis by (simp add: trim_blanks_def)
qed

lemma plain_trim: "plain w \<Longrightarrow> trim_blanks w = w"
  by (rule trim_plain_ends) (auto simp: plain_def is_blank_def is_token_space_def)

lemma plain_number [simp]: "plain (to_string n)"
proof -
  have "c \<in> set (to_string n) \<Longrightarrow> IsDigit c" for c
    using to_string_digits [of n] by (simp add: list_all_iff)
  moreover have "\<not> IsDigit c" if "is_token_space c \<or> c = CHR ''|''" for c
    using that by (auto simp: is_token_space_def IsDigit_def char_code_def)
  ultimately show ?thesis unfolding plain_def using to_string_not_Nil by blast
qed

lemma plain_append: "plain v \<Longrightarrow> (\<forall>c \<in> set w. \<not> is_token_space c \<and> c \<noteq> CHR ''|'') \<Longrightarrow> plain (v @ w)"
  by (auto simp: plain_def)

lemma plain_tilde_text: "plain (tilde_text ma mi)"
  using plain_number [of "unat ma"] plain_number
  by (cases mi) (auto simp: tilde_text_def plain_def is_token_space_def)

text \<open>A single comparator that is none of the special words is one group of one token.\<close>

definition is_word :: "string \<Rightarrow> bool" where
  "is_word t = (t \<in> {''*'', ''x'', ''X'', ''any'', ''<none>''})"

lemma parse_range_with_single:
  assumes "plain t" and "length t \<le> kMaxRangeTextLength" and "\<not> is_word t"
  shows "parse_range_with parse t =
    (case ComparatorToRange parse t of Inl e \<Rightarrow> Inl e
     | Inr piece \<Rightarrow> FromIntervals (Intersect VersionRange_Any piece))"
proof -
  have "split_groups t [] = [t]" using assms(1) split_groups_plain [of t "[]"] by (auto simp: plain_def)
  moreover have "t \<noteq> []" using assms(1) by (simp add: plain_def)
  ultimately show ?thesis
    using assms(2,3) plain_trim [OF assms(1)] Tokenize_plain [OF assms(1)]
    by (simp add: parse_range_with_def is_word_def kMaxRangeGroups_def kMaxComparatorsPerGroup_def
        Let_def ParseGroup_def split: sum.split)
qed

lemma split_operator_tilde [simp]: "split_operator (CHR ''~'' # s) = (''~'', s)"
  by (simp add: split_operator_def)

lemma ComparatorToRange_tilde:
  "ComparatorToRange parse (tilde_text ma mi) = ComparatorToRange parse' (tilde_text ma mi)"
  by (simp add: ComparatorToRange_def tilde_text_def Let_def split: sum.split)

lemma tilde_text_length: "length (tilde_text ma mi) \<le> 22"
proof -
  have "length (to_string (unat n)) \<le> 10" for n :: u32
    using to_string_length_le [of "unat n" 9] unsigned_less [of n, where ?'a = nat] by simp
  from this [of ma] this [of "the mi"] show ?thesis by (cases mi) (auto simp: tilde_text_def)
qed

lemma tilde_text_not_word: "\<not> is_word (tilde_text ma mi)"
  by (simp add: is_word_def tilde_text_def)

lemma parse_range_tilde:
  "parse_range_with parse (tilde_text ma mi) = parse_range_with parse' (tilde_text ma mi)"
  using ComparatorToRange_tilde [of parse ma mi parse'] tilde_text_length [of ma mi]
  by (simp add: parse_range_with_single plain_tilde_text tilde_text_not_word kMaxRangeTextLength_def)

lemma parse_range_fuel: "parse_range (Suc (Suc n)) t \<noteq> Inl Out_Of_Fuel"
proof -
  have "parse_range (Suc n) (tilde_text ma mi) \<noteq> Inl Out_Of_Fuel" for ma mi
    using parse_range_tilde [of "parse_range n" ma mi "\<lambda>_. Inr []"]
      parse_range_with_fuel [of "\<lambda>_. Inr []" "tilde_text ma mi"] ComparatorToRange_fuel [of "\<lambda>_. Inr []"]
    by simp
  then have "ComparatorToRange (parse_range (Suc n)) t \<noteq> Inl Out_Of_Fuel" for t
    by (rule ComparatorToRange_fuel)
  then show ?thesis using parse_range_with_fuel [of "parse_range (Suc n)" t] by simp
qed

lemma parse_range_canonical: "parse_range n t = Inr r \<Longrightarrow> canonical r"
  by (cases n) (auto dest: parse_range_with_canonical)

text \<open>The range parser always answers, for every text, although it calls itself, and a range
  it returns is canonical, which is what the intersection and overlap operations rely on.\<close>

theorem VersionRange_Parse_canonical:
  "case VersionRange_Parse t of Inr r \<Rightarrow> canonical r | Inl e \<Rightarrow> e \<noteq> Out_Of_Fuel"
  using parse_range_fuel [of 0 t] parse_range_canonical [of 2 t]
  by (auto simp: VersionRange_Parse_def numeral_2_eq_2 split: sum.splits)

section \<open>Reading back the canonical text\<close>

text \<open>The bounds of a range that was read from a text: well-formed versions without build
  metadata, no longer than a version text may be.\<close>

definition bound_ok :: "SemVersion \<Rightarrow> bool" where
  "bound_ok v = (version_ok v \<and> build v = [] \<and> length (SemVersion_ToString v) \<le> kMaxVersionTextLength)"

definition interval_ok :: "VersionInterval \<Rightarrow> bool" where
  "interval_ok iv =
     ((case low iv of None \<Rightarrow> low_inclusive iv | Some l \<Rightarrow> bound_ok l) \<and>
      (case high iv of None \<Rightarrow> high_inclusive iv | Some h \<Rightarrow> bound_ok h))"

lemma identifier_char_plain:
  "IsAlphaNumHyphen c \<Longrightarrow> \<not> is_token_space c \<and> c \<noteq> CHR ''|''"
  by (auto simp: IsAlphaNumHyphen_def is_alnum_def IsDigit_def is_token_space_def char_code_def)

lemma plain_ToString:
  assumes "bound_ok v"
  shows "plain (SemVersion_ToString v)"
proof -
  have ids: "c \<in> set (join_with ''.'' (prerelease v)) \<Longrightarrow> c = CHR ''.'' \<or> IsAlphaNumHyphen c" for c
    using set_join_with [of "''.''" "prerelease v"] assms
      identifiers_free [of True "prerelease v" _ c]
    by (auto simp: bound_ok_def version_ok_def)
  have num: "\<forall>c \<in> set (to_string n). \<not> is_token_space c \<and> c \<noteq> CHR ''|''" for n
    using plain_number [of n] by (simp add: plain_def)
  have "\<forall>c \<in> set (join_with ''.'' (prerelease v)). \<not> is_token_space c \<and> c \<noteq> CHR ''|''"
    using ids identifier_char_plain by (auto simp: is_token_space_def)
  then show ?thesis
    using assms num unfolding plain_def SemVersion_ToString_def
    by (auto simp: bound_ok_def is_token_space_def)
qed

lemma ToString_hd_digit: "IsDigit (hd (SemVersion_ToString v))"
  using to_string_digits [of "unat (major v)"] to_string_not_Nil [of "unat (major v)"]
  by (cases "to_string (unat (major v))") (auto simp: SemVersion_ToString_def)

lemma ToString_Cons: "\<exists>c cs. SemVersion_ToString v = c # cs \<and> IsDigit c"
proof -
  have "SemVersion_ToString v \<noteq> []" by (simp add: SemVersion_ToString_def)
  then show ?thesis using ToString_hd_digit [of v] by (cases "SemVersion_ToString v") auto
qed

lemma FilledWithPrerelease_full:
  assumes "bound_ok v"
  shows "FilledWithPrerelease (full_partial (major v) (minor v) (patch v) (prerelease v)) = v"
proof -
  let ?pv = "full_partial (major v) (minor v) (patch v) (prerelease v)"
  have filled: "Filled ?pv = SemVersion_of (major v) (minor v) (patch v)"
    by (simp add: Filled_def full_partial_def value_or_def)
  have "SemVersion_ToString (Filled ?pv) @ ''-'' @ join_with ''.'' (prerelease v) = SemVersion_ToString v"
    if "prerelease v \<noteq> []"
    using that assms by (simp add: filled SemVersion_ToString_def SemVersion_of_def bound_ok_def)
  moreover have "SemVersion_of (major v) (minor v) (patch v) = v" if "prerelease v = []"
    using assms that by (simp add: SemVersion_of_def bound_ok_def)
  moreover have "pv_prerelease ?pv = prerelease v" by (simp add: full_partial_def)
  ultimately show ?thesis
    using SemVersion_print_parse [of v] assms filled
    by (auto simp: FilledWithPrerelease_def bound_ok_def)
qed

lemma is_full_partial [simp]: "is_full (full_partial ma mi pa ids)"
  by (simp add: is_full_def full_partial_def)

lemma wildcard_full_partial [simp]: "wildcard_tail (full_partial ma mi pa ids) = False"
  by (simp add: full_partial_def)

lemma split_operator_version:
  "split_operator (''>='' @ SemVersion_ToString v) = (''>='', SemVersion_ToString v)"
  "split_operator (''<='' @ SemVersion_ToString v) = (''<='', SemVersion_ToString v)"
  "split_operator (''>'' @ SemVersion_ToString v) = (''>'', SemVersion_ToString v)"
  "split_operator (''<'' @ SemVersion_ToString v) = (''<'', SemVersion_ToString v)"
  "split_operator (''='' @ SemVersion_ToString v) = (''='', SemVersion_ToString v)"
  "split_operator (''^'' @ SemVersion_ToString v) = (''^'', SemVersion_ToString v)"
  "split_operator (SemVersion_ToString v) = ([], SemVersion_ToString v)"
  using ToString_Cons [of v]
  by (auto simp: split_operator_def IsDigit_def char_code_def)

lemma ComparatorToRange_version:
  assumes v: "bound_ok v"
  shows "ComparatorToRange parse (''>='' @ SemVersion_ToString v) =
      FromIntervals [VersionInterval_Any\<lparr>low := Some v\<rparr>]"
    and "ComparatorToRange parse (''>'' @ SemVersion_ToString v) =
      FromIntervals [VersionInterval_Any\<lparr>low := Some v, low_inclusive := False\<rparr>]"
    and "ComparatorToRange parse (''<='' @ SemVersion_ToString v) =
      FromIntervals [VersionInterval_Any\<lparr>high := Some v\<rparr>]"
    and "ComparatorToRange parse (''<'' @ SemVersion_ToString v) =
      FromIntervals [VersionInterval_Any\<lparr>high := Some v, high_inclusive := False\<rparr>]"
    and "ComparatorToRange parse (''='' @ SemVersion_ToString v) = Inr (VersionRange_Exact v)"
    and "ComparatorToRange parse (SemVersion_ToString v) = Inr (VersionRange_Exact v)"
    and "ComparatorToRange parse (''^'' @ SemVersion_ToString v) =
      FromIntervals [caret_interval (full_partial (major v) (minor v) (patch v) (prerelease v)) (major v)]"
proof -
  let ?pv = "full_partial (major v) (minor v) (patch v) (prerelease v)"
  have p: "ParsePartial (SemVersion_ToString v) = Inr ?pv"
    using v by (simp add: ParsePartial_ToString bound_ok_def)
  note facts = p split_operator_version [of v] FilledWithPrerelease_full [OF v]
  show "ComparatorToRange parse (''>='' @ SemVersion_ToString v) =
      FromIntervals [VersionInterval_Any\<lparr>low := Some v\<rparr>]"
    unfolding ComparatorToRange_def by (simp only: facts Let_def prod.case sum.case) simp
  show "ComparatorToRange parse (''>'' @ SemVersion_ToString v) =
      FromIntervals [VersionInterval_Any\<lparr>low := Some v, low_inclusive := False\<rparr>]"
    unfolding ComparatorToRange_def greater_interval_def
    by (simp only: facts Let_def prod.case sum.case) simp
  show "ComparatorToRange parse (''<='' @ SemVersion_ToString v) =
      FromIntervals [VersionInterval_Any\<lparr>high := Some v\<rparr>]"
    unfolding ComparatorToRange_def less_eq_interval_def
    by (simp only: facts Let_def prod.case sum.case) simp
  show "ComparatorToRange parse (''<'' @ SemVersion_ToString v) =
      FromIntervals [VersionInterval_Any\<lparr>high := Some v, high_inclusive := False\<rparr>]"
    unfolding ComparatorToRange_def less_interval_def
    by (simp only: facts Let_def prod.case sum.case) simp
  show "ComparatorToRange parse (''='' @ SemVersion_ToString v) = Inr (VersionRange_Exact v)"
    unfolding ComparatorToRange_def by (simp only: facts Let_def prod.case sum.case) simp
  show "ComparatorToRange parse (SemVersion_ToString v) = Inr (VersionRange_Exact v)"
    unfolding ComparatorToRange_def by (simp only: facts Let_def prod.case sum.case) simp
  show "ComparatorToRange parse (''^'' @ SemVersion_ToString v) =
      FromIntervals [caret_interval ?pv (major v)]"
    unfolding ComparatorToRange_def by (simp only: facts Let_def prod.case sum.case)
      (simp add: full_partial_def)
qed

subsection \<open>Canonical ranges are left alone\<close>

lemma not_empty_ends:
  assumes "\<not> StructurallyEmpty a" and "separated a b"
  shows "low_cmp a b = Less"
proof -
  obtain h l where hl: "high a = Some h" "low b = Some l"
    and sep: "Precedence h l = Less \<or> Precedence h l = Equal \<and> \<not> high_inclusive a \<and> \<not> low_inclusive b"
    using assms(2) by (auto simp: separated_def joins_def split: option.splits ordering.splits)
  show ?thesis
  proof (cases "low a")
    case (Some k)
    then have "Precedence k h = Less \<or> Precedence k h = Equal \<and> low_inclusive a \<and> high_inclusive a"
      using assms(1) hl by (auto simp: not_empty_iff)
    then have "Precedence k l = Less" using sep by (auto dest: prec.trans_rules)
    then show ?thesis using Some hl by (simp add: low_cmp_def opt_cmp_def)
  qed (use hl in \<open>simp add: low_cmp_def opt_cmp_def\<close>)
qed

lemma absorb_separated: "sorted_wrt separated (cur # ivs) \<Longrightarrow> absorb cur ivs = cur # ivs"
  by (induction cur ivs rule: absorb.induct) (auto simp: separated_def)

lemma FromIntervals_id:
  assumes "canonical r"
  shows "FromIntervals r = Inr r"
proof -
  have kept: "filter (\<lambda>iv. \<not> StructurallyEmpty iv) r = r"
    using assms by (simp add: canonical_def)
  have "sorted_wrt (\<lambda>a b. low_cmp a b = Less) r"
    using assms unfolding canonical_def
    by (auto elim!: sorted_wrt_mono_rel [rotated] intro: not_empty_ends)
  then have ord: "sorted_wrt (\<lambda>a b. \<not> interval_lt b a) r"
    by (rule sorted_wrt_mono_rel [rotated])
      (auto simp: interval_lt_iff then_cmp_Less low_cmp.less_iff_greater)
  have lt: "interval_lt = (\<lambda>a b. then_cmp (low_cmp a b) (high_key_cmp a b) = Less)"
    by (intro ext) (rule interval_lt_iff)
  have "sort_by interval_lt r = r"
    using ord unfolding lt by (rule interval_cmp.ascending.sort_by_id)
  moreover have "foldl merge_step [] r = r"
    using assms merge_fold absorb_separated by (cases r) (auto simp: canonical_def)
  ultimately show ?thesis by (simp add: FromIntervals_def kept)
qed

lemma FromIntervals_single: "\<not> StructurallyEmpty iv \<Longrightarrow> FromIntervals [iv] = Inr [iv]"
  by (rule FromIntervals_id) (simp add: canonical_def)

lemma Intersect_Any_single:
  assumes "\<not> StructurallyEmpty iv"
  shows "Intersect VersionRange_Any [iv] = [iv]"
proof -
  have "intersect_interval VersionInterval_Any iv = iv"
    by (simp add: intersect_interval_def VersionInterval_Any_def)
  moreover have "\<not> advance_x VersionInterval_Any iv"
    by (simp add: advance_x_def VersionInterval_Any_def)
  ultimately show ?thesis
    using assms by (simp add: Intersect_def VersionRange_Any_def FromIntervals_single)
qed

lemma Intersect_low_high:
  assumes a: "low a = Some l" "high a = None" and b: "low b = None" "high b = Some h"
    and iv: "iv = \<lparr>low = Some l, low_inclusive = low_inclusive a, high = Some h,
      high_inclusive = high_inclusive b\<rparr>"
    and ne: "\<not> StructurallyEmpty iv"
  shows "Intersect [a] [b] = [iv]"
proof -
  have "intersect_interval a b = iv" using a b iv by (simp add: intersect_interval_def)
  moreover have "\<not> advance_x a b" using a by (simp add: advance_x_def)
  ultimately show ?thesis using ne by (simp add: Intersect_def FromIntervals_single)
qed

subsection \<open>One interval\<close>

definition low_text :: "VersionInterval \<Rightarrow> SemVersion \<Rightarrow> string" where
  "low_text iv l = (if low_inclusive iv then ''>='' else ''>'') @ SemVersion_ToString l"

definition high_text :: "VersionInterval \<Rightarrow> SemVersion \<Rightarrow> string" where
  "high_text iv h = (if high_inclusive iv then ''<='' else ''<'') @ SemVersion_ToString h"

definition interval_tokens :: "VersionInterval \<Rightarrow> string list" where
  "interval_tokens iv =
     (case (low iv, high iv) of
        (Some l, Some h) \<Rightarrow> if interval_IsExact iv then [''='' @ SemVersion_ToString l]
          else [low_text iv l, high_text iv h]
      | (Some l, None) \<Rightarrow> [low_text iv l]
      | (None, Some h) \<Rightarrow> [high_text iv h]
      | (None, None) \<Rightarrow> [''*''])"

lemma interval_ToString_tokens: "interval_ToString iv = join_with '' '' (interval_tokens iv)"
  by (auto simp: interval_ToString_def interval_tokens_def low_text_def high_text_def
      split: option.split)

lemma plain_Cons: "plain w \<Longrightarrow> \<not> is_token_space c \<Longrightarrow> c \<noteq> CHR ''|'' \<Longrightarrow> plain (c # w)"
  by (simp add: plain_def)

lemma plain_texts:
  "bound_ok v \<Longrightarrow> plain (low_text iv v)" "bound_ok v \<Longrightarrow> plain (high_text iv v)"
  "bound_ok v \<Longrightarrow> plain (''='' @ SemVersion_ToString v)"
  using plain_ToString [of v]
  by (auto simp: low_text_def high_text_def is_token_space_def intro!: plain_Cons)

lemma interval_tokens_plain:
  assumes "interval_ok iv"
  shows "\<forall>w \<in> set (interval_tokens iv). plain w"
proof -
  have "plain ''*''" by (simp add: plain_def is_token_space_def)
  then show ?thesis
    using assms plain_texts
    by (cases "low iv"; cases "high iv") (simp_all add: interval_tokens_def interval_ok_def)
qed

lemma Tokenize_tokens:
  assumes "ws \<noteq> []" and "\<forall>w \<in> set ws. plain w"
  shows "Tokenize (join_with '' '' ws) = ws"
  using assms
proof (induction "'' ''" ws rule: join_with.induct)
  case (3 w w' ws)
  then show ?case using Tokenize_plain_blank [of w] by simp
qed (auto simp: Tokenize_plain)

lemma low_text_not_op: "\<not> op_only (low_text iv v)"
  using ToString_Cons [of v] by (auto simp: op_only_def low_text_def IsDigit_def char_code_def)

lemma fold_interval_tokens: "fold_operators (interval_tokens iv) = interval_tokens iv"
  by (auto simp: interval_tokens_def low_text_not_op split: option.split)

lemma interval_ext:
  "low a = low b \<Longrightarrow> low_inclusive a = low_inclusive b \<Longrightarrow> high a = high b \<Longrightarrow>
     high_inclusive a = high_inclusive b \<Longrightarrow> a = (b :: VersionInterval)"
  by simp

lemma ComparatorToRange_low_text:
  "bound_ok l \<Longrightarrow> ComparatorToRange parse (low_text iv l) =
     Inr [VersionInterval_Any\<lparr>low := Some l, low_inclusive := low_inclusive iv\<rparr>]"
  using FromIntervals_single [of "VersionInterval_Any\<lparr>low := Some l, low_inclusive := low_inclusive iv\<rparr>"]
  by (cases "low_inclusive iv")
    (auto simp: low_text_def ComparatorToRange_version [simplified] StructurallyEmpty_def
      VersionInterval_Any_def)

lemma ComparatorToRange_high_text:
  "bound_ok h \<Longrightarrow> ComparatorToRange parse (high_text iv h) =
     Inr [VersionInterval_Any\<lparr>high := Some h, high_inclusive := high_inclusive iv\<rparr>]"
  using FromIntervals_single [of "VersionInterval_Any\<lparr>high := Some h, high_inclusive := high_inclusive iv\<rparr>"]
  by (cases "high_inclusive iv")
    (auto simp: high_text_def ComparatorToRange_version [simplified] StructurallyEmpty_def
      VersionInterval_Any_def)

lemma ParseGroup_interval:
  assumes ok: "interval_ok iv" and ne: "\<not> StructurallyEmpty iv" and bd: "low iv \<noteq> None \<or> high iv \<noteq> None"
  shows "ParseGroup parse (interval_tokens iv) = Inr [iv]"
proof (cases "low iv"; cases "high iv")
  fix l h
  assume lh: "low iv = Some l" "high iv = Some h"
  then have b: "bound_ok l" "bound_ok h" using ok by (auto simp: interval_ok_def)
  show ?thesis
  proof (cases "interval_IsExact iv")
    case True
    then have "l = h" using lh b by (auto simp: interval_IsExact_def Precedence_Equal bound_ok_def)
    then have "VersionInterval_Exact l = iv"
      using True lh by (auto simp: VersionInterval_Exact_def VersionInterval_Any_def interval_IsExact_def)
    then show ?thesis
      using True lh b ComparatorToRange_version(5) [OF b(1), of parse] Intersect_Any_single [OF ne]
      by (simp add: ParseGroup_def interval_tokens_def VersionRange_Exact_def)
  next
    case False
    define a where "a = VersionInterval_Any\<lparr>low := Some l, low_inclusive := low_inclusive iv\<rparr>"
    define c where "c = VersionInterval_Any\<lparr>high := Some h, high_inclusive := high_inclusive iv\<rparr>"
    have "\<not> StructurallyEmpty a" by (simp add: a_def StructurallyEmpty_def VersionInterval_Any_def)
    moreover have "Intersect [a] [c] = [iv]"
      using lh ne by (intro Intersect_low_high) (auto simp: a_def c_def VersionInterval_Any_def)
    ultimately show ?thesis
      using False lh ComparatorToRange_low_text [OF b(1), of parse iv]
        ComparatorToRange_high_text [OF b(2), of parse iv] Intersect_Any_single [of a]
      by (simp add: ParseGroup_def interval_tokens_def a_def [symmetric] c_def [symmetric])
  qed
next
  fix l
  assume lh: "low iv = Some l" "high iv = None"
  then have b: "bound_ok l" and eq: "VersionInterval_Any\<lparr>low := Some l, low_inclusive := low_inclusive iv\<rparr> = iv"
    using ok by (auto simp: interval_ok_def VersionInterval_Any_def)
  show ?thesis
    using lh ComparatorToRange_low_text [OF b, of parse iv] Intersect_Any_single [OF ne]
    by (simp add: ParseGroup_def interval_tokens_def eq)
next
  fix h
  assume lh: "low iv = None" "high iv = Some h"
  then have b: "bound_ok h" and eq: "VersionInterval_Any\<lparr>high := Some h, high_inclusive := high_inclusive iv\<rparr> = iv"
    using ok by (auto simp: interval_ok_def VersionInterval_Any_def)
  show ?thesis
    using lh ComparatorToRange_high_text [OF b, of parse iv] Intersect_Any_single [OF ne]
    by (simp add: ParseGroup_def interval_tokens_def eq)
qed (use bd in auto)

subsection \<open>Several intervals\<close>

fun padded :: "string \<Rightarrow> string list \<Rightarrow> string list" where
  "padded lead [] = [lead]"
| "padded lead [w] = [lead @ w]"
| "padded lead (w # w' # ws) = (lead @ w @ '' '') # padded '' '' (w' # ws)"

lemma split_groups_join:
  "ws \<noteq> [] \<Longrightarrow> \<forall>w \<in> set ws. CHR ''|'' \<notin> set w \<Longrightarrow>
     split_groups (join_with '' || '' ws) cur = padded cur ws"
proof (induction cur ws rule: padded.induct)
  case (3 cur w w' ws)
  have "split_groups (join_with '' || '' (w # w' # ws)) cur =
      (cur @ w @ '' '') # split_groups (CHR '' '' # join_with '' || '' (w' # ws)) []"
    using 3(3) split_groups_bars [of "w @ '' ''" "CHR '' '' # join_with '' || '' (w' # ws)" cur] by simp
  also have "split_groups (CHR '' '' # join_with '' || '' (w' # ws)) [] = padded '' '' (w' # ws)"
    using 3 by simp
  finally show ?case by simp
qed (auto simp: split_groups_plain)

lemma tokenize_loop_trail: "tokenize_loop (s @ '' '') cur = tokenize_loop s cur"
  by (induction s arbitrary: cur) (auto simp: is_token_space_def)

lemma Tokenize_padding:
  "lead = [] \<or> lead = '' '' \<Longrightarrow> trail = [] \<or> trail = '' '' \<Longrightarrow> Tokenize (lead @ s @ trail) = Tokenize s"
  using tokenize_loop_trail [of s "[]"] by (auto simp: Tokenize_def is_token_space_def)

definition range_ok :: "VersionRange \<Rightarrow> bool" where
  "range_ok r = (canonical r \<and> (\<forall>iv \<in> set r. interval_ok iv))"

lemma Tokenize_interval:
  assumes "interval_ok iv"
  shows "Tokenize (interval_ToString iv) = interval_tokens iv"
  unfolding interval_ToString_tokens using assms interval_tokens_plain [OF assms]
  by (intro Tokenize_tokens) (auto simp: interval_tokens_def split: option.splits)

lemma interval_tokens_length: "interval_tokens iv \<noteq> [] \<and> length (interval_tokens iv) \<le> 2"
  by (auto simp: interval_tokens_def split: option.splits)

lemma parse_groups_padded:
  "\<forall>iv \<in> set r. interval_ok iv \<and> \<not> StructurallyEmpty iv \<and> (low iv \<noteq> None \<or> high iv \<noteq> None) \<Longrightarrow>
     r \<noteq> [] \<Longrightarrow> lead = [] \<or> lead = '' '' \<Longrightarrow>
     parse_groups parse (padded lead (map interval_ToString r)) all = FromIntervals (all @ r)"
proof (induction r arbitrary: lead all)
  case (Cons iv r)
  have step: "parse_groups parse ((lead @ interval_ToString iv @ trail) # gs) all =
      parse_groups parse gs (all @ [iv])" if "trail = [] \<or> trail = '' ''" for trail gs
    using Cons.prems that Tokenize_interval [of iv] interval_tokens_length [of iv]
      Tokenize_padding [of lead trail "interval_ToString iv"]
    by (auto simp: ParseGroup_interval fold_interval_tokens kMaxComparatorsPerGroup_def Let_def)
  show ?case
  proof (cases r)
    case Nil
    then show ?thesis using step [of "[]" "[]"] by simp
  next
    case (Cons iv' r')
    then show ?thesis
      using step [of "'' ''"] Cons.prems Cons.IH [of "'' ''" "all @ [iv]"]
      by simp
  qed
qed simp

lemma plain_ends: "plain w \<Longrightarrow> \<not> is_blank (hd w) \<and> \<not> is_blank (last w) \<and> CHR ''|'' \<notin> set w"
  by (auto simp: plain_def is_blank_def is_token_space_def)

lemma join_ends:
  "ws \<noteq> [] \<Longrightarrow> \<forall>w \<in> set ws. w \<noteq> [] \<and> \<not> is_blank (hd w) \<and> \<not> is_blank (last w) \<Longrightarrow>
     join_with sep ws \<noteq> [] \<and> \<not> is_blank (hd (join_with sep ws)) \<and> \<not> is_blank (last (join_with sep ws))"
  by (induction sep ws rule: join_with.induct) auto

lemma interval_ToString_ends:
  assumes "interval_ok iv"
  shows "interval_ToString iv \<noteq> [] \<and> \<not> is_blank (hd (interval_ToString iv)) \<and>
     \<not> is_blank (last (interval_ToString iv)) \<and> CHR ''|'' \<notin> set (interval_ToString iv)"
proof -
  have p: "\<forall>w \<in> set (interval_tokens iv). plain w" by (rule interval_tokens_plain [OF assms])
  then have "\<forall>w \<in> set (interval_tokens iv). w \<noteq> [] \<and> \<not> is_blank (hd w) \<and> \<not> is_blank (last w)"
    using plain_ends by (auto simp: plain_def)
  moreover have "CHR ''|'' \<notin> set (join_with '' '' (interval_tokens iv))"
    using p set_join_with [of "'' ''" "interval_tokens iv"] by (auto simp: plain_def)
  ultimately show ?thesis
    using join_ends [of "interval_tokens iv" "'' ''"] interval_tokens_length [of iv]
    by (simp add: interval_ToString_tokens)
qed

lemma canonical_unbounded:
  assumes "canonical r" and "iv \<in> set r" and "low iv = None" and "high iv = None"
  shows "r = [iv]"
proof -
  obtain xs ys where r: "r = xs @ iv # ys" using assms(2) by (auto simp: in_set_conv_decomp)
  have "\<not> separated iv z" "\<not> separated z iv" for z
    using assms(3,4) by (auto simp: separated_def joins_def split: option.split)
  then have "xs = []" "ys = []"
    using assms(1) by (cases xs; cases ys; auto simp: canonical_def r sorted_wrt_append)+
  then show ?thesis by (simp add: r)
qed

lemma interval_text_start:
  assumes "low iv \<noteq> None \<or> high iv \<noteq> None"
  shows "\<exists>a b cs. interval_ToString iv = a # b # cs \<and> a \<in> {CHR ''='', CHR ''>'', CHR ''<''} \<and>
    (b = CHR ''='' \<or> IsDigit b)"
proof -
  obtain c cs d ds where "SemVersion_ToString (the (low iv)) = c # cs" "IsDigit c"
      "SemVersion_ToString (the (high iv)) = d # ds" "IsDigit d"
    using ToString_Cons by metis
  then show ?thesis
    using assms by (cases "low iv"; cases "high iv") (simp_all add: interval_ToString_def)
qed

lemma length_padded: "ws \<noteq> [] \<Longrightarrow> length (padded lead ws) = length ws"
  by (induction lead ws rule: padded.induct) auto

lemma join_start: "ws \<noteq> [] \<Longrightarrow> \<exists>z. join_with sep ws = hd ws @ z"
  by (cases "(sep, ws)" rule: join_with.cases) auto

lemma range_text_inverse:
  assumes ok: "range_ok r" and len: "length (VersionRange_ToString r) \<le> kMaxRangeTextLength"
    and groups: "length r \<le> kMaxRangeGroups"
  shows "VersionRange_Parse (VersionRange_ToString r) = Inr r"
proof -
  have ivs: "\<forall>iv \<in> set r. interval_ok iv \<and> \<not> StructurallyEmpty iv"
    using ok by (simp add: range_ok_def canonical_def)
  consider "r = []" | iv where "iv \<in> set r" "low iv = None" "high iv = None"
    | "r \<noteq> []" "\<forall>iv \<in> set r. low iv \<noteq> None \<or> high iv \<noteq> None" by blast
  then show ?thesis
  proof cases
    case 1
    have "trim_blanks ''<none>'' = ''<none>''" by code_simp
    then show ?thesis
      using 1 by (simp add: VersionRange_Parse_def numeral_2_eq_2 parse_range_with_def
          VersionRange_ToString_def kMaxRangeTextLength_def)
  next
    case 2
    then have r: "r = [iv]" using ok canonical_unbounded by (auto simp: range_ok_def)
    then have "iv = VersionInterval_Any"
      using 2 ivs by (simp add: interval_ok_def VersionInterval_Any_def)
    moreover have "trim_blanks ''*'' = ''*''" by code_simp
    ultimately show ?thesis
      using r by (simp add: VersionRange_Parse_def numeral_2_eq_2 parse_range_with_def
          VersionRange_ToString_def kMaxRangeTextLength_def VersionRange_IsAny_def
          VersionInterval_Any_def VersionRange_Any_def)
  next
    case 3
    define t where "t = join_with '' || '' (map interval_ToString r)"
    have t: "VersionRange_ToString r = t"
      using 3 by (cases r) (auto simp: VersionRange_ToString_def VersionRange_IsAny_def t_def)
    have "trim_blanks t = t"
      using join_ends [of "map interval_ToString r" "'' || ''"] interval_ToString_ends ivs 3
      by (intro trim_plain_ends) (simp_all add: t_def)
    moreover have "t \<noteq> [] \<and> t \<noteq> ''any'' \<and> t \<noteq> ''*'' \<and> t \<noteq> ''x'' \<and> t \<noteq> ''X'' \<and> t \<noteq> ''<none>''"
    proof -
      obtain z where "t = interval_ToString (hd r) @ z"
        using 3 join_start [of "map interval_ToString r" "'' || ''"] by (auto simp: t_def hd_map)
      moreover obtain a b cs where "interval_ToString (hd r) = a # b # cs"
          "a \<in> {CHR ''='', CHR ''>'', CHR ''<''}" "b = CHR ''='' \<or> IsDigit b"
        using 3 interval_text_start [of "hd r"] by auto
      ultimately show ?thesis by (auto simp: IsDigit_def char_code_def)
    qed
    moreover have "split_groups t [] = padded [] (map interval_ToString r)"
      using interval_ToString_ends ivs 3 unfolding t_def by (intro split_groups_join) auto
    moreover have "parse_groups p (padded [] (map interval_ToString r)) [] = Inr r" for p
      using parse_groups_padded [of r "[]" p "[]"] ivs 3 ok
      by (simp add: FromIntervals_id range_ok_def)
    ultimately show ?thesis
      using len groups 3
      by (auto simp: t VersionRange_Parse_def numeral_2_eq_2 parse_range_with_def Let_def length_padded)
  qed
qed

text \<open>C37. The printed form of a range is read back as the range: for every canonical range whose
  bounds are well-formed versions without build metadata, the parser inverts the printer, within
  its limits on text length and on the number of alternatives.\<close>

theorem VersionRange_Parse_ToString:
  assumes "range_ok r" and "length (VersionRange_ToString r) \<le> kMaxRangeTextLength"
    and "length r \<le> kMaxRangeGroups"
  shows "VersionRange_Parse (VersionRange_ToString r) = Inr r"
  using assms by (rule range_text_inverse)

lemma VersionRange_Parse_ToString_witness:
  "VersionRange_Parse ''>=1.0.0 <2.0.0 || =2.5.0'' =
     Inr [(below (SemVersion_of 2 0 0))\<lparr>low := Some (SemVersion_of 1 0 0)\<rparr>,
       VersionInterval_Exact (SemVersion_of 2 5 0)]"
proof -
  let ?r = "[(below (SemVersion_of 2 0 0))\<lparr>low := Some (SemVersion_of 1 0 0)\<rparr>,
       VersionInterval_Exact (SemVersion_of 2 5 0)]"
  have "range_ok ?r" and "length (VersionRange_ToString ?r) \<le> kMaxRangeTextLength"
    and "length ?r \<le> kMaxRangeGroups" and "VersionRange_ToString ?r = ''>=1.0.0 <2.0.0 || =2.5.0''"
    by code_simp+
  then show ?thesis using VersionRange_Parse_ToString [of ?r] by simp
qed

section \<open>The caret operator\<close>

lemma bound_ok_release:
  assumes "prerelease v = []" and "build v = []"
  shows "bound_ok v"
proof -
  have "length (to_string (unat n)) \<le> 10" for n :: u32
    using to_string_length_le [of "unat n" 9] unsigned_less [of n, where ?'a = nat] by simp
  from this [of "major v"] this [of "minor v"] this [of "patch v"] assms show ?thesis
    by (simp add: bound_ok_def version_ok_def identifiers_ok_def SemVersion_ToString_def
        kMaxVersionTextLength_def)
qed

lemma below_next_major:
  assumes "major v \<noteq> - 1" and "prerelease w = []"
  shows "Precedence w (SemVersion_of (major v + 1) 0 0) = Less \<longleftrightarrow> major w \<le> major v"
proof -
  have "major w < major v + 1 \<longleftrightarrow> major w \<le> major v"
    using assms(1) unatSuc [of "major v"]
    by (auto simp: word_less_nat_alt word_le_nat_alt add.commute add_eq_0_iff)
  then show ?thesis
    using assms(2) by (auto simp: Precedence_then SemVersion_of_def ComparePrerelease_def then_cmp_Less)
qed

text \<open>\<open>^M.m.p\<close> admits, of the releases, exactly those at or above \<open>M.m.p\<close> with the same major
  number, for every release with a major number above zero and below the largest one.\<close>

theorem VersionRange_Parse_caret:
  assumes v: "prerelease v = []" "build v = []" and ma: "major v \<noteq> 0" "major v \<noteq> - 1"
  shows "\<exists>r. VersionRange_Parse (''^'' @ SemVersion_ToString v) = Inr r \<and>
    (\<forall>w. \<not> has_prerelease w \<longrightarrow>
      (VersionRange_Contains r w \<longleftrightarrow> major w = major v \<and> Precedence v w \<noteq> Greater))"
proof -
  define hi where "hi = SemVersion_of (major v + 1) 0 0"
  define iv where "iv = (below hi)\<lparr>low := Some v\<rparr>"
  have b: "bound_ok v" using v by (rule bound_ok_release)
  have "Precedence v hi = Less" using below_next_major [of v v] v ma by (simp add: hi_def)
  then have ne: "\<not> StructurallyEmpty iv" by (simp add: iv_def below_def StructurallyEmpty_def)
  have vv: "SemVersion_of (major v) (minor v) (patch v) = v"
    using v by (simp add: SemVersion_of_def)
  have "major v > 0" using ma(1) by (simp add: word_neq_0_conv)
  then have "caret_interval (full_partial (major v) (minor v) (patch v) (prerelease v)) (major v) = iv"
    using v vv by (simp add: caret_interval_def full_partial_def value_or_def iv_def hi_def below_def
        VersionInterval_Any_def Let_def)
  then have cmp: "ComparatorToRange p (''^'' @ SemVersion_ToString v) = Inr [iv]" for p
    using ComparatorToRange_version(7) [OF b, of p] FromIntervals_single [OF ne] by simp
  have "plain (''^'' @ SemVersion_ToString v)"
    using plain_ToString [OF b] by (simp add: plain_Cons is_token_space_def)
  moreover have "\<not> is_word (''^'' @ SemVersion_ToString v)" by (simp add: is_word_def)
  moreover have "length (''^'' @ SemVersion_ToString v) \<le> kMaxRangeTextLength"
    using b by (simp add: bound_ok_def kMaxRangeTextLength_def kMaxVersionTextLength_def)
  ultimately have "parse_range_with p (''^'' @ SemVersion_ToString v) = Inr [iv]" for p
    using parse_range_with_single [of "''^'' @ SemVersion_ToString v" p] cmp [of p]
      Intersect_Any_single [OF ne] FromIntervals_single [OF ne] by simp
  then have "VersionRange_Parse (''^'' @ SemVersion_ToString v) = Inr [iv]"
    by (simp add: VersionRange_Parse_def numeral_2_eq_2)
  moreover have "VersionRange_Contains [iv] w \<longleftrightarrow> major w = major v \<and> Precedence v w \<noteq> Greater"
    if "\<not> has_prerelease w" for w
  proof -
    have "Precedence v w \<noteq> Greater \<Longrightarrow> major v \<le> major w"
      by (auto simp: Precedence_then then_cmp_Greater)
    then show ?thesis
      using that below_next_major [of v w] ma
      by (auto simp: Contains_release ContainsBound_def low_admits_iff high_admits_iff iv_def below_def
          VersionInterval_Any_def hi_def [symmetric] has_prerelease_def prec.not_greater)
  qed
  ultimately show ?thesis by blast
qed

lemma VersionRange_Parse_caret_witness:
  "\<exists>r. VersionRange_Parse ''^1.2.3'' = Inr r \<and> VersionRange_Contains r (SemVersion_of 1 9 0) \<and>
     \<not> VersionRange_Contains r (SemVersion_of 2 0 0)"
proof -
  have t: "''^'' @ SemVersion_ToString (SemVersion_of 1 2 3) = ''^1.2.3''" by code_simp
  have p: "prerelease (SemVersion_of 1 2 3) = []" "build (SemVersion_of 1 2 3) = []"
    "major (SemVersion_of 1 2 3) \<noteq> 0" "major (SemVersion_of 1 2 3) \<noteq> - 1"
    by (simp_all add: SemVersion_of_def)
  have "\<not> has_prerelease (SemVersion_of 1 9 0)" "\<not> has_prerelease (SemVersion_of 2 0 0)"
    "major (SemVersion_of 1 9 0) = major (SemVersion_of 1 2 3)"
    "Precedence (SemVersion_of 1 2 3) (SemVersion_of 1 9 0) \<noteq> Greater"
    "major (SemVersion_of 2 0 0) \<noteq> major (SemVersion_of 1 2 3)"
    by code_simp+
  then show ?thesis using VersionRange_Parse_caret [OF p] unfolding t by blast
qed

text \<open>The arithmetic of the range operators is not checked: for the largest major number the
  bound of the caret operator wraps to 0.0.0 and the range admits nothing, not even the version
  it is written with; and \<open><*\<close> reads an empty optional.\<close>

theorem VersionRange_Parse_unchecked:
  "VersionRange_Parse (''^'' @ SemVersion_ToString (SemVersion_of (- 1) 0 0)) = Inr [] \<and>
   VersionRange_Parse ''<*'' = Inl Undefined_Behaviour \<and>
   VersionRange_Parse ''<=x'' = Inl Undefined_Behaviour"
proof (intro conjI)
  let ?v = "SemVersion_of (- 1) 0 0"
  let ?t = "''^'' @ SemVersion_ToString ?v"
  have b: "bound_ok ?v" by (rule bound_ok_release) (simp_all add: SemVersion_of_def)
  have "StructurallyEmpty (caret_interval (full_partial (- 1) 0 0 []) (- 1))"
    by code_simp
  then have "FromIntervals [caret_interval (full_partial (- 1) 0 0 []) (- 1)] = Inr []"
    by (simp add: FromIntervals_def)
  then have "ComparatorToRange p ?t = Inr []" for p
    using ComparatorToRange_version(7) [OF b, of p] by (simp add: SemVersion_of_def)
  moreover have "plain ?t" and "\<not> is_word ?t" and "length ?t \<le> kMaxRangeTextLength"
    using plain_ToString [OF b] b
    by (simp_all add: plain_Cons is_token_space_def is_word_def bound_ok_def kMaxRangeTextLength_def
        kMaxVersionTextLength_def)
  moreover have "Intersect VersionRange_Any [] = []" and "FromIntervals [] = Inr []" by code_simp+
  ultimately have "parse_range_with p ?t = Inr []" for p
    using parse_range_with_single [of ?t p] by simp
  then show "VersionRange_Parse ?t = Inr []" by (simp add: VersionRange_Parse_def numeral_2_eq_2)
qed (code_simp)+

end
