(* ===== verification/Component.thy ===== *)
theory Component
  imports Taxonomy RangeText
begin

text \<open>
  Component observations and the selectors of rules (\<open>include/fcr/component.hpp\<close>,
  \<open>src/component.cpp\<close>): matching, subsumption and overlap of selectors, and the JSON forms.
\<close>

section \<open>Data\<close>

record ComponentSpec =
  instance_id :: ComponentInstanceId
  label :: string
  family :: ComponentFamilyId
  kind :: ComponentKindId
  spec_version :: SemVersion
  hardware_class :: "HardwareClassId option"
  vendor :: "VendorId option"
  knowledge :: KnowledgeProfile
  spec_capabilities :: CapabilitySet
  spec_protocols :: ProtocolSupportSet
  spec_schemas :: SchemaSupportSet
  spec_features :: FeatureSet

definition CapabilitiesClosed :: "ComponentSpec \<Rightarrow> bool" where
  "CapabilitiesClosed s = (kn_capabilities (knowledge s) = Closed)"

definition ProtocolsClosed :: "ComponentSpec \<Rightarrow> bool" where
  "ProtocolsClosed s = (kn_protocols (knowledge s) = Closed)"

definition SchemasClosed :: "ComponentSpec \<Rightarrow> bool" where
  "SchemasClosed s = (kn_schemas (knowledge s) = Closed)"

record ComponentSelector =
  sel_family :: "ComponentFamilyId option"
  sel_kind :: "ComponentKindId option"
  sel_version :: "VersionRange option"
  sel_hardware_class :: "HardwareClassId option"

definition ComponentSelector_any :: ComponentSelector where
  "ComponentSelector_any =
     \<lparr>sel_family = None, sel_kind = None, sel_version = None, sel_hardware_class = None\<rparr>"

definition selector_IsWildcard :: "ComponentSelector \<Rightarrow> bool" where
  "selector_IsWildcard s = (sel_family s = None \<and> sel_kind s = None \<and> sel_version s = None \<and>
     sel_hardware_class s = None)"

definition ConstrainedDimensions :: "ComponentSelector \<Rightarrow> nat" where
  "ConstrainedDimensions s =
     (if sel_family s \<noteq> None then 1 else 0) + (if sel_kind s \<noteq> None then 1 else 0) +
     (if sel_version s \<noteq> None then 1 else 0) + (if sel_hardware_class s \<noteq> None then 1 else 0)"

definition selector_part :: "string \<Rightarrow> ('a \<Rightarrow> string) \<Rightarrow> 'a option \<Rightarrow> string list" where
  "selector_part key f x = (case x of None \<Rightarrow> [] | Some v \<Rightarrow> [key @ ''='' @ f v])"

definition SelectorText :: "ComponentSelector \<Rightarrow> string" where
  "SelectorText s =
     (let parts = selector_part ''family'' id_value (sel_family s) @
          selector_part ''kind'' id_value (sel_kind s) @
          selector_part ''version'' VersionRange_ToString (sel_version s) @
          selector_part ''hardware_class'' id_value (sel_hardware_class s)
      in if parts = [] then ''*'' else join_with '', '' parts)"

section \<open>Selection\<close>

definition SelectorMatches :: "ComponentSelector \<Rightarrow> ComponentSpec \<Rightarrow> bool" where
  "SelectorMatches s c =
     ((case sel_family s of None \<Rightarrow> True | Some f \<Rightarrow> f = family c) \<and>
      (case sel_kind s of None \<Rightarrow> True | Some k \<Rightarrow> k = kind c) \<and>
      (case sel_hardware_class s of None \<Rightarrow> True
       | Some h \<Rightarrow> (case hardware_class c of None \<Rightarrow> False | Some h' \<Rightarrow> h = h')) \<and>
      (case sel_version s of None \<Rightarrow> True | Some r \<Rightarrow> VersionRange_Contains r (spec_version c)))"

definition id_subsumes :: "'a option \<Rightarrow> 'a option \<Rightarrow> bool" where
  "id_subsumes x y =
     (case x of None \<Rightarrow> True | Some a \<Rightarrow> (case y of None \<Rightarrow> False | Some b \<Rightarrow> a = b))"

definition SelectorSubsumes :: "ComponentSelector \<Rightarrow> ComponentSelector \<Rightarrow> bool" where
  "SelectorSubsumes s t =
     (id_subsumes (sel_family s) (sel_family t) \<and> id_subsumes (sel_kind s) (sel_kind t) \<and>
      id_subsumes (sel_hardware_class s) (sel_hardware_class t) \<and>
      (case sel_version s of None \<Rightarrow> True
       | Some r \<Rightarrow> (case sel_version t of None \<Rightarrow> False | Some r' \<Rightarrow> VersionRange_Subsumes r r')))"

definition id_overlaps :: "'a option \<Rightarrow> 'a option \<Rightarrow> bool" where
  "id_overlaps x y =
     (case (x, y) of (Some a, Some b) \<Rightarrow> a = b | _ \<Rightarrow> True)"

definition SelectorsOverlap :: "ComponentSelector \<Rightarrow> ComponentSelector \<Rightarrow> bool" where
  "SelectorsOverlap s t =
     (id_overlaps (sel_family s) (sel_family t) \<and> id_overlaps (sel_kind s) (sel_kind t) \<and>
      id_overlaps (sel_hardware_class s) (sel_hardware_class t) \<and>
      (case (sel_version s, sel_version t) of (Some r, Some r') \<Rightarrow> Overlaps r r' | _ \<Rightarrow> True))"

section \<open>Reading specifications\<close>

record ComponentSpecLimits =
  lim_capabilities :: nat
  lim_protocols :: nat
  lim_schemas :: nat
  lim_features :: nat

definition ComponentSpecLimits_default :: ComponentSpecLimits where
  "ComponentSpecLimits_default =
     \<lparr>lim_capabilities = 512, lim_protocols = 128, lim_schemas = 128, lim_features = 256\<rparr>"

text \<open>An optional field: absent and \<open>null\<close> are the same.\<close>

definition present :: "JsonValue \<Rightarrow> string \<Rightarrow> JsonValue option" where
  "present j key =
     (case Find j key of None \<Rightarrow> None | Some v \<Rightarrow> if IsNull v then None else Some v)"

definition required_id :: "IdGrammar \<Rightarrow> JsonValue \<Rightarrow> string \<Rightarrow> 'tag TypedId result" where
  "required_id g j key = res_bind (RequireString j key) (TypedId_Parse g)"

definition optional_id :: "IdGrammar \<Rightarrow> JsonValue \<Rightarrow> string \<Rightarrow> 'tag TypedId option result" where
  "optional_id g j key =
     (case present j key of
        None \<Rightarrow> Inr None
      | Some v \<Rightarrow>
          (case AsString v of
             None \<Rightarrow> Fail InvalidDocument
           | Some t \<Rightarrow> res_bind (TypedId_Parse g t) (\<lambda>i. Inr (Some i))))"

definition read_instance :: "JsonValue \<Rightarrow> ComponentInstanceId result" where
  "read_instance j =
     res_bind (OptionalString j ''instance'' []) (\<lambda>t.
       if t \<noteq> [] then TypedId_Parse Opaque t else Inr (TypedId []))"

definition read_closure :: "JsonValue \<Rightarrow> string \<Rightarrow> KnowledgeClosure result" where
  "read_closure j key =
     (case present j key of
        None \<Rightarrow> Inr Open
      | Some v \<Rightarrow>
          (case AsString v of None \<Rightarrow> Fail InvalidDocument | Some t \<Rightarrow> ParseKnowledgeClosure t))"

definition read_knowledge :: "JsonValue \<Rightarrow> KnowledgeProfile result" where
  "read_knowledge j =
     (case present j ''knowledge'' of
        None \<Rightarrow> Inr KnowledgeProfile_default
      | Some k \<Rightarrow>
          if \<not> IsObject k then Fail InvalidDocument
          else res_bind (read_closure k ''capabilities'') (\<lambda>c.
               res_bind (read_closure k ''protocols'') (\<lambda>p.
               res_bind (read_closure k ''schemas'') (\<lambda>s.
                 Inr \<lparr>kn_capabilities = c, kn_protocols = p, kn_schemas = s\<rparr>))))"

fun read_feature_list :: "Taxonomy \<Rightarrow> JsonValue list \<Rightarrow> FeatureSet \<Rightarrow> FeatureSet result" where
  "read_feature_list tax [] acc = Inr acc"
| "read_feature_list tax (e # es) acc =
     (case AsString e of
        None \<Rightarrow> Fail InvalidDocument
      | Some t \<Rightarrow> res_bind (TypedId_Parse QualifiedName t) (\<lambda>i.
          if \<not> HasFeature tax i then Fail UndefinedReference
          else read_feature_list tax es (FeatureSet_Add acc i)))"

definition read_features :: "Taxonomy \<Rightarrow> nat \<Rightarrow> JsonValue \<Rightarrow> FeatureSet result" where
  "read_features tax cap j =
     (case present j ''features'' of
        None \<Rightarrow> Inr []
      | Some v \<Rightarrow>
          (case AsArray v of
             None \<Rightarrow> Fail InvalidDocument
           | Some es \<Rightarrow> if length es > cap then Fail LimitExceeded else read_feature_list tax es []))"

fun read_capability_members ::
  "Taxonomy \<Rightarrow> (string \<times> JsonValue) list \<Rightarrow> CapabilitySet \<Rightarrow> CapabilitySet result" where
  "read_capability_members tax [] acc = Inr acc"
| "read_capability_members tax ((key, v) # ms) acc =
     res_bind (TypedId_Parse QualifiedName key) (\<lambda>i.
       (case FindCapability tax i of
          None \<Rightarrow> Fail UndefinedReference
        | Some d \<Rightarrow> res_bind (CapabilityValue_FromJson (decl_type d) v) (\<lambda>x.
            res_bind (CapabilitySet_Set acc i x) (read_capability_members tax ms))))"

definition json_members :: "JsonValue \<Rightarrow> (string \<times> JsonValue) list" where
  "json_members j = zip (json_keys j) (json_values j)"

definition read_object :: "JsonValue \<Rightarrow> string \<Rightarrow> nat \<Rightarrow> ((string \<times> JsonValue) list \<Rightarrow> 'a list result) \<Rightarrow>
    'a list result" where
  "read_object j key cap read =
     (case present j key of
        None \<Rightarrow> Inr []
      | Some v \<Rightarrow>
          if \<not> IsObject v then Fail InvalidDocument
          else if json_size v > cap then Fail LimitExceeded
          else read (json_members v))"

definition read_version_entry :: "JsonValue \<Rightarrow> SemVersion result" where
  "read_version_entry e =
     (case AsString e of None \<Rightarrow> Fail InvalidDocument | Some t \<Rightarrow> SemVersion_Parse t)"

definition read_version_list :: "JsonValue \<Rightarrow> SemVersion list result" where
  "read_version_list v =
     (case AsArray v of
        None \<Rightarrow> Fail InvalidDocument
      | Some es \<Rightarrow>
          if es = [] then Fail InvalidDocument
          else if length es > kMaxCapabilityVersionsPerId then Fail LimitExceeded
          else res_mapM read_version_entry es)"

fun read_support_members :: "('tag TypedId \<Rightarrow> bool) \<Rightarrow> (string \<times> JsonValue) list \<Rightarrow>
    ('tag TypedId, SemVersion list) omap \<Rightarrow> ('tag TypedId, SemVersion list) omap result" where
  "read_support_members known [] acc = Inr acc"
| "read_support_members known ((key, v) # ms) acc =
     res_bind (TypedId_Parse QualifiedName key) (\<lambda>i.
       if \<not> known i then Fail UndefinedReference
       else res_bind (read_version_list v) (\<lambda>vs.
         res_bind (SetSupport acc i vs) (read_support_members known ms)))"

definition ParseComponentSpec ::
  "JsonValue \<Rightarrow> Taxonomy \<Rightarrow> ComponentSpecLimits \<Rightarrow> ComponentSpec result" where
  "ParseComponentSpec j tax lim =
     (if \<not> IsObject j then Fail InvalidDocument
      else
        res_bind (required_id QualifiedName j ''family'') (\<lambda>fam.
        res_bind (required_id QualifiedName j ''kind'') (\<lambda>knd.
        res_bind (res_bind (RequireString j ''version'') SemVersion_Parse) (\<lambda>ver.
        res_bind (read_instance j) (\<lambda>inst.
        res_bind (OptionalString j ''label'' []) (\<lambda>lab.
        res_bind (optional_id QualifiedName j ''hardware_class'') (\<lambda>hw.
        res_bind (optional_id Opaque j ''vendor'') (\<lambda>ven.
        res_bind (read_knowledge j) (\<lambda>kn.
        res_bind (read_features tax (lim_features lim) j) (\<lambda>feats.
        res_bind (read_object j ''capabilities'' (lim_capabilities lim)
            (\<lambda>ms. read_capability_members tax ms [])) (\<lambda>caps.
        res_bind (read_object j ''protocols'' (lim_protocols lim)
            (\<lambda>ms. read_support_members (HasProtocol tax) ms [])) (\<lambda>prots.
        res_bind (read_object j ''schemas'' (lim_schemas lim)
            (\<lambda>ms. read_support_members (HasSchema tax) ms [])) (\<lambda>schs.
          Inr \<lparr>instance_id = inst, label = lab, family = fam, kind = knd, spec_version = ver,
            hardware_class = hw, vendor = ven, knowledge = kn, spec_capabilities = caps,
            spec_protocols = prots, spec_schemas = schs, spec_features = feats\<rparr>)))))))))))))"

section \<open>Writing specifications\<close>

definition knowledge_json :: "KnowledgeProfile \<Rightarrow> JsonValue" where
  "knowledge_json k =
     Set (Set (Set (JObj [])
       ''capabilities'' (JStr (KnowledgeClosureName (kn_capabilities k))))
       ''protocols'' (JStr (KnowledgeClosureName (kn_protocols k))))
       ''schemas'' (JStr (KnowledgeClosureName (kn_schemas k)))"

definition versions_json :: "SemVersion list \<Rightarrow> JsonValue" where
  "versions_json vs = JArr (map (\<lambda>v. JStr (SemVersion_ToString v)) vs)"

definition members_json :: "('v \<Rightarrow> JsonValue) \<Rightarrow> ('tag TypedId, 'v) omap \<Rightarrow> JsonValue" where
  "members_json f m = foldl (\<lambda>j (i, v). Set j (id_value i) (f v)) (JObj []) m"

definition set_when :: "bool \<Rightarrow> string \<Rightarrow> JsonValue \<Rightarrow> JsonValue \<Rightarrow> JsonValue" where
  "set_when b key v j = (if b then Set j key v else j)"

definition set_option :: "string \<Rightarrow> ('a \<Rightarrow> JsonValue) \<Rightarrow> 'a option \<Rightarrow> JsonValue \<Rightarrow> JsonValue" where
  "set_option key f x j = (case x of None \<Rightarrow> j | Some v \<Rightarrow> Set j key (f v))"

definition features_json :: "FeatureSet \<Rightarrow> JsonValue" where
  "features_json m = JArr (map (\<lambda>e. JStr (id_value (fst e))) m)"

definition ComponentSpecToJson :: "ComponentSpec \<Rightarrow> JsonValue" where
  "ComponentSpecToJson s =
     (let j = set_when (id_value (instance_id s) \<noteq> []) ''instance'' (JStr (id_value (instance_id s))) (JObj []);
          j = set_when (label s \<noteq> []) ''label'' (JStr (label s)) j;
          j = Set j ''family'' (JStr (id_value (family s)));
          j = Set j ''kind'' (JStr (id_value (kind s)));
          j = Set j ''version'' (JStr (SemVersion_ToString (spec_version s)));
          j = set_option ''hardware_class'' (\<lambda>i. JStr (id_value i)) (hardware_class s) j;
          j = set_option ''vendor'' (\<lambda>i. JStr (id_value i)) (vendor s) j;
          j = Set j ''knowledge'' (knowledge_json (knowledge s));
          j = Set j ''capabilities'' (members_json CapabilityValue_ToJson (spec_capabilities s));
          j = Set j ''protocols'' (members_json versions_json (spec_protocols s));
          j = Set j ''schemas'' (members_json versions_json (spec_schemas s))
      in set_when (spec_features s \<noteq> []) ''features'' (features_json (spec_features s)) j)"

section \<open>Selectors in JSON\<close>

definition read_range :: "JsonValue \<Rightarrow> string \<Rightarrow> VersionRange option result" where
  "read_range j key =
     (case present j key of
        None \<Rightarrow> Inr None
      | Some v \<Rightarrow>
          (case AsString v of
             None \<Rightarrow> Fail InvalidDocument
           | Some t \<Rightarrow> res_bind (VersionRange_Parse t) (\<lambda>r. Inr (Some r))))"

definition ParseComponentSelector :: "JsonValue \<Rightarrow> ComponentSelector result" where
  "ParseComponentSelector j =
     (if \<not> IsObject j then Fail InvalidDocument
      else res_bind (optional_id QualifiedName j ''family'') (\<lambda>f.
           res_bind (optional_id QualifiedName j ''kind'') (\<lambda>k.
           res_bind (optional_id QualifiedName j ''hardware_class'') (\<lambda>h.
           res_bind (read_range j ''version'') (\<lambda>r.
             Inr \<lparr>sel_family = f, sel_kind = k, sel_version = r, sel_hardware_class = h\<rparr>)))))"

definition ComponentSelectorToJson :: "ComponentSelector \<Rightarrow> JsonValue" where
  "ComponentSelectorToJson s =
     set_option ''version'' (\<lambda>r. JStr (VersionRange_ToString r)) (sel_version s)
      (set_option ''hardware_class'' (\<lambda>i. JStr (id_value i)) (sel_hardware_class s)
        (set_option ''kind'' (\<lambda>i. JStr (id_value i)) (sel_kind s)
          (set_option ''family'' (\<lambda>i. JStr (id_value i)) (sel_family s) (JObj []))))"

section \<open>Overlap\<close>

definition selector_ok :: "ComponentSelector \<Rightarrow> bool" where
  "selector_ok s = (case sel_version s of None \<Rightarrow> True | Some r \<Rightarrow> canonical r)"

lemma SelectorsOverlap_common:
  assumes "selector_ok s" and "selector_ok t" and "SelectorMatches s c" and "SelectorMatches t c"
  shows "SelectorsOverlap s t"
  using assms Overlaps_common [of "the (sel_version s)" "the (sel_version t)" "spec_version c"]
  by (auto simp: SelectorsOverlap_def SelectorMatches_def id_overlaps_def selector_ok_def
      split: option.splits)

lemma ParseComponentSelector_ok:
  assumes "ParseComponentSelector j = Inr s"
  shows "selector_ok s"
proof -
  have "canonical r" if "VersionRange_Parse t = Inr r" for t r
    using that parse_range_canonical [of 2 t r] by (simp add: VersionRange_Parse_def)
  then show ?thesis
    using assms by (auto simp: ParseComponentSelector_def selector_ok_def read_range_def result_simps
        split: if_splits option.splits)
qed

text \<open>No common component escapes the overlap test: two selectors that a registry document can
  hold and that both match some component are reported to overlap.\<close>

theorem SelectorsOverlap_complete:
  assumes "ParseComponentSelector j = Inr s" and "ParseComponentSelector k = Inr t"
    and "SelectorMatches s c" and "SelectorMatches t c"
  shows "SelectorsOverlap s t"
  using assms by (intro SelectorsOverlap_common ParseComponentSelector_ok)

section \<open>Selectors survive their JSON form\<close>

lemma Find_set_option [json_simps]:
  "json_object j \<Longrightarrow> Find (set_option k f x j) k' =
     (if k' = k then (case x of None \<Rightarrow> Find j k' | Some v \<Rightarrow> Some (f v)) else Find j k')"
  by (simp add: set_option_def json_simps split: option.split)

lemma json_object_set_option [json_simps]: "json_object j \<Longrightarrow> json_object (set_option k f x j)"
  by (simp add: set_option_def json_simps split: option.split)

lemma Find_set_when [json_simps]:
  "json_object j \<Longrightarrow> Find (set_when b k v j) k' = (if b \<and> k' = k then Some v else Find j k')"
  by (simp add: set_when_def json_simps)

lemma json_object_set_when [json_simps]: "json_object j \<Longrightarrow> json_object (set_when b k v j)"
  by (simp add: set_when_def json_simps)

definition opt_id_ok :: "'tag TypedId option \<Rightarrow> bool" where
  "opt_id_ok x = (case x of None \<Rightarrow> True | Some i \<Rightarrow> id_ok i)"

lemma TypedId_Parse_value: "id_ok i \<Longrightarrow> TypedId_Parse QualifiedName (id_value i) = Inr i"
  by (simp add: TypedId_Parse_ok)

lemma optional_id_Find:
  "Find j k = (case x of None \<Rightarrow> None | Some i \<Rightarrow> Some (JStr (id_value i))) \<Longrightarrow> opt_id_ok x \<Longrightarrow>
     optional_id QualifiedName j k = Inr x"
  by (auto simp: optional_id_def present_def opt_id_ok_def TypedId_Parse_value split: option.splits)

definition selector_wf :: "ComponentSelector \<Rightarrow> bool" where
  "selector_wf s =
     (opt_id_ok (sel_family s) \<and> opt_id_ok (sel_kind s) \<and> opt_id_ok (sel_hardware_class s) \<and>
      (case sel_version s of None \<Rightarrow> True
       | Some r \<Rightarrow> range_ok r \<and> length r \<le> kMaxRangeGroups \<and>
           length (VersionRange_ToString r) \<le> kMaxRangeTextLength))"

lemma ParseComponentSelector_print:
  assumes "selector_wf s"
  shows "ParseComponentSelector (ComponentSelectorToJson s) = Inr s"
proof -
  let ?j = "ComponentSelectorToJson s"
  have obj: "json_object ?j" by (simp add: ComponentSelectorToJson_def json_simps)
  have f: "optional_id QualifiedName ?j ''family'' = Inr (sel_family s)"
    and k: "optional_id QualifiedName ?j ''kind'' = Inr (sel_kind s)"
    and h: "optional_id QualifiedName ?j ''hardware_class'' = Inr (sel_hardware_class s)"
    using assms by (intro optional_id_Find; simp add: ComponentSelectorToJson_def json_simps selector_wf_def cong: option.case_cong)+
  have r: "read_range ?j ''version'' = Inr (sel_version s)"
    using assms range_text_inverse
    by (auto simp: read_range_def present_def ComponentSelectorToJson_def json_simps selector_wf_def
        split: option.split)
  show ?thesis
    using json_object_IsObject [OF obj] by (simp add: ParseComponentSelector_def f k h r)
qed

section \<open>Specifications survive their JSON form\<close>

lemma id_less: "i < j \<longleftrightarrow> id_value i < id_value (j :: 'tag TypedId)"
  by (simp add: less_TypedId_def TypedId_lt_def)

lemma members_json_fold:
  "omap_ok (m @ ms) \<Longrightarrow>
     foldl (\<lambda>j (i, v). Set j (id_value i) (f v)) (JObj (map (\<lambda>(i, v). (id_value i, f v)) m)) ms =
     JObj (map (\<lambda>(i, v). (id_value i, f v)) (m @ ms))" for m :: "('tag TypedId, 'v) omap"
proof (induction ms arbitrary: m)
  case (Cons e ms)
  obtain i v where e: "e = (i, v)" by fastforce
  have "\<forall>x \<in> set m. id_value (fst x) < id_value i"
    using Cons.prems e by (auto simp: omap_ok_def sorted_wrt_append id_less)
  then have "omap_put (id_value i) (f v) (map (\<lambda>(i, v). (id_value i, f v)) m) =
      map (\<lambda>(i, v). (id_value i, f v)) (m @ [e])"
    using omap_put_snoc [of "map (\<lambda>(i, v). (id_value i, f v)) m" "id_value i" "f v"] e
    by (simp add: case_prod_beta)
  then show ?case using Cons.IH [of "m @ [e]"] Cons.prems e by (simp add: Set_def)
qed simp

lemma members_json_eq:
  "omap_ok m \<Longrightarrow> members_json f m = JObj (map (\<lambda>(i, v). (id_value i, f v)) m)" for m :: "('tag TypedId, 'v) omap"
  using members_json_fold [of "[]" m f] by (simp add: members_json_def)

lemma json_members_eq:
  "omap_ok m \<Longrightarrow> json_members (members_json f m) = map (\<lambda>(i, v). (id_value i, f v)) m \<and>
     json_size (members_json f m) = length m \<and> IsObject (members_json f m) \<and>
     \<not> IsNull (members_json f m)" for m :: "('tag TypedId, 'v) omap"
  by (induction m)
    (simp_all add: members_json_eq json_members_def json_keys_def json_values_def json_size_def
      IsObject_def case_prod_beta comp_def zip_map_map zip_same_conv_map)

definition value_ok :: "CapabilityType \<Rightarrow> CapabilityValue \<Rightarrow> bool" where
  "value_ok ty v = (value_type v = ty \<and>
     (case v of Text t \<Rightarrow> length t \<le> kMaxCapabilityTextBytes
      | Version w \<Rightarrow> version_ok w \<and> length (SemVersion_ToString w) \<le> kMaxVersionTextLength
      | _ \<Rightarrow> True))"

lemma CapabilityValue_roundtrip:
  "value_ok ty v \<Longrightarrow> CapabilityValue_FromJson ty (CapabilityValue_ToJson v) = Inr v"
  by (cases v) (auto simp: value_ok_def IsBool_def AsBool_def AsInt_def SemVersion_print_parse)

definition caps_ok :: "Taxonomy \<Rightarrow> CapabilitySet \<Rightarrow> bool" where
  "caps_ok tax m = (omap_ok m \<and> (\<forall>e \<in> set m. id_ok (fst e) \<and>
     (case FindCapability tax (fst e) of None \<Rightarrow> False | Some d \<Rightarrow> value_ok (decl_type d) (snd e))))"

lemma read_capability_members_print:
  "caps_ok tax (acc @ m) \<Longrightarrow>
     read_capability_members tax (map (\<lambda>(i, v). (id_value i, CapabilityValue_ToJson v)) m) acc = Inr (acc @ m)"
proof (induction m arbitrary: acc)
  case (Cons e m)
  obtain i v where e: "e = (i, v)" by fastforce
  obtain d where d: "FindCapability tax i = Some d" "value_ok (decl_type d) v" "id_ok i"
    using Cons.prems e by (auto simp: caps_ok_def split: option.splits)
  have "omap_put i v acc = acc @ [e]"
    using Cons.prems e by (intro omap_put_snoc [of acc i v, folded e])
      (auto simp: caps_ok_def omap_ok_def sorted_wrt_append)
  then show ?case
    using Cons.IH [of "acc @ [e]"] Cons.prems e d
    by (simp add: TypedId_Parse_value CapabilityValue_roundtrip CapabilitySet_Set_def)
qed simp

definition versions_ok :: "SemVersion list \<Rightarrow> bool" where
  "versions_ok vs = (vs \<noteq> [] \<and> length vs \<le> kMaxCapabilityVersionsPerId \<and>
     sorted_wrt (\<lambda>a b. Precedence a b = Less) vs \<and>
     (\<forall>v \<in> set vs. version_ok v \<and> length (SemVersion_ToString v) \<le> kMaxVersionTextLength))"

lemma unique_by_id: "sorted_wrt (\<lambda>a b. Precedence a b = Less) vs \<Longrightarrow>
    unique_by (\<lambda>a b. Precedence a b = Equal) vs = vs"
  by (induction "\<lambda>a b. Precedence a b = Equal" vs rule: unique_by.induct) auto

lemma normalize_versions_id:
  assumes "sorted_wrt (\<lambda>a b. Precedence a b = Less) vs"
  shows "normalize_versions vs = vs"
proof -
  have "\<not> TotalOrder b a = Less" if "Precedence a b = Less" for a b
    using that prec.flip_cases [of a b] by (auto simp: TotalOrder_then then_cmp_Less)
  then have "sorted_wrt (\<lambda>a b. \<not> TotalOrder b a = Less) vs"
    by (rule sorted_wrt_mono_rel [OF _ assms])
  then have "sort_by (\<lambda>a b. TotalOrder a b = Less) vs = vs" by (rule total.ascending.sort_by_id)
  then show ?thesis using unique_by_id [OF assms] by (simp add: normalize_versions_def)
qed

lemma read_version_list_print:
  assumes "versions_ok vs"
  shows "read_version_list (versions_json vs) = Inr vs"
proof -
  have "res_mapM read_version_entry (map (\<lambda>v. JStr (SemVersion_ToString v)) vs) = Inr vs"
    using assms by (auto simp: res_mapM_Inr versions_ok_def list_all2_conv_all_nth read_version_entry_def
        SemVersion_print_parse)
  then show ?thesis using assms by (simp add: read_version_list_def versions_json_def versions_ok_def)
qed

definition support_ok :: "('tag TypedId \<Rightarrow> bool) \<Rightarrow> ('tag TypedId, SemVersion list) omap \<Rightarrow> bool" where
  "support_ok known m =
     (omap_ok m \<and> (\<forall>e \<in> set m. id_ok (fst e) \<and> known (fst e) \<and> versions_ok (snd e)))"

lemma read_support_members_print:
  "support_ok known (acc @ m) \<Longrightarrow>
     read_support_members known (map (\<lambda>(i, v). (id_value i, versions_json v)) m) acc = Inr (acc @ m)"
proof (induction m arbitrary: acc)
  case (Cons e m)
  obtain i v where e: "e = (i, v)" by fastforce
  have iv: "id_ok i" "known i" "versions_ok v" using Cons.prems e by (auto simp: support_ok_def)
  have "omap_put i v acc = acc @ [e]"
    using Cons.prems e by (intro omap_put_snoc [of acc i v, folded e])
      (auto simp: support_ok_def omap_ok_def sorted_wrt_append)
  then have "SetSupport acc i v = Inr (acc @ [e])"
    using iv(3) by (simp add: SetSupport_def versions_ok_def normalize_versions_id)
  then show ?case
    using Cons.IH [of "acc @ [e]"] Cons.prems e iv
    by (simp add: TypedId_Parse_value read_version_list_print)
qed simp

lemma read_feature_list_print:
  "omap_ok (acc @ m) \<Longrightarrow> \<forall>e \<in> set m. id_ok (fst e) \<and> HasFeature tax (fst e) \<Longrightarrow>
     read_feature_list tax (map (\<lambda>e. JStr (id_value (fst e))) m) acc = Inr (acc @ m)"
proof (induction m arbitrary: acc)
  case (Cons e m)
  obtain i where e: "e = (i, ())" by (cases e) auto
  have "omap_put i () acc = acc @ [e]"
    using Cons.prems e by (intro omap_put_snoc [of acc i "()", folded e])
      (auto simp: omap_ok_def sorted_wrt_append)
  then show ?case
    using Cons.IH [of "acc @ [e]"] Cons.prems e by (simp add: TypedId_Parse_value FeatureSet_Add_def)
qed simp

definition spec_ok :: "Taxonomy \<Rightarrow> ComponentSpecLimits \<Rightarrow> ComponentSpec \<Rightarrow> bool" where
  "spec_ok tax lim s =
     (id_ok (family s) \<and> id_ok (kind s) \<and> version_ok (spec_version s) \<and>
      length (SemVersion_ToString (spec_version s)) \<le> kMaxVersionTextLength \<and>
      (id_value (instance_id s) \<noteq> [] \<longrightarrow> has_value (ValidateIdText Opaque (id_value (instance_id s)))) \<and>
      opt_id_ok (hardware_class s) \<and>
      (case vendor s of None \<Rightarrow> True | Some v \<Rightarrow> has_value (ValidateIdText Opaque (id_value v))) \<and>
      caps_ok tax (spec_capabilities s) \<and> length (spec_capabilities s) \<le> lim_capabilities lim \<and>
      support_ok (HasProtocol tax) (spec_protocols s) \<and> length (spec_protocols s) \<le> lim_protocols lim \<and>
      support_ok (HasSchema tax) (spec_schemas s) \<and> length (spec_schemas s) \<le> lim_schemas lim \<and>
      omap_ok (spec_features s) \<and> length (spec_features s) \<le> lim_features lim \<and>
      (\<forall>e \<in> set (spec_features s). id_ok (fst e) \<and> HasFeature tax (fst e)))"

lemma Opaque_Parse: "has_value (ValidateIdText Opaque (id_value i)) \<Longrightarrow>
    TypedId_Parse Opaque (id_value i) = Inr i"
  by (cases i) (auto simp: TypedId_Parse_def has_value_iff)

lemma read_closure_print:
  "Find j k = Some (JStr (KnowledgeClosureName c)) \<Longrightarrow> read_closure j k = Inr c"
  by (simp add: read_closure_def present_def)

lemma read_knowledge_print:
  assumes "Find j ''knowledge'' = Some (knowledge_json kn)"
  shows "read_knowledge j = Inr kn"
proof -
  have "Find (knowledge_json kn) ''capabilities'' = Some (JStr (KnowledgeClosureName (kn_capabilities kn)))"
    "Find (knowledge_json kn) ''protocols'' = Some (JStr (KnowledgeClosureName (kn_protocols kn)))"
    "Find (knowledge_json kn) ''schemas'' = Some (JStr (KnowledgeClosureName (kn_schemas kn)))"
    by (simp_all add: knowledge_json_def json_simps)
  note reads = this [THEN read_closure_print]
  have "IsObject (knowledge_json kn)" "\<not> IsNull (knowledge_json kn)"
    by (simp_all add: knowledge_json_def json_simps)
  then show ?thesis using assms by (simp add: read_knowledge_def present_def reads)
qed

lemma read_object_print:
  fixes m :: "('tag TypedId, 'v) omap"
  assumes "Find j key = Some (members_json f m)" and "omap_ok m" and "length m \<le> cap"
  shows "read_object j key cap read = read (map (\<lambda>(i, v). (id_value i, f v)) m)"
  using assms json_members_eq [OF assms(2), of f] by (simp add: read_object_def present_def)

text \<open>A component specification that is typed against the taxonomy and within the limits is read
  back from its JSON form unchanged.\<close>

theorem ParseComponentSpec_print:
  assumes "spec_ok tax lim s"
  shows "ParseComponentSpec (ComponentSpecToJson s) tax lim = Inr s"
proof -
  let ?j = "ComponentSpecToJson s"
  note ok = assms [unfolded spec_ok_def]
  note J = ComponentSpecToJson_def Let_def
  have obj: "json_object ?j" by (simp add: J json_simps)
  note io = json_object_IsObject [OF obj]
  have fam: "required_id QualifiedName ?j ''family'' = Inr (family s)"
    and knd: "required_id QualifiedName ?j ''kind'' = Inr (kind s)"
    using ok RequireString_Find [OF io, of "''family''"] RequireString_Find [OF io, of "''kind''"]
    by (simp_all add: required_id_def J json_simps TypedId_Parse_value)
  have ver: "res_bind (RequireString ?j ''version'') SemVersion_Parse = Inr (spec_version s)"
    using ok RequireString_Find [OF io, of "''version''"] by (simp add: J json_simps SemVersion_print_parse)
  have inst: "read_instance ?j = Inr (instance_id s)"
  proof (cases "id_value (instance_id s) = []")
    case True
    then show ?thesis
      by (cases "instance_id s") (simp add: read_instance_def OptionalString_def J json_simps)
  next
    case False
    then show ?thesis
      using ok by (simp add: read_instance_def OptionalString_def J json_simps Opaque_Parse)
  qed
  have lab: "OptionalString ?j ''label'' [] = Inr (label s)"
    by (simp add: OptionalString_def J json_simps)
  have hw: "optional_id QualifiedName ?j ''hardware_class'' = Inr (hardware_class s)"
    using ok by (intro optional_id_Find) (simp_all add: J json_simps cong: option.case_cong)
  have ven: "optional_id Opaque ?j ''vendor'' = Inr (vendor s)"
    using ok by (cases "vendor s") (simp_all add: optional_id_def present_def J json_simps Opaque_Parse)
  have kn: "read_knowledge ?j = Inr (knowledge s)"
    by (rule read_knowledge_print) (simp add: J json_simps)
  have feats: "read_features tax (lim_features lim) ?j = Inr (spec_features s)"
    using ok read_feature_list_print [of "[]" "spec_features s" tax]
    by (cases "spec_features s = []") (simp_all add: read_features_def present_def J json_simps features_json_def)
  have caps: "read_object ?j ''capabilities'' (lim_capabilities lim) (\<lambda>ms. read_capability_members tax ms []) =
      Inr (spec_capabilities s)"
    using ok read_capability_members_print [of tax "[]" "spec_capabilities s"]
    by (subst read_object_print [where f = CapabilityValue_ToJson]) (auto simp: J json_simps caps_ok_def)
  have prots: "read_object ?j ''protocols'' (lim_protocols lim) (\<lambda>ms. read_support_members (HasProtocol tax) ms []) =
      Inr (spec_protocols s)"
    using ok read_support_members_print [of "HasProtocol tax" "[]" "spec_protocols s"]
    by (subst read_object_print [where f = versions_json]) (auto simp: J json_simps support_ok_def)
  have schs: "read_object ?j ''schemas'' (lim_schemas lim) (\<lambda>ms. read_support_members (HasSchema tax) ms []) =
      Inr (spec_schemas s)"
    using ok read_support_members_print [of "HasSchema tax" "[]" "spec_schemas s"]
    by (subst read_object_print [where f = versions_json]) (auto simp: J json_simps support_ok_def)
  show ?thesis
    by (simp add: ParseComponentSpec_def io fam knd ver inst lab hw ven kn feats caps prots schs)
qed

section \<open>An example\<close>

definition sample_taxonomy :: Taxonomy where
  "sample_taxonomy =
     \<lparr>families = [(TypedId ''compute'', [])],
      kinds = [(TypedId ''gpu'', \<lparr>kind_family = TypedId ''compute'', kind_description = []\<rparr>),
               (TypedId ''nic'', \<lparr>kind_family = TypedId ''compute'', kind_description = []\<rparr>)],
      protocols = [(TypedId ''link'', [])], schemas = [], hardware_classes = [],
      features = [(TypedId ''ecc'', [])],
      capabilities = [(TypedId ''rdma'', \<lparr>decl_type = FlagType, decl_description = []\<rparr>)]\<rparr>"

definition sample_spec :: "string \<Rightarrow> SemVersion \<Rightarrow> ComponentSpec" where
  "sample_spec k v =
     \<lparr>instance_id = TypedId [], label = [], family = TypedId ''compute'', kind = TypedId k,
      spec_version = v, hardware_class = None, vendor = None,
      knowledge = \<lparr>kn_capabilities = Closed, kn_protocols = Open, kn_schemas = Closed\<rparr>,
      spec_capabilities = [(TypedId ''rdma'', Flag True)],
      spec_protocols = [(TypedId ''link'', [SemVersion_of 1 0 0, SemVersion_of 2 0 0])],
      spec_schemas = [], spec_features = [(TypedId ''ecc'', ())]\<rparr>"

lemma ParseComponentSpec_print_witness:
  "ParseComponentSpec (ComponentSpecToJson (sample_spec ''gpu'' (SemVersion_of 1 2 3))) sample_taxonomy
     ComponentSpecLimits_default = Inr (sample_spec ''gpu'' (SemVersion_of 1 2 3))"
proof (rule ParseComponentSpec_print)
  let ?s = "sample_spec ''gpu'' (SemVersion_of 1 2 3)"
  have "id_ok (family ?s)" "id_ok (kind ?s)" "version_ok (spec_version ?s)"
    "id_value (instance_id ?s) = []" "opt_id_ok (hardware_class ?s)" "vendor ?s = None"
    by code_simp+
  moreover have "length (SemVersion_ToString (spec_version ?s)) \<le> kMaxVersionTextLength" by code_simp
  moreover have "caps_ok sample_taxonomy (spec_capabilities ?s)" by code_simp
  moreover have "support_ok (HasProtocol sample_taxonomy) (spec_protocols ?s)" by code_simp
  moreover have "support_ok (HasSchema sample_taxonomy) (spec_schemas ?s)" by code_simp
  moreover have "omap_ok (spec_features ?s)"
    "\<forall>e \<in> set (spec_features ?s). id_ok (fst e) \<and> HasFeature sample_taxonomy (fst e)" by code_simp+
  ultimately show "spec_ok sample_taxonomy ComponentSpecLimits_default ?s"
    by (simp add: spec_ok_def ComponentSpecLimits_default_def sample_spec_def)
qed

definition gpu_selector :: "VersionRange \<Rightarrow> ComponentSelector" where
  "gpu_selector r = \<lparr>sel_family = None, sel_kind = Some (TypedId ''gpu''), sel_version = Some r,
     sel_hardware_class = None\<rparr>"

lemma SelectorsOverlap_complete_witness:
  "SelectorsOverlap (gpu_selector [at_least (SemVersion_of 1 0 0)]) (gpu_selector [below (SemVersion_of 2 0 0)])"
proof (rule SelectorsOverlap_complete)
  show "ParseComponentSelector (ComponentSelectorToJson (gpu_selector [at_least (SemVersion_of 1 0 0)])) =
      Inr (gpu_selector [at_least (SemVersion_of 1 0 0)])"
    by (rule ParseComponentSelector_print) code_simp
  show "ParseComponentSelector (ComponentSelectorToJson (gpu_selector [below (SemVersion_of 2 0 0)])) =
      Inr (gpu_selector [below (SemVersion_of 2 0 0)])"
    by (rule ParseComponentSelector_print) code_simp
  show "SelectorMatches (gpu_selector [at_least (SemVersion_of 1 0 0)]) (sample_spec ''gpu'' (SemVersion_of 1 2 3))"
    by code_simp
  show "SelectorMatches (gpu_selector [below (SemVersion_of 2 0 0)]) (sample_spec ''gpu'' (SemVersion_of 1 2 3))"
    by code_simp
qed

end
