(* ===== verification/Digest.thy ===== *)
theory Digest
  imports Identity
begin

text \<open>
  The digests of \<open>include/fcr/digest.hpp\<close> and \<open>src/digest.cpp\<close>: streaming SHA-256 and
  table-driven CRC-32C. The 64-byte buffer of the SHA-256 object is modelled by its meaningful
  part, the bytes still to be compressed; what lies beyond them is never read.
\<close>

section \<open>SHA-256\<close>

unbundle bit_operations_syntax

text \<open>A word from its upper and lower half, in which the constants of the rounds are written.\<close>

definition halves :: "u32 \<Rightarrow> u32 \<Rightarrow> u32" where
  "halves hi lo = push_bit 16 hi OR lo"

definition kSha256K :: "u32 list" where
  "kSha256K =
    [halves 0x428a 0x2f98, halves 0x7137 0x4491, halves 0xb5c0 0xfbcf, halves 0xe9b5 0xdba5,
     halves 0x3956 0xc25b, halves 0x59f1 0x11f1, halves 0x923f 0x82a4, halves 0xab1c 0x5ed5,
     halves 0xd807 0xaa98, halves 0x1283 0x5b01, halves 0x2431 0x85be, halves 0x550c 0x7dc3,
     halves 0x72be 0x5d74, halves 0x80de 0xb1fe, halves 0x9bdc 0x06a7, halves 0xc19b 0xf174,
     halves 0xe49b 0x69c1, halves 0xefbe 0x4786, halves 0x0fc1 0x9dc6, halves 0x240c 0xa1cc,
     halves 0x2de9 0x2c6f, halves 0x4a74 0x84aa, halves 0x5cb0 0xa9dc, halves 0x76f9 0x88da,
     halves 0x983e 0x5152, halves 0xa831 0xc66d, halves 0xb003 0x27c8, halves 0xbf59 0x7fc7,
     halves 0xc6e0 0x0bf3, halves 0xd5a7 0x9147, halves 0x06ca 0x6351, halves 0x1429 0x2967,
     halves 0x27b7 0x0a85, halves 0x2e1b 0x2138, halves 0x4d2c 0x6dfc, halves 0x5338 0x0d13,
     halves 0x650a 0x7354, halves 0x766a 0x0abb, halves 0x81c2 0xc92e, halves 0x9272 0x2c85,
     halves 0xa2bf 0xe8a1, halves 0xa81a 0x664b, halves 0xc24b 0x8b70, halves 0xc76c 0x51a3,
     halves 0xd192 0xe819, halves 0xd699 0x0624, halves 0xf40e 0x3585, halves 0x106a 0xa070,
     halves 0x19a4 0xc116, halves 0x1e37 0x6c08, halves 0x2748 0x774c, halves 0x34b0 0xbcb5,
     halves 0x391c 0x0cb3, halves 0x4ed8 0xaa4a, halves 0x5b9c 0xca4f, halves 0x682e 0x6ff3,
     halves 0x748f 0x82ee, halves 0x78a5 0x636f, halves 0x84c8 0x7814, halves 0x8cc7 0x0208,
     halves 0x90be 0xfffa, halves 0xa450 0x6ceb, halves 0xbef9 0xa3f7, halves 0xc671 0x78f2]"

definition RotateRight :: "u32 \<Rightarrow> nat \<Rightarrow> u32" where
  "RotateRight v bits = drop_bit bits v OR push_bit (32 - bits) v"

definition LoadBigEndian :: "byte list \<Rightarrow> u32" where
  "LoadBigEndian p =
     push_bit 24 (ucast (p ! 0)) OR push_bit 16 (ucast (p ! 1)) OR push_bit 8 (ucast (p ! 2)) OR
     ucast (p ! 3)"

definition StoreBigEndian :: "u32 \<Rightarrow> byte list" where
  "StoreBigEndian v =
     [ucast (drop_bit 24 v AND 0xff), ucast (drop_bit 16 v AND 0xff),
      ucast (drop_bit 8 v AND 0xff), ucast (v AND 0xff)]"

definition kBlockBytes :: nat where "kBlockBytes = 64"

record Sha256 =
  sha_state :: "u32 list"
  bit_count :: u64
  pending :: "byte list"

definition Sha256_init :: Sha256 where
  "Sha256_init = \<lparr>sha_state =
     [0x6a09e667, 0xbb67ae85, 0x3c6ef372, 0xa54ff53a, 0x510e527f, 0x9b05688c, 0x1f83d9ab, 0x5be0cd19],
     bit_count = 0, pending = []\<rparr>"

text \<open>The message schedule, extended one word at a time.\<close>

definition schedule_word :: "u32 list \<Rightarrow> nat \<Rightarrow> u32" where
  "schedule_word w i =
     (let s0 = RotateRight (w ! (i - 15)) 7 XOR RotateRight (w ! (i - 15)) 18 XOR drop_bit 3 (w ! (i - 15));
          s1 = RotateRight (w ! (i - 2)) 17 XOR RotateRight (w ! (i - 2)) 19 XOR drop_bit 10 (w ! (i - 2))
      in w ! (i - 16) + s0 + w ! (i - 7) + s1)"

definition schedule :: "byte list \<Rightarrow> u32 list" where
  "schedule block =
     foldl (\<lambda>w i. w @ [schedule_word w i])
       (map (\<lambda>i. LoadBigEndian (drop (4 * i) block)) [0..<16]) [16..<64]"

definition round_step :: "u32 list \<Rightarrow> u32 list \<Rightarrow> nat \<Rightarrow> u32 list" where
  "round_step w s i =
     (let a = s ! 0; b = s ! 1; c = s ! 2; d = s ! 3; e = s ! 4; f = s ! 5; g = s ! 6; h = s ! 7;
          s1 = RotateRight e 6 XOR RotateRight e 11 XOR RotateRight e 25;
          ch = (e AND f) XOR (NOT e AND g);
          temp1 = h + s1 + ch + kSha256K ! i + w ! i;
          s0 = RotateRight a 2 XOR RotateRight a 13 XOR RotateRight a 22;
          maj = (a AND b) XOR (a AND c) XOR (b AND c);
          temp2 = s0 + maj
      in [temp1 + temp2, a, b, c, d + temp1, e, f, g])"

definition Compress :: "u32 list \<Rightarrow> byte list \<Rightarrow> u32 list" where
  "Compress st block = map2 (+) st (foldl (round_step (schedule block)) st [0..<64])"

text \<open>The loop over the whole blocks; what is left is shorter than a block.\<close>

function compress_blocks :: "u32 list \<Rightarrow> byte list \<Rightarrow> u32 list \<times> byte list" where
  "compress_blocks st data =
     (if length data \<ge> kBlockBytes
      then compress_blocks (Compress st (take kBlockBytes data)) (drop kBlockBytes data)
      else (st, data))"
  by auto
termination
  by (relation "measure (\<lambda>(st, data). length data)") (auto simp: kBlockBytes_def)

declare compress_blocks.simps [simp del]

text \<open>First the buffered block is filled up, then whole blocks are taken from the input, then the
  rest is buffered.\<close>

definition fill_pending :: "u32 list \<Rightarrow> byte list \<Rightarrow> byte list \<Rightarrow> u32 list \<times> byte list \<times> byte list" where
  "fill_pending st buf data =
     (if buf = [] then (st, [], data)
      else let n = min (length data) (kBlockBytes - length buf);
               filled = buf @ take n data
        in if length filled = kBlockBytes then (Compress st filled, [], drop n data)
           else (st, filled, drop n data))"

definition feed :: "u32 list \<Rightarrow> byte list \<Rightarrow> byte list \<Rightarrow> u32 list \<times> byte list" where
  "feed st buf data =
     (let (st1, buf1, data1) = fill_pending st buf data;
          (st2, rest) = compress_blocks st1 data1
      in (st2, if rest \<noteq> [] then rest else buf1))"

definition Sha256_Update :: "Sha256 \<Rightarrow> byte list \<Rightarrow> Sha256" where
  "Sha256_Update s data =
     (let (st, buf) = feed (sha_state s) (pending s) data
      in \<lparr>sha_state = st, bit_count = bit_count s + of_nat (length data) * 8, pending = buf\<rparr>)"

definition length_bytes :: "u64 \<Rightarrow> byte list" where
  "length_bytes n = map (\<lambda>i. ucast (drop_bit (56 - 8 * i) n AND 0xff)) [0..<8]"

definition sha_padding :: "nat \<Rightarrow> u64 \<Rightarrow> byte list" where
  "sha_padding buffered bits =
     (let pad_length = (if buffered < 56 then 56 - buffered else 120 - buffered)
      in 0x80 # replicate (pad_length - 1) 0 @ length_bytes bits)"

definition Sha256_Final :: "Sha256 \<Rightarrow> ContentDigest" where
  "Sha256_Final s =
     (let (st, _) = feed (sha_state s) (pending s) (sha_padding (length (pending s)) (bit_count s))
      in concat (map StoreBigEndian (take 8 st)))"

definition Sha256_Hash_bytes :: "byte list \<Rightarrow> ContentDigest" where
  "Sha256_Hash_bytes data = Sha256_Final (Sha256_Update Sha256_init data)"

definition text_bytes :: "string \<Rightarrow> byte list" where
  "text_bytes t = map (\<lambda>c. of_nat (char_code c)) t"

definition Sha256_Hash :: "string \<Rightarrow> ContentDigest" where
  "Sha256_Hash t = Sha256_Hash_bytes (text_bytes t)"

section \<open>CRC-32C\<close>

definition crc_bit :: "u32 \<Rightarrow> u32" where
  "crc_bit crc = (if bit crc 0 then drop_bit 1 crc XOR 0x82F63B78 else drop_bit 1 crc)"

definition Crc32cTableEntry :: "u32 \<Rightarrow> u32" where
  "Crc32cTableEntry index = (crc_bit ^^ 8) index"

definition Crc32cTable :: "u32 list" where
  "Crc32cTable = map (\<lambda>i. Crc32cTableEntry (of_nat i)) [0..<256]"

definition crc_byte :: "u32 \<Rightarrow> byte \<Rightarrow> u32" where
  "crc_byte crc b = Crc32cTable ! unat ((crc XOR ucast b) AND 0xff) XOR drop_bit 8 crc"

definition Crc32c_Update :: "u32 \<Rightarrow> byte list \<Rightarrow> u32" where
  "Crc32c_Update value data = foldl crc_byte value data"

definition Crc32c :: "byte list \<Rightarrow> u32" where
  "Crc32c data = Crc32c_Update 0xFFFFFFFF data XOR 0xFFFFFFFF"

section \<open>Chunking does not matter\<close>

lemma compress_blocks_short: "length data < kBlockBytes \<Longrightarrow> compress_blocks st data = (st, data)"
  by (subst compress_blocks.simps) simp

lemma compress_blocks_block:
  "length data \<ge> kBlockBytes \<Longrightarrow> compress_blocks st data =
     compress_blocks (Compress st (take kBlockBytes data)) (drop kBlockBytes data)"
  by (subst compress_blocks.simps) simp

lemma compress_blocks_rest: "length (snd (compress_blocks st data)) < kBlockBytes"
proof (induction st data rule: compress_blocks.induct)
  case (1 st data)
  show ?case
    using 1 compress_blocks_block [of data st] compress_blocks_short [of data st]
    by (cases "length data \<ge> kBlockBytes") auto
qed

lemma compress_blocks_append:
  "compress_blocks st (a @ b) =
     (let (st1, r) = compress_blocks st a in compress_blocks st1 (r @ b))"
proof (induction st a rule: compress_blocks.induct)
  case (1 st a)
  show ?case
  proof (cases "length a \<ge> kBlockBytes")
    case True
    then have "compress_blocks st (a @ b) =
        compress_blocks (Compress st (take kBlockBytes a)) (drop kBlockBytes a @ b)"
      using compress_blocks_block [of "a @ b" st] by simp
    then show ?thesis using 1 [OF True] compress_blocks_block [OF True, of st] by simp
  qed (simp add: compress_blocks_short)
qed

lemma feed_compress:
  assumes "length buf < kBlockBytes"
  shows "feed st buf data = compress_blocks st (buf @ data)"
proof (cases "buf = []")
  case True
  then show ?thesis by (auto simp: feed_def fill_pending_def Let_def split: prod.split)
next
  case buf: False
  show ?thesis
  proof (cases "length (buf @ data) \<ge> kBlockBytes")
    case True
    then have "take kBlockBytes (buf @ data) = buf @ take (kBlockBytes - length buf) data"
      and "drop kBlockBytes (buf @ data) = drop (kBlockBytes - length buf) data"
      and "min (length data) (kBlockBytes - length buf) = kBlockBytes - length buf"
      using assms by simp_all
    then show ?thesis
      using True assms buf compress_blocks_block [OF True, of st]
      by (auto simp: feed_def fill_pending_def Let_def split: prod.split)
  next
    case False
    then have "min (length data) (kBlockBytes - length buf) = length data" by simp
    then have "fill_pending st buf data = (st, buf @ data, [])"
      using buf False by (simp add: fill_pending_def Let_def)
    then show ?thesis
      using False by (simp add: feed_def compress_blocks_short kBlockBytes_def)
  qed
qed

lemma pending_Update: "length (pending s) < kBlockBytes \<Longrightarrow> length (pending (Sha256_Update s a)) < kBlockBytes"
  using compress_blocks_rest [of "sha_state s" "pending s @ a"]
  by (auto simp: Sha256_Update_def feed_compress split: prod.splits)

lemma Update_append:
  assumes "length (pending s) < kBlockBytes"
  shows "Sha256_Update (Sha256_Update s a) b = Sha256_Update s (a @ b)"
  using pending_Update [OF assms, of a] assms
    compress_blocks_append [of "sha_state s" "pending s @ a" b]
  by (auto simp: Sha256_Update_def feed_compress Let_def algebra_simps split: prod.splits)

lemma Update_Nil: "length (pending s) < kBlockBytes \<Longrightarrow> Sha256_Update s [] = s"
  by (simp add: Sha256_Update_def feed_compress compress_blocks_short)

lemma fold_Update:
  "length (pending s) < kBlockBytes \<Longrightarrow> foldl Sha256_Update s chunks = Sha256_Update s (concat chunks)"
proof (induction chunks arbitrary: s)
  case (Cons c cs)
  then show ?case by (simp add: pending_Update Update_append)
qed (simp add: Update_Nil)

lemma pending_init: "length (pending Sha256_init) < kBlockBytes"
  by (simp add: Sha256_init_def kBlockBytes_def)

text \<open>C38. Hashing is independent of how the data is cut: feeding the chunks one after the other
  gives the digest of their concatenation.\<close>

theorem Sha256_chunks:
  "Sha256_Final (foldl Sha256_Update Sha256_init chunks) = Sha256_Hash_bytes (concat chunks)"
  by (simp add: Sha256_Hash_bytes_def fold_Update pending_init)

section \<open>The padded message\<close>

definition padded_message :: "byte list \<Rightarrow> byte list" where
  "padded_message data = data @ sha_padding (length data mod kBlockBytes) (of_nat (length data) * 8)"

lemma length_sha_padding:
  "n < kBlockBytes \<Longrightarrow> (n + length (sha_padding n bits)) mod kBlockBytes = 0"
  by (simp add: sha_padding_def length_bytes_def kBlockBytes_def Let_def)

lemma padded_message_blocks: "length (padded_message data) mod kBlockBytes = 0"
proof -
  have "length data mod kBlockBytes < kBlockBytes" by (simp add: kBlockBytes_def)
  then show ?thesis
    using length_sha_padding [of "length data mod kBlockBytes" "of_nat (length data) * 8"]
    by (simp add: padded_message_def mod_simps)
qed

lemma length_compress_rest:
  "length (snd (compress_blocks st data)) = length data mod kBlockBytes"
proof (induction st data rule: compress_blocks.induct)
  case (1 st data)
  show ?case
  proof (cases "length data \<ge> kBlockBytes")
    case True
    then show ?thesis
      using 1 [OF True] compress_blocks_block [OF True, of st] by (simp add: le_mod_geq)
  qed (simp add: compress_blocks_short)
qed

lemma Compress_length: "length st = 8 \<Longrightarrow> length (Compress st block) = 8"
proof -
  have "length s = 8 \<Longrightarrow> length (foldl (round_step w) s is) = 8" for w s "is"
    by (induction "is" arbitrary: s) (simp_all add: round_step_def Let_def)
  then show "length st = 8 \<Longrightarrow> length (Compress st block) = 8" by (simp add: Compress_def)
qed

lemma compress_blocks_length: "length st = 8 \<Longrightarrow> length (fst (compress_blocks st data)) = 8"
proof (induction st data rule: compress_blocks.induct)
  case (1 st data)
  show ?case
  proof (cases "length data \<ge> kBlockBytes")
    case True
    then show ?thesis
      using 1(1) [OF True Compress_length [OF 1(2)]] compress_blocks_block [OF True, of st] by simp
  qed (simp add: compress_blocks_short 1)
qed

text \<open>The streaming object computes the digest the standard defines: the blocks of the message
  padded with 0x80, zeros and its 64-bit bit count to a multiple of 64 bytes are compressed in
  order, and the digest is the 32 bytes of the state.\<close>

theorem Sha256_Hash_padded:
  "length (padded_message data) mod kBlockBytes = 0 \<and>
   compress_blocks (sha_state Sha256_init) (padded_message data) =
     (fst (compress_blocks (sha_state Sha256_init) (padded_message data)), []) \<and>
   Sha256_Hash_bytes data = concat (map StoreBigEndian
     (fst (compress_blocks (sha_state Sha256_init) (padded_message data)))) \<and>
   digest_ok (Sha256_Hash_bytes data)"
proof -
  let ?st = "sha_state Sha256_init"
  obtain st1 r where r: "compress_blocks ?st data = (st1, r)" by fastforce
  have len: "length r = length data mod kBlockBytes"
    using length_compress_rest [of ?st data] r by simp
  then have lr: "length r < kBlockBytes" by (simp add: kBlockBytes_def)
  have up: "Sha256_Update Sha256_init data =
      \<lparr>sha_state = st1, bit_count = of_nat (length data) * 8, pending = r\<rparr>"
    using r by (simp add: Sha256_Update_def feed_compress Sha256_init_def kBlockBytes_def)
  have pad: "compress_blocks ?st (padded_message data) =
      compress_blocks st1 (r @ sha_padding (length r) (of_nat (length data) * 8))"
    by (simp add: padded_message_def compress_blocks_append [of ?st data] r len)
  let ?final = "fst (compress_blocks ?st (padded_message data))"
  have rest: "snd (compress_blocks ?st (padded_message data)) = []"
    using length_compress_rest [of ?st "padded_message data"] padded_message_blocks [of data] by simp
  have e8: "length ?final = 8" by (rule compress_blocks_length) (simp add: Sha256_init_def)
  have "Sha256_Hash_bytes data = concat (map StoreBigEndian (take 8 ?final))"
    by (simp add: Sha256_Hash_bytes_def up Sha256_Final_def feed_compress [OF lr] pad case_prod_beta)
  then have h: "Sha256_Hash_bytes data = concat (map StoreBigEndian ?final)" using e8 by simp
  have "length (concat (map StoreBigEndian st)) = 4 * length st" for st
    by (induction st) (simp_all add: StoreBigEndian_def)
  then have "digest_ok (Sha256_Hash_bytes data)" using h e8 by (simp add: digest_ok_def kDigestSize_def)
  then show ?thesis using h rest padded_message_blocks [of data] by (simp add: prod_eq_iff)
qed

section \<open>The CRC table\<close>

lemma crc_bit_xor: "crc_bit (a XOR b) = crc_bit a XOR crc_bit b"
  by (rule bit_eqI) (auto simp: crc_bit_def bit_simps)

lemma crc_bits_xor: "(crc_bit ^^ n) (a XOR b) = (crc_bit ^^ n) a XOR (crc_bit ^^ n) b"
  by (induction n) (simp_all add: crc_bit_xor)

lemma crc_bit_even: "\<not> bit c 0 \<Longrightarrow> crc_bit c = drop_bit 1 c"
  by (simp add: crc_bit_def)

lemma crc_bits_drop: "(\<And>i. i < n \<Longrightarrow> \<not> bit a i) \<Longrightarrow> (crc_bit ^^ n) a = drop_bit n a"
proof (induction n)
  case (Suc n)
  then have d: "(crc_bit ^^ n) a = drop_bit n a" by simp
  have "\<not> bit (drop_bit n a) 0" using Suc.prems by (simp add: bit_simps)
  then have "crc_bit (drop_bit n a) = drop_bit 1 (drop_bit n a)" by (rule crc_bit_even)
  then show ?case using d by (simp add: drop_bit_drop_bit)
qed simp

lemma Crc32cTable_nth: "unat i < 256 \<Longrightarrow> Crc32cTable ! unat i = Crc32cTableEntry i"
  by (simp add: Crc32cTable_def)

lemma mask_byte: "(x :: u32) AND 0xff = take_bit 8 x"
  by (simp add: take_bit_eq_mask mask_eq_exp_minus_1)

lemma unat_take_byte: "unat (take_bit 8 (x :: u32)) < 256"
  by (simp add: unsigned_take_bit_eq) (use take_bit_nat_less_exp [of 8 "unat x"] in simp)

lemma split_low_byte: "(x :: u32) = take_bit 8 x XOR push_bit 8 (drop_bit 8 x)"
proof (rule bit_eqI)
  fix n
  show "bit x n = bit (take_bit 8 x XOR push_bit 8 (drop_bit 8 x)) n"
    by (cases "n < 8") (auto simp: bit_simps dest: bit_imp_le_length)
qed

text \<open>The table step is eight bit steps on the register with the byte mixed in.\<close>

lemma crc_byte_bits: "crc_byte crc b = (crc_bit ^^ 8) (crc XOR ucast b)"
proof -
  let ?x = "crc XOR ucast b :: u32"
  have "?x = take_bit 8 ?x XOR push_bit 8 (drop_bit 8 ?x)"
    by (rule split_low_byte)
  then have "(crc_bit ^^ 8) ?x = (crc_bit ^^ 8) (take_bit 8 ?x) XOR (crc_bit ^^ 8) (push_bit 8 (drop_bit 8 ?x))"
    by (metis crc_bits_xor)
  moreover have "(crc_bit ^^ 8) (push_bit 8 (drop_bit 8 ?x)) = drop_bit 8 (push_bit 8 (drop_bit 8 ?x))"
    by (rule crc_bits_drop) (simp add: bit_simps)
  moreover have "drop_bit 8 (push_bit 8 (drop_bit 8 ?x)) = drop_bit 8 crc"
    by (rule bit_eqI) (auto simp: bit_simps dest: bit_imp_le_length)
  moreover have "Crc32cTable ! unat (?x AND 0xff) = (crc_bit ^^ 8) (take_bit 8 ?x)"
    unfolding mask_byte Crc32cTableEntry_def [symmetric] by (rule Crc32cTable_nth [OF unat_take_byte])
  ultimately show ?thesis by (simp add: crc_byte_def)
qed

lemma xor_cancel: "(a :: u32) XOR x = b XOR x \<Longrightarrow> a = b"
proof -
  have "(c XOR x) XOR x = c" for c :: u32 by (rule bit_eqI) (auto simp: bit_simps)
  then show "a XOR x = b XOR x \<Longrightarrow> a = b" by metis
qed

lemma crc_bit_inj: "crc_bit a = crc_bit b \<Longrightarrow> a = b"
proof -
  assume eq: "crc_bit a = crc_bit b"
  have top: "bit (crc_bit c) 31 = bit c 0" for c
    using bit_imp_le_length [of c 32] by (auto simp: crc_bit_def bit_simps)
  then have low: "bit a 0 = bit b 0" using eq by metis
  then have "drop_bit 1 a = drop_bit 1 b"
    using eq by (auto simp: crc_bit_def dest: xor_cancel split: if_splits)
  then have "bit a (Suc n) = bit b (Suc n)" for n
    by (metis bit_drop_bit_eq comp_apply plus_1_eq_Suc)
  then show "a = b" using low by (intro bit_eqI) (metis not0_implies_Suc)
qed

lemma crc_bits_inj: "(crc_bit ^^ n) a = (crc_bit ^^ n) b \<Longrightarrow> a = b"
  by (induction n) (auto dest: crc_bit_inj)

lemma crc_byte_inj: "crc_byte c b = crc_byte d b \<Longrightarrow> c = d"
  unfolding crc_byte_bits by (drule crc_bits_inj) (rule xor_cancel)

lemma crc_byte_inj_byte:
  assumes "crc_byte c a = crc_byte c b"
  shows "a = b"
proof -
  have "c XOR ucast a = c XOR ucast b"
    using assms unfolding crc_byte_bits by (rule crc_bits_inj)
  then have "(ucast a :: u32) = ucast b" using xor_cancel [of "ucast a" c "ucast b"] by (simp add: xor.commute)
  then have eq: "bit (ucast a :: u32) n = bit (ucast b :: u32) n" for n by simp
  show "a = b"
  proof (rule bit_eqI)
    fix n assume "possible_bit TYPE(byte) n"
    then show "bit a n = bit b n" using eq [of n] by (simp add: bit_simps)
  qed
qed

lemma Crc32c_Update_inj: "Crc32c_Update c data = Crc32c_Update d data \<Longrightarrow> c = d"
  by (induction data arbitrary: c d) (auto simp: Crc32c_Update_def dest: crc_byte_inj)

text \<open>The table-driven update is the bitwise division by the Castagnoli polynomial, byte after
  byte.\<close>

theorem Crc32c_Update_bits:
  "Crc32c_Update crc data = foldl (\<lambda>c b. (crc_bit ^^ 8) (c XOR ucast b)) crc data"
  by (simp add: Crc32c_Update_def crc_byte_bits [abs_def])

text \<open>The checksum of a block changes whenever a single byte of it does.\<close>

theorem Crc32c_detects_byte:
  "Crc32c (xs @ a # ys) = Crc32c (xs @ b # ys) \<longleftrightarrow> a = b"
proof
  assume eq: "Crc32c (xs @ a # ys) = Crc32c (xs @ b # ys)"
  let ?c = "Crc32c_Update 0xFFFFFFFF xs"
  have "Crc32c_Update (crc_byte ?c a) ys = Crc32c_Update (crc_byte ?c b) ys"
    using xor_cancel [OF eq [unfolded Crc32c_def]] by (simp add: Crc32c_Update_def)
  then show "a = b" using Crc32c_Update_inj crc_byte_inj_byte by blast
qed simp

end
