(* ===== verification/Timestamp.thy ===== *)
theory Timestamp
  imports Identity
begin

text \<open>
  The RFC 3339 text of timestamps (\<open>Timestamp::FromIso8601\<close>, \<open>Timestamp::ToIso8601\<close> of
  \<open>src/identity.cpp\<close>). The 64-bit multiplication by the nanoseconds of a second is not checked
  in the code; where it overflows the model's result is \<open>Undefined_Behaviour\<close>. Every other
  intermediate value stays within its machine type.
\<close>

section \<open>Integer arithmetic of the language\<close>

text \<open>Division and remainder truncate towards zero.\<close>

definition c_div :: "int \<Rightarrow> int \<Rightarrow> int" where
  "c_div a b = (if a \<ge> 0 then a div b else - ((- a) div b))"

definition c_rem :: "int \<Rightarrow> int \<Rightarrow> int" where
  "c_rem a b = a - c_div a b * b"

definition int64 :: "int \<Rightarrow> bool" where
  "int64 i = (- 9223372036854775808 \<le> i \<and> i \<le> 9223372036854775807)"

definition kNanosPerSecond :: int where "kNanosPerSecond = 1000000000"

section \<open>Calendar\<close>

text \<open>Days since 1970-01-01 to year, month and day of the proleptic Gregorian calendar.\<close>

definition CivilFromDays :: "int \<Rightarrow> int \<times> int \<times> int" where
  "CivilFromDays days =
     (let z = days + 719468;
          era = c_div (if z \<ge> 0 then z else z - 146096) 146097;
          doe = z - era * 146097;
          yoe = (doe - doe div 1460 + doe div 36524 - doe div 146096) div 365;
          y = yoe + era * 400;
          doy = doe - (365 * yoe + yoe div 4 - yoe div 100);
          mp = (5 * doy + 2) div 153;
          d = doy - (153 * mp + 2) div 5 + 1;
          m = (if mp < 10 then mp + 3 else mp - 9)
      in (y + (if m \<le> 2 then 1 else 0), m, d))"

definition DaysFromCivil :: "int \<Rightarrow> int \<Rightarrow> int \<Rightarrow> int" where
  "DaysFromCivil year month day =
     (let y = (if month \<le> 2 then year - 1 else year);
          era = c_div (if y \<ge> 0 then y else y - 399) 400;
          yoe = y - era * 400;
          mp = (if month > 2 then month - 3 else month + 9);
          doy = (153 * mp + 2) div 5 + (day - 1);
          doe = yoe * 365 + yoe div 4 - yoe div 100 + doy
      in era * 146097 + doe - 719468)"

section \<open>Reading\<close>

definition digits_at :: "string \<Rightarrow> nat \<Rightarrow> nat \<Rightarrow> int option" where
  "digits_at t offset n =
     (let s = take n (drop offset t) in
      if list_all IsDigit s then Some (int (decimal s)) else None)"

definition fraction_of :: "string \<Rightarrow> int result" where
  "fraction_of t =
     (let n = length t - 1 in
      if 19 < n \<and> t ! 19 = CHR ''.'' then
        (let s = take (n - 20) (drop 20 t) in
         if \<not> list_all IsDigit (take 9 s) then Fail InvalidArgument
         else if length s > 9 then Fail InvalidArgument
         else Inr (int (decimal s) * 10 ^ (9 - length s)))
      else if 19 \<noteq> n then Fail InvalidArgument
      else Inr 0)"

definition FromIso8601 :: "string \<Rightarrow> Timestamp result" where
  "FromIso8601 t =
     (if length t < 20 \<or> t ! 4 \<noteq> CHR ''-'' \<or> t ! 7 \<noteq> CHR ''-'' \<or> t ! 10 \<noteq> CHR ''T'' \<or>
         t ! 13 \<noteq> CHR '':'' \<or> t ! 16 \<noteq> CHR '':'' \<or> last t \<noteq> CHR ''Z''
      then Fail InvalidArgument
      else
        (case (digits_at t 0 4, digits_at t 5 2, digits_at t 8 2, digits_at t 11 2, digits_at t 14 2,
               digits_at t 17 2) of
           (Some year, Some month, Some day, Some hour, Some minute, Some second) \<Rightarrow>
             if month < 1 \<or> month > 12 \<or> day < 1 \<or> day > 31 \<or> hour > 23 \<or> minute > 59 \<or> second > 60
             then Fail InvalidArgument
             else res_bind (fraction_of t) (\<lambda>fraction.
               let seconds = DaysFromCivil year month day * 86400 + hour * 3600 + minute * 60 + second;
                   scaled = seconds * kNanosPerSecond
               in if int64 scaled \<and> int64 (scaled + fraction) then Inr (scaled + fraction)
                  else Inl Undefined_Behaviour)
         | _ \<Rightarrow> Fail InvalidArgument))"

section \<open>Writing\<close>

definition pad_left :: "nat \<Rightarrow> int \<Rightarrow> string" where
  "pad_left width i =
     (if i < 0 then let s = to_string (nat (- i)) in ''-'' @ replicate (width - 1 - length s) CHR ''0'' @ s
      else let s = to_string (nat i) in replicate (width - length s) CHR ''0'' @ s)"

definition ToIso8601 :: "Timestamp \<Rightarrow> string" where
  "ToIso8601 nanos =
     (let seconds0 = c_div nanos kNanosPerSecond;
          fraction0 = c_rem nanos kNanosPerSecond;
          fraction = (if fraction0 < 0 then fraction0 + kNanosPerSecond else fraction0);
          seconds = (if fraction0 < 0 then seconds0 - 1 else seconds0);
          days0 = c_div seconds 86400;
          rem0 = c_rem seconds 86400;
          r = (if rem0 < 0 then rem0 + 86400 else rem0);
          days = (if rem0 < 0 then days0 - 1 else days0);
          (year, month, day) = CivilFromDays days
      in pad_left 4 year @ ''-'' @ pad_left 2 month @ ''-'' @ pad_left 2 day @ ''T'' @
         pad_left 2 (r div 3600) @ '':'' @ pad_left 2 (r mod 3600 div 60) @ '':'' @
         pad_left 2 (r mod 60) @ ''.'' @ pad_left 9 fraction @ ''Z'')"

section \<open>The calendar is invertible\<close>

text \<open>A day of the 400-year era splits into centuries, four-year cycles and a rest; the year of
  the era and the day of that year follow.\<close>

lemma year_of_era_split:
  fixes b f s :: int
  assumes b: "0 \<le> b" "b \<le> 3" and f: "0 \<le> f" "f \<le> 24" and s: "0 \<le> s" "s \<le> 1460"
    and doe: "doe = 36524 * b + 1461 * f + s" and short: "1461 * f + s < 36524"
    and yoe: "yoe = (doe - doe div 1460 + doe div 36524 - doe div 146096) div 365"
  shows "0 \<le> yoe \<and> yoe \<le> 399 \<and> 0 \<le> doe - (365 * yoe + yoe div 4 - yoe div 100) \<and>
    doe - (365 * yoe + yoe div 4 - yoe div 100) \<le> 365"
proof -
  define e where "e = (24 * b + f + s) div 1460"
  have e: "0 \<le> e" "e \<le> 1" "e = 1 \<longrightarrow> s \<ge> 1364" "s = 1460 \<longrightarrow> e = 1"
    using b f s unfolding e_def by auto
  define y where "y = (s - e) div 365"
  have y: "0 \<le> y" "y \<le> 3" "0 \<le> s - 365 * y" "s - 365 * y \<le> 365"
    using e s unfolding y_def by auto
  have "doe = 1460 * (25 * b + f) + (24 * b + f + s)" using doe by simp
  then have q1: "doe div 1460 = 25 * b + f + e" by (simp add: e_def)
  have q2: "doe div 36524 = b" using doe short s f by simp
  have q3: "doe div 146096 = 0" using doe short s f b by simp
  have "doe - doe div 1460 + doe div 36524 - doe div 146096 = 365 * (100 * b + 4 * f) + (s - e)"
    unfolding q1 q2 q3 by (simp add: doe)
  then have yoe': "yoe = 100 * b + 4 * f + y" using yoe by (simp add: y_def)
  have "yoe div 4 = 25 * b + f" "yoe div 100 = b" using yoe' y f by auto
  then show ?thesis using yoe' y b f doe by auto
qed

lemma year_of_era:
  assumes "0 \<le> doe" "doe \<le> (146096 :: int)"
    and yoe: "yoe = (doe - doe div 1460 + doe div 36524 - doe div 146096) div 365"
  shows "0 \<le> yoe \<and> yoe \<le> 399 \<and> 0 \<le> doe - (365 * yoe + yoe div 4 - yoe div 100) \<and>
    doe - (365 * yoe + yoe div 4 - yoe div 100) \<le> 365"
proof (cases "doe = 146096")
  case False
  let ?r = "doe mod 36524"
  show ?thesis
  proof (rule year_of_era_split [OF _ _ _ _ _ _ _ _ yoe])
    show "doe = 36524 * (doe div 36524) + 1461 * (?r div 1461) + ?r mod 1461" by simp
    have r: "0 \<le> ?r" "?r < 36524" by auto
    then show "1461 * (?r div 1461) + ?r mod 1461 < 36524" by simp
    show "0 \<le> doe div 36524" "doe div 36524 \<le> 3" using False assms(1,2) by auto
    show "0 \<le> ?r div 1461" "?r div 1461 \<le> 24" using r by auto
    show "0 \<le> ?r mod 1461" "?r mod 1461 \<le> 1460" by (auto simp: zle_diff1_eq [symmetric] simp del: zle_diff1_eq)
  qed
qed (simp add: yoe)

lemma month_of_day:
  fixes doy :: int
  assumes "0 \<le> doy" "doy \<le> 365" and mp: "mp = (5 * doy + 2) div 153"
  shows "0 \<le> mp \<and> mp \<le> 11 \<and> 1 \<le> doy - (153 * mp + 2) div 5 + 1 \<and> doy - (153 * mp + 2) div 5 + 1 \<le> 31"
proof -
  have "0 \<le> mp" "mp \<le> 11" using assms by auto
  moreover have "153 * mp \<le> 5 * doy + 2" "5 * doy + 2 \<le> 153 * mp + 152" unfolding mp by auto
  moreover have "5 * ((153 * mp + 2) div 5) \<le> 153 * mp + 2" "153 * mp + 2 \<le> 5 * ((153 * mp + 2) div 5) + 4"
    by auto
  ultimately show ?thesis by auto
qed

text \<open>For the days a timestamp can hold the two conversions are inverse, and the fields are in
  the ranges the parser accepts.\<close>

lemma CivilFromDays_inverse:
  assumes lo: "- 719468 \<le> days" and hi: "days \<le> 200000"
    and civil: "CivilFromDays days = (year, month, day)"
  shows "DaysFromCivil year month day = days \<and> 1 \<le> month \<and> month \<le> 12 \<and> 1 \<le> day \<and> day \<le> 31 \<and>
    0 \<le> year \<and> year \<le> 9999"
proof -
  define z where "z = days + 719468"
  define era where "era = z div 146097"
  define doe where "doe = z - era * 146097"
  define yoe where "yoe = (doe - doe div 1460 + doe div 36524 - doe div 146096) div 365"
  define doy where "doy = doe - (365 * yoe + yoe div 4 - yoe div 100)"
  define mp where "mp = (5 * doy + 2) div 153"
  define d where "d = doy - (153 * mp + 2) div 5 + 1"
  define m where "m = (if mp < 10 then mp + 3 else mp - 9)"
  have z: "0 \<le> z" "z \<le> 919468" using lo hi by (auto simp: z_def)
  have "doe = z mod 146097" by (simp add: doe_def era_def minus_div_mult_eq_mod)
  then have doe: "0 \<le> doe" "doe \<le> 146096" by (auto simp: zle_diff1_eq [symmetric] simp del: zle_diff1_eq)
  note Y = year_of_era [OF doe yoe_def, folded doy_def]
  have M: "0 \<le> mp" "mp \<le> 11" "1 \<le> d" "d \<le> 31"
    using month_of_day [OF _ _ mp_def] Y by (auto simp: d_def)
  have era: "0 \<le> era" "era \<le> 6" using z by (auto simp: era_def)
  have c: "c_div (if z \<ge> 0 then z else z - 146096) 146097 = era" using z by (simp add: c_div_def era_def)
  have "CivilFromDays days = (yoe + era * 400 + (if m \<le> 2 then 1 else 0), m, d)"
    by (simp only: CivilFromDays_def Let_def z_def [symmetric] c doe_def [symmetric] yoe_def [symmetric]
        doy_def [symmetric] mp_def [symmetric] d_def [symmetric] m_def [symmetric])
  then have ymd: "year = yoe + era * 400 + (if m \<le> 2 then 1 else 0)" "month = m" "day = d"
    using civil by auto
  have m: "1 \<le> m" "m \<le> 12" "m \<le> 2 \<longleftrightarrow> 10 \<le> mp" "(if m > 2 then m - 3 else m + 9) = mp"
    using M by (auto simp: m_def)
  have y: "(if m \<le> 2 then year - 1 else year) = yoe + era * 400" using ymd by simp
  have "(yoe + era * 400) div 400 = era" using Y by simp
  then have "c_div (if yoe + era * 400 \<ge> 0 then yoe + era * 400 else yoe + era * 400 - 399) 400 = era"
    using Y era by (simp add: c_div_def)
  then have "DaysFromCivil year month day = era * 146097 + (yoe * 365 + yoe div 4 - yoe div 100 + doy) - 719468"
    by (simp only: DaysFromCivil_def Let_def ymd(2,3) y m(4)) (simp add: d_def)
  also have "\<dots> = days" by (simp add: doy_def doe_def z_def)
  finally have "DaysFromCivil year month day = days" .
  moreover have "0 \<le> year" "year \<le> 9999" using ymd(1) Y era by (auto split: if_splits)
  ultimately show ?thesis using ymd(2,3) M m(1,2) by simp
qed

section \<open>Timestamps survive their text form\<close>

lemma pad_left_digits:
  assumes "0 \<le> i" and "i < 10 ^ w" and "0 < w"
  shows "length (pad_left w i) = w \<and> list_all IsDigit (pad_left w i) \<and> int (decimal (pad_left w i)) = i"
proof -
  obtain k where k: "w = Suc k" using assms(3) gr0_implies_Suc by blast
  have "nat i < 10 ^ Suc k" using assms k by (simp add: nat_less_iff)
  then have "length (to_string (nat i)) \<le> w" using to_string_length_le k by blast
  moreover have "decimal_from 0 (replicate n CHR ''0'' @ s) = decimal s" for n s
    by (induction n) (simp_all add: digit_value_def char_code_def)
  moreover have "IsDigit CHR ''0''" by code_simp
  ultimately show ?thesis
    using assms(1) to_string_digits [of "nat i"] by (auto simp: pad_left_def Let_def list_all_iff)
qed

lemma lists_of_length:
  "length xs = 2 \<Longrightarrow> \<exists>a b. xs = [a, b]" "length xs = 4 \<Longrightarrow> \<exists>a b c d. xs = [a, b, c, d]"
  by (auto simp: numeral_eq_Suc length_Suc_conv)

lemma iso_text:
  assumes t: "t = y @ ''-'' @ mo @ ''-'' @ d @ ''T'' @ h @ '':'' @ mi @ '':'' @ s @ ''.'' @ f @ ''Z''"
    and len: "length y = 4" "length mo = 2" "length d = 2" "length h = 2" "length mi = 2"
      "length s = 2" "length f = 9"
    and digits: "list_all IsDigit y" "list_all IsDigit mo" "list_all IsDigit d" "list_all IsDigit h"
      "list_all IsDigit mi" "list_all IsDigit s" "list_all IsDigit f"
  shows "length t = 30 \<and> t ! 4 = CHR ''-'' \<and> t ! 7 = CHR ''-'' \<and> t ! 10 = CHR ''T'' \<and>
    t ! 13 = CHR '':'' \<and> t ! 16 = CHR '':'' \<and> last t = CHR ''Z'' \<and>
    digits_at t 0 4 = Some (int (decimal y)) \<and> digits_at t 5 2 = Some (int (decimal mo)) \<and>
    digits_at t 8 2 = Some (int (decimal d)) \<and> digits_at t 11 2 = Some (int (decimal h)) \<and>
    digits_at t 14 2 = Some (int (decimal mi)) \<and> digits_at t 17 2 = Some (int (decimal s)) \<and>
    fraction_of t = Inr (int (decimal f))"
proof -
  obtain y1 y2 y3 y4 m1 m2 d1 d2 h1 h2 i1 i2 s1 s2 where
    e: "y = [y1, y2, y3, y4]" "mo = [m1, m2]" "d = [d1, d2]" "h = [h1, h2]" "mi = [i1, i2]" "s = [s1, s2]"
    using lists_of_length(2) [OF len(1)] lists_of_length(1) [OF len(2)] lists_of_length(1) [OF len(3)]
      lists_of_length(1) [OF len(4)] lists_of_length(1) [OF len(5)] lists_of_length(1) [OF len(6)] by blast
  have "take 9 (f @ x) = f" "drop 9 (f @ x) = x" for x using len(7) by auto
  then show ?thesis
    using digits len(7) unfolding t e
    by (simp add: digits_at_def fraction_of_def Let_def)
qed

lemma ToIso8601_fields:
  assumes days: "days = i div 86400000000000" and r: "r = i div 1000000000 mod 86400"
  shows "ToIso8601 i = (case CivilFromDays days of (year, month, day) \<Rightarrow>
     pad_left 4 year @ ''-'' @ pad_left 2 month @ ''-'' @ pad_left 2 day @ ''T'' @
     pad_left 2 (r div 3600) @ '':'' @ pad_left 2 (r mod 3600 div 60) @ '':'' @
     pad_left 2 (r mod 60) @ ''.'' @ pad_left 9 (i mod 1000000000) @ ''Z'')"
proof -
  have floor: "c_div a n = (if a \<ge> 0 \<or> n dvd a then a div n else a div n + 1)" if "n > 0" for a n
  proof -
    have "- (- a div n) = (if n dvd a then a div n else a div n + 1)"
      using that by (simp add: zdiv_zminus1_eq_if dvd_eq_mod_eq_0)
    then show ?thesis by (auto simp: c_div_def)
  qed
  have rem: "c_rem a n = (if a \<ge> 0 \<or> n dvd a then a mod n else a mod n - n)" if "n > 0" for a n
    using floor [OF that, of a] minus_div_mult_eq_mod [of a n] by (auto simp: c_rem_def distrib_right)
  have fix_up: "(if c_rem a n < 0 then c_rem a n + n else c_rem a n) = a mod n \<and>
      (if c_rem a n < 0 then c_div a n - 1 else c_div a n) = a div n" if "n > 0" for a n
  proof (cases "a \<ge> 0 \<or> n dvd a")
    case True
    moreover have "\<not> a mod n < 0" using that by (simp add: not_less)
    ultimately show ?thesis using that floor [OF that, of a] rem [OF that, of a] by simp
  next
    case False
    have "a mod n - n < 0" using that by simp
    then show ?thesis using that False floor [OF that, of a] rem [OF that, of a] by simp
  qed
  have dd: "i div 1000000000 div 86400 = days" using days by (simp add: zdiv_zmult2_eq)
  show ?thesis
    using fix_up [of 1000000000 i] fix_up [of 86400 "i div 1000000000"]
    unfolding ToIso8601_def kNanosPerSecond_def Let_def by (simp only: dd r [symmetric] if_True)
qed

lemma FromIso8601_fields:
  assumes "length t = 30 \<and> t ! 4 = CHR ''-'' \<and> t ! 7 = CHR ''-'' \<and> t ! 10 = CHR ''T'' \<and>
    t ! 13 = CHR '':'' \<and> t ! 16 = CHR '':'' \<and> last t = CHR ''Z'' \<and>
    digits_at t 0 4 = Some year \<and> digits_at t 5 2 = Some month \<and>
    digits_at t 8 2 = Some day \<and> digits_at t 11 2 = Some hour \<and>
    digits_at t 14 2 = Some minute \<and> digits_at t 17 2 = Some second \<and> fraction_of t = Inr fraction"
    and "1 \<le> month" "month \<le> 12" "1 \<le> day" "day \<le> 31" "hour \<le> 23" "minute \<le> 59" "second \<le> 60"
    and "DaysFromCivil year month day * 86400 + hour * 3600 + minute * 60 + second = seconds"
  shows "FromIso8601 t =
    (if int64 (seconds * 1000000000) \<and> int64 (seconds * 1000000000 + fraction)
     then Inr (seconds * 1000000000 + fraction) else Inl Undefined_Behaviour)"
  using assms by (simp add: FromIso8601_def kNanosPerSecond_def Let_def)

text \<open>Every whole second a timestamp can hold, and what follows it within the range of the 64-bit
  counter.\<close>

definition iso_range :: "Timestamp \<Rightarrow> bool" where
  "iso_range i = (- 9223372036000000000 \<le> i \<and> i \<le> 9223372036854775807)"

lemma FromIso8601_ToIso8601:
  assumes "int64 i"
  shows "FromIso8601 (ToIso8601 i) = (if iso_range i then Inr i else Inl Undefined_Behaviour)"
proof -
  define days where "days = i div 86400000000000"
  define r where "r = i div 1000000000 mod 86400"
  obtain year month day where c: "CivilFromDays days = (year, month, day)" by (cases "CivilFromDays days")
  have "- 106752 \<le> days" "days \<le> 106751" using assms by (auto simp: days_def int64_def)
  then have ok: "DaysFromCivil year month day = days" "1 \<le> month" "month \<le> 12" "1 \<le> day" "day \<le> 31"
      "0 \<le> year" "year \<le> 9999"
    using CivilFromDays_inverse [OF _ _ c] by auto
  have r: "0 \<le> r" "r < 86400" by (auto simp: r_def)
  let ?f = "i mod 1000000000"
  have t: "ToIso8601 i = pad_left 4 year @ ''-'' @ pad_left 2 month @ ''-'' @ pad_left 2 day @ ''T'' @
     pad_left 2 (r div 3600) @ '':'' @ pad_left 2 (r mod 3600 div 60) @ '':'' @
     pad_left 2 (r mod 60) @ ''.'' @ pad_left 9 ?f @ ''Z''"
    using ToIso8601_fields [OF days_def r_def] c by simp
  have hms: "0 \<le> r div 3600" "r div 3600 \<le> 23" "0 \<le> r mod 3600 div 60" "r mod 3600 div 60 \<le> 59"
      "0 \<le> r mod 60" "r mod 60 \<le> 59"
    using r by auto
  have p: "length (pad_left w x) = w" "list_all IsDigit (pad_left w x)" "int (decimal (pad_left w x)) = x"
    if "0 \<le> x" "x < 10 ^ w" "0 < w" for w x using pad_left_digits [OF that] by auto
  have P: "length (pad_left 2 x) = 2" "list_all IsDigit (pad_left 2 x)" "int (decimal (pad_left 2 x)) = x"
    if "0 \<le> x" "x \<le> 99" for x using p [of x 2] that by auto
  have Y: "length (pad_left 4 year) = 4" "list_all IsDigit (pad_left 4 year)" "int (decimal (pad_left 4 year)) = year"
    using p [of year 4] ok by auto
  have F: "length (pad_left 9 ?f) = 9" "list_all IsDigit (pad_left 9 ?f)" "int (decimal (pad_left 9 ?f)) = ?f"
    using p [of ?f 9] by auto
  have ranges: "month \<le> 99" "day \<le> 99" "0 \<le> month" "0 \<le> day" "r div 3600 \<le> 99" "r mod 3600 div 60 \<le> 99" "r mod 60 \<le> 99"
    using ok hms by auto
  note T = iso_text [OF t Y(1) P(1) [OF ranges(3,1)] P(1) [OF ranges(4,2)] P(1) [OF hms(1) ranges(5)]
      P(1) [OF hms(3) ranges(6)] P(1) [OF hms(5) ranges(7)] F(1) Y(2) P(2) [OF ranges(3,1)]
      P(2) [OF ranges(4,2)] P(2) [OF hms(1) ranges(5)] P(2) [OF hms(3) ranges(6)]
      P(2) [OF hms(5) ranges(7)] F(2)]
  note T = T [unfolded Y(3) P(3) [OF ranges(3,1)] P(3) [OF ranges(4,2)] P(3) [OF hms(1) ranges(5)]
      P(3) [OF hms(3) ranges(6)] P(3) [OF hms(5) ranges(7)] F(3)]
  have "days * 86400 + r div 3600 * 3600 + r mod 3600 div 60 * 60 + r mod 60 = i div 1000000000"
  proof -
    have "r mod 3600 mod 60 = r mod 60" by (rule mod_mod_cancel) simp
    moreover have "r div 3600 * 3600 + (r mod 3600 div 60 * 60 + r mod 3600 mod 60) = r" by simp
    ultimately have "r div 3600 * 3600 + r mod 3600 div 60 * 60 + r mod 60 = r" by (simp only: add.assoc)
    moreover have "days * 86400 + r = i div 1000000000"
      unfolding days_def r_def by (simp add: zdiv_zmult2_eq [of 86400 i 1000000000, simplified])
    ultimately show ?thesis by (metis add.assoc)
  qed
  then have "DaysFromCivil year month day * 86400 + r div 3600 * 3600 + r mod 3600 div 60 * 60 + r mod 60 =
      i div 1000000000"
    by (simp only: ok(1))
  note ret = FromIso8601_fields [OF T ok(2-5) hms(2,4) _ this]
  have i: "i div 1000000000 * 1000000000 + ?f = i" by simp
  have whole: "int64 (q * 1000000000) \<longleftrightarrow> iso_range i" if "q * 1000000000 \<le> i" "i < q * 1000000000 + 1000000000" for q
  proof (cases "- 9223372036 \<le> q")
    case True
    then show ?thesis using assms that unfolding int64_def iso_range_def by linarith
  next
    case False
    then have "q \<le> - 9223372037" by simp
    then show ?thesis using that unfolding int64_def iso_range_def by linarith
  qed
  have "int64 (i div 1000000000 * 1000000000) \<longleftrightarrow> iso_range i" by (rule whole) auto
  then show ?thesis using ret hms(6) i assms by simp
qed

lemma FromIso8601_print: "iso_range i \<Longrightarrow> FromIso8601 (ToIso8601 i) = Inr i"
  using FromIso8601_ToIso8601 [of i] by (auto simp: int64_def iso_range_def)

text \<open>The text of every timestamp is read back unchanged, the first fraction of a second of the
  64-bit range excepted, where the unchecked multiplication overflows.\<close>

theorem Timestamp_text_roundtrip:
  assumes "int64 i"
  shows "FromIso8601 (ToIso8601 i) = (if iso_range i then Inr i else Inl Undefined_Behaviour)"
  using assms by (rule FromIso8601_ToIso8601)

lemma Timestamp_text_roundtrip_witness:
  "FromIso8601 (ToIso8601 1735689600123456789) = Inr 1735689600123456789 \<and>
   FromIso8601 (ToIso8601 (- 9223372036854775808)) = Inl Undefined_Behaviour"
proof -
  have "int64 1735689600123456789" "iso_range 1735689600123456789"
    "int64 (- 9223372036854775808)" "\<not> iso_range (- 9223372036854775808)"
    by (simp_all add: int64_def iso_range_def)
  then show ?thesis
    using Timestamp_text_roundtrip [of 1735689600123456789] Timestamp_text_roundtrip [of "- 9223372036854775808"]
    by simp
qed

text \<open>Calendar checks are per field: a date after the year 2262 overflows the 64-bit counter and
  the last day of February may be the 31st.\<close>

theorem FromIso8601_unchecked:
  "FromIso8601 ''9999-12-31T23:59:59Z'' = Inl Undefined_Behaviour \<and>
   FromIso8601 ''2023-02-31T00:00:00Z'' = FromIso8601 ''2023-03-03T00:00:00Z'' \<and>
   has_value (FromIso8601 ''2023-02-31T00:00:00Z'')"
  by code_simp

end
