(* ===== verification/Rule.thy ===== *)
theory Rule
  imports Component Digest Timestamp
begin

text \<open>
  The rule model (\<open>include/fcr/rule.hpp\<close>, \<open>src/rule.cpp\<close>): constraints and their canonical
  order, specificity and precedence, normalisation, the JSON form and the content digest of a
  rule, and the matching of a rule's selectors against a pair.
\<close>

section \<open>Enumerations\<close>

datatype Side = Left | Right | AllMembers

fun SideName :: "Side \<Rightarrow> string" where
  "SideName Left = ''left''"
| "SideName Right = ''right''"
| "SideName AllMembers = ''all_members''"

definition ParseSide :: "string \<Rightarrow> Side result" where
  "ParseSide t =
     (if t = ''left'' then Inr Left
      else if t = ''right'' then Inr Right
      else if t = ''all_members'' \<or> t = ''all'' then Inr AllMembers
      else Fail InvalidConstraint)"

text \<open>The enumerator's number.\<close>

fun SideIndex :: "Side \<Rightarrow> nat" where
  "SideIndex Left = 0"
| "SideIndex Right = 1"
| "SideIndex AllMembers = 2"

datatype RuleOrigin = Standard | VendorOrigin | Operator | LocalOverride

fun RuleOriginName :: "RuleOrigin \<Rightarrow> string" where
  "RuleOriginName Standard = ''standard''"
| "RuleOriginName VendorOrigin = ''vendor''"
| "RuleOriginName Operator = ''operator''"
| "RuleOriginName LocalOverride = ''local_override''"

definition ParseRuleOrigin :: "string \<Rightarrow> RuleOrigin result" where
  "ParseRuleOrigin t =
     (if t = ''standard'' then Inr Standard
      else if t = ''vendor'' then Inr VendorOrigin
      else if t = ''operator'' then Inr Operator
      else if t = ''local_override'' \<or> t = ''local'' then Inr LocalOverride
      else Fail InvalidDocument)"

fun RuleOriginRank :: "RuleOrigin \<Rightarrow> int" where
  "RuleOriginRank Standard = 0"
| "RuleOriginRank VendorOrigin = 10"
| "RuleOriginRank Operator = 20"
| "RuleOriginRank LocalOverride = 30"

datatype RuleSymmetry = Symmetric | LeftToRight | RightToLeft

fun RuleSymmetryName :: "RuleSymmetry \<Rightarrow> string" where
  "RuleSymmetryName Symmetric = ''symmetric''"
| "RuleSymmetryName LeftToRight = ''left_to_right''"
| "RuleSymmetryName RightToLeft = ''right_to_left''"

definition ParseRuleSymmetry :: "string \<Rightarrow> RuleSymmetry result" where
  "ParseRuleSymmetry t =
     (if t = ''symmetric'' then Inr Symmetric
      else if t = ''left_to_right'' then Inr LeftToRight
      else if t = ''right_to_left'' then Inr RightToLeft
      else Fail InvalidDocument)"

datatype RuleArity = PairRule | SetRule

fun RuleArityName :: "RuleArity \<Rightarrow> string" where
  "RuleArityName PairRule = ''pair''"
| "RuleArityName SetRule = ''set''"

definition ParseRuleArity :: "string \<Rightarrow> RuleArity result" where
  "ParseRuleArity t =
     (if t = ''pair'' then Inr PairRule
      else if t = ''set'' then Inr SetRule
      else Fail InvalidDocument)"

datatype RuleOutcome = Compatible | Incompatible | Unknown

fun RuleOutcomeName :: "RuleOutcome \<Rightarrow> string" where
  "RuleOutcomeName Compatible = ''compatible''"
| "RuleOutcomeName Incompatible = ''incompatible''"
| "RuleOutcomeName Unknown = ''unknown''"

definition ParseRuleOutcome :: "string \<Rightarrow> RuleOutcome result" where
  "ParseRuleOutcome t =
     (if t = ''compatible'' then Inr Compatible
      else if t = ''incompatible'' then Inr Incompatible
      else if t = ''unknown'' then Inr Unknown
      else Fail InvalidDocument)"

datatype OnUnmetRequirement = UnmetIncompatible | UnmetUnknown | UnmetSkip

fun OnUnmetRequirementName :: "OnUnmetRequirement \<Rightarrow> string" where
  "OnUnmetRequirementName UnmetIncompatible = ''incompatible''"
| "OnUnmetRequirementName UnmetUnknown = ''unknown''"
| "OnUnmetRequirementName UnmetSkip = ''skip''"

definition ParseOnUnmetRequirement :: "string \<Rightarrow> OnUnmetRequirement result" where
  "ParseOnUnmetRequirement t =
     (if t = ''incompatible'' then Inr UnmetIncompatible
      else if t = ''unknown'' then Inr UnmetUnknown
      else if t = ''skip'' then Inr UnmetSkip
      else Fail InvalidDocument)"

datatype OnIndeterminate = IndeterminateUnknown | IndeterminateIncompatible | IndeterminateSkip

fun OnIndeterminateName :: "OnIndeterminate \<Rightarrow> string" where
  "OnIndeterminateName IndeterminateUnknown = ''unknown''"
| "OnIndeterminateName IndeterminateIncompatible = ''incompatible''"
| "OnIndeterminateName IndeterminateSkip = ''skip''"

definition ParseOnIndeterminate :: "string \<Rightarrow> OnIndeterminate result" where
  "ParseOnIndeterminate t =
     (if t = ''unknown'' then Inr IndeterminateUnknown
      else if t = ''incompatible'' then Inr IndeterminateIncompatible
      else if t = ''skip'' then Inr IndeterminateSkip
      else Fail InvalidDocument)"

datatype NegotiationPolicy = HighestCommon | LowestCommon | ExactRequired

fun NegotiationPolicyName :: "NegotiationPolicy \<Rightarrow> string" where
  "NegotiationPolicyName HighestCommon = ''highest_common''"
| "NegotiationPolicyName LowestCommon = ''lowest_common''"
| "NegotiationPolicyName ExactRequired = ''exact_required''"

definition ParseNegotiationPolicy :: "string \<Rightarrow> NegotiationPolicy result" where
  "ParseNegotiationPolicy t =
     (if t = ''highest_common'' then Inr HighestCommon
      else if t = ''lowest_common'' then Inr LowestCommon
      else if t = ''exact_required'' then Inr ExactRequired
      else Fail InvalidDocument)"

datatype LifecycleState = Active | Deprecated | Retired

fun LifecycleStateName :: "LifecycleState \<Rightarrow> string" where
  "LifecycleStateName Active = ''active''"
| "LifecycleStateName Deprecated = ''deprecated''"
| "LifecycleStateName Retired = ''retired''"

definition ParseLifecycleState :: "string \<Rightarrow> LifecycleState result" where
  "ParseLifecycleState t =
     (if t = ''active'' then Inr Active
      else if t = ''deprecated'' then Inr Deprecated
      else if t = ''retired'' then Inr Retired
      else Fail InvalidDocument)"

section \<open>Constraint literals\<close>

datatype ConstraintLiteral =
  LitBoolean bool | LitInteger int | LitText string | LitVersion SemVersion

fun MatchesType :: "ConstraintLiteral \<Rightarrow> CapabilityType \<Rightarrow> bool" where
  "MatchesType (LitBoolean _) t = (t = FlagType)"
| "MatchesType (LitInteger _) t = (t = IntegerType)"
| "MatchesType (LitText _) t = (t = TextType)"
| "MatchesType (LitVersion _) t = (t = VersionType)"

fun literal_Resolve :: "ConstraintLiteral \<Rightarrow> CapabilityValue result" where
  "literal_Resolve (LitBoolean b) = Inr (Flag b)"
| "literal_Resolve (LitInteger i) = Inr (Integer i)"
| "literal_Resolve (LitText t) = Inr (Text t)"
| "literal_Resolve (LitVersion v) = Inr (Version v)"

fun literal_ToString :: "ConstraintLiteral \<Rightarrow> string" where
  "literal_ToString (LitBoolean b) = (if b then ''true'' else ''false'')"
| "literal_ToString (LitInteger i) = int_to_string i"
| "literal_ToString (LitText t) = t"
| "literal_ToString (LitVersion v) = SemVersion_ToString v"

fun literal_ToJson :: "ConstraintLiteral \<Rightarrow> JsonValue" where
  "literal_ToJson (LitBoolean b) = JBool b"
| "literal_ToJson (LitInteger i) = JInt i"
| "literal_ToJson (LitText t) = JStr t"
| "literal_ToJson (LitVersion v) = JStr (SemVersion_ToString v)"

definition literal_FromJson :: "JsonValue \<Rightarrow> ConstraintLiteral result" where
  "literal_FromJson j =
     (if IsBool j then Inr (LitBoolean (AsBool j False))
      else if IsInt j \<or> IsUInt j then
        (case AsInt j of None \<Rightarrow> Fail InvalidConstraint | Some i \<Rightarrow> Inr (LitInteger i))
      else (case AsString j of
          None \<Rightarrow> Fail InvalidConstraint
        | Some t \<Rightarrow>
            (case SemVersion_Parse t of
               Inr v \<Rightarrow> Inr (LitVersion v)
             | Inl _ \<Rightarrow> if length t > kMaxCapabilityTextBytes then Fail LimitExceeded else Inr (LitText t))))"

definition literal_eq :: "ConstraintLiteral \<Rightarrow> ConstraintLiteral \<Rightarrow> bool" where
  "literal_eq a b =
     (case (a, b) of
        (LitBoolean x, LitBoolean y) \<Rightarrow> x = y
      | (LitInteger x, LitInteger y) \<Rightarrow> x = y
      | (LitText x, LitText y) \<Rightarrow> x = y
      | (LitVersion x, LitVersion y) \<Rightarrow> Precedence x y = Equal
      | _ \<Rightarrow> False)"

section \<open>Constraints\<close>

datatype Constraint =
    RequiresCapability Side CapabilityId
  | RequiresCapabilityValue Side CapabilityId ComparisonOp ConstraintLiteral
  | ForbidsCapability Side CapabilityId
  | RequiresProtocol Side ProtocolId VersionRange
  | ForbidsProtocol Side ProtocolId
  | RequiresSchema Side SchemaId VersionRange
  | ForbidsSchema Side SchemaId
  | RequiresHardwareClass Side HardwareClassId
  | ForbidsHardwareClass Side HardwareClassId
  | VersionAtLeast Side SemVersion
  | VersionAtMost Side SemVersion
  | RequiresFeature Side FeatureId
  | ForbidsFeature Side FeatureId

text \<open>\<open>std::variant::index\<close>: the position of the alternative.\<close>

fun constraint_index :: "Constraint \<Rightarrow> nat" where
  "constraint_index (RequiresCapability _ _) = 0"
| "constraint_index (RequiresCapabilityValue _ _ _ _) = 1"
| "constraint_index (ForbidsCapability _ _) = 2"
| "constraint_index (RequiresProtocol _ _ _) = 3"
| "constraint_index (ForbidsProtocol _ _) = 4"
| "constraint_index (RequiresSchema _ _ _) = 5"
| "constraint_index (ForbidsSchema _ _) = 6"
| "constraint_index (RequiresHardwareClass _ _) = 7"
| "constraint_index (ForbidsHardwareClass _ _) = 8"
| "constraint_index (VersionAtLeast _ _) = 9"
| "constraint_index (VersionAtMost _ _) = 10"
| "constraint_index (RequiresFeature _ _) = 11"
| "constraint_index (ForbidsFeature _ _) = 12"

fun ConstraintKindName :: "Constraint \<Rightarrow> string" where
  "ConstraintKindName (RequiresCapability _ _) = ''requires_capability''"
| "ConstraintKindName (RequiresCapabilityValue _ _ _ _) = ''requires_capability_value''"
| "ConstraintKindName (ForbidsCapability _ _) = ''forbids_capability''"
| "ConstraintKindName (RequiresProtocol _ _ _) = ''requires_protocol''"
| "ConstraintKindName (ForbidsProtocol _ _) = ''forbids_protocol''"
| "ConstraintKindName (RequiresSchema _ _ _) = ''requires_schema''"
| "ConstraintKindName (ForbidsSchema _ _) = ''forbids_schema''"
| "ConstraintKindName (RequiresHardwareClass _ _) = ''requires_hardware_class''"
| "ConstraintKindName (ForbidsHardwareClass _ _) = ''forbids_hardware_class''"
| "ConstraintKindName (VersionAtLeast _ _) = ''version_at_least''"
| "ConstraintKindName (VersionAtMost _ _) = ''version_at_most''"
| "ConstraintKindName (RequiresFeature _ _) = ''requires_feature''"
| "ConstraintKindName (ForbidsFeature _ _) = ''forbids_feature''"

fun ConstraintSide :: "Constraint \<Rightarrow> Side" where
  "ConstraintSide (RequiresCapability s _) = s"
| "ConstraintSide (RequiresCapabilityValue s _ _ _) = s"
| "ConstraintSide (ForbidsCapability s _) = s"
| "ConstraintSide (RequiresProtocol s _ _) = s"
| "ConstraintSide (ForbidsProtocol s _) = s"
| "ConstraintSide (RequiresSchema s _ _) = s"
| "ConstraintSide (ForbidsSchema s _) = s"
| "ConstraintSide (RequiresHardwareClass s _) = s"
| "ConstraintSide (ForbidsHardwareClass s _) = s"
| "ConstraintSide (VersionAtLeast s _) = s"
| "ConstraintSide (VersionAtMost s _) = s"
| "ConstraintSide (RequiresFeature s _) = s"
| "ConstraintSide (ForbidsFeature s _) = s"

fun ConstraintCapability :: "Constraint \<Rightarrow> CapabilityId option" where
  "ConstraintCapability (RequiresCapability _ c) = Some c"
| "ConstraintCapability (RequiresCapabilityValue _ c _ _) = Some c"
| "ConstraintCapability (ForbidsCapability _ c) = Some c"
| "ConstraintCapability _ = None"

definition id_json :: "'tag TypedId \<Rightarrow> JsonValue" where
  "id_json i = JStr (id_value i)"

fun constraint_body :: "Constraint \<Rightarrow> JsonValue \<Rightarrow> JsonValue" where
  "constraint_body (RequiresCapability _ c) j = Set j ''capability'' (id_json c)"
| "constraint_body (RequiresCapabilityValue _ c op v) j =
     Set (Set (Set j ''capability'' (id_json c)) ''op'' (JStr (ComparisonOpName op))) ''value'' (literal_ToJson v)"
| "constraint_body (ForbidsCapability _ c) j = Set j ''capability'' (id_json c)"
| "constraint_body (RequiresProtocol _ p r) j =
     Set (Set j ''protocol'' (id_json p)) ''range'' (JStr (VersionRange_ToString r))"
| "constraint_body (ForbidsProtocol _ p) j = Set j ''protocol'' (id_json p)"
| "constraint_body (RequiresSchema _ p r) j =
     Set (Set j ''schema'' (id_json p)) ''range'' (JStr (VersionRange_ToString r))"
| "constraint_body (ForbidsSchema _ p) j = Set j ''schema'' (id_json p)"
| "constraint_body (RequiresHardwareClass _ h) j = Set j ''hardware_class'' (id_json h)"
| "constraint_body (ForbidsHardwareClass _ h) j = Set j ''hardware_class'' (id_json h)"
| "constraint_body (VersionAtLeast _ v) j = Set j ''version'' (JStr (SemVersion_ToString v))"
| "constraint_body (VersionAtMost _ v) j = Set j ''version'' (JStr (SemVersion_ToString v))"
| "constraint_body (RequiresFeature _ f) j = Set j ''feature'' (id_json f)"
| "constraint_body (ForbidsFeature _ f) j = Set j ''feature'' (id_json f)"

definition ConstraintToJson :: "Constraint \<Rightarrow> JsonValue" where
  "ConstraintToJson c =
     constraint_body c (Set (Set (JObj []) ''type'' (JStr (ConstraintKindName c)))
       ''side'' (JStr (SideName (ConstraintSide c))))"

definition constraint_range :: "JsonValue \<Rightarrow> VersionRange result" where
  "constraint_range j = res_bind (OptionalString j ''range'' ''*'') VersionRange_Parse"

definition ParseConstraint :: "JsonValue \<Rightarrow> Constraint result" where
  "ParseConstraint j =
     res_bind (RequireString j ''type'') (\<lambda>ty.
     res_bind (res_bind (RequireString j ''side'') ParseSide) (\<lambda>s.
       if ty = ''requires_capability'' \<or> ty = ''forbids_capability'' then
         res_bind (required_id QualifiedName j ''capability'') (\<lambda>i.
           Inr (if ty = ''requires_capability'' then RequiresCapability s i else ForbidsCapability s i))
       else if ty = ''requires_capability_value'' then
         res_bind (required_id QualifiedName j ''capability'') (\<lambda>i.
         res_bind (res_bind (RequireString j ''op'') ParseComparisonOp) (\<lambda>op.
         res_bind (res_bind (RequireField j ''value'') literal_FromJson) (\<lambda>v.
           Inr (RequiresCapabilityValue s i op v))))
       else if ty = ''requires_protocol'' \<or> ty = ''forbids_protocol'' then
         res_bind (required_id QualifiedName j ''protocol'') (\<lambda>i.
           if ty = ''forbids_protocol'' then Inr (ForbidsProtocol s i)
           else res_bind (constraint_range j) (\<lambda>r. Inr (RequiresProtocol s i r)))
       else if ty = ''requires_schema'' \<or> ty = ''forbids_schema'' then
         res_bind (required_id QualifiedName j ''schema'') (\<lambda>i.
           if ty = ''forbids_schema'' then Inr (ForbidsSchema s i)
           else res_bind (constraint_range j) (\<lambda>r. Inr (RequiresSchema s i r)))
       else if ty = ''requires_hardware_class'' \<or> ty = ''forbids_hardware_class'' then
         res_bind (required_id QualifiedName j ''hardware_class'') (\<lambda>i.
           Inr (if ty = ''requires_hardware_class'' then RequiresHardwareClass s i
                else ForbidsHardwareClass s i))
       else if ty = ''requires_feature'' \<or> ty = ''forbids_feature'' then
         res_bind (required_id QualifiedName j ''feature'') (\<lambda>i.
           Inr (if ty = ''requires_feature'' then RequiresFeature s i else ForbidsFeature s i))
       else if ty = ''version_at_least'' \<or> ty = ''version_at_most'' then
         res_bind (res_bind (RequireString j ''version'') SemVersion_Parse) (\<lambda>v.
           Inr (if ty = ''version_at_least'' then VersionAtLeast s v else VersionAtMost s v))
       else Fail InvalidConstraint))"

section \<open>The canonical order of constraints\<close>

text \<open>\<open>%03zu\<close>.\<close>

definition PadIndex :: "nat \<Rightarrow> string" where
  "PadIndex n = (let s = to_string n in replicate (3 - length s) CHR ''0'' @ s)"

fun op_index :: "ComparisonOp \<Rightarrow> nat" where
  "op_index Eq = 0"
| "op_index Ne = 1"
| "op_index Lt = 2"
| "op_index Le = 3"
| "op_index Gt = 4"
| "op_index Ge = 5"

fun constraint_key_body :: "Constraint \<Rightarrow> string" where
  "constraint_key_body (RequiresCapability _ c) = id_value c"
| "constraint_key_body (RequiresCapabilityValue _ c op v) =
     id_value c @ ''|'' @ PadIndex (op_index op) @ ''|'' @ literal_ToString v"
| "constraint_key_body (ForbidsCapability _ c) = id_value c"
| "constraint_key_body (RequiresProtocol _ p r) = id_value p @ ''|'' @ VersionRange_ToString r"
| "constraint_key_body (ForbidsProtocol _ p) = id_value p"
| "constraint_key_body (RequiresSchema _ p r) = id_value p @ ''|'' @ VersionRange_ToString r"
| "constraint_key_body (ForbidsSchema _ p) = id_value p"
| "constraint_key_body (RequiresHardwareClass _ h) = id_value h"
| "constraint_key_body (ForbidsHardwareClass _ h) = id_value h"
| "constraint_key_body (VersionAtLeast _ v) = SemVersion_ToString v"
| "constraint_key_body (VersionAtMost _ v) = SemVersion_ToString v"
| "constraint_key_body (RequiresFeature _ f) = id_value f"
| "constraint_key_body (ForbidsFeature _ f) = id_value f"

definition ConstraintSortKey :: "Constraint \<Rightarrow> string" where
  "ConstraintSortKey c =
     PadIndex (constraint_index c) @ ''|'' @ PadIndex (SideIndex (ConstraintSide c)) @ ''|'' @
     constraint_key_body c"

definition ConstraintLess :: "Constraint \<Rightarrow> Constraint \<Rightarrow> bool" where
  "ConstraintLess a b = (ConstraintSortKey a < ConstraintSortKey b)"

definition ConstraintEquals :: "Constraint \<Rightarrow> Constraint \<Rightarrow> bool" where
  "ConstraintEquals a b = (ConstraintSortKey a = ConstraintSortKey b)"

definition ConstraintListsEqual :: "Constraint list \<Rightarrow> Constraint list \<Rightarrow> bool" where
  "ConstraintListsEqual a b = (length a = length b \<and> list_all2 ConstraintEquals a b)"

section \<open>Rules\<close>

record CapabilityImplication =
  imp_side :: Side
  if_present :: CapabilityId
  then_required :: CapabilityId

definition implication_lt :: "CapabilityImplication \<Rightarrow> CapabilityImplication \<Rightarrow> bool" where
  "implication_lt a b =
     (if imp_side a \<noteq> imp_side b then SideIndex (imp_side a) < SideIndex (imp_side b)
      else if if_present a \<noteq> if_present b then if_present a < if_present b
      else then_required a < then_required b)"

record Lifecycle =
  lc_state :: LifecycleState
  superseded_by :: "RuleRef option"
  lc_note :: string

record RuleProvenance =
  publisher :: PublisherId
  prov_source :: string
  prov_reference :: string
  recorded_at :: Timestamp
  change_note :: string

definition kMaxConstraintsPerRule :: nat where "kMaxConstraintsPerRule = 128"
definition kMaxImplicationsPerRule :: nat where "kMaxImplicationsPerRule = 128"
definition kMaxRationaleBytes :: nat where "kMaxRationaleBytes = 1024"

record Rule =
  rule_id :: RuleId
  revision :: RuleRevision
  priority :: RulePriority
  origin :: RuleOrigin
  symmetry :: RuleSymmetry
  arity :: RuleArity
  outcome :: RuleOutcome
  left_selector :: ComponentSelector
  right_selector :: ComponentSelector
  constraints :: "Constraint list"
  implications :: "CapabilityImplication list"
  negotiation :: NegotiationPolicy
  on_unmet :: OnUnmetRequirement
  on_indeterminate :: OnIndeterminate
  lifecycle :: Lifecycle
  provenance :: RuleProvenance
  rationale :: string

definition Rule_Ref :: "Rule \<Rightarrow> RuleRef" where
  "Rule_Ref r = RuleRef (rule_id r) (revision r)"

section \<open>Precedence\<close>

definition selector_specificity :: "ComponentSelector \<Rightarrow> int" where
  "selector_specificity s =
     (if sel_family s \<noteq> None then 8 else 0) + (if sel_kind s \<noteq> None then 8 else 0) +
     (if sel_hardware_class s \<noteq> None then 8 else 0) +
     (case sel_version s of None \<Rightarrow> 0
      | Some r \<Rightarrow> if VersionRange_IsExact r then 24 else if \<not> VersionRange_IsAny r then 12 else 0)"

definition ComputeSpecificity :: "Rule \<Rightarrow> int" where
  "ComputeSpecificity r =
     selector_specificity (left_selector r) +
     (if arity r = PairRule then selector_specificity (right_selector r) else 0) +
     int (min (length (constraints r)) 16) * 2 + int (min (length (implications r)) 16)"

record PrecedenceTier =
  tier_priority :: RulePriority
  specificity :: int
  origin_rank :: int

definition tier_lt :: "PrecedenceTier \<Rightarrow> PrecedenceTier \<Rightarrow> bool" where
  "tier_lt a b =
     (if tier_priority a \<noteq> tier_priority b then tier_priority a < tier_priority b
      else if specificity a \<noteq> specificity b then specificity a < specificity b
      else origin_rank a < origin_rank b)"

definition RuleTier :: "Rule \<Rightarrow> PrecedenceTier" where
  "RuleTier r = \<lparr>tier_priority = priority r, specificity = ComputeSpecificity r,
     origin_rank = RuleOriginRank (origin r)\<rparr>"

record PrecedenceKey =
  key_tier :: PrecedenceTier
  key_id :: RuleId
  key_revision :: RuleRevision

definition RulePrecedence :: "Rule \<Rightarrow> PrecedenceKey" where
  "RulePrecedence r = \<lparr>key_tier = RuleTier r, key_id = rule_id r, key_revision = revision r\<rparr>"

definition PrecedenceHigher :: "PrecedenceKey \<Rightarrow> PrecedenceKey \<Rightarrow> bool" where
  "PrecedenceHigher a b =
     (if key_tier a \<noteq> key_tier b then tier_lt (key_tier b) (key_tier a)
      else if key_id a \<noteq> key_id b then key_id a < key_id b
      else key_revision a < key_revision b)"

definition PrecedenceKeyToString :: "PrecedenceKey \<Rightarrow> string" where
  "PrecedenceKeyToString k =
     ''priority='' @ int_to_string (tier_priority (key_tier k)) @
     '' specificity='' @ int_to_string (specificity (key_tier k)) @
     '' origin='' @ int_to_string (origin_rank (key_tier k)) @
     '' rule='' @ id_value (key_id k) @ ''@r'' @ to_string (unat (key_revision k))"

section \<open>Normalisation\<close>

definition NormalizeRule :: "Rule \<Rightarrow> Rule" where
  "NormalizeRule r = r\<lparr>constraints := sort_by ConstraintLess (constraints r),
     implications := sort_by implication_lt (implications r)\<rparr>"

section \<open>JSON\<close>

definition implication_json :: "CapabilityImplication \<Rightarrow> JsonValue" where
  "implication_json i =
     Set (Set (Set (JObj []) ''side'' (JStr (SideName (imp_side i))))
       ''if_present'' (id_json (if_present i))) ''then_required'' (id_json (then_required i))"

definition reference_json :: "RuleRef \<Rightarrow> JsonValue" where
  "reference_json r =
     Set (Set (JObj []) ''id'' (id_json (ref_id r))) ''revision'' (JUInt (ucast (ref_revision r)))"

definition lifecycle_json :: "Lifecycle \<Rightarrow> JsonValue" where
  "lifecycle_json l =
     set_when (lc_note l \<noteq> []) ''note'' (JStr (lc_note l))
       (set_option ''superseded_by'' reference_json (superseded_by l)
         (Set (JObj []) ''state'' (JStr (LifecycleStateName (lc_state l)))))"

definition provenance_json :: "RuleProvenance \<Rightarrow> JsonValue" where
  "provenance_json p =
     (let j = Set (JObj []) ''publisher'' (id_json (publisher p));
          j = set_when (prov_source p \<noteq> []) ''source'' (JStr (prov_source p)) j;
          j = set_when (prov_reference p \<noteq> []) ''reference'' (JStr (prov_reference p)) j;
          j = Set j ''recorded_at'' (JStr (ToIso8601 (recorded_at p)))
      in set_when (change_note p \<noteq> []) ''change_note'' (JStr (change_note p)) j)"

definition RuleToJson :: "Rule \<Rightarrow> JsonValue" where
  "RuleToJson r =
     (let j = Set (JObj []) ''id'' (id_json (rule_id r));
          j = Set j ''revision'' (JUInt (ucast (revision r)));
          j = Set j ''priority'' (JInt (priority r));
          j = Set j ''origin'' (JStr (RuleOriginName (origin r)));
          j = Set j ''symmetry'' (JStr (RuleSymmetryName (symmetry r)));
          j = Set j ''arity'' (JStr (RuleArityName (arity r)));
          j = Set j ''outcome'' (JStr (RuleOutcomeName (outcome r)));
          j = Set j ''left'' (ComponentSelectorToJson (left_selector r));
          j = set_when (arity r = PairRule) ''right'' (ComponentSelectorToJson (right_selector r)) j;
          j = Set j ''constraints'' (JArr (map ConstraintToJson (constraints r)));
          j = set_when (implications r \<noteq> []) ''implications'' (JArr (map implication_json (implications r))) j;
          j = Set j ''negotiation'' (JStr (NegotiationPolicyName (negotiation r)));
          j = Set j ''on_unmet_requirement'' (JStr (OnUnmetRequirementName (on_unmet r)));
          j = Set j ''on_indeterminate'' (JStr (OnIndeterminateName (on_indeterminate r)));
          j = Set j ''lifecycle'' (lifecycle_json (lifecycle r));
          j = Set j ''provenance'' (provenance_json (provenance r))
      in set_when (rationale r \<noteq> []) ''rationale'' (JStr (rationale r)) j)"

text \<open>A revision: absent and \<open>null\<close> mean 1.\<close>

definition read_revision :: "JsonValue \<Rightarrow> RuleRevision result" where
  "read_revision j =
     (case present j ''revision'' of
        None \<Rightarrow> Inr 1
      | Some v \<Rightarrow>
          (case AsUInt v of
             None \<Rightarrow> Fail InvalidDocument
           | Some n \<Rightarrow> if n > 4294967295 then Fail InvalidDocument else Inr (ucast n)))"

definition read_priority :: "JsonValue \<Rightarrow> RulePriority result" where
  "read_priority j =
     (case present j ''priority'' of
        None \<Rightarrow> Inr 0
      | Some v \<Rightarrow>
          (case AsInt v of
             None \<Rightarrow> Fail InvalidDocument
           | Some n \<Rightarrow> if n < - 2147483648 \<or> n > 2147483647 then Fail InvalidDocument else Inr n))"

definition read_right :: "RuleArity \<Rightarrow> JsonValue \<Rightarrow> ComponentSelector result" where
  "read_right a j =
     (case present j ''right'' of
        None \<Rightarrow> if a = PairRule then Fail InvalidDocument else Inr ComponentSelector_any
      | Some v \<Rightarrow> if a = PairRule then ParseComponentSelector v else Fail InvalidDocument)"

definition read_list :: "JsonValue \<Rightarrow> string \<Rightarrow> nat \<Rightarrow> (JsonValue \<Rightarrow> 'a result) \<Rightarrow> 'a list result" where
  "read_list j key cap read =
     (case present j key of
        None \<Rightarrow> Inr []
      | Some v \<Rightarrow>
          (case AsArray v of
             None \<Rightarrow> Fail InvalidDocument
           | Some es \<Rightarrow> if length es > cap then Fail LimitExceeded else res_mapM read es))"

definition read_implication :: "JsonValue \<Rightarrow> CapabilityImplication result" where
  "read_implication e =
     res_bind (res_bind (RequireString e ''side'') ParseSide) (\<lambda>s.
     res_bind (required_id QualifiedName e ''if_present'') (\<lambda>a.
     res_bind (required_id QualifiedName e ''then_required'') (\<lambda>b.
       Inr \<lparr>imp_side = s, if_present = a, then_required = b\<rparr>)))"

definition read_superseded :: "JsonValue \<Rightarrow> RuleRef option result" where
  "read_superseded l =
     (case present l ''superseded_by'' of
        None \<Rightarrow> Inr None
      | Some s \<Rightarrow>
          res_bind (required_id QualifiedName s ''id'') (\<lambda>i.
          res_bind (read_revision s) (\<lambda>n. Inr (Some (RuleRef i n)))))"

definition read_lifecycle :: "JsonValue \<Rightarrow> Lifecycle result" where
  "read_lifecycle j =
     (case present j ''lifecycle'' of
        None \<Rightarrow> Inr \<lparr>lc_state = Active, superseded_by = None, lc_note = []\<rparr>
      | Some l \<Rightarrow>
          res_bind (res_bind (OptionalString l ''state'' ''active'') ParseLifecycleState) (\<lambda>st.
          res_bind (read_superseded l) (\<lambda>sup.
          res_bind (OptionalString l ''note'' []) (\<lambda>note.
            Inr \<lparr>lc_state = st, superseded_by = sup, lc_note = note\<rparr>))))"

definition read_provenance :: "JsonValue \<Rightarrow> RuleProvenance result" where
  "read_provenance j =
     res_bind (RequireField j ''provenance'') (\<lambda>p.
     res_bind (required_id Opaque p ''publisher'') (\<lambda>pub.
     res_bind (OptionalString p ''source'' []) (\<lambda>src.
     res_bind (OptionalString p ''reference'' []) (\<lambda>rf.
     res_bind (OptionalString p ''change_note'' []) (\<lambda>note.
     res_bind (OptionalString p ''recorded_at'' []) (\<lambda>at_text.
     res_bind (if at_text = [] then Inr 0 else FromIso8601 at_text) (\<lambda>t.
       Inr \<lparr>publisher = pub, prov_source = src, prov_reference = rf, recorded_at = t,
         change_note = note\<rparr>)))))))"

definition ParseRule :: "JsonValue \<Rightarrow> Rule result" where
  "ParseRule j =
     (if \<not> IsObject j then Fail InvalidDocument
      else
        res_bind (required_id QualifiedName j ''id'') (\<lambda>i.
        res_bind (read_revision j) (\<lambda>rev.
        res_bind (read_priority j) (\<lambda>pri.
        res_bind (res_bind (OptionalString j ''origin'' ''standard'') ParseRuleOrigin) (\<lambda>orig.
        res_bind (res_bind (OptionalString j ''symmetry'' ''symmetric'') ParseRuleSymmetry) (\<lambda>sym.
        res_bind (res_bind (OptionalString j ''arity'' ''pair'') ParseRuleArity) (\<lambda>ar.
        res_bind (res_bind (RequireString j ''outcome'') ParseRuleOutcome) (\<lambda>outc.
        res_bind (res_bind (RequireField j ''left'') ParseComponentSelector) (\<lambda>lft.
        res_bind (read_right ar j) (\<lambda>rgt.
        res_bind (read_list j ''constraints'' kMaxConstraintsPerRule ParseConstraint) (\<lambda>cs.
        res_bind (read_list j ''implications'' kMaxImplicationsPerRule read_implication) (\<lambda>imps.
        res_bind (res_bind (OptionalString j ''negotiation'' ''highest_common'') ParseNegotiationPolicy) (\<lambda>neg.
        res_bind (res_bind (OptionalString j ''on_unmet_requirement'' ''incompatible'') ParseOnUnmetRequirement) (\<lambda>unm.
        res_bind (res_bind (OptionalString j ''on_indeterminate'' ''unknown'') ParseOnIndeterminate) (\<lambda>ind.
        res_bind (read_lifecycle j) (\<lambda>lc.
        res_bind (read_provenance j) (\<lambda>prov.
        res_bind (OptionalString j ''rationale'' []) (\<lambda>rat.
          if length rat > kMaxRationaleBytes then Fail LimitExceeded
          else Inr (NormalizeRule
            \<lparr>rule_id = i, revision = rev, priority = pri, origin = orig, symmetry = sym, arity = ar,
              outcome = outc, left_selector = lft, right_selector = rgt, constraints = cs,
              implications = imps, negotiation = neg, on_unmet = unm, on_indeterminate = ind,
              lifecycle = lc, provenance = prov, rationale = rat\<rparr>)))))))))))))))))))"

definition RuleContentDigest :: "Rule \<Rightarrow> ContentDigest" where
  "RuleContentDigest r = Sha256_Hash (Dump (RuleToJson r) False)"

section \<open>Matching\<close>

text \<open>The answer and the \<open>mirrored\<close> flag.\<close>

definition RuleMatchesSelectors :: "Rule \<Rightarrow> ComponentSpec \<Rightarrow> ComponentSpec \<Rightarrow> bool \<times> bool" where
  "RuleMatchesSelectors r l x =
     (let forward = SelectorMatches (left_selector r) l \<and> SelectorMatches (right_selector r) x;
          reverse = SelectorMatches (left_selector r) x \<and> SelectorMatches (right_selector r) l
      in if symmetry r = LeftToRight then (forward, False)
         else if symmetry r = RightToLeft then (reverse, reverse)
         else if forward then (True, False)
         else (reverse, reverse))"

section \<open>Names\<close>

lemma Side_text [simp]: "ParseSide (SideName x) = Inr x"
  by (cases x) (simp_all add: ParseSide_def)

lemma RuleOrigin_text [simp]: "ParseRuleOrigin (RuleOriginName x) = Inr x"
  by (cases x) (simp_all add: ParseRuleOrigin_def)

lemma RuleSymmetry_text [simp]: "ParseRuleSymmetry (RuleSymmetryName x) = Inr x"
  by (cases x) (simp_all add: ParseRuleSymmetry_def)

lemma RuleArity_text [simp]: "ParseRuleArity (RuleArityName x) = Inr x"
  by (cases x) (simp_all add: ParseRuleArity_def)

lemma RuleOutcome_text [simp]: "ParseRuleOutcome (RuleOutcomeName x) = Inr x"
  by (cases x) (simp_all add: ParseRuleOutcome_def)

lemma OnUnmetRequirement_text [simp]: "ParseOnUnmetRequirement (OnUnmetRequirementName x) = Inr x"
  by (cases x) (simp_all add: ParseOnUnmetRequirement_def)

lemma OnIndeterminate_text [simp]: "ParseOnIndeterminate (OnIndeterminateName x) = Inr x"
  by (cases x) (simp_all add: ParseOnIndeterminate_def)

lemma NegotiationPolicy_text [simp]: "ParseNegotiationPolicy (NegotiationPolicyName x) = Inr x"
  by (cases x) (simp_all add: ParseNegotiationPolicy_def)

lemma LifecycleState_text [simp]: "ParseLifecycleState (LifecycleStateName x) = Inr x"
  by (cases x) (simp_all add: ParseLifecycleState_def)

section \<open>The order of precedence\<close>

definition tier_cmp :: "PrecedenceTier \<Rightarrow> PrecedenceTier \<Rightarrow> ordering" where
  "tier_cmp a b = then_cmp (cmp_of (tier_priority a) (tier_priority b))
     (then_cmp (cmp_of (specificity a) (specificity b)) (cmp_of (origin_rank a) (origin_rank b)))"

text \<open>The higher tier comes first, equal tiers in the order of identity and revision.\<close>

definition precedence_cmp :: "PrecedenceKey \<Rightarrow> PrecedenceKey \<Rightarrow> ordering" where
  "precedence_cmp a b = then_cmp (tier_cmp (key_tier b) (key_tier a))
     (then_cmp (cmp_of (key_id a) (key_id b)) (cmp_of (key_revision a) (key_revision b)))"

lemma three_way_swap: "three_way c \<Longrightarrow> three_way (\<lambda>x y. c y x)"
  unfolding three_way_def by blast

lemma three_way_tier: "three_way tier_cmp"
  unfolding tier_cmp_def by (intro three_way_then three_way_on [OF three_way_cmp_of])

interpretation precedence: three_way precedence_cmp
  unfolding precedence_cmp_def
  by (intro three_way_then three_way_on [OF three_way_cmp_of]
      three_way_on [OF three_way_swap [OF three_way_tier]])

lemma tier_cmp_Equal: "tier_cmp a b = Equal \<longleftrightarrow> a = b"
  by (auto simp: tier_cmp_def)

lemma tier_cmp_refl [simp]: "tier_cmp a a = Equal"
  by (simp add: tier_cmp_Equal)

lemma tier_lt_iff [order_simps]: "tier_lt a b \<longleftrightarrow> tier_cmp a b = Less"
  by (auto simp: tier_lt_def tier_cmp_def then_cmp_Less)

lemma precedence_cmp_Equal: "precedence_cmp a b = Equal \<longleftrightarrow> a = b"
  by (auto simp: precedence_cmp_def tier_cmp_Equal)

lemma PrecedenceHigher_iff [order_simps]: "PrecedenceHigher a b \<longleftrightarrow> precedence_cmp a b = Less"
  by (auto simp: PrecedenceHigher_def precedence_cmp_def then_cmp_Less tier_cmp_Equal order_simps)

text \<open>The key of a rule determines its identity.\<close>

lemma RulePrecedence_Ref: "RulePrecedence a = RulePrecedence b \<Longrightarrow> Rule_Ref a = Rule_Ref b"
  by (simp add: RulePrecedence_def Rule_Ref_def)

text \<open>Precedence ranks any two rules of different identity one way round and no way in a
  circle, a rule of a higher tier always outranks one of a lower tier, and origin never outweighs
  specificity, nor specificity priority.\<close>

theorem PrecedenceHigher_total:
  "(\<not> PrecedenceHigher (RulePrecedence a) (RulePrecedence a)) \<and>
   (PrecedenceHigher (RulePrecedence a) (RulePrecedence b) \<and> PrecedenceHigher (RulePrecedence b) (RulePrecedence c)
      \<longrightarrow> PrecedenceHigher (RulePrecedence a) (RulePrecedence c)) \<and>
   (Rule_Ref a \<noteq> Rule_Ref b \<longrightarrow>
      PrecedenceHigher (RulePrecedence a) (RulePrecedence b) \<noteq> PrecedenceHigher (RulePrecedence b) (RulePrecedence a)) \<and>
   ([priority b, ComputeSpecificity b, RuleOriginRank (origin b)] <
      [priority a, ComputeSpecificity a, RuleOriginRank (origin a)] \<longrightarrow>
      PrecedenceHigher (RulePrecedence a) (RulePrecedence b))"
proof (intro conjI impI)
  let ?k = RulePrecedence
  show "\<not> PrecedenceHigher (?k a) (?k a)" by (simp add: order_simps)
  show "PrecedenceHigher (?k a) (?k c)" if "PrecedenceHigher (?k a) (?k b) \<and> PrecedenceHigher (?k b) (?k c)"
    using that precedence.less_trans unfolding order_simps by blast
  show "PrecedenceHigher (?k a) (?k b) \<noteq> PrecedenceHigher (?k b) (?k a)" if "Rule_Ref a \<noteq> Rule_Ref b"
    using that RulePrecedence_Ref [of a b] precedence.flip_cases [of "?k a" "?k b"]
    by (auto simp: order_simps precedence_cmp_Equal)
  show "PrecedenceHigher (?k a) (?k b)" if "[priority b, ComputeSpecificity b, RuleOriginRank (origin b)] <
      [priority a, ComputeSpecificity a, RuleOriginRank (origin a)]"
    using that by (auto simp: PrecedenceHigher_def RulePrecedence_def RuleTier_def tier_lt_def)
qed

section \<open>Canonical form\<close>

definition constraint_cmp :: "Constraint \<Rightarrow> Constraint \<Rightarrow> ordering" where
  "constraint_cmp a b = cmp_of (ConstraintSortKey a) (ConstraintSortKey b)"

definition implication_cmp :: "CapabilityImplication \<Rightarrow> CapabilityImplication \<Rightarrow> ordering" where
  "implication_cmp a b = then_cmp (cmp_of (SideIndex (imp_side a)) (SideIndex (imp_side b)))
     (then_cmp (cmp_of (if_present a) (if_present b)) (cmp_of (then_required a) (then_required b)))"

interpretation constraint_order: three_way constraint_cmp
  unfolding constraint_cmp_def by (rule three_way_on [OF three_way_cmp_of])

interpretation implication_order: three_way implication_cmp
  unfolding implication_cmp_def by (intro three_way_then three_way_on [OF three_way_cmp_of])

lemma SideIndex_inj [simp]: "SideIndex a = SideIndex b \<longleftrightarrow> a = b"
  by (cases a; cases b) auto

lemma ConstraintLess_cmp: "ConstraintLess = (\<lambda>a b. constraint_cmp a b = Less)"
  by (auto simp: ConstraintLess_def constraint_cmp_def fun_eq_iff)

lemma implication_lt_cmp: "implication_lt = (\<lambda>a b. implication_cmp a b = Less)"
  by (auto simp: implication_lt_def implication_cmp_def then_cmp_Less fun_eq_iff)

lemma implication_cmp_Equal: "implication_cmp a b = Equal \<longleftrightarrow> a = b"
  by (auto simp: implication_cmp_def)

lemma sort_constraints_sorted: "sorted_wrt (\<lambda>a b. \<not> ConstraintLess b a) (sort_by ConstraintLess cs)"
  unfolding ConstraintLess_cmp by (rule constraint_order.ascending.sort_by_sorted)

text \<open>No two different constraints of the list have the same key.\<close>

definition keys_distinguish :: "Constraint list \<Rightarrow> bool" where
  "keys_distinguish cs =
     (\<forall>a \<in> set cs. \<forall>b \<in> set cs. ConstraintSortKey a = ConstraintSortKey b \<longrightarrow> a = b)"

lemma sort_constraints_perm:
  assumes "keys_distinguish cs" and "mset cs = mset ds"
  shows "sort_by ConstraintLess cs = sort_by ConstraintLess ds"
  unfolding ConstraintLess_cmp
proof (rule constraint_order.ascending.sort_by_perm [OF assms(2)])
  fix a b assume "a \<in> set cs" "b \<in> set cs" "constraint_cmp a b \<noteq> Less" "constraint_cmp b a \<noteq> Less"
  then show "a = b" using assms(1) by (auto simp: keys_distinguish_def constraint_cmp_def)
qed

lemma sort_implications_perm:
  assumes "mset xs = mset ys"
  shows "sort_by implication_lt xs = sort_by implication_lt ys"
  unfolding implication_lt_cmp
proof (rule implication_order.ascending.sort_by_perm [OF assms])
  fix a b assume "implication_cmp a b \<noteq> Less" "implication_cmp b a \<noteq> Less"
  then show "a = b"
    using implication_order.flip_cases [of a b] implication_cmp_Equal [of a b] by auto
qed

lemma NormalizeRule_idem [simp]: "NormalizeRule (NormalizeRule r) = NormalizeRule r"
  unfolding NormalizeRule_def ConstraintLess_cmp implication_lt_cmp
  by (simp add: constraint_order.ascending.sort_by_idem implication_order.ascending.sort_by_idem)

text \<open>The canonical form and the digest of a rule do not depend on the order in which its
  constraints and implications were written, and normalising twice changes nothing, provided the
  sort keys tell the constraints apart.\<close>

theorem NormalizeRule_canonical:
  assumes "keys_distinguish (constraints r)"
    and "mset cs = mset (constraints r)" and "mset imps = mset (implications r)"
  shows "NormalizeRule (r\<lparr>constraints := cs, implications := imps\<rparr>) = NormalizeRule r \<and>
    RuleContentDigest (NormalizeRule (r\<lparr>constraints := cs, implications := imps\<rparr>)) =
    RuleContentDigest (NormalizeRule r) \<and>
    NormalizeRule (NormalizeRule r) = NormalizeRule r"
  using sort_constraints_perm [OF assms(1) assms(2) [symmetric]] sort_implications_perm [OF assms(3)]
    NormalizeRule_idem [of r]
  by (simp add: NormalizeRule_def)

section \<open>An example\<close>

definition sample_provenance :: RuleProvenance where
  "sample_provenance = \<lparr>publisher = TypedId ''acme'', prov_source = [], prov_reference = [],
     recorded_at = 0, change_note = []\<rparr>"

definition sample_rule :: "string \<Rightarrow> RuleOutcome \<Rightarrow> Constraint list \<Rightarrow> Rule" where
  "sample_rule name outc cs =
     \<lparr>rule_id = TypedId name, revision = 1, priority = 0, origin = Standard, symmetry = Symmetric,
      arity = PairRule, outcome = outc,
      left_selector = ComponentSelector_any\<lparr>sel_kind := Some (TypedId ''gpu'')\<rparr>,
      right_selector = ComponentSelector_any\<lparr>sel_kind := Some (TypedId ''nic'')\<rparr>,
      constraints = cs, implications = [], negotiation = HighestCommon, on_unmet = UnmetIncompatible,
      on_indeterminate = IndeterminateUnknown,
      lifecycle = \<lparr>lc_state = Active, superseded_by = None, lc_note = []\<rparr>,
      provenance = sample_provenance, rationale = []\<rparr>"

lemma NormalizeRule_canonical_witness:
  "let r = sample_rule ''r'' Compatible
        [RequiresFeature Left (TypedId ''ecc''), RequiresCapability Right (TypedId ''rdma'')];
      r' = r\<lparr>constraints := rev (constraints r), implications := []\<rparr>
   in NormalizeRule r' = NormalizeRule r \<and>
      RuleContentDigest (NormalizeRule r') = RuleContentDigest (NormalizeRule r) \<and>
      NormalizeRule (NormalizeRule r) = NormalizeRule r"
  unfolding Let_def
proof (rule NormalizeRule_canonical)
  show "keys_distinguish (constraints (sample_rule ''r'' Compatible
        [RequiresFeature Left (TypedId ''ecc''), RequiresCapability Right (TypedId ''rdma'')]))"
    by code_simp
qed (simp_all add: sample_rule_def)

definition flag_constraint :: Constraint where
  "flag_constraint = RequiresCapabilityValue Left (TypedId ''rdma'') Eq (LitBoolean True)"

definition text_constraint :: Constraint where
  "text_constraint = RequiresCapabilityValue Left (TypedId ''rdma'') Eq (LitText ''true'')"

text \<open>The key of a constraint is not canonical: a boolean literal and the text of its name have
  the same key, and two rules that hold both in different orders are normalised differently.\<close>

theorem ConstraintSortKey_collides:
  "ConstraintEquals flag_constraint text_constraint \<and> ConstraintToJson flag_constraint \<noteq> ConstraintToJson text_constraint \<and>
   NormalizeRule (sample_rule ''r'' Compatible [flag_constraint, text_constraint]) \<noteq>
   NormalizeRule (sample_rule ''r'' Compatible [text_constraint, flag_constraint])"
  by (simp add: ConstraintEquals_def ConstraintSortKey_def flag_constraint_def text_constraint_def
      ConstraintToJson_def Set_def sample_rule_def NormalizeRule_def ConstraintLess_def)

lemma PrecedenceHigher_total_witness:
  "\<exists>a b c. PrecedenceHigher (RulePrecedence a) (RulePrecedence b) \<and>
     PrecedenceHigher (RulePrecedence b) (RulePrecedence c) \<and> PrecedenceHigher (RulePrecedence a) (RulePrecedence c)"
proof (intro exI conjI)
  let ?a = "(sample_rule ''c'' Compatible [])\<lparr>priority := 7\<rparr>"
    and ?b = "sample_rule ''a'' Compatible []" and ?c = "sample_rule ''b'' Compatible []"
  show ab: "PrecedenceHigher (RulePrecedence ?a) (RulePrecedence ?b)" by code_simp
  show bc: "PrecedenceHigher (RulePrecedence ?b) (RulePrecedence ?c)" by code_simp
  show "PrecedenceHigher (RulePrecedence ?a) (RulePrecedence ?c)"
    using PrecedenceHigher_total [of ?a ?b ?c] ab bc by blast
qed

end
