(* ===== verification/RuleText.thy ===== *)
theory RuleText
  imports Rule
begin

text \<open>
  Rules survive their JSON form (\<open>RuleToJson\<close>, \<open>ParseRule\<close> of \<open>src/rule.cpp\<close>): which
  constraints and rules a document can hold, and that reading back what was written gives the
  normalised rule.
\<close>

section \<open>Well-formed rules\<close>

definition range_text_ok :: "VersionRange \<Rightarrow> bool" where
  "range_text_ok r = (range_ok r \<and> length r \<le> kMaxRangeGroups \<and>
     length (VersionRange_ToString r) \<le> kMaxRangeTextLength)"

definition version_text_ok :: "SemVersion \<Rightarrow> bool" where
  "version_text_ok v = (version_ok v \<and> length (SemVersion_ToString v) \<le> kMaxVersionTextLength)"

text \<open>A text literal that reads as a version would come back as one.\<close>

fun literal_ok :: "ConstraintLiteral \<Rightarrow> bool" where
  "literal_ok (LitText t) = (\<not> has_value (SemVersion_Parse t) \<and> length t \<le> kMaxCapabilityTextBytes)"
| "literal_ok (LitVersion v) = version_text_ok v"
| "literal_ok _ = True"

fun constraint_ok :: "Constraint \<Rightarrow> bool" where
  "constraint_ok (RequiresCapability _ c) = id_ok c"
| "constraint_ok (RequiresCapabilityValue _ c op v) = (id_ok c \<and> literal_ok v)"
| "constraint_ok (ForbidsCapability _ c) = id_ok c"
| "constraint_ok (RequiresProtocol _ p r) = (id_ok p \<and> range_text_ok r)"
| "constraint_ok (ForbidsProtocol _ p) = id_ok p"
| "constraint_ok (RequiresSchema _ p r) = (id_ok p \<and> range_text_ok r)"
| "constraint_ok (ForbidsSchema _ p) = id_ok p"
| "constraint_ok (RequiresHardwareClass _ h) = id_ok h"
| "constraint_ok (ForbidsHardwareClass _ h) = id_ok h"
| "constraint_ok (VersionAtLeast _ v) = version_text_ok v"
| "constraint_ok (VersionAtMost _ v) = version_text_ok v"
| "constraint_ok (RequiresFeature _ f) = id_ok f"
| "constraint_ok (ForbidsFeature _ f) = id_ok f"

definition implication_ok :: "CapabilityImplication \<Rightarrow> bool" where
  "implication_ok i = (id_ok (if_present i) \<and> id_ok (then_required i))"

definition lifecycle_ok :: "Lifecycle \<Rightarrow> bool" where
  "lifecycle_ok l = (case superseded_by l of None \<Rightarrow> True | Some r \<Rightarrow> id_ok (ref_id r))"

definition provenance_ok :: "RuleProvenance \<Rightarrow> bool" where
  "provenance_ok p = (has_value (ValidateIdText Opaque (id_value (publisher p))) \<and> iso_range (recorded_at p))"

definition rule_ok :: "Rule \<Rightarrow> bool" where
  "rule_ok r =
     (id_ok (rule_id r) \<and> - 2147483648 \<le> priority r \<and> priority r \<le> 2147483647 \<and>
      selector_wf (left_selector r) \<and>
      (if arity r = PairRule then selector_wf (right_selector r) else right_selector r = ComponentSelector_any) \<and>
      length (constraints r) \<le> kMaxConstraintsPerRule \<and> list_all constraint_ok (constraints r) \<and>
      length (implications r) \<le> kMaxImplicationsPerRule \<and> list_all implication_ok (implications r) \<and>
      lifecycle_ok (lifecycle r) \<and> provenance_ok (provenance r) \<and>
      length (rationale r) \<le> kMaxRationaleBytes)"

section \<open>The parts of a rule\<close>

lemma literal_print: "literal_ok v \<Longrightarrow> literal_FromJson (literal_ToJson v) = Inr v"
  by (cases v) (auto simp: literal_FromJson_def IsBool_def IsInt_def IsUInt_def AsBool_def AsInt_def
      version_text_ok_def SemVersion_print_parse has_value_def split: sum.splits)

lemma required_id_print:
  "IsObject j \<Longrightarrow> Find j k = Some (id_json i) \<Longrightarrow> id_ok i \<Longrightarrow> required_id QualifiedName j k = Inr i"
  by (simp add: required_id_def id_json_def RequireString_Find TypedId_Parse_value)

lemma ParseConstraint_print: "constraint_ok c \<Longrightarrow> ParseConstraint (ConstraintToJson c) = Inr c"
  by (cases c) (simp_all add: ParseConstraint_def ConstraintToJson_def json_simps required_id_def
      RequireString_def RequireField_def OptionalString_def id_json_def constraint_range_def
      TypedId_Parse_value literal_print version_text_ok_def SemVersion_print_parse range_text_ok_def
      range_text_inverse)

lemma read_implication_print: "implication_ok i \<Longrightarrow> read_implication (implication_json i) = Inr i"
  by (simp add: read_implication_def implication_json_def implication_ok_def json_simps
      RequireString_Find required_id_print)

lemma read_list_print:
  assumes "Find j key = (if xs = [] \<and> omit then None else Some (JArr (map f xs)))" and "length xs \<le> cap"
    and "list_all (\<lambda>x. read (f x) = Inr x) xs"
  shows "read_list j key cap read = Inr xs"
proof -
  have "res_mapM read (map f xs) = Inr xs"
    using assms(3) by (auto simp: res_mapM_Inr list_all2_conv_all_nth list_all_length)
  then show ?thesis using assms(1,2) by (auto simp: read_list_def present_def)
qed

lemma read_revision_print:
  "Find j ''revision'' = Some (JUInt (ucast n)) \<Longrightarrow> read_revision j = Inr n"
proof -
  assume "Find j ''revision'' = Some (JUInt (ucast n))"
  moreover have "(ucast n :: u64) \<le> 4294967295"
    using unsigned_less [of n, where ?'a = nat]
    by (simp add: word_le_nat_alt unsigned_ucast_eq take_bit_nat_eq_self)
  moreover have "(ucast (ucast n :: u64) :: u32) = n"
    by (rule bit_word_eqI) (auto simp: bit_simps)
  ultimately show ?thesis by (auto simp: read_revision_def present_def AsUInt_def not_less)
qed

lemma read_lifecycle_print:
  assumes "Find j ''lifecycle'' = Some (lifecycle_json l)" and "lifecycle_ok l"
  shows "read_lifecycle j = Inr l"
proof -
  let ?l = "lifecycle_json l"
  have st: "Find ?l ''state'' = Some (JStr (LifecycleStateName (lc_state l)))"
    and note_field: "Find ?l ''note'' = (if lc_note l = [] then None else Some (JStr (lc_note l)))"
    and sup: "Find ?l ''superseded_by'' = (case superseded_by l of None \<Rightarrow> None | Some r \<Rightarrow> Some (reference_json r))"
    by (simp_all add: lifecycle_json_def json_simps cong: option.case_cong)
  have "IsObject ?l" by (rule json_object_IsObject) (simp add: lifecycle_json_def json_simps)
  then have "\<not> IsNull ?l" by (auto simp: IsObject_def IsNull_def split: JsonValue.splits)
  moreover have "read_superseded ?l = Inr (superseded_by l)"
  proof (cases "superseded_by l")
    case (Some r)
    have "IsObject (reference_json r)" "\<not> IsNull (reference_json r)"
      "Find (reference_json r) ''id'' = Some (id_json (ref_id r))"
      "Find (reference_json r) ''revision'' = Some (JUInt (ucast (ref_revision r)))"
      by (simp_all add: reference_json_def json_simps)
    then show ?thesis
      using Some sup assms(2)
      by (simp add: read_superseded_def present_def lifecycle_ok_def required_id_print read_revision_print)
  qed (simp add: read_superseded_def present_def sup)
  ultimately show ?thesis
    using assms(1) note_field by (simp add: read_lifecycle_def present_def st OptionalString_def)
qed

lemma read_provenance_print:
  assumes "IsObject j" and "Find j ''provenance'' = Some (provenance_json p)" and "provenance_ok p"
  shows "read_provenance j = Inr p"
proof -
  let ?p = "provenance_json p"
  have obj: "IsObject ?p" by (rule json_object_IsObject) (simp add: provenance_json_def json_simps Let_def)
  have f: "Find ?p ''publisher'' = Some (id_json (publisher p))"
    "Find ?p ''source'' = (if prov_source p = [] then None else Some (JStr (prov_source p)))"
    "Find ?p ''reference'' = (if prov_reference p = [] then None else Some (JStr (prov_reference p)))"
    "Find ?p ''change_note'' = (if change_note p = [] then None else Some (JStr (change_note p)))"
    "Find ?p ''recorded_at'' = Some (JStr (ToIso8601 (recorded_at p)))"
    by (simp_all add: provenance_json_def json_simps Let_def)
  have "TypedId_Parse Opaque (id_value (publisher p)) = Inr (publisher p)"
    using assms(3) by (simp add: provenance_ok_def Opaque_Parse)
  then have "required_id Opaque ?p ''publisher'' = Inr (publisher p)"
    using obj f(1) by (simp add: required_id_def RequireString_Find id_json_def)
  moreover have "ToIso8601 (recorded_at p) \<noteq> []" by (simp add: ToIso8601_def Let_def case_prod_beta)
  moreover have "FromIso8601 (ToIso8601 (recorded_at p)) = Inr (recorded_at p)"
    using assms(3) by (simp add: provenance_ok_def FromIso8601_print)
  ultimately show ?thesis
    using assms(1,2) f by (simp add: read_provenance_def RequireField_def OptionalString_def)
qed

section \<open>Rules\<close>

text \<open>What the fields of a printed rule read as.\<close>

lemma RuleToJson_object: "json_object (RuleToJson r)"
  by (simp add: RuleToJson_def Let_def json_simps)

lemma enum_field:
  "Find j k = Some (JStr s) \<Longrightarrow> res_bind (OptionalString j k d) p = p s"
  "IsObject j \<Longrightarrow> Find j k = Some (JStr s) \<Longrightarrow> res_bind (RequireString j k) p = p s"
  by (simp_all add: OptionalString_Find RequireString_Find)

lemma RuleToJson_scalars:
  assumes "rule_ok r" and j: "j = RuleToJson r"
  shows "required_id QualifiedName j ''id'' = Inr (rule_id r)" "read_revision j = Inr (revision r)"
    "read_priority j = Inr (priority r)"
    "res_bind (OptionalString j ''origin'' ''standard'') ParseRuleOrigin = Inr (origin r)"
    "res_bind (OptionalString j ''symmetry'' ''symmetric'') ParseRuleSymmetry = Inr (symmetry r)"
    "res_bind (OptionalString j ''arity'' ''pair'') ParseRuleArity = Inr (arity r)"
    "res_bind (RequireString j ''outcome'') ParseRuleOutcome = Inr (outcome r)"
    "res_bind (OptionalString j ''negotiation'' ''highest_common'') ParseNegotiationPolicy = Inr (negotiation r)"
    "res_bind (OptionalString j ''on_unmet_requirement'' ''incompatible'') ParseOnUnmetRequirement = Inr (on_unmet r)"
    "res_bind (OptionalString j ''on_indeterminate'' ''unknown'') ParseOnIndeterminate = Inr (on_indeterminate r)"
    "OptionalString j ''rationale'' [] = Inr (rationale r)"
proof -
  note obj = json_object_IsObject [OF RuleToJson_object, of r, folded j]
  note J = j RuleToJson_def Let_def json_simps
  show "required_id QualifiedName j ''id'' = Inr (rule_id r)"
    using assms(1) by (intro required_id_print [OF obj]) (simp_all add: J rule_ok_def)
  show "read_revision j = Inr (revision r)" by (rule read_revision_print) (simp add: J)
  show "read_priority j = Inr (priority r)"
    using assms(1) by (simp add: read_priority_def present_def AsInt_def J rule_ok_def)
  have "Find j ''outcome'' = Some (JStr (RuleOutcomeName (outcome r)))" by (simp add: J)
  then show "res_bind (RequireString j ''outcome'') ParseRuleOutcome = Inr (outcome r)"
    by (simp add: enum_field(2) [OF obj])
qed (simp_all add: OptionalString_def j RuleToJson_def Let_def json_simps)

lemma RuleToJson_parts:
  assumes "rule_ok r" and j: "j = RuleToJson r"
  shows "res_bind (RequireField j ''left'') ParseComponentSelector = Inr (left_selector r)"
    "read_right (arity r) j = Inr (right_selector r)"
    "read_list j ''constraints'' kMaxConstraintsPerRule ParseConstraint = Inr (constraints r)"
    "read_list j ''implications'' kMaxImplicationsPerRule read_implication = Inr (implications r)"
    "read_lifecycle j = Inr (lifecycle r)" "read_provenance j = Inr (provenance r)"
proof -
  note obj = json_object_IsObject [OF RuleToJson_object, of r, folded j]
  note J = j RuleToJson_def Let_def json_simps
  note ok = assms(1) [unfolded rule_ok_def]
  have sel: "\<not> IsNull (ComponentSelectorToJson s)" for s
  proof -
    have "json_object (ComponentSelectorToJson s)" by (simp add: ComponentSelectorToJson_def json_simps)
    then show ?thesis by (auto simp: json_object_iff)
  qed
  have "Find j ''left'' = Some (ComponentSelectorToJson (left_selector r))" by (simp add: J)
  then show "res_bind (RequireField j ''left'') ParseComponentSelector = Inr (left_selector r)"
    using ok obj by (simp add: RequireField_def ParseComponentSelector_print)
  have "Find j ''right'' = (if arity r = PairRule then Some (ComponentSelectorToJson (right_selector r)) else None)"
    by (simp add: J)
  then show "read_right (arity r) j = Inr (right_selector r)"
    using ok sel by (simp add: read_right_def present_def ParseComponentSelector_print split: if_splits)
  show "read_list j ''constraints'' kMaxConstraintsPerRule ParseConstraint = Inr (constraints r)"
    using ok by (intro read_list_print [where omit = False and f = ConstraintToJson])
      (auto simp: J list_all_iff ParseConstraint_print)
  show "read_list j ''implications'' kMaxImplicationsPerRule read_implication = Inr (implications r)"
    using ok by (intro read_list_print [where omit = True and f = implication_json])
      (auto simp: J list_all_iff read_implication_print)
  show "read_lifecycle j = Inr (lifecycle r)"
    using ok by (intro read_lifecycle_print) (simp_all add: J)
  show "read_provenance j = Inr (provenance r)"
    using ok by (intro read_provenance_print [OF obj]) (simp_all add: J)
qed

lemma Rule_eta:
  "\<lparr>rule_id = rule_id r, revision = revision r, priority = priority r, origin = origin r,
    symmetry = symmetry r, arity = arity r, outcome = outcome r, left_selector = left_selector r,
    right_selector = right_selector r, constraints = constraints r, implications = implications r,
    negotiation = negotiation r, on_unmet = on_unmet r, on_indeterminate = on_indeterminate r,
    lifecycle = lifecycle r, provenance = provenance r, rationale = rationale r\<rparr> = (r :: Rule)"
  by simp

lemma ParseRule_print:
  assumes "rule_ok r"
  shows "ParseRule (RuleToJson r) = Inr (NormalizeRule r)"
proof -
  have "length (rationale r) \<le> kMaxRationaleBytes" using assms by (simp add: rule_ok_def)
  then show ?thesis
    using json_object_IsObject [OF RuleToJson_object, of r]
    by (simp add: ParseRule_def RuleToJson_scalars [OF assms refl] RuleToJson_parts [OF assms refl] Rule_eta)
qed

text \<open>Reading back the JSON form of a well-formed rule gives the rule in canonical form.\<close>

theorem ParseRule_RuleToJson:
  assumes "rule_ok r"
  shows "ParseRule (RuleToJson r) = Inr (NormalizeRule r)"
  using assms by (rule ParseRule_print)

lemma ParseRule_RuleToJson_witness:
  "ParseRule (RuleToJson (sample_rule ''r'' Compatible
     [RequiresCapabilityValue Left (TypedId ''rdma'') Ge (LitVersion (SemVersion_of 1 2 3)),
      RequiresProtocol AllMembers (TypedId ''link'') [at_least (SemVersion_of 1 0 0)]])) =
   Inr (NormalizeRule (sample_rule ''r'' Compatible
     [RequiresCapabilityValue Left (TypedId ''rdma'') Ge (LitVersion (SemVersion_of 1 2 3)),
      RequiresProtocol AllMembers (TypedId ''link'') [at_least (SemVersion_of 1 0 0)]]))"
proof (rule ParseRule_RuleToJson)
  have "id_ok (TypedId ''r'' :: RuleId)" "id_ok (TypedId ''rdma'' :: CapabilityId)"
    "id_ok (TypedId ''link'' :: ProtocolId)" "version_text_ok (SemVersion_of 1 2 3)"
    "range_text_ok [at_least (SemVersion_of 1 0 0)]"
    "selector_wf (ComponentSelector_any\<lparr>sel_kind := Some (TypedId ''gpu'')\<rparr>)"
    "selector_wf (ComponentSelector_any\<lparr>sel_kind := Some (TypedId ''nic'')\<rparr>)"
    "provenance_ok sample_provenance"
    by code_simp+
  then show "rule_ok (sample_rule ''r'' Compatible
     [RequiresCapabilityValue Left (TypedId ''rdma'') Ge (LitVersion (SemVersion_of 1 2 3)),
      RequiresProtocol AllMembers (TypedId ''link'') [at_least (SemVersion_of 1 0 0)]])"
    by (simp add: rule_ok_def sample_rule_def lifecycle_ok_def kMaxConstraintsPerRule_def
        kMaxImplicationsPerRule_def kMaxRationaleBytes_def)
qed

end
