(* ===== verification/Document.thy ===== *)
theory Document
  imports RuleText
begin

text \<open>
  Registry documents (\<open>include/fcr/document.hpp\<close>, \<open>src/document.cpp\<close>): metadata, taxonomy
  and rules, the canonical form and its digest, the JSON form and the builder.
\<close>

section \<open>Data\<close>

record RegistryMetadata =
  md_generation :: GenerationNumber
  parent_digest :: "ContentDigest option"
  created_at :: Timestamp
  md_publisher :: PublisherId
  md_epoch :: PublisherEpoch
  md_name :: string
  md_description :: string
  md_labels :: "(string, string) omap"

record RegistryDocument =
  md :: RegistryMetadata
  doc_taxonomy :: Taxonomy
  rules :: "Rule list"

definition kRegistryDocumentFormat :: string where
  "kRegistryDocumentFormat = ''fcr.registry.document''"

definition kRegistryDocumentFormatVersion :: u64 where "kRegistryDocumentFormatVersion = 1"
definition kMaxRulesPerGeneration :: nat where "kMaxRulesPerGeneration = 65536"

section \<open>Canonical form\<close>

definition rule_lt :: "Rule \<Rightarrow> Rule \<Rightarrow> bool" where
  "rule_lt a b = (if rule_id a \<noteq> rule_id b then rule_id a < rule_id b else revision a < revision b)"

definition Normalize :: "RegistryDocument \<Rightarrow> RegistryDocument" where
  "Normalize d = d\<lparr>rules := sort_by rule_lt (map NormalizeRule (rules d))\<rparr>"

definition TotalConstraints :: "RegistryDocument \<Rightarrow> nat" where
  "TotalConstraints d = sum_list (map (\<lambda>r. length (constraints r)) (rules d))"

definition labels_json :: "(string, string) omap \<Rightarrow> JsonValue" where
  "labels_json m = foldl (\<lambda>j (k, v). Set j k (JStr v)) (JObj []) m"

definition RegistryDocumentBodyToJson :: "RegistryDocument \<Rightarrow> JsonValue" where
  "RegistryDocumentBodyToJson d =
     (let j = Set (JObj []) ''format'' (JStr kRegistryDocumentFormat);
          j = Set j ''format_version'' (JUInt kRegistryDocumentFormatVersion);
          j = Set j ''generation'' (JUInt (md_generation (md d)));
          j = set_option ''parent_digest'' (\<lambda>x. JStr (ToHex x)) (parent_digest (md d)) j;
          j = Set j ''created_at'' (JStr (ToIso8601 (created_at (md d))));
          j = Set j ''publisher'' (id_json (md_publisher (md d)));
          j = Set j ''publisher_epoch'' (JUInt (md_epoch (md d)));
          j = Set j ''name'' (JStr (md_name (md d)));
          j = set_when (md_description (md d) \<noteq> []) ''description'' (JStr (md_description (md d))) j;
          j = set_when (md_labels (md d) \<noteq> []) ''labels'' (labels_json (md_labels (md d))) j;
          j = Set j ''taxonomy'' (TaxonomyToJson (doc_taxonomy d))
      in Set j ''rules'' (JArr (map RuleToJson (rules d))))"

definition RegistryDocumentToJson :: "RegistryDocument \<Rightarrow> JsonValue" where
  "RegistryDocumentToJson d = RegistryDocumentBodyToJson (Normalize d)"

definition CanonicalJson :: "RegistryDocument \<Rightarrow> string" where
  "CanonicalJson d = Dump (RegistryDocumentBodyToJson (Normalize d)) False"

definition document_Digest :: "RegistryDocument \<Rightarrow> ContentDigest" where
  "document_Digest d = Sha256_Hash (CanonicalJson d)"

text \<open>Metadata and taxonomy are compared field by field (values of capabilities do not occur in
  them), the rules by their digests.\<close>

definition document_eq :: "RegistryDocument \<Rightarrow> RegistryDocument \<Rightarrow> bool" where
  "document_eq a b =
     (md a = md b \<and> doc_taxonomy a = doc_taxonomy b \<and> length (rules a) = length (rules b) \<and>
      list_all2 (\<lambda>r s. RuleContentDigest r = RuleContentDigest s) (rules a) (rules b))"

section \<open>Reading\<close>

record DocumentLimits =
  max_rules :: nat
  max_document_bytes :: nat
  lim_taxonomy :: TaxonomyLimits

definition DocumentLimits_default :: DocumentLimits where
  "DocumentLimits_default = \<lparr>max_rules = kMaxRulesPerGeneration, max_document_bytes = 8388608,
     lim_taxonomy = TaxonomyLimits_default\<rparr>"

definition read_parent :: "JsonValue \<Rightarrow> ContentDigest option result" where
  "read_parent j =
     (case present j ''parent_digest'' of
        None \<Rightarrow> Inr None
      | Some v \<Rightarrow>
          (case AsString v of
             None \<Rightarrow> Fail InvalidDocument
           | Some t \<Rightarrow> res_bind (FromHex t) (\<lambda>d. Inr (Some d))))"

fun read_label_members :: "(string \<times> JsonValue) list \<Rightarrow> (string, string) omap \<Rightarrow> (string, string) omap result" where
  "read_label_members [] acc = Inr acc"
| "read_label_members ((key, v) # ms) acc =
     (if key = [] \<or> length key > 64 then Fail InvalidDocument
      else (case AsString v of
          None \<Rightarrow> Fail InvalidDocument
        | Some t \<Rightarrow> read_label_members ms (omap_put key t acc)))"

definition read_labels :: "JsonValue \<Rightarrow> (string, string) omap result" where
  "read_labels j = read_object j ''labels'' 64 (\<lambda>ms. read_label_members ms [])"

definition read_rules :: "JsonValue \<Rightarrow> nat \<Rightarrow> Rule list result" where
  "read_rules j cap =
     res_bind (RequireArray j ''rules'') (\<lambda>es.
       if length es > cap then Fail LimitExceeded else res_mapM ParseRule es)"

definition ParseRegistryDocument :: "JsonValue \<Rightarrow> DocumentLimits \<Rightarrow> RegistryDocument result" where
  "ParseRegistryDocument j lim =
     (if \<not> IsObject j then Fail InvalidDocument
      else
        res_bind (RequireString j ''format'') (\<lambda>format.
        if format \<noteq> kRegistryDocumentFormat then Fail InvalidDocument else
        res_bind (RequireUInt j ''format_version'') (\<lambda>ver.
        if ver \<noteq> kRegistryDocumentFormatVersion then Fail UnsupportedFormatVersion else
        res_bind (RequireUInt j ''generation'') (\<lambda>gen.
        res_bind (read_parent j) (\<lambda>parent.
        res_bind (res_bind (RequireString j ''created_at'') FromIso8601) (\<lambda>created.
        res_bind (required_id Opaque j ''publisher'') (\<lambda>pub.
        res_bind (RequireUInt j ''publisher_epoch'') (\<lambda>ep.
        res_bind (RequireString j ''name'') (\<lambda>name.
        if length name > 256 then Fail LimitExceeded else
        res_bind (OptionalString j ''description'' []) (\<lambda>descr.
        res_bind (read_labels j) (\<lambda>labels.
        res_bind (res_bind (RequireField j ''taxonomy'') (\<lambda>t. ParseTaxonomy t (lim_taxonomy lim))) (\<lambda>tax.
        res_bind (read_rules j (max_rules lim)) (\<lambda>rs.
          Inr (Normalize \<lparr>md = \<lparr>md_generation = gen, parent_digest = parent, created_at = created,
              md_publisher = pub, md_epoch = ep, md_name = name, md_description = descr,
              md_labels = labels\<rparr>, doc_taxonomy = tax, rules = rs\<rparr>))))))))))))))"

section \<open>The builder\<close>

definition Builder_new :: "string \<Rightarrow> PublisherId \<Rightarrow> RegistryDocument" where
  "Builder_new name pub =
     \<lparr>md = \<lparr>md_generation = 1, parent_digest = None, created_at = 0, md_publisher = pub, md_epoch = 1,
        md_name = name, md_description = [], md_labels = []\<rparr>,
      doc_taxonomy = Taxonomy_empty, rules = []\<rparr>"

definition SetGeneration :: "RegistryDocument \<Rightarrow> GenerationNumber \<Rightarrow> RegistryDocument" where
  "SetGeneration d g = d\<lparr>md := (md d)\<lparr>md_generation := g\<rparr>\<rparr>"

definition SetEpoch :: "RegistryDocument \<Rightarrow> PublisherEpoch \<Rightarrow> RegistryDocument" where
  "SetEpoch d e = d\<lparr>md := (md d)\<lparr>md_epoch := e\<rparr>\<rparr>"

definition SetCreatedAt :: "RegistryDocument \<Rightarrow> Timestamp \<Rightarrow> RegistryDocument" where
  "SetCreatedAt d t = d\<lparr>md := (md d)\<lparr>created_at := t\<rparr>\<rparr>"

definition SetDescription :: "RegistryDocument \<Rightarrow> string \<Rightarrow> RegistryDocument" where
  "SetDescription d t = d\<lparr>md := (md d)\<lparr>md_description := t\<rparr>\<rparr>"

definition SetParentDigest :: "RegistryDocument \<Rightarrow> ContentDigest \<Rightarrow> RegistryDocument" where
  "SetParentDigest d p = d\<lparr>md := (md d)\<lparr>parent_digest := Some p\<rparr>\<rparr>"

definition SetLabel :: "RegistryDocument \<Rightarrow> string \<Rightarrow> string \<Rightarrow> RegistryDocument" where
  "SetLabel d k v = d\<lparr>md := (md d)\<lparr>md_labels := omap_put k v (md_labels (md d))\<rparr>\<rparr>"

definition HasRule :: "RegistryDocument \<Rightarrow> RuleId \<Rightarrow> bool" where
  "HasRule d i = list_ex (\<lambda>r. rule_id r = i) (rules d)"

definition AddRule :: "RegistryDocument \<Rightarrow> Rule \<Rightarrow> RegistryDocument result" where
  "AddRule d r =
     (if list_ex (\<lambda>x. rule_id x = rule_id r) (rules d) then Fail DuplicateIdentity
      else Inr (d\<lparr>rules := rules d @ [NormalizeRule r]\<rparr>))"

definition Build :: "RegistryDocument \<Rightarrow> RegistryDocument" where
  "Build d = Normalize d"

section \<open>The order of insertion does not matter\<close>

definition rule_cmp :: "Rule \<Rightarrow> Rule \<Rightarrow> ordering" where
  "rule_cmp a b = then_cmp (cmp_of (rule_id a) (rule_id b)) (cmp_of (revision a) (revision b))"

interpretation rule_order: three_way rule_cmp
  unfolding rule_cmp_def by (intro three_way_then three_way_on [OF three_way_cmp_of])

lemma rule_lt_cmp: "rule_lt = (\<lambda>a b. rule_cmp a b = Less)"
  by (auto simp: rule_lt_def rule_cmp_def then_cmp_Less fun_eq_iff)

lemma Rule_Ref_Normalize [simp]: "Rule_Ref (NormalizeRule r) = Rule_Ref r"
  by (simp add: Rule_Ref_def NormalizeRule_def)

lemma distinct_map_eq:
  "distinct (map f xs) \<Longrightarrow> x \<in> set xs \<Longrightarrow> y \<in> set xs \<Longrightarrow> f x = f y \<Longrightarrow> x = y"
  by (auto simp: distinct_map dest: inj_onD)

lemma sort_rules_perm:
  assumes "mset rs = mset ss" and "distinct (map Rule_Ref rs)"
  shows "sort_by rule_lt rs = sort_by rule_lt ss"
  unfolding rule_lt_cmp
proof (rule rule_order.ascending.sort_by_perm [OF assms(1)])
  fix a b assume "a \<in> set rs" "b \<in> set rs" "rule_cmp a b \<noteq> Less" "rule_cmp b a \<noteq> Less"
  moreover from this have "rule_cmp a b = Equal" using rule_order.flip_cases [of a b] by auto
  then have "Rule_Ref a = Rule_Ref b" by (simp add: rule_cmp_def Rule_Ref_def)
  ultimately show "a = b" using distinct_map_eq [OF assms(2)] by blast
qed

lemma sorted_Normalize: "sorted_wrt (\<lambda>a b. \<not> rule_lt b a) (rules (Normalize d))"
  unfolding Normalize_def rule_lt_cmp using rule_order.ascending.sort_by_sorted by simp

lemma map_Normalize_sorted: "map NormalizeRule (sort_by rule_lt (map NormalizeRule rs)) = sort_by rule_lt (map NormalizeRule rs)"
proof (rule map_idI)
  fix r assume "r \<in> set (sort_by rule_lt (map NormalizeRule rs))"
  then show "NormalizeRule r = r" by auto
qed

lemma Normalize_idem [simp]: "Normalize (Normalize d) = Normalize d"
proof -
  have "sort_by rule_lt (sort_by rule_lt xs) = sort_by rule_lt xs" for xs
    unfolding rule_lt_cmp by (rule rule_order.ascending.sort_by_idem)
  then show ?thesis by (simp add: Normalize_def map_Normalize_sorted)
qed

text \<open>Two descriptions of a generation that differ in the order of their rules, and of the
  constraints and implications within them, have the same canonical text and the same digest.\<close>

theorem document_Digest_order:
  assumes "mset (map NormalizeRule rs) = mset (map NormalizeRule (rules d))"
    and "distinct (map Rule_Ref (rules d))"
  shows "CanonicalJson (d\<lparr>rules := rs\<rparr>) = CanonicalJson d \<and> document_Digest (d\<lparr>rules := rs\<rparr>) = document_Digest d"
proof -
  have "distinct (map Rule_Ref (map NormalizeRule (rules d)))" using assms(2) by (simp add: comp_def)
  then have "Normalize (d\<lparr>rules := rs\<rparr>) = Normalize d"
    using sort_rules_perm [OF assms(1) [symmetric]] by (simp add: Normalize_def)
  then show ?thesis by (simp add: CanonicalJson_def document_Digest_def)
qed

section \<open>Documents survive their JSON form\<close>

definition metadata_ok :: "RegistryMetadata \<Rightarrow> bool" where
  "metadata_ok m =
     ((case parent_digest m of None \<Rightarrow> True | Some d \<Rightarrow> digest_ok d) \<and> iso_range (created_at m) \<and>
      has_value (ValidateIdText Opaque (id_value (md_publisher m))) \<and> length (md_name m) \<le> 256 \<and>
      omap_ok (md_labels m) \<and> length (md_labels m) \<le> 64 \<and>
      list_all (\<lambda>e. fst e \<noteq> [] \<and> length (fst e) \<le> 64) (md_labels m))"

definition document_ok :: "DocumentLimits \<Rightarrow> RegistryDocument \<Rightarrow> bool" where
  "document_ok lim d =
     (metadata_ok (md d) \<and> taxonomy_ok (lim_taxonomy lim) (doc_taxonomy d) \<and>
      length (rules d) \<le> max_rules lim \<and> list_all rule_ok (rules d))"

lemma rule_ok_Normalize: "rule_ok r \<Longrightarrow> rule_ok (NormalizeRule r)"
  by (auto simp: rule_ok_def NormalizeRule_def list_all_iff)

text \<open>A label map is written like the other keyed objects.\<close>

lemma labels_json_members: "labels_json m = members_json JStr (map (\<lambda>(k, v). (TypedId k, v)) m)"
  by (simp add: labels_json_def members_json_def foldl_map split_def)

lemma omap_ok_TypedId: "omap_ok m \<Longrightarrow> omap_ok (map (\<lambda>(k, v). (TypedId k, v)) m)"
  by (simp add: omap_ok_def sorted_wrt_map id_less case_prod_beta)

lemma read_label_members_print:
  "omap_ok (acc @ m) \<Longrightarrow> list_all (\<lambda>e. fst e \<noteq> [] \<and> length (fst e) \<le> 64) m \<Longrightarrow>
     read_label_members (map (\<lambda>(k, v). (k, JStr v)) m) acc = Inr (acc @ m)"
proof (induction m arbitrary: acc)
  case (Cons e m)
  obtain k v where e: "e = (k, v)" by fastforce
  have "omap_put k v acc = acc @ [e]"
    using Cons.prems e by (intro omap_put_snoc [of acc k v, folded e]) (auto simp: omap_ok_def sorted_wrt_append)
  then show ?case using Cons.IH [of "acc @ [e]"] Cons.prems e by simp
qed simp

lemma read_labels_print:
  assumes "Find j ''labels'' = (if m = [] then None else Some (labels_json m))"
    and m: "omap_ok m" "length m \<le> 64" "list_all (\<lambda>e. fst e \<noteq> [] \<and> length (fst e) \<le> 64) m"
  shows "read_labels j = Inr m"
proof (cases "m = []")
  case False
  let ?m = "map (\<lambda>(k, v). (TypedId k, v)) m"
  have "read_labels j = read_label_members (map (\<lambda>(i, v). (id_value i, JStr v)) ?m) []"
    unfolding read_labels_def using assms False
    by (intro read_object_print) (simp_all add: labels_json_members omap_ok_TypedId)
  also have "map (\<lambda>(i, v). (id_value i, JStr v)) ?m = map (\<lambda>(k, v). (k, JStr v)) m" by auto
  finally show ?thesis using read_label_members_print [of "[]" m] m by simp
qed (use assms(1) in \<open>simp add: read_labels_def read_object_def present_def\<close>)

lemma RequireUInt_Find: "IsObject j \<Longrightarrow> Find j k = Some (JUInt n) \<Longrightarrow> RequireUInt j k = Inr n"
  by (simp add: RequireUInt_def RequireField_def AsUInt_def)

lemma BodyToJson_object: "json_object (RegistryDocumentBodyToJson d)"
  by (simp add: RegistryDocumentBodyToJson_def Let_def json_simps)

lemma BodyToJson_reads:
  assumes ok: "metadata_ok (md d)" and j: "j = RegistryDocumentBodyToJson d"
  shows "RequireString j ''format'' = Inr kRegistryDocumentFormat"
    "RequireUInt j ''format_version'' = Inr kRegistryDocumentFormatVersion"
    "RequireUInt j ''generation'' = Inr (md_generation (md d))" "read_parent j = Inr (parent_digest (md d))"
    "res_bind (RequireString j ''created_at'') FromIso8601 = Inr (created_at (md d))"
    "required_id Opaque j ''publisher'' = Inr (md_publisher (md d))"
    "RequireUInt j ''publisher_epoch'' = Inr (md_epoch (md d))" "RequireString j ''name'' = Inr (md_name (md d))"
    "OptionalString j ''description'' [] = Inr (md_description (md d))" "read_labels j = Inr (md_labels (md d))"
proof -
  note obj = json_object_IsObject [OF BodyToJson_object, of d, folded j]
  note J = j RegistryDocumentBodyToJson_def Let_def json_simps
  note ok = ok [unfolded metadata_ok_def]
  show "RequireString j ''format'' = Inr kRegistryDocumentFormat" "RequireString j ''name'' = Inr (md_name (md d))"
    by (rule RequireString_Find [OF obj]; simp add: J)+
  show "RequireUInt j ''format_version'' = Inr kRegistryDocumentFormatVersion"
    "RequireUInt j ''generation'' = Inr (md_generation (md d))" "RequireUInt j ''publisher_epoch'' = Inr (md_epoch (md d))"
    by (rule RequireUInt_Find [OF obj]; simp add: J)+
  have "Find j ''created_at'' = Some (JStr (ToIso8601 (created_at (md d))))" by (simp add: J)
  then show "res_bind (RequireString j ''created_at'') FromIso8601 = Inr (created_at (md d))"
    using ok by (simp add: RequireString_Find [OF obj] FromIso8601_print)
  have "Find j ''publisher'' = Some (JStr (id_value (md_publisher (md d))))" by (simp add: J id_json_def)
  then show "required_id Opaque j ''publisher'' = Inr (md_publisher (md d))"
    using ok by (simp add: required_id_def RequireString_Find [OF obj] Opaque_Parse)
  show "read_parent j = Inr (parent_digest (md d))"
    using ok by (cases "parent_digest (md d)") (simp_all add: read_parent_def present_def J FromHex_ToHex)
  show "read_labels j = Inr (md_labels (md d))" using ok by (intro read_labels_print) (simp_all add: J)
  show "OptionalString j ''description'' [] = Inr (md_description (md d))" by (simp add: OptionalString_def J)
qed

lemma ParseRegistryDocument_Body:
  assumes "document_ok lim d"
  shows "ParseRegistryDocument (RegistryDocumentBodyToJson d) lim = Inr (Normalize d)"
proof -
  let ?j = "RegistryDocumentBodyToJson d"
  note ok = assms [unfolded document_ok_def]
  note obj = json_object_IsObject [OF BodyToJson_object, of d]
  have t: "Find ?j ''taxonomy'' = Some (TaxonomyToJson (doc_taxonomy d))"
    and r: "Find ?j ''rules'' = Some (JArr (map RuleToJson (rules d)))"
    by (simp_all add: RegistryDocumentBodyToJson_def Let_def json_simps)
  have tax: "res_bind (RequireField ?j ''taxonomy'') (\<lambda>t. ParseTaxonomy t (lim_taxonomy lim)) = Inr (doc_taxonomy d)"
    using t ok obj by (simp add: RequireField_def ParseTaxonomy_print)
  have "res_mapM ParseRule (map RuleToJson (rules d)) = Inr (map NormalizeRule (rules d))"
    using ok by (auto simp: res_mapM_Inr list_all2_conv_all_nth list_all_length ParseRule_print)
  then have rl: "read_rules ?j (max_rules lim) = Inr (map NormalizeRule (rules d))"
    using r ok obj by (simp add: read_rules_def RequireArray_def RequireField_def)
  have "length (md_name (md d)) \<le> 256" using ok by (simp add: metadata_ok_def)
  then show ?thesis
    using obj ok
    by (simp add: ParseRegistryDocument_def BodyToJson_reads [OF _ refl] tax rl Normalize_def comp_def)
qed

text \<open>Writing a well-formed document and reading it back gives its canonical form, and doing so
  again changes nothing.\<close>

theorem ParseRegistryDocument_ToJson:
  assumes "document_ok lim d"
  shows "ParseRegistryDocument (RegistryDocumentToJson d) lim = Inr (Normalize d) \<and>
    ParseRegistryDocument (RegistryDocumentToJson (Normalize d)) lim = Inr (Normalize d)"
proof -
  have "document_ok lim (Normalize d)"
    using assms by (auto simp: document_ok_def Normalize_def list_all_iff rule_ok_Normalize)
  then show ?thesis using ParseRegistryDocument_Body [of lim "Normalize d"] by (simp add: RegistryDocumentToJson_def)
qed

text \<open>A builder never holds two rules of the same identity: a rule is added exactly when its
  identity is new, and the built document has the rules that were added.\<close>

theorem Builder_distinct:
  "distinct (map rule_id (rules (Builder_new name pub))) \<and>
   (distinct (map rule_id (rules d)) \<longrightarrow>
      (case AddRule d r of
         Inl e \<Rightarrow> e = Failed DuplicateIdentity \<and> HasRule d (rule_id r)
       | Inr d' \<Rightarrow> \<not> HasRule d (rule_id r) \<and> HasRule d' (rule_id r) \<and> distinct (map rule_id (rules d')) \<and>
           (\<forall>i. HasRule (Build d') i \<longleftrightarrow> i = rule_id r \<or> HasRule d i)))"
  by (auto simp: Builder_new_def AddRule_def HasRule_def Build_def Normalize_def list_ex_iff NormalizeRule_def)

section \<open>An example\<close>

definition sample_document :: "Rule list \<Rightarrow> RegistryDocument" where
  "sample_document rs = (Builder_new ''fabric'' (TypedId ''acme''))\<lparr>doc_taxonomy := sample_taxonomy, rules := rs\<rparr>"

lemma document_Digest_order_witness:
  "let a = sample_rule ''a'' Compatible []; b = sample_rule ''b'' Incompatible [];
      d = sample_document [a, b]
   in CanonicalJson (d\<lparr>rules := [b, a]\<rparr>) = CanonicalJson d \<and> document_Digest (d\<lparr>rules := [b, a]\<rparr>) = document_Digest d"
  unfolding Let_def
  by (rule document_Digest_order) (simp_all add: sample_document_def sample_rule_def Rule_Ref_def)

lemma sample_rule_ok: "id_ok (TypedId n :: RuleId) \<Longrightarrow> rule_ok (sample_rule n outc [])"
proof -
  assume "id_ok (TypedId n :: RuleId)"
  moreover have "selector_wf (ComponentSelector_any\<lparr>sel_kind := Some (TypedId ''gpu'')\<rparr>)"
    "selector_wf (ComponentSelector_any\<lparr>sel_kind := Some (TypedId ''nic'')\<rparr>)"
    "provenance_ok sample_provenance"
    by code_simp+
  ultimately show ?thesis by (simp add: rule_ok_def sample_rule_def lifecycle_ok_def)
qed

lemma ParseRegistryDocument_ToJson_witness:
  "let d = sample_document [sample_rule ''b'' Compatible [], sample_rule ''a'' Unknown []]
   in ParseRegistryDocument (RegistryDocumentToJson d) DocumentLimits_default = Inr (Normalize d) \<and>
      ParseRegistryDocument (RegistryDocumentToJson (Normalize d)) DocumentLimits_default = Inr (Normalize d)"
  unfolding Let_def
proof (rule ParseRegistryDocument_ToJson)
  have "metadata_ok (md (sample_document []))" "taxonomy_ok TaxonomyLimits_default sample_taxonomy"
    "id_ok (TypedId ''a'' :: RuleId)" "id_ok (TypedId ''b'' :: RuleId)"
    by code_simp+
  then show "document_ok DocumentLimits_default
      (sample_document [sample_rule ''b'' Compatible [], sample_rule ''a'' Unknown []])"
    by (simp add: document_ok_def sample_document_def sample_rule_ok DocumentLimits_default_def
        kMaxRulesPerGeneration_def)
qed

lemma Builder_distinct_witness:
  "\<exists>d'. AddRule (Builder_new ''fabric'' (TypedId ''acme'')) (sample_rule ''a'' Compatible []) = Inr d' \<and>
     distinct (map rule_id (rules d')) \<and> HasRule d' (TypedId ''a'')"
  using Builder_distinct [of "''fabric''" "TypedId ''acme''" "Builder_new ''fabric'' (TypedId ''acme'')"
      "sample_rule ''a'' Compatible []"]
  by (auto simp: AddRule_def Builder_new_def sample_rule_def)

end
