(* ===== verification/Decision.thy ===== *)
theory Decision
  imports Document
begin

text \<open>
  How one rule judges a query (\<open>include/fcr/registry.hpp\<close>, first half of
  \<open>src/registry.cpp\<close>): the vocabulary of decisions, the three-valued evaluation of a constraint
  against an observed component, the policies of a rule, and the negotiation of common versions.
\<close>

section \<open>Vocabulary\<close>

datatype DecisionOutcome = DCompatible | DIncompatible | DUnknown

fun DecisionOutcomeName :: "DecisionOutcome \<Rightarrow> string" where
  "DecisionOutcomeName DCompatible = ''compatible''"
| "DecisionOutcomeName DIncompatible = ''incompatible''"
| "DecisionOutcomeName DUnknown = ''unknown''"

definition ParseDecisionOutcome :: "string \<Rightarrow> DecisionOutcome result" where
  "ParseDecisionOutcome t =
     (if t = ''compatible'' then Inr DCompatible
      else if t = ''incompatible'' then Inr DIncompatible
      else if t = ''unknown'' then Inr DUnknown
      else Fail InvalidArgument)"

fun FromRuleOutcome :: "RuleOutcome \<Rightarrow> DecisionOutcome" where
  "FromRuleOutcome Compatible = DCompatible"
| "FromRuleOutcome Incompatible = DIncompatible"
| "FromRuleOutcome Unknown = DUnknown"

datatype DecisionReason =
    DecidedByRule | NoMatchingRule | AllMatchedRulesSkipped | UnregisteredComponentKind
  | UnregisteredComponentFamily | KindFamilyMismatch | NoActiveRules

fun DecisionReasonName :: "DecisionReason \<Rightarrow> string" where
  "DecisionReasonName DecidedByRule = ''decided_by_rule''"
| "DecisionReasonName NoMatchingRule = ''no_matching_rule''"
| "DecisionReasonName AllMatchedRulesSkipped = ''all_matched_rules_skipped''"
| "DecisionReasonName UnregisteredComponentKind = ''unregistered_component_kind''"
| "DecisionReasonName UnregisteredComponentFamily = ''unregistered_component_family''"
| "DecisionReasonName KindFamilyMismatch = ''kind_family_mismatch''"
| "DecisionReasonName NoActiveRules = ''no_active_rules''"

datatype ConstraintStatus = Satisfied | Violated | Indeterminate

fun ConstraintStatusName :: "ConstraintStatus \<Rightarrow> string" where
  "ConstraintStatusName Satisfied = ''satisfied''"
| "ConstraintStatusName Violated = ''violated''"
| "ConstraintStatusName Indeterminate = ''indeterminate''"

datatype RuleEvaluationStatus = RuleSatisfied | RuleViolated | RuleIndeterminate | RuleSkipped

fun RuleEvaluationStatusName :: "RuleEvaluationStatus \<Rightarrow> string" where
  "RuleEvaluationStatusName RuleSatisfied = ''satisfied''"
| "RuleEvaluationStatusName RuleViolated = ''violated''"
| "RuleEvaluationStatusName RuleIndeterminate = ''indeterminate''"
| "RuleEvaluationStatusName RuleSkipped = ''skipped''"

datatype NegotiationStatus = Agreed | NoOverlap | Undecided | NotSupported

fun NegotiationStatusName :: "NegotiationStatus \<Rightarrow> string" where
  "NegotiationStatusName Agreed = ''agreed''"
| "NegotiationStatusName NoOverlap = ''no_overlap''"
| "NegotiationStatusName Undecided = ''indeterminate''"
| "NegotiationStatusName NotSupported = ''not_supported''"

section \<open>Evaluating a constraint\<close>

text \<open>A verdict and its detail text.\<close>

type_synonym ConstraintOutcome = "ConstraintStatus \<times> string"

definition quoted :: "string \<Rightarrow> string" where
  "quoted t = [CHR 0x27] @ t @ [CHR 0x27]"

text \<open>An entry that is not declared: missing when the knowledge of its kind is closed, undecided
  when it is open.\<close>

definition undeclared :: "string \<Rightarrow> string \<Rightarrow> ConstraintOutcome" where
  "undeclared what name = (Indeterminate, what @ '' '' @ quoted name @
     '' is not declared and the component'' @ [CHR 0x27] @ ''s '' @
     (if what = ''feature'' then ''capability'' else what) @ '' knowledge is open'')"

definition requires_entry :: "string \<Rightarrow> string \<Rightarrow> bool \<Rightarrow> bool \<Rightarrow> ConstraintOutcome" where
  "requires_entry what name has closed =
     (if has then (Satisfied, [])
      else if closed then (Violated, what @ '' '' @ quoted name @ '' is not present'')
      else undeclared what name)"

definition forbids_entry :: "string \<Rightarrow> string \<Rightarrow> bool \<Rightarrow> bool \<Rightarrow> ConstraintOutcome" where
  "forbids_entry what name has closed =
     (if \<not> has then (if closed then (Satisfied, []) else undeclared what name)
      else (Violated, what @ '' '' @ quoted name @ '' is present and forbidden''))"

definition requires_support ::
  "string \<Rightarrow> string \<Rightarrow> SemVersion list option \<Rightarrow> bool \<Rightarrow> VersionRange \<Rightarrow> ConstraintOutcome" where
  "requires_support what name versions closed rng =
     (case versions of
        None \<Rightarrow>
          if closed then (Violated, what @ '' '' @ quoted name @ '' is not supported'')
          else undeclared what name
      | Some vs \<Rightarrow>
          if list_ex (VersionRange_Contains rng) vs then (Satisfied, [])
          else (Violated, what @ '' '' @ quoted name @ '' is supported only outside the required range '' @
            VersionRange_ToString rng))"

definition forbids_support :: "string \<Rightarrow> string \<Rightarrow> bool \<Rightarrow> bool \<Rightarrow> ConstraintOutcome" where
  "forbids_support what name has closed =
     (if has then (Violated, what @ '' '' @ quoted name @ '' is supported and forbidden'')
      else if closed then (Satisfied, [])
      else undeclared what name)"

definition requires_value ::
  "CapabilityId \<Rightarrow> ComparisonOp \<Rightarrow> ConstraintLiteral \<Rightarrow> ComponentSpec \<Rightarrow> Taxonomy \<Rightarrow> ConstraintOutcome" where
  "requires_value c op lit s tax =
     (case omap_get (spec_capabilities s) c of
        None \<Rightarrow> requires_entry ''capability'' (id_value c) False (CapabilitiesClosed s)
      | Some actual \<Rightarrow>
          (case literal_Resolve lit of
             Inl _ \<Rightarrow> (Violated, ''constraint literal cannot be resolved'')
           | Inr expected \<Rightarrow>
               if (case FindCapability tax c of None \<Rightarrow> False | Some d \<Rightarrow> value_type expected \<noteq> decl_type d)
               then (Violated, ''capability '' @ quoted (id_value c) @ '' has an incompatible value type'')
               else if ApplyComparison op actual expected then (Satisfied, [])
               else (Violated, ''capability '' @ quoted (id_value c) @ '' is '' @
                 CapabilityValue_ToString actual @ '', which does not satisfy '' @ ComparisonOpName op @
                 '' '' @ CapabilityValue_ToString expected)))"

fun EvaluateConstraintAgainstSpec ::
  "Constraint \<Rightarrow> ComponentSpec \<Rightarrow> Taxonomy \<Rightarrow> ConstraintOutcome" where
  "EvaluateConstraintAgainstSpec (RequiresCapability _ c) s tax =
     requires_entry ''capability'' (id_value c) (omap_has (spec_capabilities s) c) (CapabilitiesClosed s)"
| "EvaluateConstraintAgainstSpec (RequiresCapabilityValue _ c op lit) s tax = requires_value c op lit s tax"
| "EvaluateConstraintAgainstSpec (ForbidsCapability _ c) s tax =
     forbids_entry ''capability'' (id_value c) (omap_has (spec_capabilities s) c) (CapabilitiesClosed s)"
| "EvaluateConstraintAgainstSpec (RequiresProtocol _ p r) s tax =
     requires_support ''protocol'' (id_value p) (omap_get (spec_protocols s) p) (ProtocolsClosed s) r"
| "EvaluateConstraintAgainstSpec (ForbidsProtocol _ p) s tax =
     forbids_support ''protocol'' (id_value p) (omap_has (spec_protocols s) p) (ProtocolsClosed s)"
| "EvaluateConstraintAgainstSpec (RequiresSchema _ p r) s tax =
     requires_support ''schema'' (id_value p) (omap_get (spec_schemas s) p) (SchemasClosed s) r"
| "EvaluateConstraintAgainstSpec (ForbidsSchema _ p) s tax =
     forbids_support ''schema'' (id_value p) (omap_has (spec_schemas s) p) (SchemasClosed s)"
| "EvaluateConstraintAgainstSpec (RequiresHardwareClass _ h) s tax =
     (case hardware_class s of
        Some x \<Rightarrow>
          if x = h then (Satisfied, [])
          else (Violated, ''hardware class is '' @ quoted (id_value x) @ '', required '' @ quoted (id_value h))
      | None \<Rightarrow> (Indeterminate, ''component does not report a hardware class''))"
| "EvaluateConstraintAgainstSpec (ForbidsHardwareClass _ h) s tax =
     (case hardware_class s of
        Some x \<Rightarrow>
          if x = h then (Violated, ''hardware class '' @ quoted (id_value h) @ '' is forbidden'')
          else (Satisfied, [])
      | None \<Rightarrow> (Indeterminate, ''component does not report a hardware class''))"
| "EvaluateConstraintAgainstSpec (RequiresFeature _ f) s tax =
     requires_entry ''feature'' (id_value f) (omap_has (spec_features s) f) (CapabilitiesClosed s)"
| "EvaluateConstraintAgainstSpec (ForbidsFeature _ f) s tax =
     forbids_entry ''feature'' (id_value f) (omap_has (spec_features s) f) (CapabilitiesClosed s)"
| "EvaluateConstraintAgainstSpec (VersionAtLeast _ v) s tax =
     (if \<not> version_lt (spec_version s) v then (Satisfied, [])
      else (Violated, ''component version '' @ SemVersion_ToString (spec_version s) @
        '' is below the required '' @ SemVersion_ToString v))"
| "EvaluateConstraintAgainstSpec (VersionAtMost _ v) s tax =
     (if \<not> version_lt v (spec_version s) then (Satisfied, [])
      else (Violated, ''component version '' @ SemVersion_ToString (spec_version s) @
        '' is above the permitted '' @ SemVersion_ToString v))"

section \<open>Applying a rule\<close>

record SideResolver =
  res_left :: "ComponentSpec list"
  res_right :: "ComponentSpec list"
  res_all :: "ComponentSpec list"

fun Resolve :: "SideResolver \<Rightarrow> Side \<Rightarrow> ComponentSpec list" where
  "Resolve r Left = res_left r"
| "Resolve r Right = res_right r"
| "Resolve r AllMembers = res_all r"

record ConstraintEvaluation =
  ce_constraint :: Constraint
  ce_status :: ConstraintStatus
  ce_detail :: string

record UnmetRequirement =
  um_rule :: RuleRef
  um_side :: Side
  um_requirement :: string
  um_status :: ConstraintStatus
  um_detail :: string

record RuleApplication =
  app_status :: RuleEvaluationStatus
  resolved :: "DecisionOutcome option"
  app_constraints :: "ConstraintEvaluation list"
  app_unmet :: "UnmetRequirement list"
  app_rationale :: string

text \<open>The loop over the components of a side: a violation ends it, the first undecided verdict is
  kept.\<close>

fun target_loop ::
  "Constraint \<Rightarrow> Taxonomy \<Rightarrow> ComponentSpec list \<Rightarrow> ConstraintOutcome \<Rightarrow> ConstraintOutcome" where
  "target_loop c tax [] acc = acc"
| "target_loop c tax (t # ts) acc =
     (case EvaluateConstraintAgainstSpec c t tax of
        (Violated, d) \<Rightarrow> (Violated, d)
      | (Indeterminate, d) \<Rightarrow>
          target_loop c tax ts (if fst acc = Satisfied then (Indeterminate, d) else acc)
      | (Satisfied, _) \<Rightarrow> target_loop c tax ts acc)"

definition evaluate_constraint :: "Taxonomy \<Rightarrow> SideResolver \<Rightarrow> Constraint \<Rightarrow> ConstraintEvaluation" where
  "evaluate_constraint tax resolver c =
     (let targets = Resolve resolver (ConstraintSide c);
          start = (if targets = [] then (Indeterminate, ''constraint side selects no component'')
                   else (Satisfied, []));
          out = target_loop c tax targets start
      in \<lparr>ce_constraint = c, ce_status = fst out, ce_detail = snd out\<rparr>)"

definition unmet_of :: "Rule \<Rightarrow> ConstraintEvaluation \<Rightarrow> UnmetRequirement" where
  "unmet_of r e = \<lparr>um_rule = Rule_Ref r, um_side = ConstraintSide (ce_constraint e),
     um_requirement = ConstraintKindName (ce_constraint e), um_status = ce_status e, um_detail = ce_detail e\<rparr>"

definition verdict :: "Rule \<Rightarrow> bool \<Rightarrow> bool \<Rightarrow> RuleEvaluationStatus \<times> DecisionOutcome option \<times> string" where
  "verdict r any_violated any_indeterminate =
     (if any_violated then
        (case on_unmet r of
           UnmetSkip \<Rightarrow> (RuleSkipped, None, ''requirements are unmet; the rule declines to apply'')
         | UnmetUnknown \<Rightarrow> (RuleViolated, Some DUnknown,
             ''requirements are unmet and the rule'' @ [CHR 0x27] @ ''s policy maps that to UNKNOWN'')
         | UnmetIncompatible \<Rightarrow> (RuleViolated, Some DIncompatible,
             ''requirements are unmet and the rule'' @ [CHR 0x27] @ ''s policy maps that to INCOMPATIBLE''))
      else if any_indeterminate then
        (case on_indeterminate r of
           IndeterminateSkip \<Rightarrow> (RuleSkipped, None, ''evidence is incomplete; the rule declines to apply'')
         | IndeterminateIncompatible \<Rightarrow> (RuleIndeterminate, Some DIncompatible,
             ''evidence is incomplete and the rule'' @ [CHR 0x27] @ ''s policy maps that to INCOMPATIBLE'')
         | IndeterminateUnknown \<Rightarrow> (RuleIndeterminate, Some DUnknown,
             ''evidence is incomplete; the rule cannot reach a verdict''))
      else (RuleSatisfied, Some (FromRuleOutcome (outcome r)),
        ''all constraints are satisfied; the declared outcome '' @ RuleOutcomeName (outcome r) @ '' applies''))"

definition ApplyRule :: "Rule \<Rightarrow> Taxonomy \<Rightarrow> SideResolver \<Rightarrow> RuleApplication" where
  "ApplyRule r tax resolver =
     (let evals = map (evaluate_constraint tax resolver) (constraints r);
          (status, res, why) = verdict r (list_ex (\<lambda>e. ce_status e = Violated) evals)
            (list_ex (\<lambda>e. ce_status e = Indeterminate) evals)
      in \<lparr>app_status = status, resolved = res, app_constraints = evals,
          app_unmet = map (unmet_of r) (filter (\<lambda>e. ce_status e \<noteq> Satisfied) evals), app_rationale = why\<rparr>)"

section \<open>Negotiation\<close>

definition IntersectVersionLists :: "SemVersion list \<Rightarrow> SemVersion list \<Rightarrow> SemVersion list" where
  "IntersectVersionLists a b =
     sort_by (\<lambda>x y. TotalOrder x y = Less) (filter (\<lambda>l. list_ex (\<lambda>r. Precedence l r = Equal) b) a)"

definition SelectNegotiated :: "SemVersion list \<Rightarrow> NegotiationPolicy \<Rightarrow> SemVersion option" where
  "SelectNegotiated window policy =
     (case window of
        [] \<Rightarrow> None
      | first # _ \<Rightarrow> Some (foldl (\<lambda>best c.
          if policy = LowestCommon then (if Precedence c best = Less then c else best)
          else (if Precedence c best = Greater then c else best)) first window))"

record NegotiatedSubject =
  subject :: string
  neg_status :: NegotiationStatus
  selected :: "SemVersion option"
  window :: "SemVersion list"
  owner :: string

text \<open>The loop over the participants: the window so far, \<open>None\<close> before the first.\<close>

fun negotiate_window :: "(ComponentSpec \<Rightarrow> SemVersion list option) \<Rightarrow> (ComponentSpec \<Rightarrow> bool) \<Rightarrow>
    ComponentSpec list \<Rightarrow> SemVersion list option \<Rightarrow> (NegotiationStatus \<times> string) + SemVersion list" where
  "negotiate_window get closed [] acc = Inr (case acc of None \<Rightarrow> [] | Some w \<Rightarrow> w)"
| "negotiate_window get closed (s # ss) acc =
     (case get s of
        None \<Rightarrow> Inl (if closed s then NotSupported else Undecided, id_value (kind s))
      | Some versions \<Rightarrow>
          (let w = (case acc of None \<Rightarrow> versions | Some w0 \<Rightarrow> IntersectVersionLists w0 versions)
           in if w = [] then Inl (NoOverlap, []) else negotiate_window get closed ss (Some w)))"

definition NegotiateOne :: "string \<Rightarrow> ComponentSpec list \<Rightarrow> NegotiationPolicy \<Rightarrow>
    (ComponentSpec \<Rightarrow> SemVersion list option) \<Rightarrow> (ComponentSpec \<Rightarrow> bool) \<Rightarrow> NegotiatedSubject" where
  "NegotiateOne name specs policy get closed =
     (case negotiate_window get closed specs None of
        Inl (st, who) \<Rightarrow> \<lparr>subject = name, neg_status = st, selected = None, window = [], owner = who\<rparr>
      | Inr w \<Rightarrow>
          if policy = ExactRequired \<and> length w \<noteq> 1
          then \<lparr>subject = name, neg_status = NoOverlap, selected = None, window = w, owner = []\<rparr>
          else (let sel = SelectNegotiated w policy
            in \<lparr>subject = name, neg_status = (if sel \<noteq> None then Agreed else NoOverlap), selected = sel,
                window = w, owner = []\<rparr>))"

record NegotiationResult =
  neg_policy :: NegotiationPolicy
  neg_protocols :: "NegotiatedSubject list"
  neg_schemas :: "NegotiatedSubject list"

definition kMaxNegotiatedSubjects :: nat where "kMaxNegotiatedSubjects = 64"

text \<open>The identifiers that occur in any of the support sets, ascending.\<close>

definition collect_ids :: "('k::linorder, 'v) omap list \<Rightarrow> 'k list" where
  "collect_ids ms = map fst (foldl (\<lambda>acc m. foldl (\<lambda>acc e. omap_put (fst e) () acc) acc m) [] ms)"

definition Negotiate :: "ComponentSpec list \<Rightarrow> NegotiationPolicy \<Rightarrow> Taxonomy \<Rightarrow> NegotiationResult" where
  "Negotiate specs policy tax =
     (if length specs < 2 then \<lparr>neg_policy = policy, neg_protocols = [], neg_schemas = []\<rparr>
      else
        \<lparr>neg_policy = policy,
         neg_protocols =
           map (\<lambda>i. NegotiateOne (id_value i) specs policy (\<lambda>s. omap_get (spec_protocols s) i) ProtocolsClosed)
             (take kMaxNegotiatedSubjects (filter (HasProtocol tax) (collect_ids (map spec_protocols specs)))),
         neg_schemas =
           map (\<lambda>i. NegotiateOne (id_value i) specs policy (\<lambda>s. omap_get (spec_schemas s) i) SchemasClosed)
             (take kMaxNegotiatedSubjects (filter (HasSchema tax) (collect_ids (map spec_schemas specs))))\<rparr>)"

end
