(* ===== verification/Render.thy ===== *)
theory Render
  imports Decision
begin

text \<open>
  The records of a decision and its evidence (\<open>include/fcr/registry.hpp\<close>) with their JSON form and
  the text of the explanation (first half of \<open>src/decision_io.cpp\<close>).
\<close>

section \<open>Evidence\<close>

type_synonym DecisionId = ContentDigest

record ComponentRef =
  cr_instance :: ComponentInstanceId
  cr_label :: string
  cr_kind :: ComponentKindId
  cr_family :: ComponentFamilyId
  cr_version :: SemVersion
  cr_hardware_class :: "HardwareClassId option"

definition MakeComponentRef :: "ComponentSpec \<Rightarrow> ComponentRef" where
  "MakeComponentRef s = \<lparr>cr_instance = instance_id s, cr_label = label s, cr_kind = kind s,
     cr_family = family s, cr_version = spec_version s, cr_hardware_class = hardware_class s\<rparr>"

record RuleEvaluation =
  ev_rule :: RuleRef
  ev_precedence :: PrecedenceKey
  precedence_rank :: nat
  mirrored :: bool
  ev_status :: RuleEvaluationStatus
  resolved_outcome :: "DecisionOutcome option"
  decided :: bool
  ev_constraints :: "ConstraintEvaluation list"
  ev_rationale :: string

record OverriddenNote =
  note_rule :: RuleRef
  note_outcome :: DecisionOutcome
  note_detail :: string

record Decision =
  dec_id :: DecisionId
  dec_outcome :: DecisionOutcome
  dec_reason :: DecisionReason
  dec_generation :: GenerationId
  dec_arity :: RuleArity
  subjects :: "ComponentRef list"
  matched_rules :: "RuleEvaluation list"
  total_matched_rules :: nat
  evidence_truncated :: bool
  deciding_rule :: "RuleRef option"
  unmet_requirements :: "UnmetRequirement list"
  overridden :: "OverriddenNote list"
  dec_negotiation :: NegotiationResult
  narrative :: string

record SetDecision =
  sd_id :: DecisionId
  sd_outcome :: DecisionOutcome
  sd_generation :: GenerationId
  members :: "ComponentRef list"
  set_level :: Decision
  pairs :: "Decision list"
  sd_narrative :: string

definition negotiation_empty :: "NegotiationResult \<Rightarrow> bool" where
  "negotiation_empty n = (neg_protocols n = [] \<and> neg_schemas n = [])"

section \<open>JSON\<close>

definition generation_json :: "GenerationId \<Rightarrow> JsonValue" where
  "generation_json g =
     Set (Set (Set (JObj []) ''number'' (JUInt (gen_number g))) ''digest'' (JStr (ToHex (gen_digest g))))
       ''id'' (JStr (GenerationId_ToString g))"

definition component_json :: "ComponentRef \<Rightarrow> JsonValue" where
  "component_json c =
     (let j = set_when (id_value (cr_instance c) \<noteq> []) ''instance'' (id_json (cr_instance c)) (JObj []);
          j = set_when (cr_label c \<noteq> []) ''label'' (JStr (cr_label c)) j;
          j = Set j ''family'' (id_json (cr_family c));
          j = Set j ''kind'' (id_json (cr_kind c));
          j = Set j ''version'' (JStr (SemVersion_ToString (cr_version c)))
      in set_option ''hardware_class'' id_json (cr_hardware_class c) j)"

definition constraint_evaluation_json :: "ConstraintEvaluation \<Rightarrow> JsonValue" where
  "constraint_evaluation_json c =
     set_when (ce_detail c \<noteq> []) ''detail'' (JStr (ce_detail c))
       (Set (ConstraintToJson (ce_constraint c)) ''status'' (JStr (ConstraintStatusName (ce_status c))))"

definition tier_json :: "PrecedenceTier \<Rightarrow> JsonValue" where
  "tier_json t =
     Set (Set (Set (JObj []) ''priority'' (JInt (tier_priority t))) ''specificity'' (JInt (specificity t)))
       ''origin_rank'' (JInt (origin_rank t))"

definition evaluation_json :: "RuleEvaluation \<Rightarrow> JsonValue" where
  "evaluation_json e =
     (let j = Set (JObj []) ''rule'' (JStr (RuleRef_ToString (ev_rule e)));
          j = Set j ''precedence_rank'' (JUInt (of_nat (precedence_rank e)));
          j = Set j ''tier'' (tier_json (key_tier (ev_precedence e)));
          j = Set j ''mirrored'' (JBool (mirrored e));
          j = Set j ''status'' (JStr (RuleEvaluationStatusName (ev_status e)));
          j = set_option ''resolved_outcome'' (\<lambda>x. JStr (DecisionOutcomeName x)) (resolved_outcome e) j;
          j = Set j ''decided'' (JBool (decided e));
          j = Set j ''rationale'' (JStr (ev_rationale e))
      in Set j ''constraints'' (JArr (map constraint_evaluation_json (ev_constraints e))))"

definition unmet_json :: "UnmetRequirement \<Rightarrow> JsonValue" where
  "unmet_json u =
     (let j = Set (JObj []) ''rule'' (JStr (RuleRef_ToString (um_rule u)));
          j = Set j ''side'' (JStr (SideName (um_side u)));
          j = Set j ''requirement'' (JStr (um_requirement u));
          j = Set j ''status'' (JStr (ConstraintStatusName (um_status u)))
      in Set j ''detail'' (JStr (um_detail u)))"

definition note_json :: "OverriddenNote \<Rightarrow> JsonValue" where
  "note_json n =
     Set (Set (Set (JObj []) ''rule'' (JStr (RuleRef_ToString (note_rule n))))
       ''outcome'' (JStr (DecisionOutcomeName (note_outcome n)))) ''detail'' (JStr (note_detail n))"

definition negotiated_json :: "NegotiatedSubject \<Rightarrow> JsonValue" where
  "negotiated_json s =
     (let j = Set (JObj []) ''subject'' (JStr (subject s));
          j = Set j ''status'' (JStr (NegotiationStatusName (neg_status s)));
          j = set_option ''selected'' (\<lambda>v. JStr (SemVersion_ToString v)) (selected s) j;
          j = set_when (owner s \<noteq> []) ''owner'' (JStr (owner s)) j
      in Set j ''window'' (versions_json (window s)))"

definition NegotiationToJson :: "NegotiationResult \<Rightarrow> JsonValue" where
  "NegotiationToJson n =
     Set (Set (Set (JObj []) ''policy'' (JStr (NegotiationPolicyName (neg_policy n))))
       ''protocols'' (JArr (map negotiated_json (neg_protocols n))))
       ''schemas'' (JArr (map negotiated_json (neg_schemas n)))"

definition DecisionToJson :: "Decision \<Rightarrow> JsonValue" where
  "DecisionToJson d =
     (let j = Set (JObj []) ''decision_id'' (JStr (ToHex (dec_id d)));
          j = Set j ''outcome'' (JStr (DecisionOutcomeName (dec_outcome d)));
          j = Set j ''reason'' (JStr (DecisionReasonName (dec_reason d)));
          j = Set j ''arity'' (JStr (RuleArityName (dec_arity d)));
          j = Set j ''generation'' (generation_json (dec_generation d));
          j = Set j ''subjects'' (JArr (map component_json (subjects d)));
          j = set_option ''deciding_rule'' (\<lambda>r. JStr (RuleRef_ToString r)) (deciding_rule d) j;
          j = Set j ''total_matched_rules'' (JUInt (of_nat (total_matched_rules d)));
          j = Set j ''evidence_truncated'' (JBool (evidence_truncated d));
          j = Set j ''matched_rules'' (JArr (map evaluation_json (matched_rules d)));
          j = Set j ''unmet_requirements'' (JArr (map unmet_json (unmet_requirements d)));
          j = Set j ''overridden'' (JArr (map note_json (overridden d)));
          j = Set j ''negotiation'' (NegotiationToJson (dec_negotiation d))
      in Set j ''narrative'' (JStr (narrative d)))"

definition SetDecisionToJson :: "SetDecision \<Rightarrow> JsonValue" where
  "SetDecisionToJson d =
     (let j = Set (JObj []) ''decision_id'' (JStr (ToHex (sd_id d)));
          j = Set j ''outcome'' (JStr (DecisionOutcomeName (sd_outcome d)));
          j = Set j ''generation'' (generation_json (sd_generation d));
          j = Set j ''members'' (JArr (map component_json (members d)));
          j = Set j ''set_level'' (DecisionToJson (set_level d));
          j = Set j ''pairs'' (JArr (map DecisionToJson (pairs d)))
      in Set j ''narrative'' (JStr (sd_narrative d)))"

section \<open>Explanations\<close>

definition nl :: string where
  "nl = [CHR 0x0A]"

definition RefText :: "RuleRef option \<Rightarrow> string" where
  "RefText r = (case r of Some x \<Rightarrow> RuleRef_ToString x | None \<Rightarrow> ''-'')"

definition option_text :: "string \<Rightarrow> ('a \<Rightarrow> string) \<Rightarrow> 'a option \<Rightarrow> string" where
  "option_text prefix f x = (case x of None \<Rightarrow> [] | Some v \<Rightarrow> prefix @ f v)"

definition nonempty_text :: "string \<Rightarrow> string \<Rightarrow> string" where
  "nonempty_text prefix t = (if t = [] then [] else prefix @ t)"

definition AppendSubject :: "nat \<Rightarrow> ComponentRef \<Rightarrow> string" where
  "AppendSubject i s =
     ''  subject['' @ to_string i @ '']: '' @ id_value (cr_kind s) @ '' '' @
     SemVersion_ToString (cr_version s) @ '' (family='' @ id_value (cr_family s) @
     option_text '', hardware_class='' id_value (cr_hardware_class s) @
     nonempty_text '', instance='' (id_value (cr_instance s)) @
     nonempty_text '', label='' (cr_label s) @ '')'' @ nl"

definition numbered_subjects :: "ComponentRef list \<Rightarrow> string" where
  "numbered_subjects cs = concat (map (\<lambda>(i, c). AppendSubject i c) (enumerate 0 cs))"

definition constraint_line :: "ConstraintEvaluation \<Rightarrow> string" where
  "constraint_line c =
     ''        '' @ ConstraintKindName (ce_constraint c) @ '' side='' @
     SideName (ConstraintSide (ce_constraint c)) @ '' status='' @ ConstraintStatusName (ce_status c) @
     nonempty_text '': '' (ce_detail c) @ nl"

definition evaluation_lines :: "RuleEvaluation \<Rightarrow> string" where
  "evaluation_lines e =
     (let t = key_tier (ev_precedence e) in
      ''    ['' @ to_string (precedence_rank e) @ ''] '' @ RuleRef_ToString (ev_rule e) @
      '' priority='' @ int_to_string (tier_priority t) @ '' specificity='' @ int_to_string (specificity t) @
      '' origin_rank='' @ int_to_string (origin_rank t) @
      '' status='' @ RuleEvaluationStatusName (ev_status e) @
      option_text '' outcome='' DecisionOutcomeName (resolved_outcome e) @
      (if mirrored e then '' mirrored=true'' else []) @ (if decided e then '' DECIDED'' else []) @ nl @
      concat (map constraint_line (ev_constraints e)))"

definition unmet_line :: "UnmetRequirement \<Rightarrow> string" where
  "unmet_line u =
     ''    - '' @ RuleRef_ToString (um_rule u) @ '' side='' @ SideName (um_side u) @ '' '' @
     um_requirement u @ '' '' @ ConstraintStatusName (um_status u) @ '': '' @ um_detail u @ nl"

definition note_line :: "OverriddenNote \<Rightarrow> string" where
  "note_line n = ''    - '' @ RuleRef_ToString (note_rule n) @ '' would have produced '' @
     DecisionOutcomeName (note_outcome n) @ nl"

definition negotiated_line :: "string \<Rightarrow> NegotiatedSubject \<Rightarrow> string" where
  "negotiated_line what s =
     ''    '' @ what @ '' '' @ subject s @ '' status='' @ NegotiationStatusName (neg_status s) @
     option_text '' selected='' SemVersion_ToString (selected s) @
     (if window s = [] then []
      else '' window=['' @ join_with '','' (map SemVersion_ToString (window s)) @ '']'') @
     nonempty_text '' owner='' (owner s) @ nl"

definition counted_section :: "string \<Rightarrow> ('a \<Rightarrow> string) \<Rightarrow> 'a list \<Rightarrow> string" where
  "counted_section title line xs =
     (if xs = [] then [] else title @ to_string (length xs) @ nl @ concat (map line xs))"

definition negotiation_section :: "NegotiationResult \<Rightarrow> string" where
  "negotiation_section n =
     (if negotiation_empty n then []
      else ''  negotiation: policy='' @ NegotiationPolicyName (neg_policy n) @ nl @
        concat (map (negotiated_line ''protocol'') (neg_protocols n)) @
        concat (map (negotiated_line ''schema'') (neg_schemas n)))"

definition RenderDecision :: "Decision \<Rightarrow> string" where
  "RenderDecision d =
     ''decision '' @ ToHex (dec_id d) @ nl @
     ''  outcome: '' @ DecisionOutcomeName (dec_outcome d) @ nl @
     ''  reason: '' @ DecisionReasonName (dec_reason d) @ nl @
     ''  generation: '' @ GenerationId_ToString (dec_generation d) @ nl @
     ''  arity: '' @ RuleArityName (dec_arity d) @ nl @
     numbered_subjects (subjects d) @
     ''  deciding_rule: '' @ RefText (deciding_rule d) @ nl @
     ''  matched_rules: '' @ to_string (total_matched_rules d) @
     (if evidence_truncated d then '' (evidence list truncated)'' else []) @ nl @
     concat (map evaluation_lines (matched_rules d)) @
     counted_section ''  unmet_requirements: '' unmet_line (unmet_requirements d) @
     counted_section ''  overridden: '' note_line (overridden d) @
     negotiation_section (dec_negotiation d)"

definition pair_side :: "Decision \<Rightarrow> nat \<Rightarrow> string" where
  "pair_side d i =
     (if length (subjects d) \<ge> 2
      then id_value (cr_kind (subjects d ! i)) @ '' '' @ SemVersion_ToString (cr_version (subjects d ! i))
      else ''- -'')"

definition pair_line :: "Decision \<Rightarrow> string" where
  "pair_line d =
     ''    '' @ pair_side d 0 @ '' vs '' @ pair_side d 1 @ '': '' @ DecisionOutcomeName (dec_outcome d) @
     '' ('' @ take 16 (ToHex (dec_id d)) @ '')'' @ nl"

definition RenderSetDecision :: "SetDecision \<Rightarrow> string" where
  "RenderSetDecision d =
     ''set decision '' @ ToHex (sd_id d) @ nl @
     ''  outcome: '' @ DecisionOutcomeName (sd_outcome d) @ nl @
     ''  generation: '' @ GenerationId_ToString (sd_generation d) @ nl @
     ''  members: '' @ to_string (length (members d)) @ nl @
     numbered_subjects (members d) @
     ''  pair outcomes:'' @
     (if pairs d = [] then '' none'' @ nl else nl @ concat (map pair_line (pairs d))) @
     ''  set-level: '' @ DecisionOutcomeName (dec_outcome (set_level d)) @
     '' reason='' @ DecisionReasonName (dec_reason (set_level d)) @ nl"

end
