(* ===== verification/Registry.thy ===== *)
theory Registry
  imports Render
begin

text \<open>
  Compiled generations and their decisions (second half of \<open>src/registry.cpp\<close>): the matched rules
  of a pair in precedence order, the evidence with its bound, the decision of a pair and of a set,
  and the fingerprint of a decision. Static validation is not in this theory.
\<close>

definition kMaxEvidenceRules :: nat where "kMaxEvidenceRules = 256"
definition kMaxSetMembers :: nat where "kMaxSetMembers = 64"

section \<open>Compiled generations\<close>

record RegistryGeneration =
  document :: RegistryDocument
  gen_id :: GenerationId
  active_pair_rules :: "nat list"
  active_set_rules :: "nat list"

abbreviation taxonomy :: "RegistryGeneration \<Rightarrow> Taxonomy" where
  "taxonomy g \<equiv> doc_taxonomy (document g)"

abbreviation rule_at :: "RegistryGeneration \<Rightarrow> nat \<Rightarrow> Rule" where
  "rule_at g i \<equiv> rules (document g) ! i"

definition active_rules :: "RegistryDocument \<Rightarrow> RuleArity \<Rightarrow> nat list" where
  "active_rules d a = filter (\<lambda>i. lc_state (lifecycle (rules d ! i)) = Active \<and> arity (rules d ! i) = a)
     [0..<length (rules d)]"

text \<open>The generation of a document that has passed validation.\<close>

definition compiled :: "RegistryDocument \<Rightarrow> RegistryGeneration" where
  "compiled d =
     (let n = Normalize d
      in \<lparr>document = n, gen_id = GenerationId (md_generation (md n)) (document_Digest n),
          active_pair_rules = active_rules n PairRule, active_set_rules = active_rules n SetRule\<rparr>)"

section \<open>Fingerprints\<close>

text \<open>Instance, label and vendor are left out.\<close>

definition SemanticSpecJson :: "ComponentSpec \<Rightarrow> JsonValue" where
  "SemanticSpecJson s =
     (let j = Set (JObj []) ''family'' (id_json (family s));
          j = Set j ''kind'' (id_json (kind s));
          j = Set j ''version'' (JStr (SemVersion_ToString (spec_version s)));
          j = set_option ''hardware_class'' id_json (hardware_class s) j;
          j = Set j ''knowledge'' (knowledge_json (knowledge s));
          j = Set j ''capabilities'' (members_json CapabilityValue_ToJson (spec_capabilities s));
          j = Set j ''protocols'' (members_json versions_json (spec_protocols s));
          j = Set j ''schemas'' (members_json versions_json (spec_schemas s))
      in Set j ''features'' (features_json (spec_features s)))"

definition bare_generation_json :: "GenerationId \<Rightarrow> JsonValue" where
  "bare_generation_json g =
     Set (Set (JObj []) ''number'' (JUInt (gen_number g))) ''digest'' (JStr (ToHex (gen_digest g)))"

definition ComputeDecisionId :: "GenerationId \<Rightarrow> string \<Rightarrow> ComponentSpec list \<Rightarrow> Decision \<Rightarrow> string \<Rightarrow> DecisionId" where
  "ComputeDecisionId g arity_text specs d extra =
     (let j = Set (JObj []) ''generation'' (bare_generation_json g);
          j = Set j ''arity'' (JStr arity_text);
          j = Set j ''subjects'' (JArr (map SemanticSpecJson specs));
          j = Set j ''outcome'' (JStr (DecisionOutcomeName (dec_outcome d)));
          j = Set j ''reason'' (JStr (DecisionReasonName (dec_reason d)));
          j = set_option ''deciding_rule'' (\<lambda>r. JStr (RuleRef_ToString r)) (deciding_rule d) j;
          j = Set j ''matched_rules'' (JArr (map (\<lambda>e. JStr (RuleRef_ToString (ev_rule e))) (matched_rules d)));
          j = Set j ''negotiation'' (NegotiationToJson (dec_negotiation d));
          j = set_when (extra \<noteq> []) ''extra'' (JStr extra) j
      in Sha256_Hash (Dump j False))"

section \<open>Evidence\<close>

definition Decision_default :: Decision where
  "Decision_default = \<lparr>dec_id = digest_zero, dec_outcome = DUnknown, dec_reason = NoMatchingRule,
     dec_generation = GenerationId 0 digest_zero, dec_arity = PairRule, subjects = [], matched_rules = [],
     total_matched_rules = 0, evidence_truncated = False, deciding_rule = None, unmet_requirements = [],
     overridden = [], dec_negotiation = \<lparr>neg_policy = HighestCommon, neg_protocols = [], neg_schemas = []\<rparr>,
     narrative = []\<rparr>"

definition override_note :: "Decision \<Rightarrow> RuleRef \<Rightarrow> RuleEvaluation \<Rightarrow> OverriddenNote list" where
  "override_note d decider e =
     (case resolved_outcome e of
        Some x \<Rightarrow>
          if decided e \<or> x = dec_outcome d then []
          else [\<lparr>note_rule = ev_rule e, note_outcome = x,
                 note_detail = ''matched but outranked by '' @ RuleRef_ToString decider\<rparr>]
      | None \<Rightarrow> [])"

definition RecordOverrideNotes :: "Decision \<Rightarrow> Decision" where
  "RecordOverrideNotes d =
     (case deciding_rule d of
        None \<Rightarrow> d
      | Some r \<Rightarrow> d\<lparr>overridden := overridden d @ concat (map (override_note d r) (matched_rules d))\<rparr>)"

definition by_precedence :: "RegistryGeneration \<Rightarrow> nat list \<Rightarrow> nat list" where
  "by_precedence g = sort_by (\<lambda>a b. PrecedenceHigher (RulePrecedence (rule_at g a)) (RulePrecedence (rule_at g b)))"

definition MatchPairRules :: "RegistryGeneration \<Rightarrow> ComponentSpec \<Rightarrow> ComponentSpec \<Rightarrow> nat list" where
  "MatchPairRules g l r =
     by_precedence g (filter (\<lambda>i. fst (RuleMatchesSelectors (rule_at g i) l r)) (active_pair_rules g))"

record EvidenceLoop =
  deciding :: "(nat \<times> RuleApplication) option"
  evidence :: "RuleEvaluation list"
  truncated :: bool
  decider_recorded :: bool

definition EvidenceLoop_start :: EvidenceLoop where
  "EvidenceLoop_start = \<lparr>deciding = None, evidence = [], truncated = False, decider_recorded = False\<rparr>"

definition rule_decides :: "EvidenceLoop \<Rightarrow> RuleApplication \<Rightarrow> bool" where
  "rule_decides st app = (deciding st = None \<and> resolved app \<noteq> None \<and> app_status app \<noteq> RuleSkipped)"

definition rule_evaluation :: "Rule \<Rightarrow> nat \<Rightarrow> bool \<Rightarrow> RuleApplication \<Rightarrow> bool \<Rightarrow> RuleEvaluation" where
  "rule_evaluation k rank mirr app decides =
     \<lparr>ev_rule = Rule_Ref k, ev_precedence = RulePrecedence k, precedence_rank = rank, mirrored = mirr,
      ev_status = app_status app, resolved_outcome = resolved app, decided = decides,
      ev_constraints = app_constraints app, ev_rationale = app_rationale app\<rparr>"

definition decide :: "nat \<Rightarrow> RuleApplication \<Rightarrow> EvidenceLoop \<Rightarrow> EvidenceLoop" where
  "decide index app st = (if rule_decides st app then st\<lparr>deciding := Some (index, app)\<rparr> else st)"

definition pair_step ::
  "RegistryGeneration \<Rightarrow> ComponentSpec \<Rightarrow> ComponentSpec \<Rightarrow> EvidenceLoop \<Rightarrow> nat \<times> nat \<Rightarrow> EvidenceLoop" where
  "pair_step g l r st e =
     (let (rank, index) = e;
          k = rule_at g index;
          app = ApplyRule k (taxonomy g) \<lparr>res_left = [l], res_right = [r], res_all = [l, r]\<rparr>;
          decides = rule_decides st app;
          st1 = decide index app st;
          ev = rule_evaluation k rank (snd (RuleMatchesSelectors k l r)) app decides
      in if length (evidence st1) < kMaxEvidenceRules then st1\<lparr>evidence := evidence st1 @ [ev]\<rparr>
         else if decides \<and> \<not> decider_recorded st1
         then st1\<lparr>truncated := True, evidence := butlast (evidence st1) @ [ev], decider_recorded := True\<rparr>
         else st1\<lparr>truncated := True\<rparr>)"

text \<open>What follows the loop over the matched rules. The outcome of the decider is present: only
  a rule with an outcome decides.\<close>

definition conclude :: "RegistryGeneration \<Rightarrow> nat list \<Rightarrow> EvidenceLoop \<Rightarrow> Decision \<Rightarrow> Decision" where
  "conclude g matched st d0 =
     (let d = d0\<lparr>total_matched_rules := length matched, matched_rules := evidence st,
            evidence_truncated := truncated st\<rparr>
      in case deciding st of
           Some (index, app) \<Rightarrow>
             RecordOverrideNotes (d\<lparr>dec_reason := DecidedByRule, dec_outcome := value_or (resolved app) DUnknown,
               deciding_rule := Some (Rule_Ref (rule_at g index)), unmet_requirements := app_unmet app\<rparr>)
         | None \<Rightarrow>
             d\<lparr>dec_reason := (if matched = [] then NoMatchingRule else AllMatchedRulesSkipped),
               dec_outcome := DUnknown\<rparr>)"

definition deciding_policy :: "RegistryGeneration \<Rightarrow> EvidenceLoop \<Rightarrow> NegotiationPolicy" where
  "deciding_policy g st =
     (case deciding st of Some (index, _) \<Rightarrow> negotiation (rule_at g index) | None \<Rightarrow> HighestCommon)"

section \<open>Pairs\<close>

definition pair_refusal :: "RegistryGeneration \<Rightarrow> ComponentSpec \<Rightarrow> ComponentSpec \<Rightarrow> DecisionReason option" where
  "pair_refusal g l r =
     (if \<not> HasFamily (taxonomy g) (family l) \<or> \<not> HasFamily (taxonomy g) (family r)
      then Some UnregisteredComponentFamily
      else (case (FindKind (taxonomy g) (kind l), FindKind (taxonomy g) (kind r)) of
          (Some kl, Some kr) \<Rightarrow>
            if kind_family kl \<noteq> family l \<or> kind_family kr \<noteq> family r then Some KindFamilyMismatch
            else if active_pair_rules g = [] then Some NoActiveRules
            else None
        | _ \<Rightarrow> Some UnregisteredComponentKind))"

definition pair_loop :: "RegistryGeneration \<Rightarrow> ComponentSpec \<Rightarrow> ComponentSpec \<Rightarrow> EvidenceLoop" where
  "pair_loop g l r = foldl (pair_step g l r) EvidenceLoop_start (enumerate 0 (MatchPairRules g l r))"

definition EvaluatePairInternal :: "RegistryGeneration \<Rightarrow> ComponentSpec \<Rightarrow> ComponentSpec \<Rightarrow> Decision" where
  "EvaluatePairInternal g l r =
     (let d0 = Decision_default\<lparr>dec_generation := gen_id g, dec_arity := PairRule,
            subjects := [MakeComponentRef l, MakeComponentRef r]\<rparr>;
          (d1, policy) =
            (case pair_refusal g l r of
               Some reason \<Rightarrow> (d0\<lparr>dec_reason := reason, dec_outcome := DUnknown\<rparr>, HighestCommon)
             | None \<Rightarrow> (conclude g (MatchPairRules g l r) (pair_loop g l r) d0, deciding_policy g (pair_loop g l r)));
          d2 = d1\<lparr>dec_negotiation := Negotiate [l, r] policy (taxonomy g)\<rparr>
      in d2\<lparr>dec_id := ComputeDecisionId (gen_id g) ''pair'' [l, r] d2
              (if evidence_truncated d2 then ''evidence_truncated'' else [])\<rparr>)"

definition EvaluatePair :: "RegistryGeneration \<Rightarrow> ComponentSpec \<Rightarrow> ComponentSpec \<Rightarrow> Decision" where
  "EvaluatePair g l r =
     (let d = EvaluatePairInternal g l r in d\<lparr>narrative := RenderDecision d\<rparr>)"

section \<open>Sets\<close>

fun set_refusal :: "RegistryGeneration \<Rightarrow> ComponentSpec list \<Rightarrow> DecisionReason option" where
  "set_refusal g [] = (if active_set_rules g = [] then Some NoActiveRules else None)"
| "set_refusal g (m # ms) =
     (if \<not> HasFamily (taxonomy g) (family m) then Some UnregisteredComponentFamily
      else (case FindKind (taxonomy g) (kind m) of
          None \<Rightarrow> Some UnregisteredComponentKind
        | Some k \<Rightarrow> if kind_family k \<noteq> family m then Some KindFamilyMismatch else set_refusal g ms))"

definition MatchSetRules :: "RegistryGeneration \<Rightarrow> ComponentSpec list \<Rightarrow> nat list" where
  "MatchSetRules g ms =
     by_precedence g (filter (\<lambda>i. list_ex (SelectorMatches (left_selector (rule_at g i))) ms) (active_set_rules g))"

definition set_step ::
  "RegistryGeneration \<Rightarrow> ComponentSpec list \<Rightarrow> EvidenceLoop \<Rightarrow> nat \<times> nat \<Rightarrow> EvidenceLoop" where
  "set_step g ms st e =
     (let (rank, index) = e;
          k = rule_at g index;
          app = ApplyRule k (taxonomy g)
            \<lparr>res_left = filter (SelectorMatches (left_selector k)) ms, res_right = [], res_all = ms\<rparr>;
          decides = rule_decides st app;
          st1 = decide index app st;
          ev = rule_evaluation k rank False app decides
      in if length (evidence st1) < kMaxEvidenceRules then st1\<lparr>evidence := evidence st1 @ [ev]\<rparr>
         else if decides then st1\<lparr>truncated := True, evidence := butlast (evidence st1) @ [ev]\<rparr>
         else st1\<lparr>truncated := True\<rparr>)"

definition set_loop :: "RegistryGeneration \<Rightarrow> ComponentSpec list \<Rightarrow> EvidenceLoop" where
  "set_loop g ms = foldl (set_step g ms) EvidenceLoop_start (enumerate 0 (MatchSetRules g ms))"

definition EvaluateSetLevel :: "RegistryGeneration \<Rightarrow> ComponentSpec list \<Rightarrow> Decision" where
  "EvaluateSetLevel g ms =
     (let d0 = Decision_default\<lparr>dec_generation := gen_id g, dec_arity := SetRule,
            subjects := map MakeComponentRef ms\<rparr>;
          (d1, policy) =
            (case set_refusal g ms of
               Some reason \<Rightarrow> (d0\<lparr>dec_reason := reason\<rparr>, HighestCommon)
             | None \<Rightarrow> (conclude g (MatchSetRules g ms) (set_loop g ms) d0, deciding_policy g (set_loop g ms)));
          d2 = d1\<lparr>dec_negotiation := Negotiate ms policy (taxonomy g)\<rparr>
      in d2\<lparr>dec_id := ComputeDecisionId (gen_id g) ''set'' ms d2
              (if evidence_truncated d2 then ''set_level,evidence_truncated'' else ''set_level'')\<rparr>)"

fun pairs_of :: "'a list \<Rightarrow> ('a \<times> 'a) list" where
  "pairs_of [] = []"
| "pairs_of (x # xs) = map (\<lambda>y. (x, y)) xs @ pairs_of xs"

definition aggregate :: "Decision \<Rightarrow> Decision list \<Rightarrow> DecisionOutcome" where
  "aggregate level ds =
     (if list_ex (\<lambda>d. dec_outcome d = DIncompatible) ds then DIncompatible
      else if dec_outcome level = DIncompatible then DIncompatible
      else if dec_outcome level = DUnknown \<or> list_ex (\<lambda>d. dec_outcome d = DUnknown) ds then DUnknown
      else DCompatible)"

definition set_decision_id :: "GenerationId \<Rightarrow> ComponentSpec list \<Rightarrow> DecisionOutcome \<Rightarrow> Decision \<Rightarrow> Decision list \<Rightarrow> DecisionId" where
  "set_decision_id g ms out level ds =
     (let j = Set (JObj []) ''generation'' (bare_generation_json g);
          j = Set j ''subjects'' (JArr (map SemanticSpecJson ms));
          j = Set j ''outcome'' (JStr (DecisionOutcomeName out));
          j = Set j ''set_level'' (JStr (ToHex (dec_id level)));
          j = Set j ''pairs'' (JArr (map (\<lambda>d. JStr (ToHex (dec_id d))) ds))
      in Sha256_Hash (Dump j False))"

definition EvaluateSet :: "RegistryGeneration \<Rightarrow> ComponentSpec list \<Rightarrow> SetDecision result" where
  "EvaluateSet g ms =
     (if length ms < 2 then Fail InvalidArgument
      else if length ms > kMaxSetMembers then Fail LimitExceeded
      else
        let level0 = EvaluateSetLevel g ms;
            level = level0\<lparr>narrative := RenderDecision level0\<rparr>;
            ds = map (\<lambda>(l, r). EvaluatePair g l r) (pairs_of ms);
            out = aggregate level ds;
            d = \<lparr>sd_id = set_decision_id (gen_id g) ms out level ds, sd_outcome = out, sd_generation = gen_id g,
              members = map MakeComponentRef ms, set_level = level, pairs = ds, sd_narrative = []\<rparr>
        in Inr (d\<lparr>sd_narrative := RenderSetDecision d\<rparr>))"

end
