(* ===== verification/DecisionFacts.thy ===== *)
theory DecisionFacts
  imports Decision
begin

text \<open>
  What the evaluation of a rule and the negotiation of versions guarantee: when a rule reaches a
  verdict, that a verdict survives further knowledge, and which version is negotiated.
\<close>

section \<open>Applying a rule: facts\<close>

lemma target_loop_Satisfied:
  "fst (target_loop c tax ts acc) = Satisfied \<longleftrightarrow>
     fst acc = Satisfied \<and> (\<forall>t\<in>set ts. fst (EvaluateConstraintAgainstSpec c t tax) = Satisfied)"
proof (induction ts arbitrary: acc)
  case (Cons t ts)
  then show ?case
    by (cases "EvaluateConstraintAgainstSpec c t tax"; cases "fst (EvaluateConstraintAgainstSpec c t tax)") auto
qed simp

lemma target_loop_Violated:
  "fst acc \<noteq> Violated \<Longrightarrow> fst (target_loop c tax ts acc) = Violated \<longleftrightarrow>
     (\<exists>t\<in>set ts. fst (EvaluateConstraintAgainstSpec c t tax) = Violated)"
proof (induction ts arbitrary: acc)
  case (Cons t ts)
  then show ?case
    by (cases "EvaluateConstraintAgainstSpec c t tax"; cases "fst (EvaluateConstraintAgainstSpec c t tax)") auto
qed simp

text \<open>What a constraint asks of a query: its side selects something, and every component there
  meets it.\<close>

definition constraint_met :: "Taxonomy \<Rightarrow> SideResolver \<Rightarrow> Constraint \<Rightarrow> bool" where
  "constraint_met tax rs c =
     (let ts = Resolve rs (ConstraintSide c)
      in ts \<noteq> [] \<and> list_all (\<lambda>t. fst (EvaluateConstraintAgainstSpec c t tax) = Satisfied) ts)"

definition constraint_broken :: "Taxonomy \<Rightarrow> SideResolver \<Rightarrow> Constraint \<Rightarrow> bool" where
  "constraint_broken tax rs c =
     list_ex (\<lambda>t. fst (EvaluateConstraintAgainstSpec c t tax) = Violated) (Resolve rs (ConstraintSide c))"

lemma broken_not_met: "constraint_broken tax rs c \<Longrightarrow> \<not> constraint_met tax rs c"
  by (auto simp: constraint_broken_def constraint_met_def list_ex_iff list_all_iff Let_def)

lemma evaluate_constraint_status:
  "ce_status (evaluate_constraint tax rs c) =
     (if constraint_broken tax rs c then Violated else if constraint_met tax rs c then Satisfied else Indeterminate)"
proof -
  let ?ts = "Resolve rs (ConstraintSide c)"
  let ?start = "if ?ts = [] then (Indeterminate, ''constraint side selects no component'') else (Satisfied, [])"
  have eq: "ce_status (evaluate_constraint tax rs c) = fst (target_loop c tax ?ts ?start)"
    by (simp add: evaluate_constraint_def Let_def)
  have "fst (target_loop c tax ?ts ?start) = Satisfied \<longleftrightarrow> constraint_met tax rs c"
    by (simp add: target_loop_Satisfied constraint_met_def list_all_iff Let_def)
  moreover have "fst (target_loop c tax ?ts ?start) = Violated \<longleftrightarrow> constraint_broken tax rs c"
    by (subst target_loop_Violated) (simp_all add: constraint_broken_def list_ex_iff)
  ultimately show ?thesis using broken_not_met unfolding eq
    by (cases "fst (target_loop c tax ?ts ?start)") auto
qed

lemma ApplyRule_verdict:
  "(app_status (ApplyRule r tax rs), resolved (ApplyRule r tax rs), app_rationale (ApplyRule r tax rs)) =
     verdict r (list_ex (constraint_broken tax rs) (constraints r))
       (list_ex (\<lambda>c. \<not> constraint_met tax rs c) (constraints r))"
proof (cases "list_ex (constraint_broken tax rs) (constraints r)")
  case True
  then show ?thesis
    by (auto simp: ApplyRule_def Let_def split_beta list_ex_iff evaluate_constraint_status verdict_def)
next
  case False
  then show ?thesis
    by (auto simp: ApplyRule_def Let_def split_beta list_ex_iff evaluate_constraint_status
        intro!: arg_cong [where f = "verdict r False"])
qed

lemma ApplyRule_answers:
  "let app = ApplyRule r tax rs;
       met = list_all (constraint_met tax rs) (constraints r);
       broken = list_ex (constraint_broken tax rs) (constraints r)
   in (resolved app = Some DCompatible \<longleftrightarrow> met \<and> outcome r = Compatible) \<and>
      (resolved app = Some DIncompatible \<longleftrightarrow>
         met \<and> outcome r = Incompatible \<or> broken \<and> on_unmet r = UnmetIncompatible \<or>
         \<not> met \<and> \<not> broken \<and> on_indeterminate r = IndeterminateIncompatible) \<and>
      (resolved app = None \<longleftrightarrow> app_status app = RuleSkipped) \<and>
      (resolved app = None \<longleftrightarrow> broken \<and> on_unmet r = UnmetSkip \<or>
         \<not> met \<and> \<not> broken \<and> on_indeterminate r = IndeterminateSkip) \<and>
      (app_unmet app = [] \<longleftrightarrow> met)"
proof -
  let ?app = "ApplyRule r tax rs" and ?met = "list_all (constraint_met tax rs) (constraints r)"
  let ?broken = "list_ex (constraint_broken tax rs) (constraints r)"
  have indet: "list_ex (\<lambda>c. \<not> constraint_met tax rs c) (constraints r) \<longleftrightarrow> \<not> ?met"
    by (auto simp: list_ex_iff list_all_iff)
  have not_both: "?broken \<Longrightarrow> \<not> ?met"
    by (auto simp: list_ex_iff list_all_iff dest: broken_not_met)
  have v: "(app_status ?app, resolved ?app, app_rationale ?app) = verdict r ?broken (\<not> ?met)"
    using ApplyRule_verdict [of r tax rs] unfolding indet .
  have "app_unmet ?app = [] \<longleftrightarrow> ?met"
    by (auto simp: ApplyRule_def Let_def split_beta filter_empty_conv evaluate_constraint_status list_all_iff
        dest: broken_not_met)
  then show ?thesis
    using v not_both unfolding Let_def
    by (cases "on_unmet r"; cases "on_indeterminate r"; cases "outcome r"; cases ?broken; cases ?met)
       (auto simp: verdict_def)
qed

text \<open>A rule answers \<open>compatible\<close> exactly when it declares that outcome and every one of its
  constraints is definitely satisfied: the side of the constraint selects a component and each component
  there satisfies it. Incomplete evidence never gives \<open>compatible\<close>; a broken constraint gives what
  the rule's policy says, a constraint without an answer what its other policy says.\<close>

theorem ApplyRule_outcomes:
  "let app = ApplyRule r tax rs;
       met = list_all (constraint_met tax rs) (constraints r);
       broken = list_ex (constraint_broken tax rs) (constraints r)
   in (resolved app = Some DCompatible \<longleftrightarrow> met \<and> outcome r = Compatible) \<and>
      (resolved app = Some DIncompatible \<longleftrightarrow>
         met \<and> outcome r = Incompatible \<or> broken \<and> on_unmet r = UnmetIncompatible \<or>
         \<not> met \<and> \<not> broken \<and> on_indeterminate r = IndeterminateIncompatible) \<and>
      (resolved app = None \<longleftrightarrow> app_status app = RuleSkipped) \<and>
      (resolved app = None \<longleftrightarrow> broken \<and> on_unmet r = UnmetSkip \<or>
         \<not> met \<and> \<not> broken \<and> on_indeterminate r = IndeterminateSkip) \<and>
      (app_unmet app = [] \<longleftrightarrow> met)"
  by (rule ApplyRule_answers)

lemma resolved_None: "resolved (ApplyRule r tax rs) = None \<longleftrightarrow> app_status (ApplyRule r tax rs) = RuleSkipped"
  using ApplyRule_answers [of r tax rs] unfolding Let_def by blast

section \<open>Gaining knowledge\<close>

text \<open>What a component may be found to be when more becomes known of it: where its knowledge is
  closed nothing changes, where it is open entries may be added.\<close>

definition entries_grow :: "bool \<Rightarrow> ('k, 'v) omap \<Rightarrow> bool \<Rightarrow> ('k, 'v) omap \<Rightarrow> bool" where
  "entries_grow closed m closed' m' =
     (if closed then closed' \<and> omap_get m' = omap_get m else omap_get m \<subseteq>\<^sub>m omap_get m')"

definition knows_more :: "ComponentSpec \<Rightarrow> ComponentSpec \<Rightarrow> bool" where
  "knows_more s s' \<longleftrightarrow>
     spec_version s' = spec_version s \<and> (hardware_class s = None \<or> hardware_class s' = hardware_class s) \<and>
     entries_grow (CapabilitiesClosed s) (spec_capabilities s) (CapabilitiesClosed s') (spec_capabilities s') \<and>
     entries_grow (CapabilitiesClosed s) (spec_features s) (CapabilitiesClosed s') (spec_features s') \<and>
     entries_grow (ProtocolsClosed s) (spec_protocols s) (ProtocolsClosed s') (spec_protocols s') \<and>
     entries_grow (SchemasClosed s) (spec_schemas s) (SchemasClosed s') (spec_schemas s')"

lemma entries_growD:
  assumes "entries_grow closed m closed' m'"
  shows "omap_get m k = Some v \<Longrightarrow> omap_get m' k = Some v" and "closed \<Longrightarrow> omap_get m' k = omap_get m k"
    and "closed \<Longrightarrow> closed'"
  using assms by (auto simp: entries_grow_def map_le_def dom_def split: if_splits)

lemma requires_entry_grows:
  "entries_grow closed m closed' m' \<Longrightarrow> fst (requires_entry w n (omap_has m k) closed) \<noteq> Indeterminate \<Longrightarrow>
   requires_entry w n (omap_has m' k) closed' = requires_entry w n (omap_has m k) closed"
  using entries_growD(1,2) [of closed m closed' m' k] entries_growD(3) [of closed m closed' m']
  by (cases "omap_get m k") (auto simp: requires_entry_def undeclared_def omap_has_def split: if_splits)

lemma forbids_entry_grows:
  "entries_grow closed m closed' m' \<Longrightarrow> fst (forbids_entry w n (omap_has m k) closed) \<noteq> Indeterminate \<Longrightarrow>
   forbids_entry w n (omap_has m' k) closed' = forbids_entry w n (omap_has m k) closed"
  using entries_growD(1,2) [of closed m closed' m' k] entries_growD(3) [of closed m closed' m']
  by (cases "omap_get m k") (auto simp: forbids_entry_def undeclared_def omap_has_def split: if_splits)

lemma requires_support_grows:
  "entries_grow closed m closed' m' \<Longrightarrow> fst (requires_support w n (omap_get m k) closed g) \<noteq> Indeterminate \<Longrightarrow>
   requires_support w n (omap_get m' k) closed' g = requires_support w n (omap_get m k) closed g"
  using entries_growD(1,2) [of closed m closed' m' k] entries_growD(3) [of closed m closed' m']
  by (cases "omap_get m k") (auto simp: requires_support_def undeclared_def split: if_splits)

lemma forbids_support_grows:
  "entries_grow closed m closed' m' \<Longrightarrow> fst (forbids_support w n (omap_has m k) closed) \<noteq> Indeterminate \<Longrightarrow>
   forbids_support w n (omap_has m' k) closed' = forbids_support w n (omap_has m k) closed"
  using entries_growD(1,2) [of closed m closed' m' k] entries_growD(3) [of closed m closed' m']
  by (cases "omap_get m k") (auto simp: forbids_support_def undeclared_def omap_has_def split: if_splits)

lemma requires_value_grows:
  "knows_more s s' \<Longrightarrow> fst (requires_value c op lit s tax) \<noteq> Indeterminate \<Longrightarrow>
   requires_value c op lit s' tax = requires_value c op lit s tax"
  using entries_growD(1,2) [of "CapabilitiesClosed s" "spec_capabilities s" "CapabilitiesClosed s'" "spec_capabilities s'" c]
    entries_growD(3) [of "CapabilitiesClosed s" "spec_capabilities s" "CapabilitiesClosed s'" "spec_capabilities s'"]
  by (cases "omap_get (spec_capabilities s) c")
     (auto simp: knows_more_def requires_value_def requires_entry_def undeclared_def split: if_splits)

lemma EvaluateConstraint_grows:
  assumes "knows_more s s'" and "fst (EvaluateConstraintAgainstSpec c s tax) \<noteq> Indeterminate"
  shows "EvaluateConstraintAgainstSpec c s' tax = EvaluateConstraintAgainstSpec c s tax"
proof -
  note grows = requires_entry_grows forbids_entry_grows requires_support_grows forbids_support_grows
  show ?thesis
    using assms
    by (cases c) (auto simp: knows_more_def split: option.splits
        intro: requires_value_grows [OF assms(1)] intro!: grows)
qed

text \<open>The same for the components on each side of a query.\<close>

definition resolver_grows :: "SideResolver \<Rightarrow> SideResolver \<Rightarrow> bool" where
  "resolver_grows rs rs' \<longleftrightarrow> list_all2 knows_more (res_left rs) (res_left rs') \<and>
     list_all2 knows_more (res_right rs) (res_right rs') \<and> list_all2 knows_more (res_all rs) (res_all rs')"

lemma Resolve_grows: "resolver_grows rs rs' \<Longrightarrow> list_all2 knows_more (Resolve rs x) (Resolve rs' x)"
  by (cases x) (auto simp: resolver_grows_def)

lemma answers_grow:
  assumes "list_all2 knows_more ts ts'" and "st \<noteq> Indeterminate"
  shows "list_all (\<lambda>t. fst (EvaluateConstraintAgainstSpec c t tax) = st) ts \<Longrightarrow>
      list_all (\<lambda>t. fst (EvaluateConstraintAgainstSpec c t tax) = st) ts'"
    and "list_ex (\<lambda>t. fst (EvaluateConstraintAgainstSpec c t tax) = st) ts \<Longrightarrow>
      list_ex (\<lambda>t. fst (EvaluateConstraintAgainstSpec c t tax) = st) ts'"
  using assms by (induction rule: list_all2_induct) (auto simp: EvaluateConstraint_grows)

lemma constraint_met_grows:
  assumes "resolver_grows rs rs'" and "constraint_met tax rs c"
  shows "constraint_met tax rs' c"
  using Resolve_grows [OF assms(1), of "ConstraintSide c"] answers_grow(1) assms(2)
  by (fastforce simp: constraint_met_def Let_def)

lemma constraint_broken_grows:
  "resolver_grows rs rs' \<Longrightarrow> constraint_broken tax rs c \<Longrightarrow> constraint_broken tax rs' c"
  unfolding constraint_broken_def using answers_grow(2) Resolve_grows by blast

text \<open>C24. A verdict reached from definite evidence is final: when more becomes known of the
  components, by opening entries that were open or reporting a hardware class, a rule that was
  satisfied stays satisfied and one that was violated stays violated, with the same outcome.\<close>

theorem ApplyRule_gained_knowledge:
  assumes "resolver_grows rs rs'"
    and "app_status (ApplyRule r tax rs) = RuleSatisfied \<or> app_status (ApplyRule r tax rs) = RuleViolated"
  shows "app_status (ApplyRule r tax rs') = app_status (ApplyRule r tax rs) \<and>
    resolved (ApplyRule r tax rs') = resolved (ApplyRule r tax rs)"
proof -
  let ?met = "\<lambda>q. list_ex (\<lambda>c. \<not> constraint_met tax q c) (constraints r)"
  let ?broken = "\<lambda>q. list_ex (constraint_broken tax q) (constraints r)"
  note v = ApplyRule_verdict [of r tax rs] ApplyRule_verdict [of r tax rs']
  have "?broken rs \<or> \<not> ?broken rs \<and> \<not> ?met rs"
    using assms(2) v(1)
    by (cases "on_unmet r"; cases "on_indeterminate r"; cases "?broken rs"; cases "?met rs") (auto simp: verdict_def)
  moreover have "?broken rs \<Longrightarrow> ?broken rs'"
    using constraint_broken_grows [OF assms(1)] by (auto simp: list_ex_iff)
  moreover have "\<not> ?met rs \<Longrightarrow> \<not> ?met rs' \<and> \<not> ?broken rs'"
    using constraint_met_grows [OF assms(1)] broken_not_met by (auto simp: list_ex_iff) blast
  ultimately show ?thesis
    using v by (cases "?broken rs"; cases "?met rs"; cases "?met rs'") (auto simp: verdict_def split: OnUnmetRequirement.splits)
qed

lemma ApplyRule_gained_knowledge_witness:
  "let r = sample_rule ''r'' Compatible [RequiresProtocol Left (TypedId ''link'') (VersionRange_Any)];
       s = sample_spec ''gpu'' (SemVersion_of 1 0 0);
       s' = s\<lparr>hardware_class := Some (TypedId ''h100''), spec_protocols := omap_put (TypedId ''bus'') [] (spec_protocols s)\<rparr>;
       query = (\<lambda>q. \<lparr>res_left = [q], res_right = [], res_all = [q]\<rparr>)
   in resolved (ApplyRule r sample_taxonomy (query s')) = Some DCompatible"
proof -
  let ?r = "sample_rule ''r'' Compatible [RequiresProtocol Left (TypedId ''link'') (VersionRange_Any)]"
  let ?s = "sample_spec ''gpu'' (SemVersion_of 1 0 0)"
  let ?s' = "?s\<lparr>hardware_class := Some (TypedId ''h100''),
    spec_protocols := omap_put (TypedId ''bus'') [] (spec_protocols ?s)\<rparr>"
  let ?q = "\<lambda>q. \<lparr>res_left = [q], res_right = [], res_all = [q]\<rparr>"
  have now: "app_status (ApplyRule ?r sample_taxonomy (?q ?s)) = RuleSatisfied"
    "resolved (ApplyRule ?r sample_taxonomy (?q ?s)) = Some DCompatible" by code_simp+
  have "omap_get (spec_protocols ?s) \<subseteq>\<^sub>m (omap_get (spec_protocols ?s))(TypedId ''bus'' \<mapsto> [])"
    by (auto simp: map_le_def sample_spec_def omap_get_def)
  then have "knows_more ?s ?s'"
    by (simp add: knows_more_def entries_grow_def omap_get_put)
       (simp add: sample_spec_def ProtocolsClosed_def CapabilitiesClosed_def SchemasClosed_def)
  then have "resolver_grows (?q ?s) (?q ?s')" by (simp add: resolver_grows_def)
  from ApplyRule_gained_knowledge [OF this disjI1 [OF now(1)], THEN conjunct2] now(2) show ?thesis
    unfolding Let_def by (rule trans)
qed

section \<open>Negotiation\<close>

definition release_in :: "SemVersion \<Rightarrow> SemVersion list \<Rightarrow> bool" where
  "release_in v vs = list_ex (\<lambda>w. Precedence v w = Equal) vs"

lemma mset_Intersect: "mset (IntersectVersionLists a b) = filter_mset (\<lambda>v. release_in v b) (mset a)"
  by (simp add: IntersectVersionLists_def release_in_def)

lemma Intersect_Nil: "IntersectVersionLists a b = [] \<longleftrightarrow> filter_mset (\<lambda>v. release_in v b) (mset a) = {#}"
  using mset_Intersect [of a b] by (metis mset_zero_iff)

definition supports_release :: "(ComponentSpec \<Rightarrow> SemVersion list option) \<Rightarrow> SemVersion \<Rightarrow> ComponentSpec \<Rightarrow> bool" where
  "supports_release get v s = (case get s of None \<Rightarrow> False | Some vs \<Rightarrow> release_in v vs)"

lemma negotiate_window_Inr:
  "negotiate_window get closed ss (Some w0) = Inr w \<Longrightarrow> w0 \<noteq> [] \<Longrightarrow>
     w \<noteq> [] \<and> mset w = filter_mset (\<lambda>v. list_all (supports_release get v) ss) (mset w0)"
proof (induction ss arbitrary: w0)
  case (Cons s ss)
  then show ?case
    by (auto simp: Let_def mset_Intersect supports_release_def filter_filter_mset conj_commute
        split: option.splits if_splits)
qed simp

lemma negotiate_window_complete:
  "v \<in> set w0 \<Longrightarrow> list_all (supports_release get v) ss \<Longrightarrow>
     \<exists>w. negotiate_window get closed ss (Some w0) = Inr w"
proof (induction ss arbitrary: w0)
  case (Cons s ss)
  then obtain vs where vs: "get s = Some vs" "release_in v vs"
    by (auto simp: supports_release_def split: option.splits)
  then have v: "v \<in> set (IntersectVersionLists w0 vs)"
    using Cons.prems(1) by (simp add: IntersectVersionLists_def release_in_def)
  then have "IntersectVersionLists w0 vs \<noteq> []" by auto
  then show ?case using Cons.IH [OF v] Cons.prems(2) vs(1) by (simp add: Let_def)
qed simp

text \<open>\<open>v\<close> is at least as good a choice as \<open>u\<close>.\<close>

definition preferred :: "NegotiationPolicy \<Rightarrow> SemVersion \<Rightarrow> SemVersion \<Rightarrow> bool" where
  "preferred p v u = (if p = LowestCommon then Precedence v u \<noteq> Greater else Precedence u v \<noteq> Greater)"

definition better :: "NegotiationPolicy \<Rightarrow> SemVersion \<Rightarrow> SemVersion \<Rightarrow> SemVersion" where
  "better p best c =
     (if p = LowestCommon then (if Precedence c best = Less then c else best)
      else (if Precedence c best = Greater then c else best))"

lemma preferred_better: "preferred p (better p b c) b" "preferred p (better p b c) c"
  using prec.flip_cases [of b c] by (auto simp: preferred_def better_def)

lemma preferred_trans: "preferred p v u \<Longrightarrow> preferred p u x \<Longrightarrow> preferred p v x"
  using prec.cmp_trans [of v u x] prec.cmp_trans [of x u v] by (auto simp: preferred_def split: if_splits)

lemma preferred_refl: "preferred p v v"
  by (simp add: preferred_def)

lemma foldl_better:
  "foldl (better p) b xs \<in> insert b (set xs) \<and> (\<forall>u\<in>insert b (set xs). preferred p (foldl (better p) b xs) u)"
proof (induction xs arbitrary: b)
  case (Cons x xs)
  let ?m = "better p b x" and ?v = "foldl (better p) (better p b x) xs"
  note IH = Cons.IH [of ?m]
  have "preferred p ?v b" "preferred p ?v x"
    using IH preferred_better [where p = p and b = b and c = x] preferred_trans by blast+
  moreover have "?m = b \<or> ?m = x" by (simp add: better_def)
  ultimately show ?case
    using IH by (elim disjE; auto)
qed (simp add: preferred_refl)

lemma SelectNegotiated_best:
  assumes "w \<noteq> []"
  obtains v where "SelectNegotiated w p = Some v" and "v \<in> set w" and "list_all (preferred p v) w"
proof -
  obtain first rest where w: "w = first # rest" using assms by (cases w) auto
  have "SelectNegotiated w p = Some (foldl (better p) first w)"
    unfolding w SelectNegotiated_def better_def by simp
  moreover have "better p first first = first" by (simp add: better_def)
  ultimately show ?thesis
    using that foldl_better [of p first w] unfolding w by (simp add: list_all_iff)
qed

text \<open>The releases of the first participant that every participant supports.\<close>

definition common_releases :: "(ComponentSpec \<Rightarrow> SemVersion list option) \<Rightarrow> ComponentSpec list \<Rightarrow> SemVersion list" where
  "common_releases get specs =
     (case specs of
        [] \<Rightarrow> []
      | s # ss \<Rightarrow> filter (\<lambda>v. list_all (supports_release get v) ss) (value_or (get s) []))"

lemma window_common:
  assumes "negotiate_window get closed specs None = Inr w"
  shows "mset w = mset (common_releases get specs)"
proof (cases specs)
  case Nil
  then show ?thesis using assms by (simp add: common_releases_def)
next
  case (Cons s ss)
  obtain vs where vs: "get s = Some vs" "vs \<noteq> []" and w: "negotiate_window get closed ss (Some vs) = Inr w"
    using assms unfolding Cons by (auto simp: Let_def split: option.splits if_splits)
  then show ?thesis
    using negotiate_window_Inr [OF w vs(2)] unfolding Cons by (simp add: common_releases_def value_or_def)
qed

lemma window_exists:
  assumes "common_releases get specs \<noteq> []"
  shows "\<exists>w. negotiate_window get closed specs None = Inr w"
proof -
  obtain s ss where specs: "specs = s # ss" using assms by (cases specs) (auto simp: common_releases_def)
  obtain v where "v \<in> set (common_releases get specs)" using assms by (cases "common_releases get specs") auto
  then obtain vs where "get s = Some vs" "v \<in> set vs" "list_all (supports_release get v) ss"
    unfolding specs by (cases "get s") (auto simp: common_releases_def value_or_def)
  then show ?thesis
    using negotiate_window_complete [of v vs get ss closed] unfolding specs by (cases vs) auto
qed

text \<open>Negotiation agrees exactly when the participants share a release, and under the exact
  policy exactly one; the version it selects is one of the shared releases and the best of them
  under the policy, the lowest or else the highest. Without agreement nothing is selected.\<close>

theorem NegotiateOne_spec:
  "let n = NegotiateOne name specs policy get closed; common = common_releases get specs
   in (neg_status n = Agreed \<longleftrightarrow> (if policy = ExactRequired then length common = 1 else common \<noteq> [])) \<and>
      (case selected n of
         None \<Rightarrow> neg_status n \<noteq> Agreed
       | Some v \<Rightarrow> neg_status n = Agreed \<and> v \<in> set common \<and> list_all (preferred policy v) common)"
proof (cases "negotiate_window get closed specs None")
  case (Inl e)
  then have "common_releases get specs = []"
    using window_exists [of get specs closed] by (metis Inl_Inr_False)
  moreover have "fst e \<noteq> Agreed"
  proof -
    have "negotiate_window get closed ss acc = Inl e \<Longrightarrow> fst e \<noteq> Agreed" for ss acc
      by (induction ss arbitrary: acc) (auto simp: Let_def split: option.splits if_splits)
    then show ?thesis using Inl by blast
  qed
  ultimately show ?thesis using Inl by (cases e) (simp add: NegotiateOne_def)
next
  case (Inr w)
  let ?common = "common_releases get specs"
  have m: "mset w = mset ?common" by (rule window_common [OF Inr])
  then have len: "length w = length ?common" and mem: "set w = set ?common"
    by (metis size_mset) (metis m set_mset_mset)
  show ?thesis
  proof (cases "w = []")
    case True
    then show ?thesis using Inr m by (simp add: NegotiateOne_def SelectNegotiated_def)
  next
    case False
    obtain v where v: "SelectNegotiated w policy = Some v" "v \<in> set w" "list_all (preferred policy v) w"
      using SelectNegotiated_best [OF False] .
    have "?common \<noteq> []" using False len by auto
    moreover have "v \<in> set ?common" "list_all (preferred policy v) ?common"
      using v(2,3) mem by (simp_all add: list_all_iff)
    ultimately show ?thesis using Inr v(1) len
      by (cases "policy = ExactRequired"; cases "length ?common = 1"; simp add: NegotiateOne_def Let_def)
  qed
qed

text \<open>The status of a failed negotiation depends on the order of the participants: of two
  components that do not declare the protocol, one with closed and one with open knowledge, the first
  is reported.\<close>

theorem NegotiateOne_order_dependent:
  "let closed_spec = (sample_spec ''gpu'' (SemVersion_of 1 0 0))\<lparr>spec_protocols := [],
         knowledge := KnowledgeProfile_default\<lparr>kn_protocols := Closed\<rparr>\<rparr>;
       open_spec = closed_spec\<lparr>knowledge := KnowledgeProfile_default\<rparr>;
       status = (\<lambda>specs. neg_status (NegotiateOne ''link'' specs HighestCommon
         (\<lambda>s. omap_get (spec_protocols s) (TypedId ''link'')) ProtocolsClosed))
   in status [open_spec, closed_spec] = Undecided \<and> status [closed_spec, open_spec] = NotSupported"
  by code_simp

end
