(* ===== verification/RegistryFacts.thy ===== *)
theory RegistryFacts
  imports Registry DecisionFacts
begin

text \<open>
  What a decision guarantees: which rule decides a pair, the bound on the evidence, which outcomes
  a set may have, and what the fingerprint of a decision depends on.
\<close>

section \<open>The loop over the matched rules\<close>

text \<open>The contract of one iteration, the same for pairs and for sets: the first rule with an outcome
  decides, the evidence is kept up to its bound, and beyond it the decider replaces the last entry.\<close>

locale evidence_loop =
  fixes step :: "EvidenceLoop \<Rightarrow> nat \<times> nat \<Rightarrow> EvidenceLoop"
    and app :: "nat \<Rightarrow> RuleApplication" and entry :: "nat \<Rightarrow> nat \<Rightarrow> bool \<Rightarrow> RuleEvaluation"
    and ref :: "nat \<Rightarrow> RuleRef"
  assumes step_deciding: "deciding (step st (rank, i)) = deciding (decide i (app i) st)"
    and step_recorded: "(decider_recorded st \<Longrightarrow> deciding st \<noteq> None) \<Longrightarrow>
      decider_recorded (step st (rank, i)) \<Longrightarrow> deciding (step st (rank, i)) \<noteq> None"
    and step_room: "length (evidence st) < kMaxEvidenceRules \<Longrightarrow>
      evidence (step st (rank, i)) = evidence st @ [entry rank i (rule_decides st (app i))] \<and>
      truncated (step st (rank, i)) = truncated st"
    and step_full: "\<not> length (evidence st) < kMaxEvidenceRules \<Longrightarrow> (decider_recorded st \<Longrightarrow> deciding st \<noteq> None) \<Longrightarrow>
      evidence (step st (rank, i)) =
        (if rule_decides st (app i) then butlast (evidence st) @ [entry rank i True] else evidence st) \<and>
      truncated (step st (rank, i))"
    and entry_fields: "decided (entry rank i b) = b" "ev_rule (entry rank i b) = ref i"
      "resolved_outcome (entry rank i b) = resolved (app i)"
    and skipped_none: "resolved (app i) = None \<longleftrightarrow> app_status (app i) = RuleSkipped"
begin

definition answered :: "nat \<Rightarrow> bool" where
  "answered i = (resolved (app i) \<noteq> None)"

lemma decides_iff: "rule_decides st (app i) \<longleftrightarrow> deciding st = None \<and> answered i"
  by (auto simp: rule_decides_def answered_def skipped_none)

lemma deciding_step: "deciding (step st (rank, i)) =
    (if deciding st = None \<and> answered i then Some (i, app i) else deciding st)"
  by (simp add: step_deciding decide_def decides_iff)

lemma deciding_loop:
  "deciding (foldl step st (enumerate n is)) =
     (case deciding st of Some x \<Rightarrow> Some x | None \<Rightarrow> map_option (\<lambda>i. (i, app i)) (List.find answered is))"
  by (induction "is" arbitrary: st n) (auto simp: deciding_step split: option.splits)

definition evidence_ok :: "EvidenceLoop \<Rightarrow> nat \<Rightarrow> bool" where
  "evidence_ok st n \<longleftrightarrow> length (evidence st) = min kMaxEvidenceRules n \<and> (truncated st \<longleftrightarrow> kMaxEvidenceRules < n) \<and>
     (decider_recorded st \<longrightarrow> deciding st \<noteq> None) \<and>
     map (\<lambda>e. (ev_rule e, resolved_outcome e)) (filter decided (evidence st)) =
       (case deciding st of None \<Rightarrow> [] | Some (i, a) \<Rightarrow> [(ref i, resolved a)])"

lemma filter_butlast: "filter P xs = [] \<Longrightarrow> filter P (butlast xs) = []"
  by (metis filter_False filter_empty_conv in_set_butlastD)

lemma evidence_step: "evidence_ok st n \<Longrightarrow> evidence_ok (step st (rank, i)) (Suc n)"
proof -
  assume ok: "evidence_ok st n"
  then have rec: "decider_recorded st \<Longrightarrow> deciding st \<noteq> None" by (simp add: evidence_ok_def)
  have rec': "decider_recorded (step st (rank, i)) \<longrightarrow> deciding (step st (rank, i)) \<noteq> None"
    using step_recorded [OF rec] by blast
  show ?thesis
  proof (cases "length (evidence st) < kMaxEvidenceRules")
    case True
    then show ?thesis
      using ok rec' step_room [OF True, of rank i]
      by (auto simp: evidence_ok_def deciding_step decides_iff entry_fields split: option.splits)
  next
    case False
    have "evidence st \<noteq> []" and "Suc (kMaxEvidenceRules - Suc 0) = kMaxEvidenceRules"
      using False by (auto simp: kMaxEvidenceRules_def)
    then show ?thesis
      using ok rec' False step_full [OF False rec, of rank i]
      by (auto simp: evidence_ok_def deciding_step decides_iff entry_fields filter_butlast split: option.splits)
  qed
qed

lemma evidence_loop: "evidence_ok st m \<Longrightarrow> evidence_ok (foldl step st (enumerate n is)) (m + length is)"
proof (induction "is" arbitrary: st m n)
  case (Cons i "is")
  show ?case using Cons.IH [OF evidence_step [OF Cons.prems, of n i], of "Suc n"] by simp
qed simp

lemma evidence_start: "evidence_ok (foldl step EvidenceLoop_start (enumerate 0 is)) (length is)"
  using evidence_loop [of EvidenceLoop_start 0 0 "is"]
  by (simp add: evidence_ok_def EvidenceLoop_start_def)

lemma deciding_start:
  "deciding (foldl step EvidenceLoop_start (enumerate 0 is)) = map_option (\<lambda>i. (i, app i)) (List.find answered is)"
  by (simp add: deciding_loop EvidenceLoop_start_def)

end

definition pair_query :: "ComponentSpec \<Rightarrow> ComponentSpec \<Rightarrow> SideResolver" where
  "pair_query l r = \<lparr>res_left = [l], res_right = [r], res_all = [l, r]\<rparr>"

definition set_query :: "Rule \<Rightarrow> ComponentSpec list \<Rightarrow> SideResolver" where
  "set_query k ms = \<lparr>res_left = filter (SelectorMatches (left_selector k)) ms, res_right = [], res_all = ms\<rparr>"

lemma pair_evidence_loop:
  "evidence_loop (pair_step g l r) (\<lambda>i. ApplyRule (rule_at g i) (taxonomy g) (pair_query l r))
     (\<lambda>rank i b. rule_evaluation (rule_at g i) rank (snd (RuleMatchesSelectors (rule_at g i) l r))
        (ApplyRule (rule_at g i) (taxonomy g) (pair_query l r)) b)
     (\<lambda>i. Rule_Ref (rule_at g i))"
  by unfold_locales
    (auto simp: pair_step_def Let_def decide_def rule_decides_def pair_query_def rule_evaluation_def resolved_None
      split: if_splits)

lemma set_evidence_loop:
  "evidence_loop (set_step g ms) (\<lambda>i. ApplyRule (rule_at g i) (taxonomy g) (set_query (rule_at g i) ms))
     (\<lambda>rank i b. rule_evaluation (rule_at g i) rank False
        (ApplyRule (rule_at g i) (taxonomy g) (set_query (rule_at g i) ms)) b)
     (\<lambda>i. Rule_Ref (rule_at g i))"
  by unfold_locales
    (auto simp: set_step_def Let_def decide_def rule_decides_def set_query_def rule_evaluation_def resolved_None
      split: if_splits)

interpretation pair_evidence: evidence_loop "pair_step g l r"
    "\<lambda>i. ApplyRule (rule_at g i) (taxonomy g) (pair_query l r)"
    "\<lambda>rank i b. rule_evaluation (rule_at g i) rank (snd (RuleMatchesSelectors (rule_at g i) l r))
        (ApplyRule (rule_at g i) (taxonomy g) (pair_query l r)) b"
    "\<lambda>i. Rule_Ref (rule_at g i)" for g l r
  by (rule pair_evidence_loop)

interpretation set_evidence: evidence_loop "set_step g ms"
    "\<lambda>i. ApplyRule (rule_at g i) (taxonomy g) (set_query (rule_at g i) ms)"
    "\<lambda>rank i b. rule_evaluation (rule_at g i) rank False
        (ApplyRule (rule_at g i) (taxonomy g) (set_query (rule_at g i) ms)) b"
    "\<lambda>i. Rule_Ref (rule_at g i)" for g ms
  by (rule set_evidence_loop)

section \<open>The deciding rule\<close>

lemma find_first:
  assumes "sorted_wrt (\<lambda>x y. \<not> lt y x) xs" and "\<And>x. \<not> lt x x" and "List.find P xs = Some i"
  shows "i \<in> set xs \<and> P i \<and> (\<forall>j\<in>set xs. P j \<longrightarrow> \<not> lt j i)"
  using assms(1,3)
proof (induction xs)
  case (Cons x xs)
  then show ?case using assms(2) by (cases "P x") auto
qed simp

interpretation index_order: three_way "\<lambda>a b. precedence_cmp (RulePrecedence (rule_at g a)) (RulePrecedence (rule_at g b))" for g
  by (rule three_way_on [OF precedence.three_way_axioms])

lemma by_precedence_sorted:
  "sorted_wrt (\<lambda>a b. \<not> PrecedenceHigher (RulePrecedence (rule_at g b)) (RulePrecedence (rule_at g a))) (by_precedence g is)"
  using index_order.ascending.sort_by_sorted by (simp add: by_precedence_def PrecedenceHigher_iff)

lemma set_by_precedence [simp]: "set (by_precedence g is) = set is"
  by (simp add: by_precedence_def)

lemma length_by_precedence [simp]: "length (by_precedence g is) = length is"
  by (simp add: by_precedence_def)

lemma conclude_fields:
  "dec_generation (conclude g is st d) = dec_generation d" "subjects (conclude g is st d) = subjects d"
  "total_matched_rules (conclude g is st d) = length is" "matched_rules (conclude g is st d) = evidence st"
  "evidence_truncated (conclude g is st d) = truncated st"
  "deciding_rule (conclude g is st d) = (case deciding st of None \<Rightarrow> deciding_rule d | Some (i, _) \<Rightarrow> Some (Rule_Ref (rule_at g i)))"
  "dec_outcome (conclude g is st d) = (case deciding st of None \<Rightarrow> DUnknown | Some (_, a) \<Rightarrow> value_or (resolved a) DUnknown)"
  "dec_reason (conclude g is st d) = (case deciding st of
     None \<Rightarrow> if is = [] then NoMatchingRule else AllMatchedRulesSkipped | Some _ \<Rightarrow> DecidedByRule)"
  by (simp_all add: conclude_def RecordOverrideNotes_def Let_def split: option.splits)

text \<open>The active rules that match a pair; none when the query is refused.\<close>

definition pair_candidates :: "RegistryGeneration \<Rightarrow> ComponentSpec \<Rightarrow> ComponentSpec \<Rightarrow> Rule list" where
  "pair_candidates g l r =
     (if pair_refusal g l r = None
      then filter (\<lambda>k. fst (RuleMatchesSelectors k l r)) (map (rule_at g) (active_pair_rules g)) else [])"

text \<open>The verdict of a rule on a pair.\<close>

definition pair_answer :: "RegistryGeneration \<Rightarrow> ComponentSpec \<Rightarrow> ComponentSpec \<Rightarrow> Rule \<Rightarrow> DecisionOutcome option" where
  "pair_answer g l r k = resolved (ApplyRule k (taxonomy g) (pair_query l r))"

lemma candidates_iff:
  "pair_refusal g l r = None \<Longrightarrow> set (pair_candidates g l r) = rule_at g ` set (MatchPairRules g l r)"
  by (auto simp: pair_candidates_def MatchPairRules_def)

definition pair_winner :: "RegistryGeneration \<Rightarrow> ComponentSpec \<Rightarrow> ComponentSpec \<Rightarrow> nat option" where
  "pair_winner g l r =
     (if pair_refusal g l r = None
      then List.find (\<lambda>i. pair_answer g l r (rule_at g i) \<noteq> None) (MatchPairRules g l r) else None)"

lemma pair_loop_deciding:
  "pair_refusal g l r = None \<Longrightarrow> deciding (pair_loop g l r) =
     map_option (\<lambda>i. (i, ApplyRule (rule_at g i) (taxonomy g) (pair_query l r))) (pair_winner g l r)"
  by (simp add: pair_loop_def pair_evidence.deciding_start pair_winner_def pair_answer_def
      pair_evidence.answered_def [abs_def])

lemma EvaluatePair_fields:
  "deciding_rule (EvaluatePair g l r) = map_option (\<lambda>i. Rule_Ref (rule_at g i)) (pair_winner g l r)"
  "dec_outcome (EvaluatePair g l r) = (case pair_winner g l r of
     None \<Rightarrow> DUnknown | Some i \<Rightarrow> value_or (pair_answer g l r (rule_at g i)) DUnknown)"
  "dec_reason (EvaluatePair g l r) = (case pair_refusal g l r of Some x \<Rightarrow> x | None \<Rightarrow>
     (case pair_winner g l r of Some _ \<Rightarrow> DecidedByRule
      | None \<Rightarrow> if MatchPairRules g l r = [] then NoMatchingRule else AllMatchedRulesSkipped))"
  "total_matched_rules (EvaluatePair g l r) = length (pair_candidates g l r)"
  "matched_rules (EvaluatePair g l r) = (if pair_refusal g l r = None then evidence (pair_loop g l r) else [])"
  "evidence_truncated (EvaluatePair g l r) = (pair_refusal g l r = None \<and> truncated (pair_loop g l r))"
  by (auto simp: EvaluatePair_def EvaluatePairInternal_def Let_def conclude_fields pair_loop_deciding pair_winner_def
      pair_answer_def Decision_default_def pair_candidates_def MatchPairRules_def filter_map comp_def
      split: option.splits)

lemma pair_winner_best:
  assumes "pair_winner g l r = Some i"
  shows "rule_at g i \<in> set (pair_candidates g l r) \<and> pair_answer g l r (rule_at g i) \<noteq> None \<and>
    (\<forall>k\<in>set (pair_candidates g l r). pair_answer g l r k \<noteq> None \<longrightarrow>
       \<not> PrecedenceHigher (RulePrecedence k) (RulePrecedence (rule_at g i)))"
proof -
  have ok: "pair_refusal g l r = None"
    and find: "List.find (\<lambda>i. pair_answer g l r (rule_at g i) \<noteq> None) (MatchPairRules g l r) = Some i"
    using assms by (auto simp: pair_winner_def split: if_splits)
  have irrefl: "\<not> PrecedenceHigher (RulePrecedence (rule_at g x)) (RulePrecedence (rule_at g x))" for x
    by (simp add: PrecedenceHigher_iff)
  have "sorted_wrt (\<lambda>a b. \<not> PrecedenceHigher (RulePrecedence (rule_at g b)) (RulePrecedence (rule_at g a)))
      (MatchPairRules g l r)"
    unfolding MatchPairRules_def by (rule by_precedence_sorted)
  from find_first [OF this irrefl find] show ?thesis
    unfolding candidates_iff [OF ok] by auto
qed

lemma pair_winner_None:
  "pair_winner g l r = None \<longleftrightarrow> list_all (\<lambda>k. pair_answer g l r k = None) (pair_candidates g l r)"
proof (cases "pair_refusal g l r = None")
  case True
  then show ?thesis
    unfolding list_all_iff candidates_iff [OF True] by (auto simp: pair_winner_def find_None_iff)
qed (auto simp: pair_winner_def pair_candidates_def)

text \<open>C8. A pair is decided by the matching active rule of highest precedence among those that
  reach a verdict, and its verdict is the outcome of the decision; when no matching rule reaches one
  the outcome is unknown and no rule is named.\<close>

theorem EvaluatePair_decided_by_highest:
  "let d = EvaluatePair g l r; candidates = pair_candidates g l r; answer = pair_answer g l r
   in case deciding_rule d of
        None \<Rightarrow> dec_outcome d = DUnknown \<and> list_all (\<lambda>k. answer k = None) candidates
      | Some ref \<Rightarrow>
          list_ex (\<lambda>k. Rule_Ref k = ref \<and> answer k = Some (dec_outcome d) \<and>
            list_all (\<lambda>k'. \<not> PrecedenceHigher (RulePrecedence k') (RulePrecedence k))
              (filter (\<lambda>k'. answer k' \<noteq> None) candidates)) candidates"
proof (cases "pair_winner g l r")
  case None
  then show ?thesis using pair_winner_None [of g l r] by (simp add: EvaluatePair_fields Let_def)
next
  case (Some i)
  then show ?thesis
    using pair_winner_best [OF Some]
    unfolding Let_def list_ex_iff
    by (auto simp: EvaluatePair_fields list_all_iff value_or_def intro!: bexI [of _ "rule_at g i"])
qed

text \<open>C10. A pair is compatible exactly when the deciding rule is a matching active rule that
  declares the pair compatible and all of whose constraints are definitely met by the components.
  In particular an unknown outcome never becomes compatible, and neither does a refused query.\<close>

theorem EvaluatePair_Compatible:
  "dec_outcome (EvaluatePair g l r) = DCompatible \<longleftrightarrow>
     (case pair_winner g l r of
        None \<Rightarrow> False
      | Some i \<Rightarrow> rule_at g i \<in> set (pair_candidates g l r) \<and> outcome (rule_at g i) = Compatible \<and>
          list_all (constraint_met (taxonomy g) (pair_query l r)) (constraints (rule_at g i)))"
proof (cases "pair_winner g l r")
  case (Some i)
  have "pair_answer g l r (rule_at g i) = Some DCompatible \<longleftrightarrow>
      list_all (constraint_met (taxonomy g) (pair_query l r)) (constraints (rule_at g i)) \<and>
      outcome (rule_at g i) = Compatible"
    unfolding pair_answer_def using ApplyRule_answers [of "rule_at g i" "taxonomy g" "pair_query l r"]
    unfolding Let_def by blast
  then show ?thesis
    using pair_winner_best [OF Some] Some by (auto simp: EvaluatePair_fields value_or_def)
qed (simp add: EvaluatePair_fields)

lemma pair_evidence_ok:
  "pair_evidence.evidence_ok g (pair_loop g l r) (length (MatchPairRules g l r))"
  unfolding pair_loop_def by (rule pair_evidence.evidence_start)

text \<open>The evidence of a decision holds every matched rule up to the bound of 256 and says so when
  it is cut; however many rules match, the deciding rule is in it, exactly once, with the outcome of
  the decision.\<close>

theorem EvaluatePair_evidence:
  "let d = EvaluatePair g l r
   in length (matched_rules d) = min kMaxEvidenceRules (total_matched_rules d) \<and>
      (evidence_truncated d \<longleftrightarrow> kMaxEvidenceRules < total_matched_rules d) \<and>
      total_matched_rules d = length (pair_candidates g l r) \<and>
      map (\<lambda>e. (ev_rule e, resolved_outcome e)) (filter decided (matched_rules d)) =
        (case deciding_rule d of None \<Rightarrow> [] | Some ref \<Rightarrow> [(ref, Some (dec_outcome d))])"
proof (cases "pair_refusal g l r")
  case None
  have len: "length (MatchPairRules g l r) = length (pair_candidates g l r)"
    using None by (simp add: MatchPairRules_def pair_candidates_def filter_map comp_def)
  show ?thesis
  proof (cases "pair_winner g l r")
    case (Some i)
    then obtain out where "pair_answer g l r (rule_at g i) = Some out" using pair_winner_best by blast
    then show ?thesis
      using pair_evidence_ok [of g l r] None len Some
      by (simp add: pair_evidence.evidence_ok_def EvaluatePair_fields Let_def pair_loop_deciding value_or_def pair_answer_def)
  qed (use pair_evidence_ok [of g l r] None len in
      \<open>simp add: pair_evidence.evidence_ok_def EvaluatePair_fields Let_def pair_loop_deciding\<close>)
next
  case (Some x)
  then show ?thesis
    by (simp add: EvaluatePair_fields Let_def pair_winner_def pair_candidates_def kMaxEvidenceRules_def)
qed

section \<open>The fingerprint\<close>

text \<open>A component without the fields that identify it: instance, label and vendor.\<close>

definition unnamed :: "ComponentSpec \<Rightarrow> ComponentSpec" where
  "unnamed s = s\<lparr>instance_id := TypedId [], label := [], vendor := None\<rparr>"

named_theorems unnamed_simps \<open>what does not look at the identity of a component\<close>

lemma unnamed_fields [unnamed_simps]:
  "family (unnamed s) = family s" "kind (unnamed s) = kind s" "spec_version (unnamed s) = spec_version s"
  "hardware_class (unnamed s) = hardware_class s" "knowledge (unnamed s) = knowledge s"
  "spec_capabilities (unnamed s) = spec_capabilities s" "spec_protocols (unnamed s) = spec_protocols s"
  "spec_schemas (unnamed s) = spec_schemas s" "spec_features (unnamed s) = spec_features s"
  "CapabilitiesClosed (unnamed s) = CapabilitiesClosed s" "ProtocolsClosed (unnamed s) = ProtocolsClosed s"
  "SchemasClosed (unnamed s) = SchemasClosed s"
  by (simp_all add: unnamed_def CapabilitiesClosed_def ProtocolsClosed_def SchemasClosed_def)

lemma EvaluateConstraint_unnamed [unnamed_simps]:
  "EvaluateConstraintAgainstSpec c (unnamed s) tax = EvaluateConstraintAgainstSpec c s tax"
  by (cases c) (simp_all add: requires_value_def unnamed_simps cong: option.case_cong)

lemma target_loop_unnamed [unnamed_simps]: "target_loop c tax (map unnamed ts) acc = target_loop c tax ts acc"
  by (induction ts arbitrary: acc) (simp_all add: unnamed_simps split: prod.split ConstraintStatus.split)

lemma ApplyRule_unnamed:
  assumes "\<And>x. Resolve rs' x = map unnamed (Resolve rs x)"
  shows "ApplyRule k tax rs' = ApplyRule k tax rs"
proof -
  have "evaluate_constraint tax rs' = evaluate_constraint tax rs"
    by (intro ext) (simp add: evaluate_constraint_def assms unnamed_simps)
  then show ?thesis by (simp add: ApplyRule_def)
qed

lemma ApplyRule_pair_unnamed [unnamed_simps]:
  "ApplyRule k tax \<lparr>res_left = [unnamed l], res_right = [unnamed r], res_all = [unnamed l, unnamed r]\<rparr> =
   ApplyRule k tax \<lparr>res_left = [l], res_right = [r], res_all = [l, r]\<rparr>"
proof (rule ApplyRule_unnamed)
  fix x show "Resolve \<lparr>res_left = [unnamed l], res_right = [unnamed r], res_all = [unnamed l, unnamed r]\<rparr> x =
    map unnamed (Resolve \<lparr>res_left = [l], res_right = [r], res_all = [l, r]\<rparr> x)"
    by (cases x) simp_all
qed

lemma SelectorMatches_unnamed [unnamed_simps]: "SelectorMatches sel (unnamed s) = SelectorMatches sel s"
  by (simp add: SelectorMatches_def unnamed_simps split: option.split)

lemma RuleMatches_unnamed [unnamed_simps]:
  "RuleMatchesSelectors k (unnamed l) (unnamed r) = RuleMatchesSelectors k l r"
  by (simp add: RuleMatchesSelectors_def unnamed_simps)

lemma negotiate_window_unnamed:
  "(\<And>s. get (unnamed s) = get s) \<Longrightarrow> (\<And>s. closed (unnamed s) = closed s) \<Longrightarrow>
     negotiate_window get closed (map unnamed ss) acc = negotiate_window get closed ss acc"
  by (induction ss arbitrary: acc) (simp_all add: unnamed_simps Let_def split: option.split)

lemma Negotiate_unnamed [unnamed_simps]: "Negotiate (map unnamed ss) p tax = Negotiate ss p tax"
  by (simp add: Negotiate_def NegotiateOne_def negotiate_window_unnamed unnamed_simps comp_def)

lemma SemanticSpecJson_unnamed [unnamed_simps]: "SemanticSpecJson (unnamed s) = SemanticSpecJson s"
  by (simp add: SemanticSpecJson_def unnamed_simps)

lemma pair_loop_unnamed [unnamed_simps]:
  "MatchPairRules g (unnamed l) (unnamed r) = MatchPairRules g l r"
  "pair_loop g (unnamed l) (unnamed r) = pair_loop g l r"
  "pair_refusal g (unnamed l) (unnamed r) = pair_refusal g l r"
proof -
  show m: "MatchPairRules g (unnamed l) (unnamed r) = MatchPairRules g l r"
    by (simp add: MatchPairRules_def unnamed_simps)
  have "pair_step g (unnamed l) (unnamed r) = pair_step g l r"
    by (intro ext) (simp add: pair_step_def unnamed_simps)
  then show "pair_loop g (unnamed l) (unnamed r) = pair_loop g l r" by (simp add: pair_loop_def m)
  show "pair_refusal g (unnamed l) (unnamed r) = pair_refusal g l r"
    by (simp add: pair_refusal_def unnamed_simps split: option.split)
qed

lemma conclude_subjects:
  "conclude g is st (d\<lparr>subjects := x\<rparr>) = (conclude g is st d)\<lparr>subjects := x\<rparr>"
  by (cases "deciding st")
    (auto simp: conclude_def RecordOverrideNotes_def override_note_def [abs_def] Let_def cong: option.case_cong)

lemma EvaluatePairInternal_unnamed:
  "EvaluatePairInternal g (unnamed l) (unnamed r) =
     (EvaluatePairInternal g l r)\<lparr>subjects := [MakeComponentRef (unnamed l), MakeComponentRef (unnamed r)]\<rparr>"
proof -
  have neg: "Negotiate [unnamed l, unnamed r] p tax = Negotiate [l, r] p tax" for p tax
    using Negotiate_unnamed [of "[l, r]"] by simp
  show ?thesis
    by (cases "pair_refusal g l r")
       (simp_all add: EvaluatePairInternal_def Let_def unnamed_simps neg conclude_subjects
          ComputeDecisionId_def split: prod.split)
qed

text \<open>The fingerprint of a decision, its outcome, reason and evidence do not depend on the
  instance, label or vendor of the components: the same question about a renamed component has the
  same identifier.\<close>

theorem EvaluatePair_unnamed:
  "let d = EvaluatePair g l r; d' = EvaluatePair g (unnamed l) (unnamed r)
   in dec_id d' = dec_id d \<and> dec_outcome d' = dec_outcome d \<and> dec_reason d' = dec_reason d \<and>
      deciding_rule d' = deciding_rule d \<and> matched_rules d' = matched_rules d \<and>
      dec_negotiation d' = dec_negotiation d"
  by (simp add: EvaluatePair_def EvaluatePairInternal_unnamed Let_def)

end
