(* ===== verification/SetFacts.thy ===== *)
theory SetFacts
  imports RegistryFacts
begin

text \<open>
  Decisions on sets, and what the side of a constraint means when a symmetric rule matches with its
  selectors swapped.
\<close>

section \<open>The set level\<close>

definition set_candidates :: "RegistryGeneration \<Rightarrow> ComponentSpec list \<Rightarrow> Rule list" where
  "set_candidates g ms =
     (if set_refusal g ms = None
      then filter (\<lambda>k. list_ex (SelectorMatches (left_selector k)) ms) (map (rule_at g) (active_set_rules g)) else [])"

definition set_answer :: "RegistryGeneration \<Rightarrow> ComponentSpec list \<Rightarrow> Rule \<Rightarrow> DecisionOutcome option" where
  "set_answer g ms k = resolved (ApplyRule k (taxonomy g) (set_query k ms))"

definition set_winner :: "RegistryGeneration \<Rightarrow> ComponentSpec list \<Rightarrow> nat option" where
  "set_winner g ms =
     (if set_refusal g ms = None
      then List.find (\<lambda>i. set_answer g ms (rule_at g i) \<noteq> None) (MatchSetRules g ms) else None)"

lemma set_candidates_iff:
  "set_refusal g ms = None \<Longrightarrow> set (set_candidates g ms) = rule_at g ` set (MatchSetRules g ms)"
  by (auto simp: set_candidates_def MatchSetRules_def)

lemma set_loop_deciding:
  "set_refusal g ms = None \<Longrightarrow> deciding (set_loop g ms) =
     map_option (\<lambda>i. (i, ApplyRule (rule_at g i) (taxonomy g) (set_query (rule_at g i) ms))) (set_winner g ms)"
  by (simp add: set_loop_def set_evidence.deciding_start set_winner_def set_answer_def
      set_evidence.answered_def [abs_def])

lemma EvaluateSetLevel_fields:
  "deciding_rule (EvaluateSetLevel g ms) = map_option (\<lambda>i. Rule_Ref (rule_at g i)) (set_winner g ms)"
  "dec_outcome (EvaluateSetLevel g ms) = (case set_winner g ms of
     None \<Rightarrow> DUnknown | Some i \<Rightarrow> value_or (set_answer g ms (rule_at g i)) DUnknown)"
  "total_matched_rules (EvaluateSetLevel g ms) = length (set_candidates g ms)"
  "matched_rules (EvaluateSetLevel g ms) = (if set_refusal g ms = None then evidence (set_loop g ms) else [])"
  "evidence_truncated (EvaluateSetLevel g ms) = (set_refusal g ms = None \<and> truncated (set_loop g ms))"
  by (auto simp: EvaluateSetLevel_def Let_def conclude_fields set_loop_deciding set_winner_def
      set_answer_def Decision_default_def set_candidates_def MatchSetRules_def filter_map comp_def
      split: option.splits)

lemma set_winner_best:
  assumes "set_winner g ms = Some i"
  shows "rule_at g i \<in> set (set_candidates g ms) \<and> set_answer g ms (rule_at g i) \<noteq> None \<and>
    (\<forall>k\<in>set (set_candidates g ms). set_answer g ms k \<noteq> None \<longrightarrow>
       \<not> PrecedenceHigher (RulePrecedence k) (RulePrecedence (rule_at g i)))"
proof -
  have ok: "set_refusal g ms = None"
    and find: "List.find (\<lambda>i. set_answer g ms (rule_at g i) \<noteq> None) (MatchSetRules g ms) = Some i"
    using assms by (auto simp: set_winner_def split: if_splits)
  have irrefl: "\<not> PrecedenceHigher (RulePrecedence (rule_at g x)) (RulePrecedence (rule_at g x))" for x
    by (simp add: PrecedenceHigher_iff)
  have "sorted_wrt (\<lambda>a b. \<not> PrecedenceHigher (RulePrecedence (rule_at g b)) (RulePrecedence (rule_at g a)))
      (MatchSetRules g ms)"
    unfolding MatchSetRules_def by (rule by_precedence_sorted)
  from find_first [OF this irrefl find] show ?thesis
    unfolding set_candidates_iff [OF ok] by auto
qed

lemma set_winner_None:
  "set_winner g ms = None \<longleftrightarrow> list_all (\<lambda>k. set_answer g ms k = None) (set_candidates g ms)"
proof (cases "set_refusal g ms = None")
  case True
  then show ?thesis
    unfolding list_all_iff set_candidates_iff [OF True] by (auto simp: set_winner_def find_None_iff)
qed (auto simp: set_winner_def set_candidates_def)

lemma set_evidence_ok: "set_evidence.evidence_ok g (set_loop g ms) (length (MatchSetRules g ms))"
  unfolding set_loop_def by (rule set_evidence.evidence_start)

text \<open>The set-level verdict on a set of components is that of the active set rule of highest
  precedence among those whose selector some member matches and that reach one, each rule being asked
  about the members it selects; otherwise it is unknown. The evidence is complete up to its bound and holds the deciding rule
  exactly once.\<close>

theorem EvaluateSetLevel_decided_by_highest:
  "let d = EvaluateSetLevel g ms; candidates = set_candidates g ms; answer = set_answer g ms
   in (case deciding_rule d of
         None \<Rightarrow> dec_outcome d = DUnknown \<and> list_all (\<lambda>k. answer k = None) candidates
       | Some ref \<Rightarrow>
           list_ex (\<lambda>k. Rule_Ref k = ref \<and> answer k = Some (dec_outcome d) \<and>
             list_all (\<lambda>k'. \<not> PrecedenceHigher (RulePrecedence k') (RulePrecedence k))
               (filter (\<lambda>k'. answer k' \<noteq> None) candidates)) candidates) \<and>
      length (matched_rules d) = min kMaxEvidenceRules (length candidates) \<and>
      map (\<lambda>e. (ev_rule e, resolved_outcome e)) (filter decided (matched_rules d)) =
        (case deciding_rule d of None \<Rightarrow> [] | Some ref \<Rightarrow> [(ref, Some (dec_outcome d))])"
proof (cases "set_winner g ms")
  case None
  then show ?thesis
    using set_winner_None [of g ms] set_evidence_ok [of g ms]
    by (cases "set_refusal g ms")
       (simp_all add: EvaluateSetLevel_fields Let_def set_evidence.evidence_ok_def set_loop_deciding
         MatchSetRules_def set_candidates_def filter_map comp_def)
next
  case (Some i)
  note best = set_winner_best [OF Some]
  have ok: "set_refusal g ms = None" using Some by (auto simp: set_winner_def split: if_splits)
  obtain out where out: "set_answer g ms (rule_at g i) = Some out" using best by blast
  have len: "length (MatchSetRules g ms) = length (set_candidates g ms)"
    using ok by (simp add: MatchSetRules_def set_candidates_def filter_map comp_def)
  have "list_ex (\<lambda>k. Rule_Ref k = Rule_Ref (rule_at g i) \<and> set_answer g ms k = Some out \<and>
      list_all (\<lambda>k'. \<not> PrecedenceHigher (RulePrecedence k') (RulePrecedence k))
        (filter (\<lambda>k'. set_answer g ms k' \<noteq> None) (set_candidates g ms))) (set_candidates g ms)"
    using best out unfolding list_ex_iff by (auto simp: list_all_iff intro!: bexI [of _ "rule_at g i"])
  then show ?thesis
    using set_evidence_ok [of g ms] ok len Some out
    by (simp add: EvaluateSetLevel_fields Let_def set_evidence.evidence_ok_def set_loop_deciding value_or_def set_answer_def)
qed

section \<open>The aggregate\<close>

lemma pairs_of_index:
  "pairs_of xs = map (\<lambda>(i, j). (xs ! i, xs ! j)) (concat (map (\<lambda>i. map (Pair i) [Suc i..<length xs]) [0..<length xs]))"
proof (induction xs)
  case (Cons x xs)
  have tail: "map (\<lambda>y. (x, y)) xs = map (\<lambda>(i, j). ((x # xs) ! i, (x # xs) ! j)) (map (Pair 0) [Suc 0..<Suc (length xs)])"
    by (rule nth_equalityI) (auto simp del: upt_Suc)
  have shift: "map (Pair (Suc i)) [Suc (Suc i)..<Suc n] = map (\<lambda>(a, b). (Suc a, Suc b)) (map (Pair i) [Suc i..<n])" for i n
    by (simp add: map_Suc_upt [symmetric] comp_def del: upt_Suc)
  have "[0..<length (x # xs)] = 0 # map Suc [0..<length xs]"
    by (simp add: map_Suc_upt upt_conv_Cons del: upt_Suc)
  then show ?case
    unfolding pairs_of.simps Cons.IH tail
    by (simp add: map_concat comp_def shift split_beta del: upt_Suc)
qed simp

text \<open>C25. A set query asks about 2 to 64 components. Its outcome is the conservative meet of the
  set level and of the decision on every pair of members, in the order of the query: compatible only when
  all of them are, incompatible as soon as one is.\<close>

theorem EvaluateSet_meet:
  "case EvaluateSet g ms of
     Inl e \<Rightarrow> (if length ms < 2 then e = Failed InvalidArgument else length ms > kMaxSetMembers \<and> e = Failed LimitExceeded)
   | Inr d \<Rightarrow> 2 \<le> length ms \<and> length ms \<le> kMaxSetMembers \<and>
       pairs d = map (\<lambda>(i, j). EvaluatePair g (ms ! i) (ms ! j))
         (concat (map (\<lambda>i. map (Pair i) [Suc i..<length ms]) [0..<length ms])) \<and>
       dec_outcome (set_level d) = dec_outcome (EvaluateSetLevel g ms) \<and>
       (sd_outcome d = DCompatible \<longleftrightarrow> list_all (\<lambda>p. dec_outcome p = DCompatible) (set_level d # pairs d)) \<and>
       (sd_outcome d = DIncompatible \<longleftrightarrow> list_ex (\<lambda>p. dec_outcome p = DIncompatible) (set_level d # pairs d))"
proof -
  have not_compatible: "x = DCompatible \<longleftrightarrow> x \<noteq> DIncompatible \<and> x \<noteq> DUnknown" for x
    by (cases x) auto
  have agg: "aggregate level ds = DCompatible \<longleftrightarrow> list_all (\<lambda>p. dec_outcome p = DCompatible) (level # ds)"
    "aggregate level ds = DIncompatible \<longleftrightarrow> list_ex (\<lambda>p. dec_outcome p = DIncompatible) (level # ds)" for level ds
    using not_compatible by (auto simp: aggregate_def list_ex_iff list_all_iff not_compatible)
  have pairs: "map (\<lambda>(l, r). EvaluatePair g l r) (pairs_of ms) = map (\<lambda>(i, j). EvaluatePair g (ms ! i) (ms ! j))
      (concat (map (\<lambda>i. map (Pair i) [Suc i..<length ms]) [0..<length ms]))"
    by (simp add: pairs_of_index comp_def split_beta)
  show ?thesis
    by (simp add: EvaluateSet_def Let_def agg [simplified] pairs del: upt_Suc)
qed

section \<open>Sides and implications\<close>

text \<open>A generation with one symmetric rule: a component of kind \<open>gpu\<close> and one of kind \<open>nic\<close> are
  compatible when the left one, the \<open>gpu\<close>, has a capability.\<close>

definition rdma_rule :: Rule where
  "rdma_rule = sample_rule ''gpu-nic'' Compatible [RequiresCapability Left (TypedId ''rdma'')]"

definition plain_nic :: ComponentSpec where
  "plain_nic = (sample_spec ''nic'' (SemVersion_of 1 0 0))\<lparr>spec_capabilities := []\<rparr>"

lemma compiled_one_rule:
  assumes "lc_state (lifecycle k) = Active" and "arity k = PairRule"
  obtains i where "compiled (sample_document [k]) =
    \<lparr>document = sample_document [NormalizeRule k], gen_id = i, active_pair_rules = [0], active_set_rules = []\<rparr>"
proof -
  have n: "Normalize (sample_document [k]) = sample_document [NormalizeRule k]"
    by (simp add: Normalize_def sample_document_def)
  have "lc_state (lifecycle (NormalizeRule k)) = Active" "arity (NormalizeRule k) = PairRule"
    using assms by (simp_all add: NormalizeRule_def)
  then show ?thesis
    using that unfolding compiled_def n Let_def active_rules_def by (simp add: sample_document_def)
qed

text \<open>When a symmetric rule matches with its selectors swapped, its left and right constraints are
  still evaluated on the left and right component of the query and not on the components that its left
  and right selectors matched: the same two components are compatible in one order and incompatible in
  the other.\<close>

theorem mirrored_sides_not_swapped:
  "let g = compiled (sample_document [rdma_rule]); gpu = sample_spec ''gpu'' (SemVersion_of 1 0 0)
   in symmetry rdma_rule = Symmetric \<and>
      dec_outcome (EvaluatePair g gpu plain_nic) = DCompatible \<and>
      dec_outcome (EvaluatePair g plain_nic gpu) = DIncompatible"
proof -
  have "lc_state (lifecycle rdma_rule) = Active" and "arity rdma_rule = PairRule" by code_simp+
  then obtain i where g: "compiled (sample_document [rdma_rule]) =
      \<lparr>document = sample_document [NormalizeRule rdma_rule], gen_id = i, active_pair_rules = [0], active_set_rules = []\<rparr>"
    by (rule compiled_one_rule)
  let ?g = "\<lparr>document = sample_document [NormalizeRule rdma_rule], gen_id = i, active_pair_rules = [0], active_set_rules = []\<rparr>"
  let ?gpu = "sample_spec ''gpu'' (SemVersion_of 1 0 0)"
  have "symmetry rdma_rule = Symmetric" by code_simp
  moreover have "dec_outcome (EvaluatePair ?g ?gpu plain_nic) = DCompatible"
    unfolding EvaluatePair_fields by code_simp
  moreover have "dec_outcome (EvaluatePair ?g plain_nic ?gpu) = DIncompatible"
    unfolding EvaluatePair_fields by code_simp
  ultimately show ?thesis unfolding g Let_def by simp
qed

text \<open>The capability implications of a rule play no part in a decision: a component that declares
  the first capability and, with closed knowledge, lacks the required second one is still
  compatible.\<close>

theorem implications_not_evaluated:
  "let k = rdma_rule\<lparr>implications := [\<lparr>imp_side = Left, if_present = TypedId ''rdma'', then_required = TypedId ''roce''\<rparr>]\<rparr>;
       g = compiled (sample_document [k]); gpu = sample_spec ''gpu'' (SemVersion_of 1 0 0)
   in CapabilitiesClosed gpu \<and> omap_has (spec_capabilities gpu) (TypedId ''rdma'') \<and>
      \<not> omap_has (spec_capabilities gpu) (TypedId ''roce'') \<and>
      dec_outcome (EvaluatePair g gpu plain_nic) = DCompatible"
proof -
  let ?k = "rdma_rule\<lparr>implications := [\<lparr>imp_side = Left, if_present = TypedId ''rdma'', then_required = TypedId ''roce''\<rparr>]\<rparr>"
  have "lc_state (lifecycle ?k) = Active" and "arity ?k = PairRule" by code_simp+
  then obtain i where g: "compiled (sample_document [?k]) =
      \<lparr>document = sample_document [NormalizeRule ?k], gen_id = i, active_pair_rules = [0], active_set_rules = []\<rparr>"
    by (rule compiled_one_rule)
  let ?g = "\<lparr>document = sample_document [NormalizeRule ?k], gen_id = i, active_pair_rules = [0], active_set_rules = []\<rparr>"
  let ?gpu = "sample_spec ''gpu'' (SemVersion_of 1 0 0)"
  have "dec_outcome (EvaluatePair ?g ?gpu plain_nic) = DCompatible"
    unfolding EvaluatePair_fields by code_simp
  moreover have "CapabilitiesClosed ?gpu" "omap_has (spec_capabilities ?gpu) (TypedId ''rdma'')"
    "\<not> omap_has (spec_capabilities ?gpu) (TypedId ''roce'')" by code_simp+
  ultimately show ?thesis unfolding g Let_def by simp
qed

end
