(* ===== verification/Diff.thy ===== *)
theory Diff
  imports Registry
begin

text \<open>
  Comparing generations (second half of \<open>src/decision_io.cpp\<close>): the difference of two rule sets and
  taxonomies, the replay of queries under both, and the provenance history of a rule, each with its
  text.
\<close>

section \<open>Generation diff\<close>

datatype RuleDiffKind = Added | Removed | Modified | Unchanged

fun RuleDiffKindName :: "RuleDiffKind \<Rightarrow> string" where
  "RuleDiffKindName Added = ''added''"
| "RuleDiffKindName Removed = ''removed''"
| "RuleDiffKindName Modified = ''modified''"
| "RuleDiffKindName Unchanged = ''unchanged''"

record RuleDiffEntry =
  de_rule :: RuleRef
  de_kind :: RuleDiffKind
  before_digest :: "ContentDigest option"
  after_digest :: "ContentDigest option"
  changed_fields :: "string list"

record GenerationDiff =
  diff_from :: GenerationId
  diff_to :: GenerationId
  diff_rules :: "RuleDiffEntry list"
  taxonomy_changes :: "string list"
  added :: nat
  removed :: nat
  modified :: nat
  unchanged :: nat

definition diff_IsEmpty :: "GenerationDiff \<Rightarrow> bool" where
  "diff_IsEmpty d = (added d = 0 \<and> removed d = 0 \<and> modified d = 0 \<and> taxonomy_changes d = [])"

text \<open>The rules of a generation by identity; \<open>emplace\<close> keeps the first of several with one identity.\<close>

definition rules_by_id :: "RegistryGeneration \<Rightarrow> (RuleId, Rule) omap" where
  "rules_by_id g =
     foldl (\<lambda>m k. if omap_has m (rule_id k) then m else omap_put (rule_id k) k m) [] (rules (document g))"

text \<open>Equality of selectors; two absent ranges are equal.\<close>

definition selector_eq :: "ComponentSelector \<Rightarrow> ComponentSelector \<Rightarrow> bool" where
  "selector_eq a b =
     (sel_family a = sel_family b \<and> sel_kind a = sel_kind b \<and>
      (case (sel_version a, sel_version b) of (None, None) \<Rightarrow> True | (Some x, Some y) \<Rightarrow> range_eq x y | _ \<Rightarrow> False) \<and>
      sel_hardware_class a = sel_hardware_class b)"

definition implications_equal :: "CapabilityImplication list \<Rightarrow> CapabilityImplication list \<Rightarrow> bool" where
  "implications_equal xs ys =
     list_all2 (\<lambda>x y. imp_side x = imp_side y \<and> if_present x = if_present y \<and> then_required x = then_required y) xs ys"

definition field_changes :: "Rule \<Rightarrow> Rule \<Rightarrow> string list" where
  "field_changes a b =
     (let field = (\<lambda>changed name. if changed then [name] else [])
      in field (revision a \<noteq> revision b) ''revision'' @
         field (priority a \<noteq> priority b) ''priority'' @
         field (origin a \<noteq> origin b) ''origin'' @
         field (symmetry a \<noteq> symmetry b) ''symmetry'' @
         field (arity a \<noteq> arity b) ''arity'' @
         field (outcome a \<noteq> outcome b) ''outcome'' @
         field (\<not> selector_eq (left_selector a) (left_selector b)) ''left'' @
         field (\<not> selector_eq (right_selector a) (right_selector b)) ''right'' @
         field (\<not> ConstraintListsEqual (constraints a) (constraints b)) ''constraints'' @
         field (\<not> implications_equal (implications a) (implications b)) ''implications'' @
         field (negotiation a \<noteq> negotiation b) ''negotiation'' @
         field (on_unmet a \<noteq> on_unmet b) ''on_unmet_requirement'' @
         field (on_indeterminate a \<noteq> on_indeterminate b) ''on_indeterminate'' @
         field (lifecycle a \<noteq> lifecycle b) ''lifecycle'' @
         field (provenance a \<noteq> provenance b) ''provenance'' @
         field (rationale a \<noteq> rationale b) ''rationale'')"

text \<open>The entry of one identity that occurs before or after.\<close>

definition diff_entry :: "Rule option \<Rightarrow> Rule option \<Rightarrow> RuleDiffEntry list" where
  "diff_entry before after =
     (case (before, after) of
        (None, None) \<Rightarrow> []
      | (None, Some b) \<Rightarrow> [\<lparr>de_rule = Rule_Ref b, de_kind = Added, before_digest = None,
          after_digest = Some (RuleContentDigest b), changed_fields = []\<rparr>]
      | (Some a, None) \<Rightarrow> [\<lparr>de_rule = Rule_Ref a, de_kind = Removed, before_digest = Some (RuleContentDigest a),
          after_digest = None, changed_fields = []\<rparr>]
      | (Some a, Some b) \<Rightarrow>
          (let same = RuleContentDigest a = RuleContentDigest b
           in [\<lparr>de_rule = Rule_Ref b, de_kind = (if same then Unchanged else Modified),
             before_digest = Some (RuleContentDigest a), after_digest = Some (RuleContentDigest b),
             changed_fields = (if same then [] else field_changes a b)\<rparr>]))"

definition count_kind :: "RuleDiffKind \<Rightarrow> RuleDiffEntry list \<Rightarrow> nat" where
  "count_kind k es = length (filter (\<lambda>e. de_kind e = k) es)"

text \<open>One table of the taxonomy.\<close>

definition compare_section ::
  "string \<Rightarrow> ('v \<Rightarrow> 'v \<Rightarrow> bool) \<Rightarrow> ('t TypedId, 'v) omap \<Rightarrow> ('t TypedId, 'v) omap \<Rightarrow> string list" where
  "compare_section what eq a b =
     map (\<lambda>e. what @ '': removed '' @ quoted (id_value (fst e))) (filter (\<lambda>e. \<not> omap_has b (fst e)) a) @
     concat (map (\<lambda>e.
       (case omap_get a (fst e) of
          None \<Rightarrow> [what @ '': added '' @ quoted (id_value (fst e))]
        | Some d \<Rightarrow> if eq d (snd e) then [] else [what @ '': changed '' @ quoted (id_value (fst e))])) b)"

definition taxonomy_diff :: "Taxonomy \<Rightarrow> Taxonomy \<Rightarrow> string list" where
  "taxonomy_diff a b =
     sort_by (<)
       (compare_section ''families'' (=) (families a) (families b) @
        compare_section ''kinds'' (=) (kinds a) (kinds b) @
        compare_section ''protocols'' (=) (protocols a) (protocols b) @
        compare_section ''schemas'' (=) (schemas a) (schemas b) @
        compare_section ''hardware_classes'' (=) (hardware_classes a) (hardware_classes b) @
        compare_section ''features'' (=) (features a) (features b) @
        compare_section ''capabilities'' (=) (capabilities a) (capabilities b))"

definition DiffGenerations :: "RegistryGeneration \<Rightarrow> RegistryGeneration \<Rightarrow> GenerationDiff" where
  "DiffGenerations before after =
     (let bs = rules_by_id before; as = rules_by_id after;
          ids = map fst (foldl (\<lambda>m e. omap_put (fst e) () m) (foldl (\<lambda>m e. omap_put (fst e) () m) [] bs) as);
          entries = concat (map (\<lambda>i. diff_entry (omap_get bs i) (omap_get as i)) ids)
      in \<lparr>diff_from = gen_id before, diff_to = gen_id after,
          diff_rules = sort_by (\<lambda>x y. de_rule x < de_rule y) entries,
          taxonomy_changes = taxonomy_diff (taxonomy before) (taxonomy after),
          added = count_kind Added entries, removed = count_kind Removed entries,
          modified = count_kind Modified entries, unchanged = count_kind Unchanged entries\<rparr>)"

definition digest_json :: "ContentDigest \<Rightarrow> JsonValue" where
  "digest_json d = JStr (ToHex d)"

definition diff_entry_json :: "RuleDiffEntry \<Rightarrow> JsonValue" where
  "diff_entry_json e =
     (let j = Set (JObj []) ''rule'' (JStr (RuleRef_ToString (de_rule e)));
          j = Set j ''kind'' (JStr (RuleDiffKindName (de_kind e)));
          j = set_option ''before_digest'' digest_json (before_digest e) j;
          j = set_option ''after_digest'' digest_json (after_digest e) j
      in Set j ''changed_fields'' (JArr (map JStr (changed_fields e))))"

definition GenerationDiffToJson :: "GenerationDiff \<Rightarrow> JsonValue" where
  "GenerationDiffToJson d =
     (let j = Set (JObj []) ''from'' (generation_json (diff_from d));
          j = Set j ''to'' (generation_json (diff_to d));
          j = Set j ''added'' (JUInt (of_nat (added d)));
          j = Set j ''removed'' (JUInt (of_nat (removed d)));
          j = Set j ''modified'' (JUInt (of_nat (modified d)));
          j = Set j ''unchanged'' (JUInt (of_nat (unchanged d)));
          j = Set j ''empty'' (JBool (diff_IsEmpty d));
          j = Set j ''rules'' (JArr (map diff_entry_json (diff_rules d)))
      in Set j ''taxonomy_changes'' (JArr (map JStr (taxonomy_changes d))))"

definition diff_line :: "RuleDiffEntry \<Rightarrow> string" where
  "diff_line e =
     (if de_kind e = Unchanged then []
      else ''  '' @ RuleDiffKindName (de_kind e) @ '' '' @ RuleRef_ToString (de_rule e) @
        (if changed_fields e = [] then [] else '' fields='' @ join_with '','' (changed_fields e)) @ nl)"

definition RenderGenerationDiff :: "GenerationDiff \<Rightarrow> string" where
  "RenderGenerationDiff d =
     ''generation diff '' @ GenerationId_ToString (diff_from d) @ '' -> '' @ GenerationId_ToString (diff_to d) @ nl @
     ''  added: '' @ to_string (added d) @ ''  removed: '' @ to_string (removed d) @
     ''  modified: '' @ to_string (modified d) @ ''  unchanged: '' @ to_string (unchanged d) @ nl @
     concat (map diff_line (diff_rules d)) @
     concat (map (\<lambda>c. ''  taxonomy '' @ c @ nl) (taxonomy_changes d))"

section \<open>Replay\<close>

record DecisionChange =
  chg_subjects :: "ComponentRef list"
  before_outcome :: DecisionOutcome
  after_outcome :: DecisionOutcome
  before_id :: DecisionId
  after_id :: DecisionId
  before_rule :: "RuleRef option"
  after_rule :: "RuleRef option"

record DecisionReplayDiff =
  replay_from :: GenerationId
  replay_to :: GenerationId
  replay_changes :: "DecisionChange list"
  compared :: nat

definition replay_change :: "RegistryGeneration \<Rightarrow> RegistryGeneration \<Rightarrow> ComponentSpec list \<Rightarrow> DecisionChange result" where
  "replay_change before after query =
     (case query of
        [l, r] \<Rightarrow>
          (let b = EvaluatePair before l r; a = EvaluatePair after l r
           in Inr \<lparr>chg_subjects = subjects b, before_outcome = dec_outcome b, after_outcome = dec_outcome a,
             before_id = dec_id b, after_id = dec_id a, before_rule = deciding_rule b, after_rule = deciding_rule a\<rparr>)
      | _ \<Rightarrow>
          if length query > 2 then
            res_bind (EvaluateSet before query) (\<lambda>b.
            res_bind (EvaluateSet after query) (\<lambda>a.
              Inr \<lparr>chg_subjects = members b, before_outcome = sd_outcome b, after_outcome = sd_outcome a,
                before_id = sd_id b, after_id = sd_id a, before_rule = None, after_rule = None\<rparr>))
          else Fail InvalidArgument)"

definition is_change :: "DecisionChange \<Rightarrow> bool" where
  "is_change c = (before_outcome c \<noteq> after_outcome c \<or> before_id c \<noteq> after_id c)"

fun replay_loop :: "RegistryGeneration \<Rightarrow> RegistryGeneration \<Rightarrow> ComponentSpec list list \<Rightarrow>
    DecisionReplayDiff \<Rightarrow> DecisionReplayDiff result" where
  "replay_loop before after [] acc = Inr acc"
| "replay_loop before after (q # qs) acc =
     res_bind (replay_change before after q) (\<lambda>c.
       replay_loop before after qs
         (acc\<lparr>compared := compared acc + 1,
           replay_changes := (if is_change c then replay_changes acc @ [c] else replay_changes acc)\<rparr>))"

definition ReplayDiff :: "RegistryGeneration \<Rightarrow> RegistryGeneration \<Rightarrow> ComponentSpec list list \<Rightarrow> DecisionReplayDiff result" where
  "ReplayDiff before after queries =
     replay_loop before after queries
       \<lparr>replay_from = gen_id before, replay_to = gen_id after, replay_changes = [], compared = 0\<rparr>"

section \<open>Provenance\<close>

record ProvenanceRecord =
  rec_rule :: RuleRef
  rec_generation :: GenerationNumber
  rec_digest :: ContentDigest
  rec_provenance :: RuleProvenance
  rec_lifecycle :: LifecycleState
  rec_present :: bool

text \<open>The provenance of a removed rule: what a default-constructed record holds.\<close>

definition no_provenance :: RuleProvenance where
  "no_provenance = \<lparr>publisher = TypedId [], prov_source = [], prov_reference = [], recorded_at = 0, change_note = []\<rparr>"

text \<open>The loop over the generations, oldest first; \<open>current\<close> is the digest of the rule in the last one
  that holds it, gone after a removal.\<close>

fun provenance_loop :: "RuleId \<Rightarrow> ContentDigest option \<Rightarrow> RegistryGeneration option list \<Rightarrow> ProvenanceRecord list" where
  "provenance_loop i current [] = []"
| "provenance_loop i current (None # gs) = provenance_loop i current gs"
| "provenance_loop i current (Some g # gs) =
     (case List.find (\<lambda>k. rule_id k = i) (rules (document g)) of
        None \<Rightarrow>
          (case current of
             None \<Rightarrow> provenance_loop i None gs
           | Some d \<Rightarrow>
               \<lparr>rec_rule = RuleRef i 0, rec_generation = gen_number (gen_id g), rec_digest = d,
                rec_provenance = no_provenance, rec_lifecycle = Active, rec_present = False\<rparr>
               # provenance_loop i None gs)
      | Some k \<Rightarrow>
          (let d = RuleContentDigest k
           in if current = Some d then provenance_loop i current gs
              else \<lparr>rec_rule = Rule_Ref k, rec_generation = gen_number (gen_id g), rec_digest = d,
                rec_provenance = provenance k, rec_lifecycle = lc_state (lifecycle k), rec_present = True\<rparr>
                # provenance_loop i (Some d) gs))"

definition ProvenanceHistory :: "RuleId \<Rightarrow> RegistryGeneration option list \<Rightarrow> ProvenanceRecord list" where
  "ProvenanceHistory i gs = provenance_loop i None gs"

definition provenance_line :: "ProvenanceRecord \<Rightarrow> string" where
  "provenance_line r =
     ''  gen-'' @ to_string (unat (rec_generation r)) @ '' '' @
     (if \<not> rec_present r then ''removed (last digest '' @ take 16 (ToHex (rec_digest r)) @ '')'' @ nl
      else RuleRef_ToString (rec_rule r) @ '' digest='' @ take 16 (ToHex (rec_digest r)) @
        '' state='' @ LifecycleStateName (rec_lifecycle r) @
        '' publisher='' @ id_value (publisher (rec_provenance r)) @
        nonempty_text '' source='' (prov_source (rec_provenance r)) @
        nonempty_text '' reference='' (prov_reference (rec_provenance r)) @
        '' recorded_at='' @ ToIso8601 (recorded_at (rec_provenance r)) @
        nonempty_text '' note='' (change_note (rec_provenance r)) @ nl)"

definition RenderProvenanceHistory :: "ProvenanceRecord list \<Rightarrow> string" where
  "RenderProvenanceHistory rs =
     ''rule provenance history ('' @ to_string (length rs) @ '' record(s))'' @ nl @
     concat (map provenance_line rs)"

end
