(* ===== verification/DiffFacts.thy ===== *)
theory DiffFacts
  imports Diff
begin

text \<open>
  What the comparison of generations reports: the difference partitions the identities, it is empty
  exactly when nothing changed, a replay under one generation shows no change, and the provenance
  history follows the digest of a rule.
\<close>

section \<open>Rules by identity\<close>

definition find_rule :: "RegistryGeneration \<Rightarrow> RuleId \<Rightarrow> Rule option" where
  "find_rule g i = List.find (\<lambda>k. rule_id k = i) (rules (document g))"

lemma rules_by_id_aux:
  assumes "omap_ok m"
  shows "omap_ok (foldl (\<lambda>m k. if omap_has m (rule_id k) then m else omap_put (rule_id k) k m) m ks) \<and>
    omap_get (foldl (\<lambda>m k. if omap_has m (rule_id k) then m else omap_put (rule_id k) k m) m ks) i =
      (case omap_get m i of Some k \<Rightarrow> Some k | None \<Rightarrow> List.find (\<lambda>k. rule_id k = i) ks)"
  using assms
proof (induction ks arbitrary: m)
  case (Cons k ks)
  show ?case
  proof (cases "omap_has m (rule_id k)")
    case True
    then show ?thesis using Cons by (auto simp: omap_has_def split: option.splits)
  next
    case False
    then show ?thesis
      using Cons.IH [of "omap_put (rule_id k) k m"] Cons.prems
      by (auto simp: omap_has_def omap_get_put omap_ok_put split: option.splits)
  qed
qed (auto split: option.splits)

lemma rules_by_id [simp]: "omap_ok (rules_by_id g)" "omap_get (rules_by_id g) i = find_rule g i"
  using rules_by_id_aux [of "[]" "rules (document g)" i] by (simp_all add: rules_by_id_def find_rule_def)

definition rule_ids :: "RegistryGeneration \<Rightarrow> RuleId set" where
  "rule_ids g = rule_id ` set (rules (document g))"

lemma mem_rule_ids: "i \<in> rule_ids g \<longleftrightarrow> find_rule g i \<noteq> None"
  by (auto simp: rule_ids_def find_rule_def find_None_iff)

lemma keys_rules_by_id: "set (map fst (rules_by_id g)) = rule_ids g"
proof -
  have "i \<in> set (map fst (rules_by_id g)) \<longleftrightarrow> i \<in> rule_ids g" for i
    unfolding mem_rule_ids rules_by_id(2) [symmetric] omap_get_def map_of_eq_None_iff by simp
  then show ?thesis by blast
qed

lemma put_keys_fold:
  "omap_ok m \<Longrightarrow> omap_ok (foldl (\<lambda>m e. omap_put (fst e) () m) m es) \<and>
     fst ` set (foldl (\<lambda>m e. omap_put (fst e) () m) m es) = fst ` set m \<union> fst ` set es"
  by (induction es arbitrary: m) (auto simp: omap_ok_put keys_omap_put)

definition all_ids :: "RegistryGeneration \<Rightarrow> RegistryGeneration \<Rightarrow> RuleId list" where
  "all_ids a b = map fst (foldl (\<lambda>m e. omap_put (fst e) () m)
     (foldl (\<lambda>m e. omap_put (fst e) () m) [] (rules_by_id a)) (rules_by_id b))"

lemma all_ids: "distinct (all_ids a b)" "set (all_ids a b) = rule_ids a \<union> rule_ids b"
proof -
  let ?m = "foldl (\<lambda>m e. omap_put (fst e) () m) [] (rules_by_id a)"
  have m: "omap_ok ?m" "fst ` set ?m = rule_ids a"
    using put_keys_fold [of "[]" "rules_by_id a"] keys_rules_by_id [of a] by auto
  show "distinct (all_ids a b)"
    unfolding all_ids_def using put_keys_fold [OF m(1)] omap_ok_distinct by blast
  show "set (all_ids a b) = rule_ids a \<union> rule_ids b"
    unfolding all_ids_def using put_keys_fold [OF m(1), of "rules_by_id b"] m(2) keys_rules_by_id [of b] by simp
qed

section \<open>The partition\<close>

definition id_entry :: "RegistryGeneration \<Rightarrow> RegistryGeneration \<Rightarrow> RuleId \<Rightarrow> RuleDiffEntry list" where
  "id_entry a b i = diff_entry (find_rule a i) (find_rule b i)"

lemma DiffGenerations_eq:
  "DiffGenerations a b =
     (let entries = concat (map (id_entry a b) (all_ids a b))
      in \<lparr>diff_from = gen_id a, diff_to = gen_id b,
          diff_rules = sort_by (\<lambda>x y. de_rule x < de_rule y) entries,
          taxonomy_changes = taxonomy_diff (taxonomy a) (taxonomy b),
          added = count_kind Added entries, removed = count_kind Removed entries,
          modified = count_kind Modified entries, unchanged = count_kind Unchanged entries\<rparr>)"
  by (simp add: DiffGenerations_def all_ids_def id_entry_def [abs_def])

text \<open>How an identity changed.\<close>

definition id_kind :: "RegistryGeneration \<Rightarrow> RegistryGeneration \<Rightarrow> RuleId \<Rightarrow> RuleDiffKind" where
  "id_kind a b i =
     (case (find_rule a i, find_rule b i) of
        (Some x, Some y) \<Rightarrow> if RuleContentDigest x = RuleContentDigest y then Unchanged else Modified
      | (Some _, None) \<Rightarrow> Removed
      | (None, _) \<Rightarrow> Added)"

lemma id_entry_kind: "i \<in> rule_ids a \<union> rule_ids b \<Longrightarrow> map de_kind (id_entry a b i) = [id_kind a b i]"
  by (auto simp: mem_rule_ids id_entry_def diff_entry_def id_kind_def Let_def split: option.splits)

lemma count_entries:
  assumes "distinct is" and "set is \<subseteq> rule_ids a \<union> rule_ids b"
  shows "count_kind k (concat (map (id_entry a b) is)) = card {i \<in> set is. id_kind a b i = k}"
  using assms
proof (induction "is")
  case (Cons i "is")
  have "map de_kind (id_entry a b i) = [id_kind a b i]" using Cons.prems id_entry_kind by simp
  then obtain e where e: "id_entry a b i = [e]" "de_kind e = id_kind a b i" by auto
  have "{j \<in> set (i # is). id_kind a b j = k} =
      (if id_kind a b i = k then insert i {j \<in> set is. id_kind a b j = k} else {j \<in> set is. id_kind a b j = k})"
    by auto
  then show ?case using Cons e by (simp add: count_kind_def)
qed (simp add: count_kind_def)

lemma length_entries:
  assumes "set is \<subseteq> rule_ids a \<union> rule_ids b"
  shows "length (concat (map (id_entry a b) is)) = length is"
  using assms
proof (induction "is")
  case (Cons i "is")
  then have "map de_kind (id_entry a b i) = [id_kind a b i]" using id_entry_kind by simp
  then have "length (id_entry a b i) = 1" by (metis length_map length_Cons list.size(3) One_nat_def)
  then show ?case using Cons by simp
qed simp


section \<open>The empty difference\<close>

lemma compare_section_Nil:
  assumes "omap_ok a" and "omap_ok b"
  shows "compare_section what (=) a b = [] \<longleftrightarrow> a = b"
proof
  assume "compare_section what (=) a b = []"
  then have sub: "\<And>k v. (k, v) \<in> set a \<Longrightarrow> omap_has b k"
    and sup: "\<And>k v. (k, v) \<in> set b \<Longrightarrow> omap_get a k = Some v"
    by (fastforce simp: compare_section_def filter_empty_conv split: option.splits if_splits)+
  have "omap_get a k = omap_get b k" for k
  proof (cases "omap_get b k")
    case None
    then have "\<not> (\<exists>v. (k, v) \<in> set a)" using sub [of k] unfolding omap_has_def by blast
    then show ?thesis using None omap_get_iff [OF assms(1), of k] by (cases "omap_get a k") auto
  next
    case (Some v)
    then have "(k, v) \<in> set b" using omap_get_iff [OF assms(2)] by blast
    then show ?thesis using sup Some by simp
  qed
  then show "a = b" using omap_ext [OF assms] by blast
next
  assume "a = b"
  moreover have "omap_get b k = Some v" if "(k, v) \<in> set b" for k v
    using that omap_get_iff [OF assms(2)] by blast
  ultimately show "compare_section what (=) a b = []"
    by (fastforce simp: compare_section_def filter_empty_conv omap_has_def split: option.splits)
qed

definition tables_ok :: "Taxonomy \<Rightarrow> bool" where
  "tables_ok t \<longleftrightarrow> omap_ok (families t) \<and> omap_ok (kinds t) \<and> omap_ok (protocols t) \<and> omap_ok (schemas t) \<and>
     omap_ok (hardware_classes t) \<and> omap_ok (features t) \<and> omap_ok (capabilities t)"

lemma taxonomy_diff_Nil: "tables_ok a \<Longrightarrow> tables_ok b \<Longrightarrow> taxonomy_diff a b = [] \<longleftrightarrow> a = b"
  by (cases a; cases b) (auto simp: taxonomy_diff_def tables_ok_def compare_section_Nil)

text \<open>The difference of two generations whose taxonomies are well formed is empty exactly when
  both have the same taxonomy and the same rule identities with the same content digests.\<close>

theorem DiffGenerations_empty:
  assumes "tables_ok (taxonomy a)" and "tables_ok (taxonomy b)"
  shows "diff_IsEmpty (DiffGenerations a b) \<longleftrightarrow> taxonomy a = taxonomy b \<and>
    (\<forall>i. map_option RuleContentDigest (find_rule a i) = map_option RuleContentDigest (find_rule b i))"
proof -
  let ?is = "all_ids a b"
  have sets: "set ?is \<subseteq> rule_ids a \<union> rule_ids b" by (simp add: all_ids)
  have finite_ids: "finite {i \<in> set ?is. P i}" for P by simp
  have zero: "count_kind k (concat (map (id_entry a b) ?is)) = 0 \<longleftrightarrow> (\<forall>i\<in>rule_ids a \<union> rule_ids b. id_kind a b i \<noteq> k)" for k
    unfolding count_entries [OF all_ids(1) sets] card_eq_0_iff using finite_ids by (auto simp: all_ids(2))
  have pointwise: "(i \<in> rule_ids a \<union> rule_ids b \<longrightarrow> id_kind a b i = Unchanged) \<longleftrightarrow>
      map_option RuleContentDigest (find_rule a i) = map_option RuleContentDigest (find_rule b i)" for i
    by (cases "find_rule a i"; cases "find_rule b i") (simp_all add: mem_rule_ids id_kind_def)
  have "(\<forall>i\<in>rule_ids a \<union> rule_ids b. id_kind a b i = Unchanged) \<longleftrightarrow>
      (\<forall>i. map_option RuleContentDigest (find_rule a i) = map_option RuleContentDigest (find_rule b i))"
    using pointwise by blast
  moreover have "id_kind a b i = Unchanged \<longleftrightarrow> id_kind a b i \<noteq> Added \<and> id_kind a b i \<noteq> Removed \<and> id_kind a b i \<noteq> Modified" for i
    by (cases "id_kind a b i") auto
  ultimately show ?thesis
    unfolding DiffGenerations_eq Let_def diff_IsEmpty_def
    by (simp add: zero taxonomy_diff_Nil [OF assms]) blast
qed

section \<open>Replay\<close>

lemma replay_same:
  "replay_change g g q = Inr c \<Longrightarrow> \<not> is_change c"
  by (auto simp: replay_change_def Let_def is_change_def result_simps split: list.splits if_splits)

lemma replay_change_fails: "(\<exists>e. replay_change g g q = Inl e) \<longleftrightarrow> length q < 2 \<or> length q > kMaxSetMembers"
  by (cases q rule: remdups_adj.cases; cases "tl (tl q)")
     (auto simp: replay_change_def EvaluateSet_def Let_def kMaxSetMembers_def split: list.splits if_splits)

lemma replay_loop_same:
  "case replay_loop g g qs acc of
     Inl e \<Rightarrow> list_ex (\<lambda>q. length q < 2 \<or> length q > kMaxSetMembers) qs
   | Inr d \<Rightarrow> list_all (\<lambda>q. 2 \<le> length q \<and> length q \<le> kMaxSetMembers) qs \<and>
       replay_changes d = replay_changes acc \<and> compared d = compared acc + length qs"
proof (induction qs arbitrary: acc)
  case (Cons q qs)
  show ?case
  proof (cases "replay_change g g q")
    case (Inl e)
    then show ?thesis using replay_change_fails [of g q] by auto
  next
    case (Inr c)
    then have "2 \<le> length q \<and> length q \<le> kMaxSetMembers" using replay_change_fails [of g q] by force
    then show ?thesis
      using Inr replay_same [OF Inr] Cons.IH [of "acc\<lparr>compared := compared acc + 1, replay_changes := replay_changes acc\<rparr>"]
      by (auto split: sum.splits)
  qed
qed simp

text \<open>A replay of queries under twice the same generation answers exactly when every query is about
  2 to 64 components; then it has compared every query and shows no change.\<close>

theorem ReplayDiff_same:
  "case ReplayDiff g g qs of
     Inl e \<Rightarrow> list_ex (\<lambda>q. length q < 2 \<or> length q > kMaxSetMembers) qs
   | Inr d \<Rightarrow> list_all (\<lambda>q. 2 \<le> length q \<and> length q \<le> kMaxSetMembers) qs \<and>
       replay_changes d = [] \<and> compared d = length qs"
  using replay_loop_same [where g = g and qs = qs and acc = "\<lparr>replay_from = gen_id g, replay_to = gen_id g, replay_changes = [], compared = 0\<rparr>"]
  by (auto simp: ReplayDiff_def split: sum.splits)

lemma DiffGenerations_empty_witness:
  "\<not> diff_IsEmpty (DiffGenerations (compiled (sample_document [sample_rule ''a'' Compatible []]))
     (compiled (sample_document [sample_rule ''b'' Compatible []])))"
proof -
  let ?g = "\<lambda>n. compiled (sample_document [sample_rule n Compatible []])"
  have doc: "document (?g n) = Normalize (sample_document [sample_rule n Compatible []])" for n
    by (simp add: compiled_def Let_def)
  have tax: "taxonomy (?g n) = sample_taxonomy" for n
    unfolding doc by (simp add: Normalize_def sample_document_def)
  have "tables_ok sample_taxonomy" by code_simp
  moreover have "find_rule (?g ''a'') (TypedId ''a'') \<noteq> None" "find_rule (?g ''b'') (TypedId ''a'') = None"
    unfolding find_rule_def doc by code_simp+
  ultimately show ?thesis
    using DiffGenerations_empty [of "?g ''a''" "?g ''b''"] unfolding tax by (metis option.map_disc_iff)
qed

section \<open>Provenance\<close>

text \<open>The digest of a rule in a generation, if it holds the rule, and what a record says of it.\<close>

definition rule_digest :: "RuleId \<Rightarrow> RegistryGeneration \<Rightarrow> ContentDigest option" where
  "rule_digest i g = map_option RuleContentDigest (find_rule g i)"

definition record_digest :: "ProvenanceRecord \<Rightarrow> ContentDigest option" where
  "record_digest r = (if rec_present r then Some (rec_digest r) else None)"

lemma provenance_loop_digests:
  "current # map record_digest (provenance_loop i current gs) =
     remdups_adj (current # map (rule_digest i) (List.map_filter id gs))"
proof (induction i current gs rule: provenance_loop.induct)
  case (3 i current g gs)
  then show ?case
    by (cases "List.find (\<lambda>k. rule_id k = i) (rules (document g))"; cases current)
       (auto simp: map_filter_simps rule_digest_def find_rule_def record_digest_def Let_def)
qed (simp_all add: map_filter_simps)

text \<open>The provenance history of a rule is the sequence of its content digests over the
  generations with repetitions collapsed: one record for every generation that added, changed or
  removed the rule, and none for the others.\<close>

theorem ProvenanceHistory_digests:
  "None # map record_digest (ProvenanceHistory i gs) =
     remdups_adj (None # map (rule_digest i) (List.map_filter id gs))"
  unfolding ProvenanceHistory_def by (rule provenance_loop_digests)

end
