(* ===== verification/JsonText.thy ===== *)
theory JsonText
  imports Json
begin

text \<open>
  The text of JSON (the parser of \<open>src/json.cpp\<close>). The parser holds the rest of the text; a production
  returns what it read and what is left. The productions that call each other take fuel, of which
  twice the length of the text is enough.
\<close>

section \<open>Limits and blanks\<close>

record JsonLimits =
  max_bytes :: nat
  max_depth :: nat
  max_string_bytes :: nat
  max_elements :: nat

definition JsonLimits_default :: JsonLimits where
  "JsonLimits_default = \<lparr>max_bytes = 8 * 1024 * 1024, max_depth = 64, max_string_bytes = 1024 * 1024,
     max_elements = 1048576\<rparr>"

definition json_blank :: "char \<Rightarrow> bool" where
  "json_blank c = (c = CHR '' '' \<or> c = CHR 0x09 \<or> c = CHR 0x0A \<or> c = CHR 0x0D)"

definition SkipWhitespace :: "string \<Rightarrow> string" where
  "SkipWhitespace t = dropWhile json_blank t"

section \<open>Strings\<close>

definition hex4_digit :: "char \<Rightarrow> nat option" where
  "hex4_digit c =
     (if 48 \<le> char_code c \<and> char_code c \<le> 57 then Some (char_code c - 48)
      else if 97 \<le> char_code c \<and> char_code c \<le> 102 then Some (char_code c - 97 + 10)
      else if 65 \<le> char_code c \<and> char_code c \<le> 70 then Some (char_code c - 65 + 10)
      else None)"

fun hex4_value :: "nat \<Rightarrow> string \<Rightarrow> nat option" where
  "hex4_value v [] = Some v"
| "hex4_value v (c # cs) =
     (case hex4_digit c of None \<Rightarrow> None | Some d \<Rightarrow> hex4_value (v * 16 + d) cs)"

definition ParseHex4 :: "string \<Rightarrow> (nat \<times> string) result" where
  "ParseHex4 t =
     (if length t < 4 then Fail InvalidJson
      else case hex4_value 0 (take 4 t) of None \<Rightarrow> Fail InvalidJson | Some v \<Rightarrow> Inr (v, drop 4 t))"

definition AppendUtf8 :: "nat \<Rightarrow> string" where
  "AppendUtf8 p =
     (if p \<le> 0x7f then [char_of p]
      else if p \<le> 0x7ff then [char_of (0xc0 + p div 64), char_of (0x80 + p mod 64)]
      else if p \<le> 0xffff then
        [char_of (0xe0 + p div 4096), char_of (0x80 + p div 64 mod 64), char_of (0x80 + p mod 64)]
      else [char_of (0xf0 + p div 262144), char_of (0x80 + p div 4096 mod 64), char_of (0x80 + p div 64 mod 64),
        char_of (0x80 + p mod 64)])"

text \<open>What follows \<open>\u\<close>: the code point, from one or from a pair of surrogates.\<close>

definition unicode_escape :: "string \<Rightarrow> (string \<times> string) result" where
  "unicode_escape t =
     res_bind (ParseHex4 t) (\<lambda>(high, t).
       if 0xd800 \<le> high \<and> high \<le> 0xdbff then
         (if take 2 t \<noteq> [CHR 0x5C, CHR ''u''] then Fail InvalidJson
          else res_bind (ParseHex4 (drop 2 t)) (\<lambda>(low, t).
            if low < 0xdc00 \<or> low > 0xdfff then Fail InvalidJson
            else Inr (AppendUtf8 (0x10000 + (high - 0xd800) * 1024 + (low - 0xdc00)), t)))
       else if 0xdc00 \<le> high \<and> high \<le> 0xdfff then Fail InvalidJson
       else Inr (AppendUtf8 high, t))"

definition simple_escape :: "char \<Rightarrow> char option" where
  "simple_escape e =
     (if e = CHR 0x22 then Some (CHR 0x22)
      else if e = CHR 0x5C then Some (CHR 0x5C)
      else if e = CHR ''/'' then Some (CHR ''/'')
      else if e = CHR ''b'' then Some (CHR 0x08)
      else if e = CHR ''f'' then Some (CHR 0x0C)
      else if e = CHR ''n'' then Some (CHR 0x0A)
      else if e = CHR ''r'' then Some (CHR 0x0D)
      else if e = CHR ''t'' then Some (CHR 0x09)
      else None)"

text \<open>One character of a string: the bytes it stands for and the rest of the text.\<close>

definition string_unit :: "char \<Rightarrow> string \<Rightarrow> (string \<times> string) result" where
  "string_unit c t =
     (if char_code c < 32 then Fail InvalidJson
      else if c = CHR 0x5C then
        (case t of
           [] \<Rightarrow> Fail InvalidJson
         | e # t \<Rightarrow>
             (case simple_escape e of
                Some x \<Rightarrow> Inr ([x], t)
              | None \<Rightarrow> if e = CHR ''u'' then unicode_escape t else Fail InvalidJson))
      else Inr ([c], t))"

lemma ParseHex4_length: "ParseHex4 t = Inr (v, t') \<Longrightarrow> length t' < length t"
  by (auto simp: ParseHex4_def split: if_splits option.splits)

lemma string_unit_length: "string_unit c t = Inr (u, t') \<Longrightarrow> length t' \<le> length t"
  by (auto simp: string_unit_def unicode_escape_def result_simps
      split: if_splits list.splits option.splits dest!: ParseHex4_length)

function string_loop :: "nat \<Rightarrow> string \<Rightarrow> string \<Rightarrow> (string \<times> string) result" where
  "string_loop limit out [] = Fail InvalidJson"
| "string_loop limit out (c # t) =
     (if c = CHR 0x22 then Inr (out, t)
      else case string_unit c t of
        Inl e \<Rightarrow> Inl e
      | Inr (u, t') \<Rightarrow>
          if length (out @ u) > limit then Fail LimitExceeded else string_loop limit (out @ u) t')"
  by pat_completeness auto

termination
  by (relation "measure (\<lambda>(l, out, t). length t)") (auto dest!: string_unit_length)

definition ParseString :: "JsonLimits \<Rightarrow> string \<Rightarrow> (string \<times> string) result" where
  "ParseString lim t =
     (case t of
        c # t' \<Rightarrow> if c = CHR 0x22 then string_loop (max_string_bytes lim) [] t' else Fail InvalidJson
      | [] \<Rightarrow> Fail InvalidJson)"

section \<open>Numbers\<close>

text \<open>\<open>std::from_chars\<close> for a double: digits, digits of the fraction, exponent. A value that is not zero
  and too large or too small for a double is out of range.\<close>

definition double_from_chars :: "bool \<Rightarrow> string \<Rightarrow> string \<Rightarrow> int \<Rightarrow> double option" where
  "double_from_chars negative whole fraction x =
     (let n = decimal (whole @ fraction); y = x - int (length fraction);
          magnitude = if n = 0 then Some 0
            else case (if y \<ge> 0 then nearest_double (n * 10 ^ nat y) 1 else nearest_double n (10 ^ nat (- y))) of
              None \<Rightarrow> None | Some b \<Rightarrow> if b = 0 then None else Some b
      in case magnitude of None \<Rightarrow> None | Some b \<Rightarrow> Some (if negative then set_bit 63 b else b))"

definition digits_of :: "string \<Rightarrow> string" where
  "digits_of t = takeWhile IsDigit t"

definition after_digits :: "string \<Rightarrow> string" where
  "after_digits t = dropWhile IsDigit t"

definition number_fraction :: "string \<Rightarrow> (string \<times> string) result" where
  "number_fraction t =
     (if take 1 t = ''.'' then
        (if digits_of (drop 1 t) = [] then Fail InvalidJson
         else Inr (digits_of (drop 1 t), after_digits (drop 1 t)))
      else Inr ([], t))"

definition number_exponent :: "string \<Rightarrow> (int \<times> string) result" where
  "number_exponent t =
     (if take 1 t = ''e'' \<or> take 1 t = ''E'' then
        (let u = drop 1 t; minus = take 1 u = ''-'';
             v = if minus \<or> take 1 u = ''+'' then drop 1 u else u
         in if digits_of v = [] then Fail InvalidJson
            else Inr (if minus then - int (decimal (digits_of v)) else int (decimal (digits_of v)), after_digits v))
      else Inr (0, t))"

definition ParseNumber :: "string \<Rightarrow> (JsonValue \<times> string) result" where
  "ParseNumber t =
     (let negative = take 1 t = ''-''; t1 = if negative then drop 1 t else t; ds = digits_of t1; t2 = after_digits t1
      in if ds = [] then Fail InvalidJson
         else if hd ds = CHR ''0'' \<and> length ds > 1 then Fail InvalidJson
         else if take 1 t2 \<noteq> ''.'' \<and> take 1 t2 \<noteq> ''e'' \<and> take 1 t2 \<noteq> ''E'' then
           (if \<not> negative then
              (if decimal ds \<ge> 2 ^ 64 then Fail InvalidJson else Inr (JUInt (of_nat (decimal ds)), t2))
            else if decimal ds \<ge> 2 ^ 63 then Fail InvalidJson
            else Inr (JInt (- int (decimal ds)), t2))
         else
           res_bind (number_fraction t2) (\<lambda>(fraction, t3).
           res_bind (number_exponent t3) (\<lambda>(x, t4).
             case double_from_chars negative ds fraction x of
               None \<Rightarrow> Fail InvalidJson
             | Some b \<Rightarrow> Inr (JDouble b, t4))))"

section \<open>Values\<close>

definition literal_then :: "string \<Rightarrow> JsonValue \<Rightarrow> string \<Rightarrow> (JsonValue \<times> string) result" where
  "literal_then word v t =
     (if take (length word) t = word then Inr (v, drop (length word) t) else Fail InvalidJson)"

fun ParseValue :: "nat \<Rightarrow> JsonLimits \<Rightarrow> nat \<Rightarrow> string \<Rightarrow> (JsonValue \<times> string) result"
  and ParseArray :: "nat \<Rightarrow> JsonLimits \<Rightarrow> nat \<Rightarrow> JsonValue list \<Rightarrow> string \<Rightarrow> (JsonValue \<times> string) result"
  and ParseObject :: "nat \<Rightarrow> JsonLimits \<Rightarrow> nat \<Rightarrow> JsonValue \<Rightarrow> string \<Rightarrow> (JsonValue \<times> string) result" where
  "ParseValue 0 lim depth t = Inl Out_Of_Fuel"
| "ParseValue (Suc fuel) lim depth t =
     (if depth > max_depth lim then Fail LimitExceeded
      else case t of
        [] \<Rightarrow> Fail InvalidJson
      | c # u \<Rightarrow>
          if c = CHR ''{'' then
            (if take 1 (SkipWhitespace u) = ''}'' then Inr (JObj [], drop 1 (SkipWhitespace u))
             else ParseObject fuel lim depth (JObj []) (SkipWhitespace u))
          else if c = CHR ''['' then
            (if take 1 (SkipWhitespace u) = '']'' then Inr (JArr [], drop 1 (SkipWhitespace u))
             else ParseArray fuel lim depth [] (SkipWhitespace u))
          else if c = CHR 0x22 then res_bind (ParseString lim t) (\<lambda>(s, r). Inr (JStr s, r))
          else if c = CHR ''t'' then literal_then ''true'' (JBool True) t
          else if c = CHR ''f'' then literal_then ''false'' (JBool False) t
          else if c = CHR ''n'' then literal_then ''null'' JNull t
          else if c = CHR ''-'' \<or> IsDigit c then ParseNumber t
          else Fail InvalidJson)"
| "ParseArray 0 lim depth acc t = Inl Out_Of_Fuel"
| "ParseArray (Suc fuel) lim depth acc t =
     (case ParseValue fuel lim (depth + 1) (SkipWhitespace t) of
        Inl e \<Rightarrow> Inl e
      | Inr (v, r) \<Rightarrow>
          if length (acc @ [v]) > max_elements lim then Fail LimitExceeded
          else case SkipWhitespace r of
            [] \<Rightarrow> Fail InvalidJson
          | c # r \<Rightarrow>
              if c = CHR '','' then ParseArray fuel lim depth (acc @ [v]) r
              else if c = CHR '']'' then Inr (JArr (acc @ [v]), r)
              else Fail InvalidJson)"
| "ParseObject 0 lim depth obj t = Inl Out_Of_Fuel"
| "ParseObject (Suc fuel) lim depth obj t =
     (case ParseString lim (SkipWhitespace t) of
        Inl e \<Rightarrow> Inl e
      | Inr (key, r) \<Rightarrow>
          (case SkipWhitespace r of
             [] \<Rightarrow> Fail InvalidJson
           | c # r \<Rightarrow>
               if c \<noteq> CHR '':'' then Fail InvalidJson
               else case ParseValue fuel lim (depth + 1) (SkipWhitespace r) of
                 Inl e \<Rightarrow> Inl e
               | Inr (v, r) \<Rightarrow>
                   if Has obj key then Fail InvalidJson
                   else if json_size (Set obj key v) > max_elements lim then Fail LimitExceeded
                   else case SkipWhitespace r of
                     [] \<Rightarrow> Fail InvalidJson
                   | c # r \<Rightarrow>
                       if c = CHR '','' then ParseObject fuel lim depth (Set obj key v) r
                       else if c = CHR ''}'' then Inr (Set obj key v, r)
                       else Fail InvalidJson))"

definition json_run :: "JsonLimits \<Rightarrow> string \<Rightarrow> JsonValue result" where
  "json_run lim t =
     res_bind (ParseValue (2 * length t + 1) lim 0 (SkipWhitespace t)) (\<lambda>(v, r).
       if SkipWhitespace r = [] then Inr v else Fail InvalidJson)"

definition ParseJson :: "string \<Rightarrow> JsonLimits \<Rightarrow> JsonValue result" where
  "ParseJson t lim = (if length t > max_bytes lim then Fail LimitExceeded else json_run lim t)"

end
