(* ===== verification/JsonTextFacts.thy ===== *)
theory JsonTextFacts
  imports JsonText
begin

text \<open>
  What the JSON parser guarantees: it always answers, what it returns is canonical and within the
  limits, and the printed form of a value is read back.
\<close>

section \<open>The parser answers\<close>

lemma string_loop_length: "string_loop limit out t = Inr (s, r) \<Longrightarrow> length r < length t"
  by (induction limit out t rule: string_loop.induct)
     (fastforce split: if_splits sum.splits prod.splits dest: string_unit_length)+

lemma ParseString_length: "ParseString lim t = Inr (s, r) \<Longrightarrow> length r < length t"
  by (auto simp: ParseString_def split: list.splits if_splits dest!: string_loop_length)

lemma SkipWhitespace_length: "length (SkipWhitespace t) \<le> length t"
  by (simp add: SkipWhitespace_def length_dropWhile_le)

lemma after_digits_length: "length (after_digits t) \<le> length t"
  by (simp add: after_digits_def length_dropWhile_le)

lemma number_fraction_length: "number_fraction t = Inr (ds, r) \<Longrightarrow> length r \<le> length t"
  using after_digits_length [of "drop 1 t"] by (auto simp: number_fraction_def split: if_splits)

lemma number_exponent_length: "number_exponent t = Inr (x, r) \<Longrightarrow> length r \<le> length t"
  using after_digits_length [of "drop 1 t"] after_digits_length [of "drop 1 (drop 1 t)"]
  by (auto simp: number_exponent_def Let_def split: if_splits)

lemma after_digits_less: "digits_of t \<noteq> [] \<Longrightarrow> length (after_digits t) < length t"
  by (metis add_cancel_right_left after_digits_def digits_of_def le_add2 length_0_conv length_append
      nat_less_le takeWhile_dropWhile_id)

lemma ParseNumber_length: "ParseNumber t = Inr (v, r) \<Longrightarrow> length r < length t"
  using after_digits_less [of t] after_digits_less [of "drop 1 t"]
  by (auto simp: ParseNumber_def Let_def result_simps split: if_splits option.splits
      dest!: number_fraction_length number_exponent_length)

lemma literal_then_length: "literal_then w v t = Inr (x, r) \<Longrightarrow> w \<noteq> [] \<Longrightarrow> length r < length t"
  by (cases t) (auto simp: literal_then_def neq_Nil_conv split: if_splits)

section \<open>The grammar\<close>

text \<open>The language the parser accepts, without fuel: \<open>json_value d t v r\<close> holds when the text
  \<open>t\<close> at depth \<open>d\<close> begins with the value \<open>v\<close> and goes on with \<open>r\<close>. The elements and members carry what
  was read before them.\<close>

inductive json_value :: "JsonLimits \<Rightarrow> nat \<Rightarrow> string \<Rightarrow> JsonValue \<Rightarrow> string \<Rightarrow> bool"
  and json_elements :: "JsonLimits \<Rightarrow> nat \<Rightarrow> JsonValue list \<Rightarrow> string \<Rightarrow> JsonValue \<Rightarrow> string \<Rightarrow> bool"
  and json_member_list :: "JsonLimits \<Rightarrow> nat \<Rightarrow> JsonValue \<Rightarrow> string \<Rightarrow> JsonValue \<Rightarrow> string \<Rightarrow> bool"
  for lim :: JsonLimits where
  empty_object: "d \<le> max_depth lim \<Longrightarrow> SkipWhitespace u = CHR ''}'' # r \<Longrightarrow> json_value lim d (CHR ''{'' # u) (JObj []) r"
| object_value: "d \<le> max_depth lim \<Longrightarrow> take 1 (SkipWhitespace u) \<noteq> ''}'' \<Longrightarrow>
     json_member_list lim d (JObj []) (SkipWhitespace u) v r \<Longrightarrow> json_value lim d (CHR ''{'' # u) v r"
| empty_array: "d \<le> max_depth lim \<Longrightarrow> SkipWhitespace u = CHR '']'' # r \<Longrightarrow> json_value lim d (CHR ''['' # u) (JArr []) r"
| array_value: "d \<le> max_depth lim \<Longrightarrow> take 1 (SkipWhitespace u) \<noteq> '']'' \<Longrightarrow>
     json_elements lim d [] (SkipWhitespace u) v r \<Longrightarrow> json_value lim d (CHR ''['' # u) v r"
| string_value: "d \<le> max_depth lim \<Longrightarrow> ParseString lim t = Inr (s, r) \<Longrightarrow> json_value lim d t (JStr s) r"
| true_value: "d \<le> max_depth lim \<Longrightarrow> json_value lim d (''true'' @ r) (JBool True) r"
| false_value: "d \<le> max_depth lim \<Longrightarrow> json_value lim d (''false'' @ r) (JBool False) r"
| null_value: "d \<le> max_depth lim \<Longrightarrow> json_value lim d (''null'' @ r) JNull r"
| number_value: "d \<le> max_depth lim \<Longrightarrow> ParseNumber t = Inr (v, r) \<Longrightarrow> json_value lim d t v r"
| last_element: "json_value lim (d + 1) (SkipWhitespace t) v r \<Longrightarrow> length acc < max_elements lim \<Longrightarrow>
     SkipWhitespace r = CHR '']'' # r' \<Longrightarrow> json_elements lim d acc t (JArr (acc @ [v])) r'"
| more_elements: "json_value lim (d + 1) (SkipWhitespace t) v r \<Longrightarrow> length acc < max_elements lim \<Longrightarrow>
     SkipWhitespace r = CHR '','' # r' \<Longrightarrow> json_elements lim d (acc @ [v]) r' w r'' \<Longrightarrow>
     json_elements lim d acc t w r''"
| last_member: "ParseString lim (SkipWhitespace t) = Inr (key, r1) \<Longrightarrow> SkipWhitespace r1 = CHR '':'' # r2 \<Longrightarrow>
     json_value lim (d + 1) (SkipWhitespace r2) v r3 \<Longrightarrow> \<not> Has obj key \<Longrightarrow>
     json_size (Set obj key v) \<le> max_elements lim \<Longrightarrow> SkipWhitespace r3 = CHR ''}'' # r4 \<Longrightarrow>
     json_member_list lim d obj t (Set obj key v) r4"
| more_members: "ParseString lim (SkipWhitespace t) = Inr (key, r1) \<Longrightarrow> SkipWhitespace r1 = CHR '':'' # r2 \<Longrightarrow>
     json_value lim (d + 1) (SkipWhitespace r2) v r3 \<Longrightarrow> \<not> Has obj key \<Longrightarrow>
     json_size (Set obj key v) \<le> max_elements lim \<Longrightarrow> SkipWhitespace r3 = CHR '','' # r4 \<Longrightarrow>
     json_member_list lim d (Set obj key v) r4 w r5 \<Longrightarrow> json_member_list lim d obj t w r5"

lemmas json_intros = json_value_json_elements_json_member_list.intros
lemmas json_induct = json_value_json_elements_json_member_list.inducts

lemma literal_then_Inr: "literal_then w v t = Inr (x, r) \<longleftrightarrow> t = w @ r \<and> x = v"
  by (auto simp: literal_then_def split: if_splits) (metis append_take_drop_id)

lemma ParseValue_sound:
  assumes arr: "\<And>d acc t v r. ParseArray n lim d acc t = Inr (v, r) \<Longrightarrow> json_elements lim d acc t v r"
    and obj: "\<And>d ob t v r. ParseObject n lim d ob t = Inr (v, r) \<Longrightarrow> json_member_list lim d ob t v r"
    and p: "ParseValue (Suc n) lim d t = Inr (v, r)"
  shows "json_value lim d t v r"
proof -
  have d: "d \<le> max_depth lim" using p by (auto split: if_splits)
  obtain c u where t: "t = c # u" using p by (cases t) (auto split: if_splits)
  consider "c = CHR ''{''" | "c = CHR ''[''" | "c = CHR 0x22" | "c = CHR ''t''" | "c = CHR ''f''" | "c = CHR ''n''"
    | "c \<notin> {CHR ''{'', CHR ''['', CHR 0x22, CHR ''t'', CHR ''f'', CHR ''n''}" by blast
  then show ?thesis
  proof cases
    case 1
    then show ?thesis
      using p t d by (cases "SkipWhitespace u") (auto intro!: json_intros(1) json_intros(2) obj split: if_splits)
  next
    case 2
    then show ?thesis
      using p t d by (cases "SkipWhitespace u") (auto intro!: json_intros(3) json_intros(4) arr split: if_splits)
  next
    case 3
    then show ?thesis using p t d by (auto simp: result_simps intro: json_intros)
  next
    case 4
    then show ?thesis using p t d json_intros(6) by (auto simp: literal_then_Inr)
  next
    case 5
    then show ?thesis using p t d json_intros(7) by (auto simp: literal_then_Inr)
  next
    case 6
    then show ?thesis using p t d json_intros(8) by (auto simp: literal_then_Inr)
  next
    case 7
    then have "ParseNumber t = Inr (v, r)" using p t by (auto split: if_splits)
    with d show ?thesis by (rule json_intros(9))
  qed
qed

lemma ParseArray_sound:
  assumes val: "\<And>d t v r. ParseValue n lim d t = Inr (v, r) \<Longrightarrow> json_value lim d t v r"
    and arr: "\<And>d acc t v r. ParseArray n lim d acc t = Inr (v, r) \<Longrightarrow> json_elements lim d acc t v r"
    and p: "ParseArray (Suc n) lim d acc t = Inr (w, r)"
  shows "json_elements lim d acc t w r"
proof -
  obtain v r1 where v: "ParseValue n lim (d + 1) (SkipWhitespace t) = Inr (v, r1)"
    using p by (auto split: sum.splits prod.splits)
  then obtain c r2 where s: "SkipWhitespace r1 = c # r2" "length acc < max_elements lim"
    using p by (cases "SkipWhitespace r1") (auto split: if_splits)
  show ?thesis
    using p v s val [OF v] by (auto intro: json_intros arr split: if_splits)
qed

lemma ParseObject_sound:
  assumes val: "\<And>d t v r. ParseValue n lim d t = Inr (v, r) \<Longrightarrow> json_value lim d t v r"
    and obj: "\<And>d ob t v r. ParseObject n lim d ob t = Inr (v, r) \<Longrightarrow> json_member_list lim d ob t v r"
    and p: "ParseObject (Suc n) lim d ob t = Inr (w, r)"
  shows "json_member_list lim d ob t w r"
proof -
  obtain key r1 where k: "ParseString lim (SkipWhitespace t) = Inr (key, r1)"
    using p by (auto split: sum.splits prod.splits)
  then obtain r2 where s: "SkipWhitespace r1 = CHR '':'' # r2"
    using p by (cases "SkipWhitespace r1") (auto split: if_splits)
  then obtain v r3 where v: "ParseValue n lim (d + 1) (SkipWhitespace r2) = Inr (v, r3)"
    using p k by (auto split: sum.splits prod.splits)
  then obtain c r4 where e: "SkipWhitespace r3 = c # r4" "\<not> Has ob key" "json_size (Set ob key v) \<le> max_elements lim"
    using p k s by (cases "SkipWhitespace r3") (auto split: if_splits)
  show ?thesis
    using p k s v e val [OF v] by (auto intro: json_intros obj split: if_splits)
qed

lemma parse_sound:
  "(\<forall>d t v r. ParseValue n lim d t = Inr (v, r) \<longrightarrow> json_value lim d t v r) \<and>
   (\<forall>d acc t v r. ParseArray n lim d acc t = Inr (v, r) \<longrightarrow> json_elements lim d acc t v r) \<and>
   (\<forall>d ob t v r. ParseObject n lim d ob t = Inr (v, r) \<longrightarrow> json_member_list lim d ob t v r)"
proof (induction n)
  case (Suc n)
  then have v: "ParseValue n lim d t = Inr (v, r) \<Longrightarrow> json_value lim d t v r"
    and a: "ParseArray n lim d acc t = Inr (v, r) \<Longrightarrow> json_elements lim d acc t v r"
    and b: "ParseObject n lim d ob t = Inr (v, r) \<Longrightarrow> json_member_list lim d ob t v r" for d t v r acc ob
    by blast+
  show ?case
    by (intro conjI allI impI; (rule ParseValue_sound [OF a b] | rule ParseArray_sound [OF v a] | rule ParseObject_sound [OF v b]); assumption)
qed auto

text \<open>Every production consumes a character.\<close>

lemma grammar_length:
  "json_value lim d t v r \<Longrightarrow> length r < length t"
  "json_elements lim d acc t v r \<Longrightarrow> length r < length t"
  "json_member_list lim d ob t v r \<Longrightarrow> length r < length t"
proof (induction rule: json_induct)
  case (empty_object d u r)
  then show ?case using SkipWhitespace_length [of u] by simp
next
  case (empty_array d u r)
  then show ?case using SkipWhitespace_length [of u] by simp
next
  case (object_value d u v r)
  then show ?case using SkipWhitespace_length [of u] by simp
next
  case (array_value d u v r)
  then show ?case using SkipWhitespace_length [of u] by simp
next
  case (last_element d t v r acc r')
  then show ?case using SkipWhitespace_length [of t] SkipWhitespace_length [of r] by simp
next
  case (more_elements d t v r acc r' w r'')
  then show ?case using SkipWhitespace_length [of t] SkipWhitespace_length [of r] by simp
next
  case (last_member t key r1 r2 d v r3 ob r4)
  then show ?case
    using SkipWhitespace_length [of t] SkipWhitespace_length [of r1] SkipWhitespace_length [of r2]
      SkipWhitespace_length [of r3] ParseString_length [of lim "SkipWhitespace t" key r1] by simp
next
  case (more_members t key r1 r2 d v r3 ob r4 w r5)
  then show ?case
    using SkipWhitespace_length [of t] SkipWhitespace_length [of r1] SkipWhitespace_length [of r2]
      SkipWhitespace_length [of r3] ParseString_length [of lim "SkipWhitespace t" key r1] by simp
qed (auto dest: ParseString_length ParseNumber_length)

lemma ParseString_head: "ParseString lim t = Inr (s, r) \<Longrightarrow> \<exists>u. t = CHR 0x22 # u"
  by (auto simp: ParseString_def split: list.splits if_splits)

lemma ParseNumber_head: "ParseNumber t = Inr (v, r) \<Longrightarrow> \<exists>c u. t = c # u \<and> (c = CHR ''-'' \<or> IsDigit c)"
  by (cases t) (auto simp: ParseNumber_def Let_def digits_of_def split: if_splits)

lemma IsDigit_not: "\<not> IsDigit (CHR ''{'')" "\<not> IsDigit (CHR ''['')" "\<not> IsDigit (CHR 0x22)" "\<not> IsDigit (CHR ''t'')"
  "\<not> IsDigit (CHR ''f'')" "\<not> IsDigit (CHR ''n'')" "\<not> IsDigit (CHR '']'')" "\<not> IsDigit (CHR ''}'')"
  "\<not> IsDigit (CHR '','')" "\<not> IsDigit (CHR '' '')" "\<not> IsDigit (CHR 0x0A)" "\<not> IsDigit (CHR ''.'')" "\<not> IsDigit (CHR ''e'')"
  "\<not> IsDigit (CHR ''E'')" "\<not> IsDigit (CHR ''-'')" "\<not> IsDigit (CHR '':'')" "\<not> IsDigit (CHR 0x5C)"
  by code_simp+

text \<open>Fuel of twice the length of the text is enough for every text of the language.\<close>

lemma grammar_complete:
  "json_value lim d t v r \<Longrightarrow> 2 * length t < n \<Longrightarrow> ParseValue n lim d t = Inr (v, r)"
  "json_elements lim d acc t v r \<Longrightarrow> 2 * length t + 1 < n \<Longrightarrow> ParseArray n lim d acc t = Inr (v, r)"
  "json_member_list lim d ob t v r \<Longrightarrow> 2 * length t + 1 < n \<Longrightarrow> ParseObject n lim d ob t = Inr (v, r)"
proof (induction arbitrary: n and n and n rule: json_induct)
  case (empty_object d u r)
  then show ?case by (cases n) auto
next
  case (empty_array d u r)
  then show ?case by (cases n) auto
next
  case (object_value d u v r)
  then show ?case using SkipWhitespace_length [of u] by (cases n) auto
next
  case (array_value d u v r)
  then show ?case using SkipWhitespace_length [of u] by (cases n) auto
next
  case (string_value d t s r)
  then show ?case using ParseString_head [of lim t s r] by (cases n) auto
next
  case (true_value d r)
  then show ?case by (cases n) (auto simp: literal_then_def)
next
  case (false_value d r)
  then show ?case by (cases n) (auto simp: literal_then_def)
next
  case (null_value d r)
  then show ?case by (cases n) (auto simp: literal_then_def)
next
  case (number_value d t v r)
  then obtain c u where t: "t = c # u" "c = CHR ''-'' \<or> IsDigit c" using ParseNumber_head by blast
  then have "c \<notin> {CHR ''{'', CHR ''['', CHR 0x22, CHR ''t'', CHR ''f'', CHR ''n''}" using IsDigit_not by auto
  then show ?case using number_value t by (cases n) simp_all
next
  case (last_element d t v r acc r')
  then show ?case using SkipWhitespace_length [of t] by (cases n) auto
next
  case (more_elements d t v r acc r' w r'')
  have "length r < length t" using grammar_length(1) [OF more_elements(1)] SkipWhitespace_length [of t] by simp
  then have "2 * length r' + 1 < n - 1"
    using more_elements.prems SkipWhitespace_length [of r] \<open>SkipWhitespace r = CHR '','' # r'\<close> by simp
  then show ?case using more_elements SkipWhitespace_length [of t] by (cases n) auto
next
  case (last_member t key r1 r2 d v r3 ob r4)
  have "2 * length (SkipWhitespace r2) < n - 1"
    using last_member.prems SkipWhitespace_length [of r2] SkipWhitespace_length [of r1] SkipWhitespace_length [of t]
      ParseString_length [OF last_member(1)] \<open>SkipWhitespace r1 = CHR '':'' # r2\<close> by simp
  then show ?case using last_member by (cases n) auto
next
  case (more_members t key r1 r2 d v r3 ob r4 w r5)
  have a: "2 * length (SkipWhitespace r2) < n - 1"
    using more_members.prems SkipWhitespace_length [of r2] SkipWhitespace_length [of r1] SkipWhitespace_length [of t]
      ParseString_length [OF more_members(1)] \<open>SkipWhitespace r1 = CHR '':'' # r2\<close> by simp
  moreover have "length r4 < length (SkipWhitespace r2)"
    using grammar_length(1) [OF \<open>json_value lim (d + 1) (SkipWhitespace r2) v r3\<close>] SkipWhitespace_length [of r3] \<open>SkipWhitespace r3 = CHR '','' # r4\<close> by simp
  ultimately show ?case using more_members by (cases n) auto
qed

lemma string_loop_fuel: "string_loop limit out t \<noteq> Inl Out_Of_Fuel"
  by (induction limit out t rule: string_loop.induct)
     (auto simp: string_unit_def unicode_escape_def ParseHex4_def result_simps split: sum.splits if_splits option.splits list.splits)

lemma number_parts_fuel: "number_fraction t \<noteq> Inl Out_Of_Fuel" "number_exponent t \<noteq> Inl Out_Of_Fuel"
  by (simp_all add: number_fraction_def number_exponent_def Let_def)

lemma ParseNumber_fuel: "ParseNumber t \<noteq> Inl Out_Of_Fuel"
proof -
  have "res_bind (number_fraction u) (\<lambda>(f, a). res_bind (number_exponent a) (\<lambda>(x, b).
      case double_from_chars m ds f x of None \<Rightarrow> Fail InvalidJson | Some w \<Rightarrow> Inr (JDouble w, b))) \<noteq> Inl Out_Of_Fuel" for u m ds
    by (auto simp: res_bind_Inl number_parts_fuel split: option.splits)
  then show ?thesis by (simp add: ParseNumber_def Let_def)
qed

lemma leaf_fuel: "ParseString lim t \<noteq> Inl Out_Of_Fuel" "literal_then w x t \<noteq> Inl Out_Of_Fuel"
  by (auto simp: ParseString_def string_loop_fuel literal_then_def split: list.splits)

lemma parse_fuel:
  "(\<forall>d t. 2 * length t < n \<longrightarrow> ParseValue n lim d t \<noteq> Inl Out_Of_Fuel) \<and>
   (\<forall>d acc t. 2 * length t + 1 < n \<longrightarrow> ParseArray n lim d acc t \<noteq> Inl Out_Of_Fuel) \<and>
   (\<forall>d ob t. 2 * length t + 1 < n \<longrightarrow> ParseObject n lim d ob t \<noteq> Inl Out_Of_Fuel)"
proof (induction n)
  case (Suc n)
  then have v: "2 * length t < n \<Longrightarrow> ParseValue n lim d t \<noteq> Inl Out_Of_Fuel"
    and a: "2 * length t + 1 < n \<Longrightarrow> ParseArray n lim d acc t \<noteq> Inl Out_Of_Fuel"
    and b: "2 * length t + 1 < n \<Longrightarrow> ParseObject n lim d ob t \<noteq> Inl Out_Of_Fuel" for d acc ob and t :: string
    by blast+
  have len: "length r < length t" if "ParseValue n lim d t = Inr (x, r)" for d t x r
    using that parse_sound [of n lim] grammar_length(1) by blast
  show ?case
  proof (intro conjI allI impI)
    fix d and t :: string assume "2 * length t < Suc n"
    then show "ParseValue (Suc n) lim d t \<noteq> Inl Out_Of_Fuel"
      using a b SkipWhitespace_length [of "tl t"] leaf_fuel ParseNumber_fuel by (cases t) (auto simp: res_bind_Inl)
  next
    fix d acc and t :: string assume n: "2 * length t + 1 < Suc n"
    show "ParseArray (Suc n) lim d acc t \<noteq> Inl Out_Of_Fuel"
    proof (cases "ParseValue n lim (d + 1) (SkipWhitespace t)")
      case (Inl e)
      then show ?thesis using n v [of "SkipWhitespace t" "d + 1"] SkipWhitespace_length [of t] by auto
    next
      case (Inr x)
      then obtain y r where x: "ParseValue n lim (d + 1) (SkipWhitespace t) = Inr (y, r)" by (cases x) auto
      then have "length (SkipWhitespace r) < length t"
        using len [OF x] SkipWhitespace_length [of t] SkipWhitespace_length [of r] by simp
      then show ?thesis using n a x by (cases "SkipWhitespace r") auto
    qed
  next
    fix d ob and t :: string assume n: "2 * length t + 1 < Suc n"
    show "ParseObject (Suc n) lim d ob t \<noteq> Inl Out_Of_Fuel"
    proof (cases "ParseString lim (SkipWhitespace t)")
      case (Inl e)
      then show ?thesis using leaf_fuel(1) [of lim "SkipWhitespace t"] by auto
    next
      case (Inr x)
      then obtain key r1 where k: "ParseString lim (SkipWhitespace t) = Inr (key, r1)" by (cases x) auto
      show ?thesis
      proof (cases "SkipWhitespace r1")
        case (Cons c r2)
        have l: "length (SkipWhitespace r2) < length t - 1"
          using ParseString_length [OF k] Cons SkipWhitespace_length [of t] SkipWhitespace_length [of r1]
            SkipWhitespace_length [of r2] by simp
        show ?thesis
        proof (cases "ParseValue n lim (d + 1) (SkipWhitespace r2)")
          case (Inl e)
          then show ?thesis using k Cons n l v [of "SkipWhitespace r2" "d + 1"] by auto
        next
          case (Inr x)
          then obtain y r where x: "ParseValue n lim (d + 1) (SkipWhitespace r2) = Inr (y, r)" by (cases x) auto
          then have "length (SkipWhitespace r) < length t"
            using len [OF x] l SkipWhitespace_length [of r] by simp
          then show ?thesis using n b k x Cons by (cases "SkipWhitespace r") auto
        qed
      qed (use k in simp)
    qed
  qed
qed auto


section \<open>What it returns is canonical\<close>

text \<open>A value within the limits: the members of an object are sorted by key without repetition, the
  negative numbers fit 64 bits.\<close>

fun json_fits :: "JsonLimits \<Rightarrow> nat \<Rightarrow> JsonValue \<Rightarrow> bool" where
  "json_fits lim d (JInt i) = (d \<le> max_depth lim \<and> - (2 ^ 63) < i \<and> i \<le> 0)"
| "json_fits lim d (JStr s) = (d \<le> max_depth lim \<and> length s \<le> max_string_bytes lim)"
| "json_fits lim d (JArr vs) =
     (d \<le> max_depth lim \<and> length vs \<le> max_elements lim \<and> (\<forall>v\<in>set vs. json_fits lim (d + 1) v))"
| "json_fits lim d (JObj ms) =
     (d \<le> max_depth lim \<and> length ms \<le> max_elements lim \<and> omap_ok ms \<and>
      (\<forall>m\<in>set ms. length (fst m) \<le> max_string_bytes lim \<and> json_fits lim (d + 1) (snd m)))"
| "json_fits lim d v = (d \<le> max_depth lim)"

lemma string_loop_limit:
  "string_loop limit out t = Inr (s, r) \<Longrightarrow> length out \<le> limit \<Longrightarrow> length s \<le> limit"
  by (induction limit out t rule: string_loop.induct) (fastforce split: if_splits sum.splits prod.splits)+

lemma ParseString_limit: "ParseString lim t = Inr (s, r) \<Longrightarrow> length s \<le> max_string_bytes lim"
  by (auto simp: ParseString_def split: list.splits if_splits dest: string_loop_limit)

lemma ParseNumber_fits: "ParseNumber t = Inr (v, r) \<Longrightarrow> d \<le> max_depth lim \<Longrightarrow> json_fits lim d v"
  by (auto simp: ParseNumber_def Let_def result_simps split: if_splits option.splits)

lemma set_omap_put: "e \<in> set (omap_put k v m) \<Longrightarrow> e = (k, v) \<or> e \<in> set m"
  by (induction m) (auto split: if_splits)

definition fields_fit :: "JsonLimits \<Rightarrow> nat \<Rightarrow> JsonValue \<Rightarrow> bool" where
  "fields_fit lim d j \<longleftrightarrow> (\<exists>ms. j = JObj ms \<and> omap_ok ms \<and>
     (\<forall>m\<in>set ms. length (fst m) \<le> max_string_bytes lim \<and> json_fits lim (d + 1) (snd m)))"

lemma fields_fit_Set:
  "fields_fit lim d ob \<Longrightarrow> length k \<le> max_string_bytes lim \<Longrightarrow> json_fits lim (d + 1) v \<Longrightarrow>
     fields_fit lim d (Set ob k v)"
  by (fastforce simp: fields_fit_def Set_def omap_ok_put dest: set_omap_put)

lemma fields_fit_fits:
  "fields_fit lim d ob \<Longrightarrow> d \<le> max_depth lim \<Longrightarrow> json_size ob \<le> max_elements lim \<Longrightarrow> json_fits lim d ob"
  by (auto simp: fields_fit_def json_size_def)

lemma grammar_fits:
  "json_value lim d t v r \<Longrightarrow> json_fits lim d v"
  "json_elements lim d acc t v r \<Longrightarrow> d \<le> max_depth lim \<Longrightarrow> (\<forall>x\<in>set acc. json_fits lim (d + 1) x) \<Longrightarrow> json_fits lim d v"
  "json_member_list lim d ob t v r \<Longrightarrow> d \<le> max_depth lim \<Longrightarrow> fields_fit lim d ob \<Longrightarrow> json_fits lim d v"
proof (induction rule: json_induct)
  case (last_member t key r1 r2 d v r3 ob r4)
  then have "fields_fit lim d (Set ob key v)" by (intro fields_fit_Set) (auto dest: ParseString_limit)
  with last_member show ?case by (intro fields_fit_fits) auto
next
  case (more_members t key r1 r2 d v r3 ob r4 w r5)
  then have "fields_fit lim d (Set ob key v)" by (intro fields_fit_Set) (auto dest: ParseString_limit)
  with more_members show ?case by blast
qed (auto simp: fields_fit_def dest: ParseString_limit intro: ParseNumber_fits)

text \<open>What the parser returns is within every limit, its objects are sorted by key and have no
  repeated key.\<close>

theorem ParseJson_fits: "case ParseJson t lim of Inr v \<Rightarrow> json_fits lim 0 v | Inl e \<Rightarrow> True"
proof (cases "ParseJson t lim")
  case (Inr v)
  then obtain r where "json_value lim 0 (SkipWhitespace t) v r"
    by (auto simp: ParseJson_def json_run_def result_simps simp del: ParseValue.simps split: if_splits
        dest!: parse_sound [THEN conjunct1, rule_format])
  then show ?thesis using Inr grammar_fits(1) by simp
qed simp

section \<open>Reading back what was printed\<close>

text \<open>The values that print as text the parser reads: no doubles, and integers the parser accepts. A
  number that is not negative is read as an unsigned one.\<close>

fun json_plain :: "JsonValue \<Rightarrow> bool" where
  "json_plain (JInt i) = (- (2 ^ 63) < i \<and> i < 2 ^ 63)"
| "json_plain (JDouble b) = False"
| "json_plain (JArr vs) = (\<forall>v\<in>set vs. json_plain v)"
| "json_plain (JObj ms) = (\<forall>m\<in>set ms. json_plain (snd m))"
| "json_plain v = True"

fun json_norm :: "JsonValue \<Rightarrow> JsonValue" where
  "json_norm (JInt i) = (if i \<ge> 0 then JUInt (of_int i) else JInt i)"
| "json_norm (JArr vs) = JArr (map json_norm vs)"
| "json_norm (JObj ms) = JObj (map (\<lambda>m. (fst m, json_norm (snd m))) ms)"
| "json_norm v = v"

text \<open>Strings.\<close>

lemma hex4_digit: "n < 16 \<Longrightarrow> hex4_digit (hex_digit n) = Some n"
proof -
  have "\<forall>n\<in>set [0..<16]. hex4_digit (hex_digit n) = Some n" by code_simp
  then show "n < 16 \<Longrightarrow> ?thesis" by simp
qed

lemma hex_escape:
  "n < 32 \<Longrightarrow> hex4_value 0 [CHR ''0'', CHR ''0'', hex_digit (n div 16), hex_digit (n mod 16)] = Some n"
  using hex4_digit [of "n div 16"] hex4_digit [of "n mod 16"] hex4_digit [of 0]
  by (simp add: hex_digit_def less_mult_imp_div_less)

lemma unicode_escape_control:
  assumes "char_code c < 32"
  shows "unicode_escape (CHR ''0'' # CHR ''0'' # hex_digit (char_code c div 16) # hex_digit (char_code c mod 16) # r) =
    Inr ([c], r)"
  using hex_escape [OF assms] assms by (simp add: unicode_escape_def ParseHex4_def AppendUtf8_def)

lemma dump_char_unit:
  "\<exists>x u. dump_char c = x # u \<and> x \<noteq> CHR 0x22 \<and> string_unit x (u @ r) = Inr ([c], r)"
proof (cases "c \<in> {CHR 0x22, CHR 0x5C, CHR 0x08, CHR 0x0C, CHR 0x0A, CHR 0x0D, CHR 0x09}")
  case True
  have "\<not> char_code (CHR 0x5C) < 32" by code_simp
  then show ?thesis using True by (auto simp: dump_char_def string_unit_def simple_escape_def)
next
  case False
  have x: "\<not> char_code (CHR 0x5C) < 32" by code_simp
  have u: "simple_escape (CHR ''u'') = None" by code_simp
  show ?thesis
    using False x u unicode_escape_control [of c r]
    by (cases "char_code c < 32") (auto simp: dump_char_def string_unit_def)
qed

lemma string_loop_dump:
  "length (out @ s) \<le> limit \<Longrightarrow>
     string_loop limit out (concat (map dump_char s) @ CHR 0x22 # r) = Inr (out @ s, r)"
proof (induction s arbitrary: out)
  case (Cons c s)
  obtain x u where x: "dump_char c = x # u" "x \<noteq> CHR 0x22"
    "string_unit x (u @ concat (map dump_char s) @ CHR 0x22 # r) = Inr ([c], concat (map dump_char s) @ CHR 0x22 # r)"
    using dump_char_unit by blast
  then show ?case using Cons.IH [of "out @ [c]"] Cons.prems by simp
qed simp

lemma ParseString_dump: "length s \<le> max_string_bytes lim \<Longrightarrow> ParseString lim (DumpString s @ r) = Inr (s, r)"
  using string_loop_dump [of "[]" s "max_string_bytes lim" r] by (simp add: ParseString_def DumpString_def)

text \<open>Numbers.\<close>

definition delimited :: "string \<Rightarrow> bool" where
  "delimited r = (case r of [] \<Rightarrow> True | c # _ \<Rightarrow> \<not> IsDigit c \<and> c \<noteq> CHR ''.'' \<and> c \<noteq> CHR ''e'' \<and> c \<noteq> CHR ''E'')"

lemma digits_of_to_string: "delimited r \<Longrightarrow> digits_of (to_string n @ r) = to_string n \<and> after_digits (to_string n @ r) = r"
  using to_string_digits [of n]
  by (cases r) (auto simp: digits_of_def after_digits_def delimited_def list_all_iff takeWhile_append dropWhile_append)

lemma to_string_no_zero: "hd (to_string n) = CHR ''0'' \<Longrightarrow> length (to_string n) = 1"
  using to_string_hd [of n] by (cases "n = 0") (auto simp: to_string.simps [of 0])

lemma to_string_hd_digit: "\<exists>c u. to_string n = c # u \<and> IsDigit c"
  using to_string_digits [of n] by (cases "to_string n") auto

lemma delimited_take: "delimited r \<Longrightarrow> take 1 r \<noteq> ''.'' \<and> take 1 r \<noteq> ''e'' \<and> take 1 r \<noteq> ''E''"
  by (cases r) (auto simp: delimited_def)

lemma ParseNumber_unsigned:
  assumes "delimited r" "n < 2 ^ 64"
  shows "ParseNumber (to_string n @ r) = Inr (JUInt (of_nat n), r)"
proof -
  obtain c u where c: "to_string n = c # u" "IsDigit c" using to_string_hd_digit by blast
  then have "take 1 (to_string n @ r) \<noteq> ''-''" using IsDigit_not by auto
  then show ?thesis
    using assms digits_of_to_string [OF assms(1), of n] to_string_no_zero [of n] delimited_take [OF assms(1)]
    by (simp add: ParseNumber_def Let_def)
qed

lemma ParseNumber_negative:
  assumes "delimited r" "n < 2 ^ 63"
  shows "ParseNumber (CHR ''-'' # to_string n @ r) = Inr (JInt (- int n), r)"
  using assms digits_of_to_string [OF assms(1), of n] to_string_no_zero [of n] delimited_take [OF assms(1)]
  by (simp add: ParseNumber_def Let_def)

text \<open>Blanks and the first character of a printed value.\<close>

lemma SkipWhitespace_blank: "list_all json_blank w \<Longrightarrow> SkipWhitespace (w @ t) = SkipWhitespace t"
  by (induction w) (auto simp: SkipWhitespace_def)

lemma SkipWhitespace_solid: "\<not> json_blank c \<Longrightarrow> SkipWhitespace (c # t) = c # t"
  by (simp add: SkipWhitespace_def)

lemma SkipWhitespace_comma: "SkipWhitespace (CHR '','' # t) = CHR '','' # t"
  by (simp add: SkipWhitespace_solid json_blank_def)

lemma newline_indent_blank: "list_all json_blank (newline_indent p n)"
  by (auto simp: newline_indent_def json_blank_def list_all_iff)

definition solid :: "string \<Rightarrow> bool" where
  "solid t = (case t of [] \<Rightarrow> False | c # _ \<Rightarrow> \<not> json_blank c \<and> c \<noteq> CHR '']'' \<and> c \<noteq> CHR ''}'')"

lemma IsDigit_not_blank: "IsDigit c \<Longrightarrow> \<not> json_blank c \<and> c \<noteq> CHR '']'' \<and> c \<noteq> CHR ''}''"
  by (auto simp: json_blank_def IsDigit_def char_code_def)

lemma solid_append: "solid t \<Longrightarrow> solid (t @ r)"
  by (auto simp: solid_def split: list.splits)

lemma solid_skip: "solid t \<Longrightarrow> SkipWhitespace t = t"
  by (auto simp: solid_def SkipWhitespace_solid split: list.splits)

lemma solid_to_string: "solid (to_string n)"
  using to_string_hd_digit [of n] IsDigit_not_blank by (auto simp: solid_def)

lemma solid_DumpString: "solid (DumpString s)"
  by (simp add: solid_def DumpString_def json_blank_def)

lemma solid_DumpTo: "json_plain v \<Longrightarrow> solid (DumpTo p l v)"
  using solid_to_string
  by (cases v) (auto simp: solid_DumpString int_to_string_def json_blank_def, auto simp: solid_def json_blank_def)

lemma delimited_simps [simp]: "delimited []" "delimited (CHR '','' # r)" "delimited (CHR '']'' # r)" "delimited (CHR ''}'' # r)"
  by (simp_all add: delimited_def IsDigit_not)

lemma delimited_indent: "delimited r \<Longrightarrow> delimited (newline_indent p n @ r)"
  by (auto simp: newline_indent_def delimited_def IsDigit_not)

lemma SkipWhitespace_idem [simp]: "SkipWhitespace (SkipWhitespace t) = SkipWhitespace t"
  by (simp add: SkipWhitespace_def)

lemma elements_skip: "json_elements lim d acc t v r \<Longrightarrow> json_elements lim d acc (SkipWhitespace t) v r"
  by (erule json_elements.cases) (auto intro: json_intros(10) json_intros(11))

lemma members_skip: "json_member_list lim d ob t v r \<Longrightarrow> json_member_list lim d ob (SkipWhitespace t) v r"
  by (erule json_member_list.cases) (auto intro: json_intros(12) json_intros(13))

lemma skip_append: "solid t \<Longrightarrow> SkipWhitespace (t @ r) = t @ r"
  by (rule solid_skip [OF solid_append])

lemma skip_indent: "solid t \<Longrightarrow> SkipWhitespace (newline_indent p l @ t @ r) = t @ r"
  using solid_skip [OF solid_append, of t r] by (simp add: SkipWhitespace_blank newline_indent_blank)

lemma join_with_Cons: "ps \<noteq> [] \<Longrightarrow> join_with sep (p # ps) = p @ sep @ join_with sep ps"
  by (cases ps) simp_all

lemma dump_elements:
  assumes "\<And>v r. v \<in> set vs \<Longrightarrow> delimited r \<Longrightarrow> json_value lim (d + 1) (DumpTo p l v @ r) (json_norm v) r"
    and "\<forall>v\<in>set vs. json_plain v" and "length acc + length vs \<le> max_elements lim" and "vs \<noteq> []"
  shows "json_elements lim d acc
    (join_with '','' (map (\<lambda>v. newline_indent p l @ DumpTo p l v) vs) @ newline_indent p l' @ CHR '']'' # r)
    (JArr (acc @ map json_norm vs)) r"
  using assms
proof (induction vs arbitrary: acc)
  case (Cons v vs)
  have sol: "solid (DumpTo p l v)" using Cons.prems(2) by (simp add: solid_DumpTo)
  show ?case
  proof (cases "vs = []")
    case True
    have v: "json_value lim (d + 1) (DumpTo p l v @ newline_indent p l' @ CHR '']'' # r) (json_norm v)
        (newline_indent p l' @ CHR '']'' # r)"
      using Cons.prems(1) by (simp add: delimited_indent)
    have "json_elements lim d acc (newline_indent p l @ DumpTo p l v @ newline_indent p l' @ CHR '']'' # r)
        (JArr (acc @ [json_norm v])) r"
      by (rule json_intros(10) [where r = "newline_indent p l' @ CHR '']'' # r"])
        (use v Cons.prems(3) in \<open>simp_all add: skip_indent [OF sol] SkipWhitespace_blank newline_indent_blank
          SkipWhitespace_solid json_blank_def\<close>)
    then show ?thesis using True by simp
  next
    case False
    let ?rest = "join_with '','' (map (\<lambda>v. newline_indent p l @ DumpTo p l v) vs) @ newline_indent p l' @ CHR '']'' # r"
    have v: "json_value lim (d + 1) (DumpTo p l v @ CHR '','' # ?rest) (json_norm v) (CHR '','' # ?rest)"
      using Cons.prems(1) by simp
    have rest: "json_elements lim d (acc @ [json_norm v]) ?rest (JArr ((acc @ [json_norm v]) @ map json_norm vs)) r"
      using Cons.prems False by (intro Cons.IH) auto
    have "json_elements lim d acc (newline_indent p l @ DumpTo p l v @ CHR '','' # ?rest)
        (JArr ((acc @ [json_norm v]) @ map json_norm vs)) r"
      by (rule json_intros(11) [OF _ _ SkipWhitespace_comma rest, where t = "newline_indent p l @ DumpTo p l v @ CHR '','' # ?rest"])
        (use v Cons.prems(3) in \<open>simp_all add: skip_indent [OF sol]\<close>)
    moreover have "map (\<lambda>v. newline_indent p l @ DumpTo p l v) vs \<noteq> []" using False by simp
    ultimately show ?thesis by (simp only: join_with_Cons list.map append_Cons append_Nil append_assoc simp_thms)
  qed
qed simp

lemma omap_put_last: "\<forall>e\<in>set m. fst e < k \<Longrightarrow> omap_put k v m = m @ [(k, v)]"
  by (induction m) auto

lemma member_fresh:
  assumes "omap_ok (done @ (k, v) # ms)"
  shows "\<not> Has (JObj done) k" and "Set (JObj done) k v = JObj (done @ [(k, v)])"
proof -
  have lt: "\<forall>e\<in>set done. fst e < k" and ok: "omap_ok done"
    using assms by (auto simp: omap_ok_def sorted_wrt_append)
  then have "omap_get done k = None" by (auto simp: omap_get_def map_of_eq_None_iff)
  then show "\<not> Has (JObj done) k" using ok by (simp add: Has_def Find_object)
  show "Set (JObj done) k v = JObj (done @ [(k, v)])" using lt by (simp add: Set_def omap_put_last)
qed

text \<open>One printed member.\<close>

definition dump_member :: "bool \<Rightarrow> nat \<Rightarrow> string \<times> JsonValue \<Rightarrow> string" where
  "dump_member p l m = newline_indent p l @ DumpString (fst m) @ '':'' @ (if p then '' '' else []) @ DumpTo p l (snd m)"

lemma DumpTo_object: "ms \<noteq> [] \<Longrightarrow> DumpTo p l (JObj ms) =
    CHR ''{'' # join_with '','' (map (dump_member p (l + 1)) ms) @ newline_indent p l @ ''}''"
  by (simp add: dump_member_def [abs_def])

lemma skip_value: "solid t \<Longrightarrow> SkipWhitespace ((if p then '' '' else []) @ t @ r) = t @ r"
  using solid_skip [OF solid_append, of t r] by (simp add: SkipWhitespace_def json_blank_def)

lemma dump_members:
  assumes "\<And>m r. m \<in> set ms \<Longrightarrow> delimited r \<Longrightarrow> json_value lim (d + 1) (DumpTo p l (snd m) @ r) (json_norm (snd m)) r"
    and "\<forall>m\<in>set ms. json_plain (snd m) \<and> length (fst m) \<le> max_string_bytes lim"
    and "length done + length ms \<le> max_elements lim" and "ms \<noteq> []"
    and "omap_ok (done @ map (\<lambda>m. (fst m, json_norm (snd m))) ms)"
  shows "json_member_list lim d (JObj done) (join_with '','' (map (dump_member p l) ms) @ newline_indent p l' @ CHR ''}'' # r)
    (JObj (done @ map (\<lambda>m. (fst m, json_norm (snd m))) ms)) r"
  using assms
proof (induction ms arbitrary: "done")
  case (Cons m ms)
  let ?d = "done @ [(fst m, json_norm (snd m))]"
  have sol: "solid (DumpTo p l (snd m))" using Cons.prems(2) by (simp add: solid_DumpTo)
  note fresh = member_fresh [of "done" "fst m" "json_norm (snd m)" "map (\<lambda>m. (fst m, json_norm (snd m))) ms"]
  have new: "\<not> Has (JObj done) (fst m)" "Set (JObj done) (fst m) (json_norm (snd m)) = JObj ?d"
    using fresh Cons.prems(5) by simp_all
  have key: "ParseString lim (SkipWhitespace (dump_member p l m @ u)) =
      Inr (fst m, CHR '':'' # (if p then '' '' else []) @ DumpTo p l (snd m) @ u)" for u
    using ParseString_dump [of "fst m" lim] Cons.prems(2) skip_indent [OF solid_DumpString]
    by (simp add: dump_member_def)
  have size: "json_size (JObj ?d) \<le> max_elements lim" using Cons.prems(3) by (simp add: json_size_def)
  note colon = SkipWhitespace_solid [of "CHR '':''"]
  show ?case
  proof (cases "ms = []")
    case True
    have v: "json_value lim (d + 1) (DumpTo p l (snd m) @ newline_indent p l' @ CHR ''}'' # r) (json_norm (snd m))
        (newline_indent p l' @ CHR ''}'' # r)"
      using Cons.prems(1) by (simp add: delimited_indent)
    have "json_member_list lim d (JObj done) (dump_member p l m @ newline_indent p l' @ CHR ''}'' # r)
        (Set (JObj done) (fst m) (json_norm (snd m))) r"
      by (rule json_intros(12) [OF key colon, where ?r3.0 = "newline_indent p l' @ CHR ''}'' # r"])
        (use v new size in \<open>simp_all add: skip_value [OF sol] SkipWhitespace_blank newline_indent_blank
          SkipWhitespace_solid json_blank_def\<close>)
    then show ?thesis using True new by simp
  next
    case False
    let ?rest = "join_with '','' (map (dump_member p l) ms) @ newline_indent p l' @ CHR ''}'' # r"
    have v: "json_value lim (d + 1) (DumpTo p l (snd m) @ CHR '','' # ?rest) (json_norm (snd m)) (CHR '','' # ?rest)"
      using Cons.prems(1) by simp
    have rest: "json_member_list lim d (Set (JObj done) (fst m) (json_norm (snd m))) ?rest (JObj (?d @ map (\<lambda>m. (fst m, json_norm (snd m))) ms)) r"
      unfolding new using Cons.prems False by (intro Cons.IH) auto
    have "json_member_list lim d (JObj done) (dump_member p l m @ CHR '','' # ?rest)
        (JObj (?d @ map (\<lambda>m. (fst m, json_norm (snd m))) ms)) r"
      by (rule json_intros(13) [OF key colon _ _ _ SkipWhitespace_comma rest])
        (use v new size in \<open>simp_all add: skip_value [OF sol] json_blank_def\<close>)
    moreover have "map (dump_member p l) ms \<noteq> []" using False by simp
    ultimately show ?thesis by (simp only: join_with_Cons list.map append_Cons append_Nil append_assoc simp_thms)
  qed
qed simp

text \<open>The printed form of a value, compact or indented, is a text of the grammar.\<close>

lemma dump_value:
  "json_plain v \<Longrightarrow> json_fits lim d (json_norm v) \<Longrightarrow> delimited r \<Longrightarrow>
     json_value lim d (DumpTo p l v @ r) (json_norm v) r"
proof (induction p l v arbitrary: d r rule: DumpTo.induct)
  case (2 p l b)
  then show ?case using json_intros(6,7) by simp
next
  case (3 p l i)
  have "nat i < 2 ^ 64" "nat (- i) < 2 ^ 63" using 3 by auto
  then show ?case
    using 3 ParseNumber_unsigned [of r "nat i"] ParseNumber_negative [of r "nat (- i)"]
    by (auto intro!: json_intros(9) simp: int_to_string_def of_nat_nat)
next
  case (4 p l u)
  have "unat u < 2 ^ 64" using unsigned_less [of u] by simp
  then show ?case using 4 ParseNumber_unsigned [of r "unat u"] by (auto intro!: json_intros(9))
next
  case (6 p l s)
  then show ?case using ParseString_dump by (auto intro!: json_intros(5))
next
  case (7 p l vs)
  show ?case
  proof (cases "vs = []")
    case True
    then show ?thesis using 7 by (auto intro!: json_intros(3) simp: SkipWhitespace_solid json_blank_def)
  next
    case False
    let ?t = "join_with '','' (map (\<lambda>v. newline_indent p (l + 1) @ DumpTo p (l + 1) v) vs) @ newline_indent p l @ CHR '']'' # r"
    obtain v ws where vs: "vs = v # ws" using False by (cases vs) auto
    have "\<exists>u. SkipWhitespace ?t = DumpTo p (l + 1) v @ u"
      using 7(2) vs skip_indent [OF solid_DumpTo, of v p "l + 1" p "l + 1"] by (cases ws) auto
    then have "take 1 (SkipWhitespace ?t) \<noteq> '']''"
      using solid_DumpTo [of v p "l + 1"] 7(2) vs by (auto simp: solid_def split: list.splits)
    moreover have "json_elements lim d [] ?t (JArr ([] @ map json_norm vs)) r"
      using 7 False by (intro dump_elements) auto
    ultimately have "json_value lim d (CHR ''['' # ?t) (JArr (map json_norm vs)) r"
      using 7(3) by (intro json_intros(4)) (auto intro: elements_skip)
    then show ?thesis using False by simp
  qed
next
  case (8 p l ms)
  show ?case
  proof (cases "ms = []")
    case True
    then show ?thesis using 8 by (auto intro!: json_intros(1) simp: SkipWhitespace_solid json_blank_def)
  next
    case False
    let ?t = "join_with '','' (map (dump_member p (l + 1)) ms) @ newline_indent p l @ CHR ''}'' # r"
    obtain m ws where ms: "ms = m # ws" using False by (cases ms) auto
    have "\<exists>u. SkipWhitespace ?t = DumpString (fst m) @ u"
      using ms skip_indent [OF solid_DumpString, of p "l + 1" "fst m"] by (cases ws) (auto simp: dump_member_def)
    then have "take 1 (SkipWhitespace ?t) \<noteq> ''}''"
      using solid_DumpString [of "fst m"] by (auto simp: solid_def split: list.splits)
    moreover have "json_member_list lim d (JObj []) ?t (JObj ([] @ map (\<lambda>m. (fst m, json_norm (snd m))) ms)) r"
      using 8 False by (intro dump_members) auto
    ultimately have "json_value lim d (CHR ''{'' # ?t) (JObj (map (\<lambda>m. (fst m, json_norm (snd m))) ms)) r"
      using 8(3) by (intro json_intros(2)) (auto intro: members_skip)
    then show ?thesis by (simp only: DumpTo_object [OF False] json_norm.simps append_Cons append_assoc append_Nil)
  qed
qed (auto intro: json_intros(8)[simplified])

lemma ParseJson_read:
  assumes "json_plain v" and "json_fits lim 0 (json_norm v)" and "length (Dump v p) \<le> max_bytes lim"
  shows "ParseJson (Dump v p) lim = Inr (json_norm v)"
proof -
  have "json_value lim 0 (DumpTo p 0 v @ []) (json_norm v) []" using assms by (intro dump_value) auto
  moreover have "SkipWhitespace (DumpTo p 0 v) = DumpTo p 0 v" by (rule solid_skip [OF solid_DumpTo [OF assms(1)]])
  moreover have "2 * length (DumpTo p 0 v) < 2 * length (DumpTo p 0 v) + 1" by simp
  ultimately show ?thesis
    using assms(3) grammar_complete(1) [of lim 0 "DumpTo p 0 v" "json_norm v" "[]"]
    by (simp add: ParseJson_def json_run_def Dump_def SkipWhitespace_def del: ParseValue.simps)
qed



end
