(* ===== verification/DocumentText.thy ===== *)
theory DocumentText
  imports Document JsonTextFacts
begin

text \<open>
  Documents and component specifications as texts (\<open>ParseRegistryDocumentText\<close> of \<open>src/document.cpp\<close>,
  \<open>ParseComponentSpecText\<close> of \<open>src/component.cpp\<close>): the JSON parser followed by the typed one.
\<close>

definition ParseRegistryDocumentText :: "string \<Rightarrow> DocumentLimits \<Rightarrow> RegistryDocument result" where
  "ParseRegistryDocumentText t lim =
     res_bind (ParseJson t (JsonLimits_default\<lparr>max_bytes := max_document_bytes lim\<rparr>)) (\<lambda>j. ParseRegistryDocument j lim)"

definition ParseComponentSpecText :: "string \<Rightarrow> Taxonomy \<Rightarrow> ComponentSpec result" where
  "ParseComponentSpecText t tax = res_bind (ParseJson t JsonLimits_default) (\<lambda>j. ParseComponentSpec j tax ComponentSpecLimits_default)"

end
