(* ===== verification/Regions.thy ===== *)
theory Regions
  imports Registry
begin

text \<open>
  The regions of rules (\<open>include/fcr/validation.hpp\<close>, first part of \<open>src/validation.cpp\<close>): the
  selector boxes of a rule in its orientations, overlap, subsumption, and the coverage of the version
  plane by a grid of cells.
\<close>

section \<open>Boxes\<close>

record RuleBox =
  box_left :: ComponentSelector
  box_right :: ComponentSelector

definition RuleOrientations :: "Rule \<Rightarrow> RuleBox list" where
  "RuleOrientations k =
     (if arity k = SetRule then [\<lparr>box_left = left_selector k, box_right = ComponentSelector_any\<rparr>]
      else case symmetry k of
        LeftToRight \<Rightarrow> [\<lparr>box_left = left_selector k, box_right = right_selector k\<rparr>]
      | RightToLeft \<Rightarrow> [\<lparr>box_left = right_selector k, box_right = left_selector k\<rparr>]
      | Symmetric \<Rightarrow> [\<lparr>box_left = left_selector k, box_right = right_selector k\<rparr>,
          \<lparr>box_left = right_selector k, box_right = left_selector k\<rparr>])"

definition BoxOverlaps :: "RuleBox \<Rightarrow> RuleBox \<Rightarrow> bool \<Rightarrow> bool" where
  "BoxOverlaps a b pair =
     (SelectorsOverlap (box_left a) (box_left b) \<and> (pair \<longrightarrow> SelectorsOverlap (box_right a) (box_right b)))"

definition SelectorSubsumesModuloVersion :: "ComponentSelector \<Rightarrow> ComponentSelector \<Rightarrow> bool" where
  "SelectorSubsumesModuloVersion outer inner =
     (id_subsumes (sel_family outer) (sel_family inner) \<and> id_subsumes (sel_kind outer) (sel_kind inner) \<and>
      id_subsumes (sel_hardware_class outer) (sel_hardware_class inner))"

definition BoxSubsumesModuloVersion :: "RuleBox \<Rightarrow> RuleBox \<Rightarrow> bool \<Rightarrow> bool" where
  "BoxSubsumesModuloVersion outer inner pair =
     (SelectorSubsumesModuloVersion (box_left outer) (box_left inner) \<and>
      (pair \<longrightarrow> SelectorSubsumesModuloVersion (box_right outer) (box_right inner)))"

definition BoxSubsumes :: "RuleBox \<Rightarrow> RuleBox \<Rightarrow> bool \<Rightarrow> bool" where
  "BoxSubsumes outer inner pair =
     (SelectorSubsumes (box_left outer) (box_left inner) \<and>
      (pair \<longrightarrow> SelectorSubsumes (box_right outer) (box_right inner)))"

text \<open>Every orientation of the inner rule lies in one of the outer rule.\<close>

definition region_covered :: "(RuleBox \<Rightarrow> RuleBox \<Rightarrow> bool \<Rightarrow> bool) \<Rightarrow> Rule \<Rightarrow> Rule \<Rightarrow> bool" where
  "region_covered sub outer inner =
     (arity outer = arity inner \<and>
      list_all (\<lambda>i. list_ex (\<lambda>b. sub b i (arity outer = PairRule)) (RuleOrientations outer)) (RuleOrientations inner))"

definition RuleRegionSubsumesModuloVersion :: "Rule \<Rightarrow> Rule \<Rightarrow> bool" where
  "RuleRegionSubsumesModuloVersion = region_covered BoxSubsumesModuloVersion"

definition RuleRegionSubsumes :: "Rule \<Rightarrow> Rule \<Rightarrow> bool" where
  "RuleRegionSubsumes = region_covered BoxSubsumes"

definition RuleRegionsOverlap :: "Rule \<Rightarrow> Rule \<Rightarrow> bool" where
  "RuleRegionsOverlap a b =
     (arity a = arity b \<and>
      list_ex (\<lambda>x. list_ex (\<lambda>y. BoxOverlaps x y (arity a = PairRule)) (RuleOrientations b)) (RuleOrientations a))"

section \<open>The version plane\<close>

datatype Coord = MinusInfinity | Finite SemVersion | PlusInfinity

fun CompareCoord :: "Coord \<Rightarrow> Coord \<Rightarrow> ordering" where
  "CompareCoord MinusInfinity MinusInfinity = Equal"
| "CompareCoord MinusInfinity _ = Less"
| "CompareCoord (Finite v) MinusInfinity = Greater"
| "CompareCoord (Finite v) (Finite w) = Precedence v w"
| "CompareCoord (Finite v) PlusInfinity = Less"
| "CompareCoord PlusInfinity PlusInfinity = Equal"
| "CompareCoord PlusInfinity _ = Greater"

definition AddCoord :: "Coord list \<Rightarrow> Coord \<Rightarrow> Coord list" where
  "AddCoord coords c = (if list_ex (\<lambda>e. CompareCoord e c = Equal) coords then coords else coords @ [c])"

definition add_bound :: "SemVersion option \<Rightarrow> Coord list \<Rightarrow> Coord list" where
  "add_bound b coords = (case b of None \<Rightarrow> coords | Some v \<Rightarrow> AddCoord coords (Finite v))"

definition AddRangeCoords :: "Coord list \<Rightarrow> VersionRange option \<Rightarrow> Coord list" where
  "AddRangeCoords coords range_opt =
     (case range_opt of
        None \<Rightarrow> coords
      | Some ivs \<Rightarrow> foldl (\<lambda>cs iv. add_bound (high iv) (add_bound (low iv) cs)) coords ivs)"

definition low_ok :: "VersionInterval \<Rightarrow> Coord \<Rightarrow> bool" where
  "low_ok iv lo =
     (case low iv of
        None \<Rightarrow> True
      | Some l \<Rightarrow> (case lo of MinusInfinity \<Rightarrow> False | Finite v \<Rightarrow> \<not> version_lt v l | PlusInfinity \<Rightarrow> True))"

definition high_ok :: "VersionInterval \<Rightarrow> Coord \<Rightarrow> bool" where
  "high_ok iv hi =
     (case high iv of
        None \<Rightarrow> True
      | Some h \<Rightarrow> (case hi of PlusInfinity \<Rightarrow> False | Finite v \<Rightarrow> \<not> version_lt h v | MinusInfinity \<Rightarrow> True))"

definition RangeCoversCell :: "VersionRange option \<Rightarrow> Coord \<Rightarrow> Coord \<Rightarrow> bool" where
  "RangeCoversCell range_opt lo hi =
     (if lo = PlusInfinity \<or> hi = MinusInfinity then True
      else case range_opt of
        None \<Rightarrow> True
      | Some ivs \<Rightarrow> list_ex (\<lambda>iv. low_ok iv lo \<and> high_ok iv hi) ivs)"

record CoverageResult =
  covered :: bool
  exhaustive :: bool

definition plane_coords :: "(RuleBox \<Rightarrow> ComponentSelector) \<Rightarrow> RuleBox \<Rightarrow> RuleBox list \<Rightarrow> Coord list" where
  "plane_coords side target candidates =
     sort_by (\<lambda>a b. CompareCoord a b = Less)
       (foldl (\<lambda>cs b. AddRangeCoords cs (sel_version (side b))) [MinusInfinity, PlusInfinity] (target # candidates))"

definition cells :: "Coord list \<Rightarrow> (Coord \<times> Coord) list" where
  "cells xs = zip xs (tl xs)"

definition box_covers_cell :: "RuleBox \<Rightarrow> Coord \<times> Coord \<Rightarrow> Coord \<times> Coord \<Rightarrow> bool" where
  "box_covers_cell b x y =
     (RangeCoversCell (sel_version (box_left b)) (fst x) (snd x) \<and>
      RangeCoversCell (sel_version (box_right b)) (fst y) (snd y))"

definition VersionPlaneCovered :: "RuleBox \<Rightarrow> RuleBox list \<Rightarrow> nat \<Rightarrow> CoverageResult" where
  "VersionPlaneCovered target candidates max_cells =
     (let xs = plane_coords box_left target candidates; ys = plane_coords box_right target candidates
      in if (length xs - 1) * (length ys - 1) > max_cells then \<lparr>covered = False, exhaustive = False\<rparr>
         else \<lparr>covered = list_all (\<lambda>x. list_all (\<lambda>y.
             box_covers_cell target x y \<longrightarrow> list_ex (\<lambda>b. box_covers_cell b x y) candidates) (cells ys)) (cells xs),
           exhaustive = True\<rparr>)"

definition RuleAlwaysApplies :: "Rule \<Rightarrow> bool" where
  "RuleAlwaysApplies k = (on_unmet k \<noteq> UnmetSkip \<and> on_indeterminate k \<noteq> IndeterminateSkip)"

end
