(* ===== verification/Validation.thy ===== *)
theory Validation
  imports Regions "HOL-Library.Product_Lexorder"
begin

text \<open>
  Static validation of a generation (second part of \<open>src/validation.cpp\<close>): the diagnostics of each
  check in the order the code reports them, the conflicts within a precedence tier, the reachability
  analysis, the cycles of capability implications, the report, and the compilation of a generation
  (\<open>RegistryGeneration::Compile\<close>).
\<close>

section \<open>Diagnostics\<close>

datatype Severity = SevError | SevWarning | SevInfo

fun SeverityName :: "Severity \<Rightarrow> string" where
  "SeverityName SevError = ''error''"
| "SeverityName SevWarning = ''warning''"
| "SeverityName SevInfo = ''info''"

fun SeverityIndex :: "Severity \<Rightarrow> nat" where
  "SeverityIndex SevError = 0"
| "SeverityIndex SevWarning = 1"
| "SeverityIndex SevInfo = 2"

datatype DiagnosticCode =
    UndefinedFamily | UndefinedKind | UndefinedProtocol | UndefinedSchema | UndefinedCapability
  | UndefinedHardwareClass | UndefinedFeature | KindOutsideFamily | DuplicateRuleIdentity
  | ConflictingRules | ImpossibleVersionRange | UnsatisfiableConstraints | CapabilityTypeMismatch
  | UnsupportedComparison | UnreachableRule | ImplicationCycle | SelfImplication
  | SetRuleUsesRightSide | SetRuleDeclaresRightSelector | PairRuleMissingRightSelector
  | DeprecatedWithoutSuccessor | SupersededByMissing | RetiredRuleDeclared | EmptySelector
  | UnusedCapability | UnreferencedTaxonomyEntry | NegotiationNeverNegotiates | RuleCountLimit
  | ReachabilityAnalysisSkipped

fun DiagnosticCodeName :: "DiagnosticCode \<Rightarrow> string" where
  "DiagnosticCodeName UndefinedFamily = ''undefined_family''"
| "DiagnosticCodeName UndefinedKind = ''undefined_kind''"
| "DiagnosticCodeName UndefinedProtocol = ''undefined_protocol''"
| "DiagnosticCodeName UndefinedSchema = ''undefined_schema''"
| "DiagnosticCodeName UndefinedCapability = ''undefined_capability''"
| "DiagnosticCodeName UndefinedHardwareClass = ''undefined_hardware_class''"
| "DiagnosticCodeName UndefinedFeature = ''undefined_feature''"
| "DiagnosticCodeName KindOutsideFamily = ''kind_family_mismatch''"
| "DiagnosticCodeName DuplicateRuleIdentity = ''duplicate_rule_identity''"
| "DiagnosticCodeName ConflictingRules = ''conflicting_rules''"
| "DiagnosticCodeName ImpossibleVersionRange = ''impossible_version_range''"
| "DiagnosticCodeName UnsatisfiableConstraints = ''unsatisfiable_constraints''"
| "DiagnosticCodeName CapabilityTypeMismatch = ''capability_type_mismatch''"
| "DiagnosticCodeName UnsupportedComparison = ''unsupported_comparison''"
| "DiagnosticCodeName UnreachableRule = ''unreachable_rule''"
| "DiagnosticCodeName ImplicationCycle = ''implication_cycle''"
| "DiagnosticCodeName SelfImplication = ''self_implication''"
| "DiagnosticCodeName SetRuleUsesRightSide = ''set_rule_uses_right_side''"
| "DiagnosticCodeName SetRuleDeclaresRightSelector = ''set_rule_declares_right_selector''"
| "DiagnosticCodeName PairRuleMissingRightSelector = ''pair_rule_missing_right_selector''"
| "DiagnosticCodeName DeprecatedWithoutSuccessor = ''deprecated_without_successor''"
| "DiagnosticCodeName SupersededByMissing = ''superseded_by_missing''"
| "DiagnosticCodeName RetiredRuleDeclared = ''retired_rule_declared''"
| "DiagnosticCodeName EmptySelector = ''empty_selector''"
| "DiagnosticCodeName UnusedCapability = ''unused_capability''"
| "DiagnosticCodeName UnreferencedTaxonomyEntry = ''unreferenced_taxonomy_entry''"
| "DiagnosticCodeName NegotiationNeverNegotiates = ''negotiation_never_negotiates''"
| "DiagnosticCodeName RuleCountLimit = ''rule_count_limit''"
| "DiagnosticCodeName ReachabilityAnalysisSkipped = ''reachability_analysis_skipped''"

text \<open>The enumerators in order; a code's number is its position.\<close>

definition all_diagnostic_codes :: "DiagnosticCode list" where
  "all_diagnostic_codes =
     [UndefinedFamily, UndefinedKind, UndefinedProtocol, UndefinedSchema, UndefinedCapability,
      UndefinedHardwareClass, UndefinedFeature, KindOutsideFamily, DuplicateRuleIdentity,
      ConflictingRules, ImpossibleVersionRange, UnsatisfiableConstraints, CapabilityTypeMismatch,
      UnsupportedComparison, UnreachableRule, ImplicationCycle, SelfImplication,
      SetRuleUsesRightSide, SetRuleDeclaresRightSelector, PairRuleMissingRightSelector,
      DeprecatedWithoutSuccessor, SupersededByMissing, RetiredRuleDeclared, EmptySelector,
      UnusedCapability, UnreferencedTaxonomyEntry, NegotiationNeverNegotiates, RuleCountLimit,
      ReachabilityAnalysisSkipped]"

definition DiagnosticCodeIndex :: "DiagnosticCode \<Rightarrow> nat" where
  "DiagnosticCodeIndex c = length (takeWhile (\<lambda>x. x \<noteq> c) all_diagnostic_codes)"

record Diagnostic =
  severity :: Severity
  code :: DiagnosticCode
  message :: string
  diag_rule :: "RuleRef option"
  diag_path :: string

definition MakeDiagnostic :: "Severity \<Rightarrow> DiagnosticCode \<Rightarrow> string \<Rightarrow> string \<Rightarrow> Diagnostic" where
  "MakeDiagnostic s c m p = \<lparr>severity = s, code = c, message = m, diag_rule = None, diag_path = p\<rparr>"

definition rule_diagnostic :: "Severity \<Rightarrow> DiagnosticCode \<Rightarrow> string \<Rightarrow> Rule \<Rightarrow> string \<Rightarrow> Diagnostic" where
  "rule_diagnostic s c m k p = (MakeDiagnostic s c m p)\<lparr>diag_rule := Some (Rule_Ref k)\<rparr>"

definition diag_if :: "bool \<Rightarrow> Diagnostic \<Rightarrow> Diagnostic list" where
  "diag_if b d = (if b then [d] else [])"

record ValidationOptions =
  analyze_reachability :: bool
  max_reachability_candidates :: nat
  max_reachability_cells :: nat
  analyze_implication_cycles :: bool
  max_reported_cycles :: nat
  max_diagnostics :: nat
  report_unused_capabilities :: bool

definition ValidationOptions_default :: ValidationOptions where
  "ValidationOptions_default = \<lparr>analyze_reachability = True, max_reachability_candidates = 64,
     max_reachability_cells = 4096, analyze_implication_cycles = True, max_reported_cycles = 32,
     max_diagnostics = 512, report_unused_capabilities = True\<rparr>"

record ValidationReport =
  diagnostics :: "Diagnostic list"
  error_count :: nat
  warning_count :: nat
  info_count :: nat
  reachability_exhaustive :: bool

definition Publishable :: "ValidationReport \<Rightarrow> bool" where
  "Publishable r = (error_count r = 0)"

definition Add :: "ValidationReport \<Rightarrow> Diagnostic \<Rightarrow> ValidationReport" where
  "Add r d =
     (case severity d of
        SevError \<Rightarrow> r\<lparr>error_count := error_count r + 1, diagnostics := diagnostics r @ [d]\<rparr>
      | SevWarning \<Rightarrow> r\<lparr>warning_count := warning_count r + 1, diagnostics := diagnostics r @ [d]\<rparr>
      | SevInfo \<Rightarrow> r\<lparr>info_count := info_count r + 1, diagnostics := diagnostics r @ [d]\<rparr>)"

definition diagnostic_line :: "Diagnostic \<Rightarrow> string" where
  "diagnostic_line d =
     ''  ['' @ SeverityName (severity d) @ ''] '' @ DiagnosticCodeName (code d) @ '' '' @ diag_path d @
     option_text '' rule='' RuleRef_ToString (diag_rule d) @ '': '' @ message d @ nl"

definition report_Render :: "ValidationReport \<Rightarrow> string" where
  "report_Render r =
     ''validation: '' @ to_string (error_count r) @ '' error(s), '' @ to_string (warning_count r) @
     '' warning(s), '' @ to_string (info_count r) @ '' info'' @
     (if reachability_exhaustive r then [] else '' (reachability analysis was approximate)'') @ nl @
     concat (map diagnostic_line (diagnostics r))"

definition diagnostic_json :: "Diagnostic \<Rightarrow> JsonValue" where
  "diagnostic_json d =
     (let j = Set (JObj []) ''severity'' (JStr (SeverityName (severity d)));
          j = Set j ''code'' (JStr (DiagnosticCodeName (code d)));
          j = Set j ''path'' (JStr (diag_path d));
          j = Set j ''message'' (JStr (message d))
      in set_option ''rule'' reference_json (diag_rule d) j)"

definition report_ToJson :: "ValidationReport \<Rightarrow> JsonValue" where
  "report_ToJson r =
     (let j = Set (JObj []) ''publishable'' (JBool (Publishable r));
          j = Set j ''errors'' (JUInt (of_nat (error_count r)));
          j = Set j ''warnings'' (JUInt (of_nat (warning_count r)));
          j = Set j ''infos'' (JUInt (of_nat (info_count r)));
          j = Set j ''reachability_exhaustive'' (JBool (reachability_exhaustive r))
      in Set j ''diagnostics'' (JArr (map diagnostic_json (diagnostics r))))"

section \<open>Taxonomy and identities\<close>

definition taxonomy_checks :: "Taxonomy \<Rightarrow> Diagnostic list" where
  "taxonomy_checks tax =
     concat (map (\<lambda>(i, k). diag_if (\<not> HasFamily tax (kind_family k))
       (MakeDiagnostic SevError KindOutsideFamily
         (''component kind '' @ quoted (id_value i) @ '' declares family '' @
           quoted (id_value (kind_family k)) @ '' which is not in the taxonomy'')
         (''taxonomy.kinds.'' @ id_value i))) (kinds tax))"

definition rule_count_check :: "Rule list \<Rightarrow> Diagnostic list" where
  "rule_count_check ks = diag_if (length ks > kMaxRulesPerGeneration)
     (MakeDiagnostic SevError RuleCountLimit ''generation declares more rules than the supported maximum'' ''rules'')"

definition rules_path :: "nat \<Rightarrow> string" where
  "rules_path i = ''rules['' @ to_string i @ '']''"

fun duplicate_checks :: "(RuleId, nat) omap \<Rightarrow> (nat \<times> Rule) list \<Rightarrow> Diagnostic list" where
  "duplicate_checks seen [] = []"
| "duplicate_checks seen ((i, k) # ks) =
     (case omap_get seen (rule_id k) of
        Some j \<Rightarrow>
          rule_diagnostic SevError DuplicateRuleIdentity
            (''rule identifier is declared more than once in this generation (first at rules['' @
              to_string j @ ''])'') k (rules_path i) # duplicate_checks seen ks
      | None \<Rightarrow> duplicate_checks (omap_put (rule_id k) i seen) ks)"

section \<open>One rule\<close>

definition selector_checks :: "Taxonomy \<Rightarrow> Rule \<Rightarrow> string \<Rightarrow> ComponentSelector \<Rightarrow> Diagnostic list" where
  "selector_checks tax k path s =
     (case sel_family s of
        None \<Rightarrow> []
      | Some f \<Rightarrow> diag_if (\<not> HasFamily tax f) (rule_diagnostic SevError UndefinedFamily
          (''selector references undefined component family '' @ quoted (id_value f)) k (path @ ''.family''))) @
     (case sel_kind s of
        None \<Rightarrow> []
      | Some q \<Rightarrow>
          (case FindKind tax q of
             None \<Rightarrow> [rule_diagnostic SevError UndefinedKind
               (''selector references undefined component kind '' @ quoted (id_value q)) k (path @ ''.kind'')]
           | Some d \<Rightarrow>
               (case sel_family s of
                  None \<Rightarrow> []
                | Some f \<Rightarrow> diag_if (kind_family d \<noteq> f) (rule_diagnostic SevError KindOutsideFamily
                    (''selector combines kind '' @ quoted (id_value q) @ '' with family '' @ quoted (id_value f))
                    k path)))) @
     (case sel_hardware_class s of
        None \<Rightarrow> []
      | Some h \<Rightarrow> diag_if (\<not> HasHardwareClass tax h) (rule_diagnostic SevError UndefinedHardwareClass
          (''selector references undefined hardware class '' @ quoted (id_value h)) k (path @ ''.hardware_class''))) @
     (case sel_version s of
        None \<Rightarrow> []
      | Some r \<Rightarrow> diag_if (r = []) (rule_diagnostic SevError ImpossibleVersionRange
          ''selector version range matches no version at all'' k (path @ ''.version'')))"

definition structure_checks :: "Taxonomy \<Rightarrow> nat \<Rightarrow> Rule \<Rightarrow> Diagnostic list" where
  "structure_checks tax i k =
     (if arity k = SetRule then
        diag_if (\<not> selector_IsWildcard (right_selector k)) (rule_diagnostic SevError SetRuleDeclaresRightSelector
          ''set-arity rule must not declare a right selector'' k (rules_path i @ ''.right''))
      else
        diag_if (selector_IsWildcard (right_selector k) \<and> selector_IsWildcard (left_selector k))
          (rule_diagnostic SevInfo EmptySelector ''pair rule matches every registered component pair'' k (rules_path i))) @
     selector_checks tax k (rules_path i @ ''.left'') (left_selector k) @
     (if arity k = PairRule then selector_checks tax k (rules_path i @ ''.right'') (right_selector k) else [])"

text \<open>The fact a constraint requires or forbids.\<close>

fun required_fact :: "Constraint \<Rightarrow> string option" where
  "required_fact (RequiresCapability _ c) = Some (''capability:'' @ id_value c)"
| "required_fact (RequiresCapabilityValue _ c _ _) = Some (''capability:'' @ id_value c)"
| "required_fact (RequiresProtocol _ p _) = Some (''protocol:'' @ id_value p)"
| "required_fact (RequiresSchema _ p _) = Some (''schema:'' @ id_value p)"
| "required_fact (RequiresHardwareClass _ h) = Some (''hardware:'' @ id_value h)"
| "required_fact (RequiresFeature _ f) = Some (''feature:'' @ id_value f)"
| "required_fact _ = None"

fun forbidden_fact :: "Constraint \<Rightarrow> string option" where
  "forbidden_fact (ForbidsCapability _ c) = Some (''capability:'' @ id_value c)"
| "forbidden_fact (ForbidsProtocol _ p) = Some (''protocol:'' @ id_value p)"
| "forbidden_fact (ForbidsSchema _ p) = Some (''schema:'' @ id_value p)"
| "forbidden_fact (ForbidsHardwareClass _ h) = Some (''hardware:'' @ id_value h)"
| "forbidden_fact (ForbidsFeature _ f) = Some (''feature:'' @ id_value f)"
| "forbidden_fact _ = None"

definition undefined_entry :: "DiagnosticCode \<Rightarrow> string \<Rightarrow> string \<Rightarrow> Rule \<Rightarrow> string \<Rightarrow> bool \<Rightarrow> Diagnostic list" where
  "undefined_entry c what name k path known =
     diag_if (\<not> known) (rule_diagnostic SevError c (''constraint references undefined '' @ what @ '' '' @ quoted name) k path)"

definition impossible_range :: "string \<Rightarrow> Rule \<Rightarrow> string \<Rightarrow> VersionRange \<Rightarrow> Diagnostic list" where
  "impossible_range what k path r =
     diag_if (r = []) (rule_diagnostic SevError ImpossibleVersionRange
       (''required '' @ what @ '' version range matches no version'') k (path @ ''.range''))"

fun constraint_body_checks :: "Taxonomy \<Rightarrow> Rule \<Rightarrow> string \<Rightarrow> Constraint \<Rightarrow> Diagnostic list" where
  "constraint_body_checks tax k path (RequiresCapabilityValue _ c op lit) =
     (case FindCapability tax c of
        None \<Rightarrow> []
      | Some d \<Rightarrow>
          diag_if (\<not> MatchesType lit (decl_type d)) (rule_diagnostic SevError CapabilityTypeMismatch
            (''constraint literal does not match declared type '' @ quoted (CapabilityTypeName (decl_type d)) @
              '' of capability '' @ quoted (id_value c)) k (path @ ''.value'')) @
          diag_if (\<not> ComparisonOpSupported (decl_type d) op) (rule_diagnostic SevError UnsupportedComparison
            (''comparison operator '' @ quoted (ComparisonOpName op) @ '' is not defined for capability type '' @
              quoted (CapabilityTypeName (decl_type d))) k (path @ ''.op'')))"
| "constraint_body_checks tax k path (RequiresProtocol _ p r) =
     undefined_entry UndefinedProtocol ''protocol'' (id_value p) k (path @ ''.protocol'') (HasProtocol tax p) @
     impossible_range ''protocol'' k path r"
| "constraint_body_checks tax k path (ForbidsProtocol _ p) =
     undefined_entry UndefinedProtocol ''protocol'' (id_value p) k (path @ ''.protocol'') (HasProtocol tax p)"
| "constraint_body_checks tax k path (RequiresSchema _ p r) =
     undefined_entry UndefinedSchema ''schema'' (id_value p) k (path @ ''.schema'') (HasSchema tax p) @
     impossible_range ''schema'' k path r"
| "constraint_body_checks tax k path (ForbidsSchema _ p) =
     undefined_entry UndefinedSchema ''schema'' (id_value p) k (path @ ''.schema'') (HasSchema tax p)"
| "constraint_body_checks tax k path (RequiresHardwareClass _ h) =
     undefined_entry UndefinedHardwareClass ''hardware class'' (id_value h) k (path @ ''.hardware_class'')
       (HasHardwareClass tax h)"
| "constraint_body_checks tax k path (ForbidsHardwareClass _ h) =
     undefined_entry UndefinedHardwareClass ''hardware class'' (id_value h) k (path @ ''.hardware_class'')
       (HasHardwareClass tax h)"
| "constraint_body_checks tax k path (RequiresFeature _ f) =
     undefined_entry UndefinedFeature ''feature'' (id_value f) k (path @ ''.feature'') (HasFeature tax f)"
| "constraint_body_checks tax k path (ForbidsFeature _ f) =
     undefined_entry UndefinedFeature ''feature'' (id_value f) k (path @ ''.feature'') (HasFeature tax f)"
| "constraint_body_checks tax k path _ = []"

definition constraint_checks :: "Taxonomy \<Rightarrow> nat \<Rightarrow> Rule \<Rightarrow> nat \<times> Constraint \<Rightarrow> Diagnostic list" where
  "constraint_checks tax i k e =
     (let (n, c) = e; path = rules_path i @ ''.constraints['' @ to_string n @ '']''
      in diag_if (arity k = SetRule \<and> ConstraintSide c = Right) (rule_diagnostic SevError SetRuleUsesRightSide
           ''set-arity rule constraint applies to the right side, which does not exist for a set query'' k path) @
         (case ConstraintCapability c of
            None \<Rightarrow> []
          | Some q \<Rightarrow> undefined_entry UndefinedCapability ''capability'' (id_value q) k path
              (FindCapability tax q \<noteq> None)) @
         constraint_body_checks tax k path c)"

text \<open>The facts of one side, in the order of the constraints.\<close>

definition side_facts :: "(Constraint \<Rightarrow> string option) \<Rightarrow> Side \<Rightarrow> Rule \<Rightarrow> string list" where
  "side_facts get s k =
     concat (map (\<lambda>c. if ConstraintSide c = s then (case get c of None \<Rightarrow> [] | Some t \<Rightarrow> [t]) else []) (constraints k))"

definition contradiction_checks :: "nat \<Rightarrow> Rule \<Rightarrow> Diagnostic list" where
  "contradiction_checks i k =
     concat (map (\<lambda>s.
       concat (map (\<lambda>t. diag_if (t \<in> set (side_facts forbidden_fact s k)) (rule_diagnostic SevError UnsatisfiableConstraints
           (''rule requires and forbids '' @ t @ '' on the same side'') k (rules_path i @ ''.constraints'')))
         (side_facts required_fact s k))) [Left, Right, AllMembers])"

text \<open>The last minimum and the last maximum of a side.\<close>

definition last_minimum :: "Side \<Rightarrow> Constraint list \<Rightarrow> SemVersion option" where
  "last_minimum s cs =
     foldl (\<lambda>acc c. case c of VersionAtLeast t v \<Rightarrow> if t = s then Some v else acc | _ \<Rightarrow> acc) None cs"

definition last_maximum :: "Side \<Rightarrow> Constraint list \<Rightarrow> SemVersion option" where
  "last_maximum s cs =
     foldl (\<lambda>acc c. case c of VersionAtMost t v \<Rightarrow> if t = s then Some v else acc | _ \<Rightarrow> acc) None cs"

definition window_checks :: "nat \<Rightarrow> Rule \<Rightarrow> Diagnostic list" where
  "window_checks i k =
     concat (map (\<lambda>s.
       (case (last_minimum s (constraints k), last_maximum s (constraints k)) of
          (Some lo, Some hi) \<Rightarrow> diag_if (Precedence hi lo = Less) (rule_diagnostic SevError UnsatisfiableConstraints
            ''rule requires a minimum version above its maximum version'' k (rules_path i @ ''.constraints''))
        | _ \<Rightarrow> [])) [Left, Right, AllMembers])"

definition implication_checks :: "Taxonomy \<Rightarrow> nat \<Rightarrow> Rule \<Rightarrow> nat \<times> CapabilityImplication \<Rightarrow> Diagnostic list" where
  "implication_checks tax i k e =
     (let (n, m) = e; path = rules_path i @ ''.implications['' @ to_string n @ '']'';
          unknown = (\<lambda>c field. diag_if (\<not> HasCapability tax c) (rule_diagnostic SevError UndefinedCapability
            (''implication references undefined capability '' @ quoted (id_value c)) k (path @ field)))
      in diag_if (arity k = SetRule \<and> imp_side m = Right) (rule_diagnostic SevError SetRuleUsesRightSide
           ''set-arity implication applies to the right side'' k path) @
         unknown (if_present m) ''.if_present'' @ unknown (then_required m) ''.then_required'' @
         diag_if (if_present m = then_required m) (rule_diagnostic SevError SelfImplication
           (''capability '' @ quoted (id_value (if_present m)) @ '' implies itself'') k path))"

definition lifecycle_checks :: "Rule list \<Rightarrow> nat \<Rightarrow> Rule \<Rightarrow> Diagnostic list" where
  "lifecycle_checks ks i k =
     diag_if (lc_state (lifecycle k) = Deprecated \<and> superseded_by (lifecycle k) = None)
       (rule_diagnostic SevWarning DeprecatedWithoutSuccessor ''deprecated rule does not name a successor'' k
         (rules_path i @ ''.lifecycle'')) @
     (case superseded_by (lifecycle k) of
        None \<Rightarrow> []
      | Some r \<Rightarrow> diag_if (\<not> list_ex (\<lambda>x. rule_id x = ref_id r) ks) (rule_diagnostic SevWarning SupersededByMissing
          (''rule names successor '' @ quoted (id_value (ref_id r)) @ '' which is not present in this generation'') k
          (rules_path i @ ''.lifecycle.superseded_by''))) @
     diag_if (lc_state (lifecycle k) = Retired) (rule_diagnostic SevInfo RetiredRuleDeclared
       ''retired rule is not evaluated but is retained for history'' k (rules_path i))"

definition rule_checks :: "Taxonomy \<Rightarrow> Rule list \<Rightarrow> nat \<times> Rule \<Rightarrow> Diagnostic list" where
  "rule_checks tax ks e =
     (let (i, k) = e
      in structure_checks tax i k @
         concat (map (constraint_checks tax i k) (enumerate 0 (constraints k))) @
         contradiction_checks i k @ window_checks i k @
         concat (map (implication_checks tax i k) (enumerate 0 (implications k))) @
         lifecycle_checks ks i k)"

section \<open>Conflicts within a tier\<close>

text \<open>The key of a tier, compared lexicographically.\<close>

definition MakeTierKey :: "Rule \<Rightarrow> int list" where
  "MakeTierKey k = [tier_priority (RuleTier k), specificity (RuleTier k), origin_rank (RuleTier k)]"

definition tier_groups :: "Rule list \<Rightarrow> (int list, nat list) omap" where
  "tier_groups ks =
     foldl (\<lambda>m i. let t = MakeTierKey (ks ! i) in omap_put t (value_or (omap_get m t) [] @ [i]) m) [] [0..<length ks]"

definition conflict_check :: "Rule list \<Rightarrow> nat \<times> nat \<Rightarrow> Diagnostic list" where
  "conflict_check ks e =
     (let (i, j) = e; a = ks ! i; b = ks ! j
      in diag_if (outcome a \<noteq> outcome b \<and> RuleRegionsOverlap a b) (rule_diagnostic SevError ConflictingRules
           (''rules '' @ quoted (id_value (rule_id a)) @ '' and '' @ quoted (id_value (rule_id b)) @
             '' share a precedence tier, overlap, and disagree ('' @ RuleOutcomeName (outcome a) @ '' vs '' @
             RuleOutcomeName (outcome b) @ '')'') a (rules_path i)))"

definition conflict_checks :: "Rule list \<Rightarrow> Diagnostic list" where
  "conflict_checks ks =
     concat (map (\<lambda>(t, is). concat (map (conflict_check ks) (pairs_of is))) (tier_groups ks))"

section \<open>Reachability\<close>

definition kMaxReachabilityRules :: nat where "kMaxReachabilityRules = 2048"

definition may_shadow :: "Rule \<Rightarrow> Rule \<Rightarrow> bool" where
  "may_shadow target cand =
     (lc_state (lifecycle cand) = Active \<and> arity cand = arity target \<and> RuleAlwaysApplies cand \<and>
      MakeTierKey target < MakeTierKey cand \<and> RuleRegionSubsumesModuloVersion cand target)"

text \<open>The shadowers of a rule and whether there are more than the budget admits.\<close>

definition shadowers :: "Rule list \<Rightarrow> nat \<Rightarrow> nat \<Rightarrow> Rule list \<times> bool" where
  "shadowers ks index budget =
     (let found = filter (may_shadow (ks ! index)) (map ((!) ks) (filter (\<lambda>i. i \<noteq> index) [0..<length ks]))
      in (take budget found, length found > budget))"

text \<open>The loop over the orientations of the target: is it dead, and was the analysis exhaustive.\<close>

fun dead_loop :: "bool \<Rightarrow> RuleBox list \<Rightarrow> nat \<Rightarrow> RuleBox list \<Rightarrow> bool \<times> bool" where
  "dead_loop pair boxes max_cells [] = (True, True)"
| "dead_loop pair boxes max_cells (t # ts) =
     (let r = VersionPlaneCovered t (filter (\<lambda>b. BoxSubsumesModuloVersion b t pair) boxes) max_cells
      in if covered r then dead_loop pair boxes max_cells ts else (False, exhaustive r))"

text \<open>The diagnostics of one rule, and whether the analysis of it was exhaustive.\<close>

definition reachability_check :: "ValidationOptions \<Rightarrow> Rule list \<Rightarrow> nat \<Rightarrow> Diagnostic list \<times> bool" where
  "reachability_check opts ks index =
     (let target = ks ! index; (sh, budget_exceeded) = shadowers ks index (max_reachability_candidates opts)
      in if lc_state (lifecycle target) \<noteq> Active \<or> sh = [] then ([], True)
         else if budget_exceeded then
           ([MakeDiagnostic SevInfo ReachabilityAnalysisSkipped
              (''reachability analysis for rule '' @ quoted (id_value (rule_id target)) @ '' exceeded its candidate budget'')
              (rules_path index)], False)
         else
           (let (dead, exh) = dead_loop (arity target = PairRule) (concat (map RuleOrientations sh))
                (max_reachability_cells opts) (RuleOrientations target)
            in (diag_if dead (rule_diagnostic SevError UnreachableRule
                 (''rule can never decide a query: '' @ to_string (length sh) @
                  '' higher-precedence active rule(s) always match its region'') target (rules_path index)), exh)))"

definition reachability_checks :: "ValidationOptions \<Rightarrow> Rule list \<Rightarrow> Diagnostic list \<times> bool" where
  "reachability_checks opts ks =
     (if \<not> analyze_reachability opts \<or> ks = [] then ([], True)
      else if length ks > kMaxReachabilityRules then
        ([MakeDiagnostic SevInfo ReachabilityAnalysisSkipped
           (''reachability analysis skipped: generation declares more than '' @ to_string kMaxReachabilityRules @ '' rules'')
           ''rules''], False)
      else
        (let rs = map (reachability_check opts ks) [0..<length ks]
         in (concat (map fst rs), list_all snd rs)))"

section \<open>Cycles of implications\<close>

type_synonym ImplicationNode = "nat \<times> CapabilityId"

definition adjacency :: "Rule list \<Rightarrow> (ImplicationNode, CapabilityId list) omap" where
  "adjacency ks =
     foldl (\<lambda>m i. let n = (SideIndex (imp_side i), if_present i)
        in omap_put n (value_or (omap_get m n) [] @ [then_required i]) m) []
       (concat (map implications (filter (\<lambda>k. lc_state (lifecycle k) = Active) ks)))"

datatype NodeColor = OnStack | Done

record CycleSearch =
  color :: "(ImplicationNode, NodeColor) omap"
  reported :: nat
  cycle_diags :: "Diagnostic list"

definition cycle_path :: "ImplicationNode list \<Rightarrow> ImplicationNode \<Rightarrow> string" where
  "cycle_path stack target =
     join_with '' -> '' (map (\<lambda>n. id_value (snd n)) (dropWhile (\<lambda>n. n \<noteq> target) stack)) @ '' -> '' @
     id_value (snd target)"

definition report_cycle :: "nat \<Rightarrow> ImplicationNode list \<Rightarrow> ImplicationNode \<Rightarrow> CycleSearch \<Rightarrow> CycleSearch" where
  "report_cycle cap stack target st =
     (if reported st < cap
      then st\<lparr>reported := reported st + 1, cycle_diags := cycle_diags st @ [MakeDiagnostic SevError ImplicationCycle
          (''capability implication cycle detected: '' @ cycle_path stack target) ''rules'']\<rparr>
      else st)"

text \<open>The depth-first search. The first argument is what is left of the depth bound of 256; the stack
  of the code is the path to the node, which a call leaves as it found it.\<close>

fun visit :: "nat \<Rightarrow> nat \<Rightarrow> (ImplicationNode, CapabilityId list) omap \<Rightarrow> ImplicationNode list \<Rightarrow>
    ImplicationNode \<Rightarrow> CycleSearch \<Rightarrow> CycleSearch" where
  "visit 0 cap adj stack node st = st"
| "visit (Suc depth) cap adj stack node st =
     (let path = stack @ [node];
          st1 = st\<lparr>color := omap_put node OnStack (color st)\<rparr>;
          st2 = foldl (\<lambda>s next.
            let target = (fst node, next)
            in case omap_get (color s) target of
                 Some OnStack \<Rightarrow> report_cycle cap path target s
               | Some Done \<Rightarrow> s
               | None \<Rightarrow> visit depth cap adj path target s) st1 (value_or (omap_get adj node) [])
      in st2\<lparr>color := omap_put node Done (color st2)\<rparr>)"

definition kMaxImplicationDepth :: nat where "kMaxImplicationDepth = 256"

definition cycle_checks :: "ValidationOptions \<Rightarrow> Rule list \<Rightarrow> Diagnostic list" where
  "cycle_checks opts ks =
     (if \<not> analyze_implication_cycles opts then []
      else
        let adj = adjacency ks; cap = max_reported_cycles opts;
            st = foldl (\<lambda>s e. if omap_get (color s) (fst e) = None
                then visit (Suc kMaxImplicationDepth) cap adj [] (fst e) s else s)
              \<lparr>color = [], reported = 0, cycle_diags = []\<rparr> adj
        in cycle_diags st @ diag_if (reported st \<ge> cap) (MakeDiagnostic SevInfo ReachabilityAnalysisSkipped
             ''additional implication cycles were not reported'' ''rules''))"

section \<open>Unused declarations\<close>

definition capability_references :: "Taxonomy \<Rightarrow> Rule list \<Rightarrow> CapabilityId list" where
  "capability_references tax ks =
     concat (map (\<lambda>k.
       concat (map (\<lambda>c. case ConstraintCapability c of None \<Rightarrow> [] | Some q \<Rightarrow> [q]) (constraints k)) @
       concat (map (\<lambda>i. filter (HasCapability tax) [if_present i, then_required i]) (implications k))) ks)"

definition referenced_features :: "Rule list \<Rightarrow> FeatureId list" where
  "referenced_features ks =
     concat (map (\<lambda>k. concat (map (\<lambda>c.
       case c of RequiresFeature _ f \<Rightarrow> [f] | ForbidsFeature _ f \<Rightarrow> [f] | _ \<Rightarrow> []) (constraints k))) ks)"

definition unused_checks :: "ValidationOptions \<Rightarrow> Taxonomy \<Rightarrow> Rule list \<Rightarrow> Diagnostic list" where
  "unused_checks opts tax ks =
     (if \<not> report_unused_capabilities opts then []
      else
        concat (map (\<lambda>(i, d). diag_if (i \<notin> set (capability_references tax ks))
          (MakeDiagnostic SevInfo UnusedCapability
            (''capability '' @ quoted (id_value i) @ '' is declared but no rule references it'')
            (''taxonomy.capabilities.'' @ id_value i))) (capabilities tax)) @
        concat (map (\<lambda>(i, d). diag_if (i \<notin> set (referenced_features ks))
          (MakeDiagnostic SevInfo UnreferencedTaxonomyEntry
            (''feature '' @ quoted (id_value i) @ '' is declared but no rule references it'')
            (''taxonomy.features.'' @ id_value i))) (features tax)))"

section \<open>The report\<close>

definition diagnostic_lt :: "Diagnostic \<Rightarrow> Diagnostic \<Rightarrow> bool" where
  "diagnostic_lt a b =
     (if severity a \<noteq> severity b then SeverityIndex (severity a) < SeverityIndex (severity b)
      else if code a \<noteq> code b then DiagnosticCodeIndex (code a) < DiagnosticCodeIndex (code b)
      else if diag_path a \<noteq> diag_path b then diag_path a < diag_path b
      else option_text [] RuleRef_ToString (diag_rule a) < option_text [] RuleRef_ToString (diag_rule b))"

definition all_diagnostics :: "ValidationOptions \<Rightarrow> RegistryDocument \<Rightarrow> Diagnostic list" where
  "all_diagnostics opts d =
     (let tax = doc_taxonomy d; ks = rules d
      in taxonomy_checks tax @ rule_count_check ks @ duplicate_checks [] (enumerate 0 ks) @
         concat (map (rule_checks tax ks) (enumerate 0 ks)) @ conflict_checks ks @
         fst (reachability_checks opts ks) @ cycle_checks opts ks @ unused_checks opts tax ks)"

definition ValidateRegistryDocument :: "RegistryDocument \<Rightarrow> ValidationOptions \<Rightarrow> ValidationReport" where
  "ValidateRegistryDocument d opts =
     (let r = foldl Add \<lparr>diagnostics = [], error_count = 0, warning_count = 0, info_count = 0,
            reachability_exhaustive = snd (reachability_checks opts (rules d))\<rparr> (all_diagnostics opts d)
      in r\<lparr>diagnostics := take (max_diagnostics opts) (sort_by diagnostic_lt (diagnostics r))\<rparr>)"

section \<open>Compilation\<close>

definition Compile :: "RegistryDocument \<Rightarrow> ValidationOptions \<Rightarrow> RegistryGeneration result" where
  "Compile d opts =
     (if Publishable (ValidateRegistryDocument (Normalize d) opts) then Inr (compiled d) else Fail ValidationFailed)"

end
