(* ===== verification/Store.thy ===== *)
theory Store
  imports DocumentText Validation
begin

text \<open>
  The generation store (\<open>include/fcr/store.hpp\<close>, \<open>src/store.cpp\<close>): the binary frame of a generation file,
  the head metadata, the operations on the data directory and the fence of a publication.

  A data directory is the map from its file names to their bytes. What the operating system may refuse is a
  parameter: which reads fail and how, which writes and removals fail, and the clock. A write replaces the
  file at once or leaves it as it was, as \<open>WriteFileAtomic\<close> arranges with a temporary file and a rename.
\<close>

section \<open>Names and words\<close>

definition kMetaFileName :: string where "kMetaFileName = ''registry.meta''"
definition kGenerationPrefix :: string where "kGenerationPrefix = ''gen-''"
definition kGenerationSuffix :: string where "kGenerationSuffix = ''.fcr''"
definition kGenerationDigits :: nat where "kGenerationDigits = 20"

definition FormatGenerationNumber :: "GenerationNumber \<Rightarrow> string" where
  "FormatGenerationNumber n =
     (let t = to_string (unat n) in replicate (kGenerationDigits - length t) CHR ''0'' @ t)"

definition GenerationPath :: "GenerationNumber \<Rightarrow> string" where
  "GenerationPath n = kGenerationPrefix @ FormatGenerationNumber n @ kGenerationSuffix"

text \<open>The loop over the digits of a file name, on 64 bits.\<close>

fun name_digits :: "u64 \<Rightarrow> string \<Rightarrow> u64 result" where
  "name_digits v [] = Inr v"
| "name_digits v (c # cs) =
     (if \<not> IsDigit c then Fail NotFound else name_digits (v * 10 + of_nat (digit_value c)) cs)"

definition ParseGenerationFileName :: "string \<Rightarrow> GenerationNumber result" where
  "ParseGenerationFileName name =
     (let p = length kGenerationPrefix; q = length kGenerationSuffix;
          digits = take (length name - p - q) (drop p name)
      in if length name \<le> p + q then Fail NotFound
         else if take p name \<noteq> kGenerationPrefix then Fail NotFound
         else if drop (length name - q) name \<noteq> kGenerationSuffix then Fail NotFound
         else if length digits > kGenerationDigits then Fail NotFound
         else name_digits 0 digits)"

text \<open>Little-endian numbers of \<open>k\<close> bytes.\<close>

definition le_bytes :: "nat \<Rightarrow> 'a::len word \<Rightarrow> byte list" where
  "le_bytes k v = map (\<lambda>i. ucast (drop_bit (8 * i) v)) [0..<k]"

definition le_word :: "byte list \<Rightarrow> 'a::len word" where
  "le_word bs = foldl (\<lambda>v (i, b). v OR push_bit (8 * i) (ucast b)) 0 (enumerate 0 bs)"

definition le_at :: "byte list \<Rightarrow> nat \<Rightarrow> nat \<Rightarrow> 'a::len word" where
  "le_at bs offset k = le_word (take k (drop offset bs))"

definition bytes_text :: "byte list \<Rightarrow> string" where
  "bytes_text bs = map (\<lambda>b. char_of (unat b)) bs"

section \<open>The frame of a generation file\<close>

definition kGenerationHeaderBytes :: nat where "kGenerationHeaderBytes = 96"
definition kGenerationFormatVersion :: "16 word" where "kGenerationFormatVersion = 1"

definition kGenerationMagic :: "byte list" where "kGenerationMagic = text_bytes ''FCRG''"

text \<open>The first 72 bytes of the header, which its checksum covers.\<close>

definition header_prefix :: "GenerationNumber \<Rightarrow> PublisherEpoch \<Rightarrow> Incarnation \<Rightarrow> nat \<Rightarrow> ContentDigest \<Rightarrow> byte list" where
  "header_prefix generation epoch inc len digest =
     kGenerationMagic @ le_bytes 2 kGenerationFormatVersion @ le_bytes 2 (of_nat kGenerationHeaderBytes :: 16 word) @
     le_bytes 8 generation @ le_bytes 8 epoch @ le_bytes 8 inc @ le_bytes 8 (of_nat len :: u64) @ digest"

definition EncodeGeneration ::
  "RegistryDocument \<Rightarrow> GenerationNumber \<Rightarrow> PublisherEpoch \<Rightarrow> Incarnation \<Rightarrow> nat \<Rightarrow> byte list result" where
  "EncodeGeneration d generation epoch inc max_size =
     (let e = Normalize (d\<lparr>md := (md d)\<lparr>md_generation := generation, md_epoch := epoch\<rparr>\<rparr>);
          payload = text_bytes (CanonicalJson e)
      in if length payload > max_size then Fail LimitExceeded
         else
           let prefix = header_prefix generation epoch inc (length payload) (Sha256_Hash_bytes payload)
           in Inr (prefix @ le_bytes 4 (Crc32c prefix) @ replicate 20 0 @ payload))"

text \<open>The document of a file, its generation, epoch and incarnation.\<close>

definition DecodeGeneration ::
  "byte list \<Rightarrow> (RegistryDocument \<times> GenerationNumber \<times> PublisherEpoch \<times> Incarnation) result" where
  "DecodeGeneration bs =
     (if length bs < kGenerationHeaderBytes then Fail CorruptPersistence
      else if take 4 bs \<noteq> kGenerationMagic then Fail CorruptPersistence
      else if le_at bs 4 2 \<noteq> kGenerationFormatVersion then Fail UnsupportedFormatVersion
      else if le_at bs 6 2 \<noteq> (of_nat kGenerationHeaderBytes :: 16 word) then Fail CorruptPersistence
      else if le_at bs 72 4 \<noteq> Crc32c (take 72 bs) then Fail CorruptPersistence
      else if le_at bs 32 8 \<noteq> (of_nat (length bs - kGenerationHeaderBytes) :: u64) then Fail CorruptPersistence
      else
        let payload = drop kGenerationHeaderBytes bs; digest = Sha256_Hash_bytes payload
        in if take 32 (drop 40 bs) \<noteq> digest then Fail DigestMismatch
           else
             res_bind (ParseRegistryDocumentText (bytes_text payload) DocumentLimits_default) (\<lambda>d.
             if md_generation (md d) \<noteq> le_at bs 8 8 then Fail CorruptPersistence
             else if document_Digest d \<noteq> digest then Fail DigestMismatch
             else Inr (d, le_at bs 8 8, le_at bs 16 8, le_at bs 24 8)))"

section \<open>The head metadata\<close>

record StoreMeta =
  head_generation :: GenerationNumber
  head_digest :: ContentDigest
  head_epoch :: PublisherEpoch
  head_incarnation :: Incarnation
  total_publications :: u64
  updated_at :: Timestamp
  last_publisher :: PublisherId

definition kStoreMetaFormat :: string where "kStoreMetaFormat = ''fcr.registry.meta''"
definition kStoreMetaFormatVersion :: u64 where "kStoreMetaFormatVersion = 1"

definition StoreMeta_empty :: StoreMeta where
  "StoreMeta_empty = \<lparr>head_generation = 0, head_digest = digest_zero, head_epoch = 0, head_incarnation = 0,
     total_publications = 0, updated_at = 0, last_publisher = TypedId []\<rparr>"

definition MetaPayloadJson :: "StoreMeta \<Rightarrow> JsonValue" where
  "MetaPayloadJson m =
     (let j = Set (JObj []) ''format'' (JStr kStoreMetaFormat);
          j = Set j ''format_version'' (JUInt kStoreMetaFormatVersion);
          j = Set j ''generation'' (JUInt (head_generation m));
          j = Set j ''generation_digest'' (JStr (ToHex (head_digest m)));
          j = Set j ''publisher_epoch'' (JUInt (head_epoch m));
          j = Set j ''incarnation'' (JUInt (head_incarnation m));
          j = Set j ''total_publications'' (JUInt (total_publications m));
          j = Set j ''updated_at'' (JStr (ToIso8601 (updated_at m)))
      in Set j ''last_publisher'' (JStr (id_value (last_publisher m))))"

definition integrity_text :: "JsonValue \<Rightarrow> string" where
  "integrity_text j = ''sha256:'' @ ToHex (Sha256_Hash (Dump j False))"

definition StoreMetaToJson :: "StoreMeta \<Rightarrow> JsonValue" where
  "StoreMetaToJson m = Set (MetaPayloadJson m) ''integrity'' (JStr (integrity_text (MetaPayloadJson m)))"

definition meta_payload :: "JsonValue \<Rightarrow> JsonValue" where
  "meta_payload j =
     foldl (\<lambda>p (k, v). if k = ''integrity'' then p else Set p k v) (JObj []) (zip (json_keys j) (json_values j))"

definition read_last_publisher :: "JsonValue \<Rightarrow> PublisherId result" where
  "read_last_publisher j =
     res_bind (OptionalString j ''last_publisher'' []) (\<lambda>t. if t = [] then Inr (TypedId []) else TypedId_Parse Opaque t)"

definition ParseStoreMeta :: "JsonValue \<Rightarrow> StoreMeta result" where
  "ParseStoreMeta j =
     (if \<not> IsObject j then Fail CorruptPersistence
      else
        res_bind (RequireString j ''integrity'') (\<lambda>integrity.
        if integrity_text (meta_payload j) \<noteq> integrity then Fail DigestMismatch else
        res_bind (RequireString j ''format'') (\<lambda>format.
        if format \<noteq> kStoreMetaFormat then Fail UnsupportedFormatVersion else
        res_bind (RequireUInt j ''format_version'') (\<lambda>version.
        if version \<noteq> kStoreMetaFormatVersion then Fail UnsupportedFormatVersion else
        res_bind (RequireUInt j ''generation'') (\<lambda>generation.
        res_bind (res_bind (RequireString j ''generation_digest'') FromHex) (\<lambda>digest.
        res_bind (RequireUInt j ''publisher_epoch'') (\<lambda>epoch.
        res_bind (RequireUInt j ''incarnation'') (\<lambda>inc.
        res_bind (RequireUInt j ''total_publications'') (\<lambda>publications.
        res_bind (res_bind (RequireString j ''updated_at'') FromIso8601) (\<lambda>time.
        res_bind (read_last_publisher j) (\<lambda>publisher.
          Inr \<lparr>head_generation = generation, head_digest = digest, head_epoch = epoch, head_incarnation = inc,
            total_publications = publications, updated_at = time, last_publisher = publisher\<rparr>)))))))))))"

end
