(* ===== verification/StoreOps.thy ===== *)
theory StoreOps
  imports Store
begin

text \<open>
  The operations of the store (\<open>src/store.cpp\<close>, \<open>RegistryStore\<close>): opening with the writer lock, loading with
  recovery, publishing behind the fence, pruning. An operation returns its result and the directory it leaves.
\<close>

section \<open>The data directory and the platform\<close>

text \<open>The directory, whether this process holds it for writing (\<open>WriterRegistry\<close>) and whether another process
  does (the lock on \<open>registry.lock\<close>).\<close>

record Directory =
  dir_exists :: bool
  files :: "(string, byte list) omap"
  held :: bool
  locked_elsewhere :: bool

record Platform =
  create_fails :: bool
  lock_open_fails :: bool
  list_fails :: bool
  read_error :: "string \<Rightarrow> ErrorCode option"
  write_fails :: "string \<Rightarrow> bool"
  remove_fails :: "string \<Rightarrow> bool"
  clock :: Timestamp

text \<open>A cancellation token: whether its flag is found set at the n-th check of the operation.\<close>

type_synonym CancellationToken = "nat \<Rightarrow> bool"

datatype OpenMode = ReadOnly | ReadWrite

record StoreOptions =
  directory :: string
  open_mode :: OpenMode
  max_generation_bytes :: nat
  max_meta_bytes :: nat
  max_generations :: nat
  max_scan_entries :: nat

definition StoreOptions_default :: StoreOptions where
  "StoreOptions_default = \<lparr>directory = [], open_mode = ReadOnly, max_generation_bytes = 67108864,
     max_meta_bytes = 65536, max_generations = 512, max_scan_entries = 8192\<rparr>"

record RecoveryReport =
  recovered :: bool
  repaired :: bool
  skipped_corrupt :: "GenerationNumber list"
  discarded_uncommitted :: "GenerationNumber list"
  detail :: string

definition RecoveryReport_default :: RecoveryReport where
  "RecoveryReport_default = \<lparr>recovered = False, repaired = False, skipped_corrupt = [], discarded_uncommitted = [], detail = []\<rparr>"

record LoadedGeneration =
  loaded_id :: GenerationId
  loaded_registry :: RegistryGeneration
  recovery :: RecoveryReport

record PublishFence =
  expected_generation :: GenerationNumber
  fence_epoch :: PublisherEpoch
  fence_incarnation :: Incarnation

record PublishOutcome =
  out_id :: GenerationId
  out_meta :: StoreMeta

record RegistryStore =
  st_options :: StoreOptions
  st_incarnation :: Incarnation
  st_epoch :: PublisherEpoch

section \<open>Files\<close>

definition ReadFileBounded :: "Platform \<Rightarrow> Directory \<Rightarrow> string \<Rightarrow> nat \<Rightarrow> byte list result" where
  "ReadFileBounded p d name max_size =
     (case read_error p name of
        Some e \<Rightarrow> Fail e
      | None \<Rightarrow>
          (case omap_get (files d) name of
             None \<Rightarrow> Fail NotFound
           | Some bs \<Rightarrow> if length bs > max_size then Fail LimitExceeded else Inr bs))"

definition WriteFileAtomic :: "Platform \<Rightarrow> Directory \<Rightarrow> string \<Rightarrow> byte list \<Rightarrow> unit result \<times> Directory" where
  "WriteFileAtomic p d name bs =
     (if write_fails p name then (Fail IoError, d) else (Inr (), d\<lparr>files := omap_put name bs (files d)\<rparr>))"

text \<open>\<open>std::filesystem::remove\<close>: whether it reported no error.\<close>

definition remove_file :: "Platform \<Rightarrow> Directory \<Rightarrow> string \<Rightarrow> bool \<times> Directory" where
  "remove_file p d name =
     (if remove_fails p name then (False, d) else (True, d\<lparr>files := omap_erase name (files d)\<rparr>))"

definition LoadMetaLocked :: "Platform \<Rightarrow> StoreOptions \<Rightarrow> Directory \<Rightarrow> StoreMeta result" where
  "LoadMetaLocked p opts d =
     (if \<not> omap_has (files d) kMetaFileName then Inr StoreMeta_empty
      else
        res_bind (ReadFileBounded p d kMetaFileName (max_meta_bytes opts)) (\<lambda>bs.
        res_bind (ParseJson (bytes_text bs) (JsonLimits_default\<lparr>max_bytes := max_meta_bytes opts\<rparr>)) ParseStoreMeta))"

definition WriteMeta :: "Platform \<Rightarrow> Directory \<Rightarrow> StoreMeta \<Rightarrow> unit result \<times> Directory" where
  "WriteMeta p d m = WriteFileAtomic p d kMetaFileName (text_bytes (Dump (StoreMetaToJson m) False))"

section \<open>Opening and closing\<close>

definition kLockFileName :: string where "kLockFileName = ''registry.lock''"

definition ReleaseLock :: "Directory \<Rightarrow> Directory" where
  "ReleaseLock d = d\<lparr>held := False\<rparr>"

text \<open>Taking the writer lock: the registry of this process first, then the lock file.\<close>

definition take_lock :: "Platform \<Rightarrow> Directory \<Rightarrow> unit result \<times> Directory" where
  "take_lock p d =
     (if held d then (Fail LockContention, d)
      else
        let d = d\<lparr>held := True\<rparr>
        in if lock_open_fails p then (Fail IoError, ReleaseLock d)
           else
             let d = (if omap_has (files d) kLockFileName then d else d\<lparr>files := omap_put kLockFileName [] (files d)\<rparr>)
             in if locked_elsewhere d then (Fail LockContention, ReleaseLock d) else (Inr (), d))"

text \<open>What a writer does once it has the lock: the incarnation and the epoch advance.\<close>

definition advance_meta :: "Platform \<Rightarrow> StoreMeta \<Rightarrow> StoreMeta result" where
  "advance_meta p m =
     res_bind (NextIncarnation (head_incarnation m)) (\<lambda>i.
     res_bind (NextEpoch (head_epoch m)) (\<lambda>e.
       Inr (m\<lparr>head_incarnation := i, head_epoch := e, updated_at := clock p\<rparr>)))"

definition open_writer :: "Platform \<Rightarrow> StoreOptions \<Rightarrow> Directory \<Rightarrow> RegistryStore result \<times> Directory" where
  "open_writer p opts d =
     (case res_bind (LoadMetaLocked p opts d) (advance_meta p) of
        Inl e \<Rightarrow> (Inl e, ReleaseLock d)
      | Inr m \<Rightarrow>
          (case WriteMeta p d m of
             (Inl e, d) \<Rightarrow> (Inl e, ReleaseLock d)
           | (Inr _, d) \<Rightarrow> (Inr \<lparr>st_options = opts, st_incarnation = head_incarnation m, st_epoch = head_epoch m\<rparr>, d)))"

definition Open :: "Platform \<Rightarrow> StoreOptions \<Rightarrow> Directory \<Rightarrow> RegistryStore result \<times> Directory" where
  "Open p opts d =
     (if directory opts = [] then (Fail InvalidArgument, d)
      else if open_mode opts = ReadOnly then
        (if \<not> dir_exists d then (Fail NotFound, d)
         else
           (res_bind (LoadMetaLocked p opts d) (\<lambda>m.
              Inr \<lparr>st_options = opts, st_incarnation = head_incarnation m, st_epoch = head_epoch m\<rparr>), d))
      else if create_fails p \<and> \<not> dir_exists d then (Fail IoError, d)
      else
        (case take_lock p (d\<lparr>dir_exists := True\<rparr>) of
           (Inl e, d) \<Rightarrow> (Inl e, d)
         | (Inr _, d) \<Rightarrow> open_writer p opts d))"

section \<open>Reading\<close>

definition ReadMeta :: "Platform \<Rightarrow> RegistryStore \<Rightarrow> Directory \<Rightarrow> StoreMeta result" where
  "ReadMeta p s d = LoadMetaLocked p (st_options s) d"

definition CurrentFence :: "Platform \<Rightarrow> RegistryStore \<Rightarrow> Directory \<Rightarrow> PublishFence result" where
  "CurrentFence p s d =
     res_bind (LoadMetaLocked p (st_options s) d) (\<lambda>m.
       Inr \<lparr>expected_generation = head_generation m, fence_epoch = head_epoch m, fence_incarnation = head_incarnation m\<rparr>)"

definition generation_numbers :: "string list \<Rightarrow> GenerationNumber list" where
  "generation_numbers names =
     concat (map (\<lambda>n. case ParseGenerationFileName n of Inl _ \<Rightarrow> [] | Inr g \<Rightarrow> [g]) names)"

definition ListGenerations :: "Platform \<Rightarrow> RegistryStore \<Rightarrow> Directory \<Rightarrow> GenerationNumber list result" where
  "ListGenerations p s d =
     (if list_fails p then Fail IoError
      else if length (files d) > max_scan_entries (st_options s) then Fail LimitExceeded
      else Inr (sort (generation_numbers (map fst (files d)))))"

definition LoadGeneration :: "Platform \<Rightarrow> RegistryStore \<Rightarrow> Directory \<Rightarrow> GenerationNumber \<Rightarrow> LoadedGeneration result" where
  "LoadGeneration p s d number =
     res_bind (ReadFileBounded p d (GenerationPath number) (max_generation_bytes (st_options s))) (\<lambda>bs.
     res_bind (DecodeGeneration bs) (\<lambda>(doc, generation, _, _).
     if generation \<noteq> number then Fail CorruptPersistence
     else
       res_bind (Compile doc ValidationOptions_default) (\<lambda>g.
         Inr \<lparr>loaded_id = gen_id g, loaded_registry = g, recovery = RecoveryReport_default\<rparr>)))"

text \<open>The loop of \<open>LoadLatest\<close>: the newest generation that loads, from the head downwards.\<close>

fun load_down :: "Platform \<Rightarrow> RegistryStore \<Rightarrow> Directory \<Rightarrow> nat \<Rightarrow> RecoveryReport \<Rightarrow> LoadedGeneration result" where
  "load_down p s d n rep =
     (case LoadGeneration p s d (of_nat n) of
        Inr l \<Rightarrow>
          Inr (l\<lparr>recovery := (if recovered rep
             then rep\<lparr>detail := ''head generation was unreadable; recovered the newest verifiable generation''\<rparr> else rep)\<rparr>)
      | Inl _ \<Rightarrow>
          (case n of
             0 \<Rightarrow> Fail CorruptPersistence
           | Suc m \<Rightarrow> load_down p s d m (rep\<lparr>recovered := True, skipped_corrupt := skipped_corrupt rep @ [of_nat n]\<rparr>)))"

declare load_down.simps [simp del]

text \<open>The removal of generation files newer than the head.\<close>

definition discard_newer :: "Platform \<Rightarrow> GenerationNumber \<Rightarrow> GenerationNumber list \<Rightarrow> Directory \<Rightarrow>
    GenerationNumber list \<times> Directory" where
  "discard_newer p head numbers d =
     foldl (\<lambda>(gone, d) n.
       if n > head then
         (case remove_file p d (GenerationPath n) of (ok, d) \<Rightarrow> (if ok then gone @ [n] else gone, d))
       else (gone, d)) ([], d) numbers"

definition LoadLatest :: "Platform \<Rightarrow> RegistryStore \<Rightarrow> Directory \<Rightarrow> LoadedGeneration result \<times> Directory" where
  "LoadLatest p s d =
     (case LoadMetaLocked p (st_options s) d of
        Inl e \<Rightarrow> (Inl e, d)
      | Inr m \<Rightarrow>
          if head_generation m = 0 then (Fail NotFound, d)
          else
            let (gone, d1) =
                  (if open_mode (st_options s) = ReadWrite then
                     (case ListGenerations p s d of
                        Inl _ \<Rightarrow> ([], d)
                      | Inr numbers \<Rightarrow> discard_newer p (head_generation m) numbers d)
                   else ([], d))
            in (load_down p s d1 (unat (head_generation m)) (RecoveryReport_default\<lparr>discarded_uncommitted := gone\<rparr>), d1))"

section \<open>Publishing\<close>

definition check_fence :: "PublishFence \<Rightarrow> StoreMeta \<Rightarrow> unit result" where
  "check_fence f m =
     (if expected_generation f \<noteq> head_generation m then Fail StaleGeneration
      else if fence_epoch f \<noteq> head_epoch m then Fail StaleEpoch
      else if fence_incarnation f \<noteq> head_incarnation m then Fail StaleIncarnation
      else Inr ())"

text \<open>The bound on retained generation files; no bound when it is zero.\<close>

definition check_retention :: "Platform \<Rightarrow> RegistryStore \<Rightarrow> Directory \<Rightarrow> unit result" where
  "check_retention p s d =
     (if max_generations (st_options s) = 0 then Inr ()
      else
        res_bind (ListGenerations p s d) (\<lambda>retained.
          if length retained \<ge> max_generations (st_options s) then Fail GenerationLimitReached else Inr ()))"

text \<open>The document as it is published.\<close>

definition prepare_document :: "RegistryDocument \<Rightarrow> GenerationNumber \<Rightarrow> StoreMeta \<Rightarrow> RegistryDocument" where
  "prepare_document doc next m =
     Normalize (doc\<lparr>md := (md doc)\<lparr>md_generation := next, md_epoch := head_epoch m,
       parent_digest := (if head_generation m = 0 then None else Some (head_digest m))\<rparr>\<rparr>)"

text \<open>Everything before the first write: the next generation number, its compiled registry and its file.\<close>

definition prepare_publish :: "Platform \<Rightarrow> RegistryStore \<Rightarrow> Directory \<Rightarrow> RegistryDocument \<Rightarrow> PublishFence \<Rightarrow>
    CancellationToken \<Rightarrow> (StoreMeta \<times> GenerationNumber \<times> RegistryGeneration \<times> byte list) result" where
  "prepare_publish p s d doc fence token =
     (if open_mode (st_options s) \<noteq> ReadWrite then Fail ImmutableGeneration
      else if token 0 then Fail Cancelled
      else
        res_bind (LoadMetaLocked p (st_options s) d) (\<lambda>m.
        res_bind (check_fence fence m) (\<lambda>_.
        res_bind (NextGeneration (head_generation m)) (\<lambda>next.
        res_bind (check_retention p s d) (\<lambda>_.
        if token 1 then Fail Cancelled
        else
          res_bind (Compile (prepare_document doc next m) ValidationOptions_default) (\<lambda>g.
          res_bind (EncodeGeneration (prepare_document doc next m) next (head_epoch m) (head_incarnation m)
            (max_generation_bytes (st_options s))) (\<lambda>bs.
          if token 2 then Fail Cancelled else Inr (m, next, g, bs))))))))"

definition published_meta :: "Platform \<Rightarrow> StoreMeta \<Rightarrow> GenerationNumber \<Rightarrow> RegistryGeneration \<Rightarrow> StoreMeta" where
  "published_meta p m next g =
     m\<lparr>head_generation := next, head_digest := gen_digest (gen_id g), total_publications := total_publications m + 1,
       updated_at := clock p, last_publisher := md_publisher (md (document g))\<rparr>"

definition store_Publish :: "Platform \<Rightarrow> RegistryStore \<Rightarrow> Directory \<Rightarrow> RegistryDocument \<Rightarrow> PublishFence \<Rightarrow>
    CancellationToken \<Rightarrow> PublishOutcome result \<times> Directory" where
  "store_Publish p s d doc fence token =
     (case prepare_publish p s d doc fence token of
        Inl e \<Rightarrow> (Inl e, d)
      | Inr (m, next, g, bs) \<Rightarrow>
          (case WriteFileAtomic p (snd (remove_file p d (GenerationPath next))) (GenerationPath next) bs of
             (Inl e, d) \<Rightarrow> (Inl e, d)
           | (Inr _, d) \<Rightarrow>
               if token 3 then (Fail Cancelled, snd (remove_file p d (GenerationPath next)))
               else
                 (case WriteMeta p d (published_meta p m next g) of
                    (Inl e, d) \<Rightarrow> (Inl e, d)
                  | (Inr _, d) \<Rightarrow> (Inr \<lparr>out_id = gen_id g, out_meta = published_meta p m next g\<rparr>, d))))"

section \<open>Pruning\<close>

text \<open>The loop over the oldest generations, which ends at the head.\<close>

fun prune_loop :: "Platform \<Rightarrow> GenerationNumber \<Rightarrow> GenerationNumber list \<Rightarrow> GenerationNumber list \<Rightarrow> Directory \<Rightarrow>
    GenerationNumber list \<times> Directory" where
  "prune_loop p head [] gone d = (gone, d)"
| "prune_loop p head (n # ns) gone d =
     (if n = head then (gone, d)
      else case remove_file p d (GenerationPath n) of
        (ok, d) \<Rightarrow> prune_loop p head ns (if ok then gone @ [n] else gone) d)"

definition store_Prune :: "Platform \<Rightarrow> RegistryStore \<Rightarrow> Directory \<Rightarrow> nat \<Rightarrow> GenerationNumber list result \<times> Directory" where
  "store_Prune p s d keep =
     (if open_mode (st_options s) \<noteq> ReadWrite then (Fail ImmutableGeneration, d)
      else case res_bind (LoadMetaLocked p (st_options s) d) (\<lambda>m. res_bind (ListGenerations p s d) (\<lambda>ns. Inr (m, ns))) of
        Inl e \<Rightarrow> (Inl e, d)
      | Inr (m, ns) \<Rightarrow>
          if length ns \<le> keep then (Inr [], d)
          else
            (case prune_loop p (head_generation m) (take (length ns - keep) ns) [] d of (gone, d) \<Rightarrow> (Inr gone, d)))"

end
