(* ===== verification/Authority.thy ===== *)
theory Authority
  imports StoreOps Diff
begin

text \<open>
  The registry authority (\<open>include/fcr/authority.hpp\<close>, \<open>src/authority.cpp\<close>): the current generation, the
  retained history and the cached head, queries on a snapshot, and publication in two phases, the
  preparation outside the exclusive lock and the commit inside it. Each locked section is one step on the
  state; the persistent authority also steps the data directory of its store.
\<close>

section \<open>State\<close>

record Authority =
  auth_validation :: ValidationOptions
  current :: "RegistryGeneration option"
  history :: "(GenerationNumber, RegistryGeneration) omap"
  auth_meta :: StoreMeta
  auth_store :: "RegistryStore option"
  auth_incarnation :: Incarnation
  auth_epoch :: PublisherEpoch

text \<open>The authority with the directory of its store.\<close>

type_synonym World = "Authority \<times> Directory"

record AuthorityOptions =
  opt_store :: StoreOptions
  opt_validation :: ValidationOptions
  allow_empty :: bool

record AuthorityStatus =
  has_generation :: bool
  status_generation :: GenerationId
  status_incarnation :: Incarnation
  status_epoch :: PublisherEpoch
  status_registry_name :: string
  status_publications :: u64
  status_updated_at :: Timestamp
  rule_count :: nat
  active_rule_count :: nat
  capability_count :: nat
  kind_count :: nat
  retained_generations :: nat
  persistent :: bool

record PublishResult =
  res_id :: GenerationId
  res_validation :: ValidationReport
  res_rule_count :: nat

definition empty_report :: ValidationReport where
  "empty_report = \<lparr>diagnostics = [], error_count = 0, warning_count = 0, info_count = 0, reachability_exhaustive = True\<rparr>"

definition no_generation :: GenerationId where
  "no_generation = GenerationId 0 digest_zero"

section \<open>Opening\<close>

definition authority_on :: "AuthorityOptions \<Rightarrow> RegistryStore \<Rightarrow> StoreMeta \<Rightarrow> Authority" where
  "authority_on opts s m = \<lparr>auth_validation = opt_validation opts, current = None, history = [], auth_meta = m,
     auth_store = Some s, auth_incarnation = st_incarnation s, auth_epoch = st_epoch s\<rparr>"

text \<open>A failure destroys the store, which releases the writer lock it holds.\<close>

definition close_store :: "StoreOptions \<Rightarrow> Directory \<Rightarrow> Directory" where
  "close_store opts d = (if open_mode opts = ReadWrite then ReleaseLock d else d)"

definition authority_Open :: "Platform \<Rightarrow> AuthorityOptions \<Rightarrow> Directory \<Rightarrow> Authority result \<times> Directory" where
  "authority_Open p opts d =
     (case Open p (opt_store opts) d of
        (Inl e, d) \<Rightarrow> (Inl e, d)
      | (Inr s, d) \<Rightarrow>
          (case ReadMeta p s d of
             Inl e \<Rightarrow> (Inl e, close_store (opt_store opts) d)
           | Inr m \<Rightarrow>
               if head_generation m \<noteq> 0 then
                 (case LoadLatest p s d of
                    (Inl e, d) \<Rightarrow> (Inl e, close_store (opt_store opts) d)
                  | (Inr l, d) \<Rightarrow>
                      (Inr ((authority_on opts s m)\<lparr>current := Some (loaded_registry l),
                         history := [(gen_number (loaded_id l), loaded_registry l)]\<rparr>), d))
               else if \<not> allow_empty opts then (Fail NotFound, close_store (opt_store opts) d)
               else (Inr (authority_on opts s m), d)))"

definition OpenInMemory :: "RegistryDocument \<Rightarrow> ValidationOptions \<Rightarrow> Authority result" where
  "OpenInMemory seed opts =
     res_bind (Compile seed opts) (\<lambda>g.
       Inr \<lparr>auth_validation = opts, current = Some g, history = [(gen_number (gen_id g), g)],
         auth_meta = StoreMeta_empty\<lparr>head_generation := gen_number (gen_id g), head_digest := gen_digest (gen_id g),
           head_epoch := 1, head_incarnation := 1, total_publications := gen_number (gen_id g)\<rparr>,
         auth_store = None, auth_incarnation = 1, auth_epoch = 1\<rparr>)"

section \<open>Snapshots and queries\<close>

definition HasGeneration :: "Authority \<Rightarrow> bool" where
  "HasGeneration a = (current a \<noteq> None)"

definition Snapshot :: "Authority \<Rightarrow> RegistryGeneration result" where
  "Snapshot a = (case current a of None \<Rightarrow> Fail NotFound | Some g \<Rightarrow> Inr g)"

definition CurrentGeneration :: "Authority \<Rightarrow> GenerationId result" where
  "CurrentGeneration a = (case current a of None \<Rightarrow> Fail NotFound | Some g \<Rightarrow> Inr (gen_id g))"

definition SnapshotAt :: "Platform \<Rightarrow> World \<Rightarrow> GenerationNumber \<Rightarrow> RegistryGeneration result" where
  "SnapshotAt p w number =
     (case omap_get (history (fst w)) number of
        Some g \<Rightarrow> Inr g
      | None \<Rightarrow>
          (case auth_store (fst w) of
             None \<Rightarrow> Fail NotFound
           | Some s \<Rightarrow> res_bind (LoadGeneration p s (snd w) number) (\<lambda>l. Inr (loaded_registry l))))"

text \<open>The names of generation files as \<open>Generations\<close> recognises them: twenty digits.\<close>

definition scanned_number :: "string \<Rightarrow> GenerationNumber list" where
  "scanned_number name =
     (if length name \<noteq> 4 + 20 + 4 \<or> take 4 name \<noteq> kGenerationPrefix \<or> drop 24 name \<noteq> kGenerationSuffix then []
      else case name_digits 0 (take 20 (drop 4 name)) of Inl _ \<Rightarrow> [] | Inr n \<Rightarrow> [n])"

definition scan_directory :: "Platform \<Rightarrow> RegistryStore \<Rightarrow> Directory \<Rightarrow> GenerationNumber list" where
  "scan_directory p s d =
     (if list_fails p then []
      else concat (map scanned_number (take (max_scan_entries (st_options s)) (map fst (files d)))))"

definition Generations :: "Platform \<Rightarrow> World \<Rightarrow> GenerationNumber list" where
  "Generations p w =
     (let numbers = map fst (history (fst w)) @
            (case auth_store (fst w) of None \<Rightarrow> [] | Some s \<Rightarrow> scan_directory p s (snd w))
      in remdups_adj (sort numbers))"

definition QueryPair :: "Authority \<Rightarrow> ComponentSpec \<Rightarrow> ComponentSpec \<Rightarrow> Decision result" where
  "QueryPair a l r = res_bind (Snapshot a) (\<lambda>g. Inr (EvaluatePair g l r))"

definition QuerySet :: "Authority \<Rightarrow> ComponentSpec list \<Rightarrow> SetDecision result" where
  "QuerySet a ms = res_bind (Snapshot a) (\<lambda>g. EvaluateSet g ms)"

section \<open>Publication\<close>

definition ValidateDocument :: "Authority \<Rightarrow> RegistryDocument \<Rightarrow> ValidationReport" where
  "ValidateDocument a doc = ValidateRegistryDocument (Normalize doc) (auth_validation a)"

definition parent_of_head :: "StoreMeta \<Rightarrow> ContentDigest option" where
  "parent_of_head m = (if head_generation m = 0 then None else Some (head_digest m))"

text \<open>The candidate of a simulation keeps the epoch of the document.\<close>

definition simulated_candidate :: "Authority \<Rightarrow> RegistryDocument \<Rightarrow> GenerationNumber \<Rightarrow> RegistryDocument" where
  "simulated_candidate a doc next =
     Normalize (doc\<lparr>md := (md doc)\<lparr>md_generation := next, parent_digest := parent_of_head (auth_meta a)\<rparr>\<rparr>)"

definition SimulatePublish :: "Authority \<Rightarrow> RegistryDocument \<Rightarrow> PublishResult result" where
  "SimulatePublish a doc =
     res_bind (NextGeneration (head_generation (auth_meta a))) (\<lambda>next.
       let c = simulated_candidate a doc next; report = ValidateRegistryDocument c (auth_validation a)
       in if \<not> Publishable report then Fail ValidationFailed
          else
            res_bind (Compile c (auth_validation a)) (\<lambda>g.
              Inr \<lparr>res_id = gen_id g, res_validation = report, res_rule_count = length (rules (document g))\<rparr>))"

definition candidate :: "Authority \<Rightarrow> RegistryDocument \<Rightarrow> GenerationNumber \<Rightarrow> RegistryDocument" where
  "candidate a doc next =
     Normalize (doc\<lparr>md := (md doc)\<lparr>md_generation := next, md_epoch := auth_epoch a,
       parent_digest := parent_of_head (auth_meta a)\<rparr>\<rparr>)"

text \<open>The commit of a persistent authority: the store publishes, and what it wrote is read back.\<close>

definition commit_store :: "Platform \<Rightarrow> World \<Rightarrow> RegistryStore \<Rightarrow> RegistryDocument \<Rightarrow> PublishResult result \<times> World" where
  "commit_store p w s doc =
     (let (a, d) = w;
          fence = \<lparr>expected_generation = head_generation (auth_meta a), fence_epoch = auth_epoch a,
            fence_incarnation = auth_incarnation a\<rparr>
      in case store_Publish p s d doc fence (\<lambda>_. False) of
           (Inl e, d) \<Rightarrow> (Inl e, (a, d))
         | (Inr out, d) \<Rightarrow>
             (case LoadGeneration p s d (gen_number (out_id out)) of
                Inl e \<Rightarrow> (Inl e, (a, d))
              | Inr l \<Rightarrow>
                  (Inr \<lparr>res_id = out_id out, res_validation = empty_report,
                     res_rule_count = length (rules (document (loaded_registry l)))\<rparr>,
                   (a\<lparr>current := Some (loaded_registry l),
                      history := omap_put (gen_number (loaded_id l)) (loaded_registry l) (history a),
                      auth_meta := out_meta out\<rparr>, d))))"

definition commit_memory :: "Platform \<Rightarrow> Authority \<Rightarrow> RegistryDocument \<Rightarrow> (PublishResult \<times> Authority) result" where
  "commit_memory p a doc =
     res_bind (NextGeneration (head_generation (auth_meta a))) (\<lambda>next.
     res_bind (Compile (candidate a doc next) (auth_validation a)) (\<lambda>g.
       Inr (\<lparr>res_id = gen_id g, res_validation = empty_report, res_rule_count = length (rules (document g))\<rparr>,
         a\<lparr>current := Some g, history := omap_put (gen_number (gen_id g)) g (history a),
           auth_meta := (auth_meta a)\<lparr>head_generation := gen_number (gen_id g), head_digest := gen_digest (gen_id g),
             total_publications := total_publications (auth_meta a) + 1, updated_at := clock p,
             last_publisher := md_publisher (md doc)\<rparr>\<rparr>)))"

definition Commit :: "Platform \<Rightarrow> World \<Rightarrow> RegistryDocument \<Rightarrow> GenerationNumber \<Rightarrow> PublishResult result \<times> World" where
  "Commit p w doc expected =
     (let (a, d) = w
      in if head_generation (auth_meta a) \<noteq> expected then (Fail StaleGeneration, w)
         else case auth_store a of
           Some s \<Rightarrow> commit_store p w s doc
         | None \<Rightarrow>
             (case commit_memory p a doc of
                Inl e \<Rightarrow> (Inl e, w)
              | Inr (r, a) \<Rightarrow> (Inr r, (a, d))))"

text \<open>The part of a publication before its commit: the fence, the candidate and its validation.\<close>

definition Prepare :: "Authority \<Rightarrow> RegistryDocument \<Rightarrow> GenerationNumber \<Rightarrow> CancellationToken \<Rightarrow>
    (RegistryDocument \<times> ValidationReport) result" where
  "Prepare a doc expected token =
     (if token 0 then Fail Cancelled
      else if head_generation (auth_meta a) \<noteq> expected then Fail StaleGeneration
      else
        res_bind (NextGeneration (head_generation (auth_meta a))) (\<lambda>next.
          if token 1 then Fail Cancelled
          else
            let c = candidate a doc next; report = ValidateRegistryDocument c (auth_validation a)
            in if \<not> Publishable report then Fail ValidationFailed
               else if token 2 then Fail Cancelled
               else Inr (c, report)))"

text \<open>A publication that no other one interrupts.\<close>

definition Publish :: "Platform \<Rightarrow> World \<Rightarrow> RegistryDocument \<Rightarrow> GenerationNumber \<Rightarrow> CancellationToken \<Rightarrow>
    PublishResult result \<times> World" where
  "Publish p w doc expected token =
     (case Prepare (fst w) doc expected token of
        Inl e \<Rightarrow> (Inl e, w)
      | Inr (c, report) \<Rightarrow>
          (case Commit p w c expected of
             (Inl e, w) \<Rightarrow> (Inl e, w)
           | (Inr r, w) \<Rightarrow> (Inr (r\<lparr>res_validation := report\<rparr>), w)))"

section \<open>Analysis\<close>

definition authority_Diff :: "Platform \<Rightarrow> World \<Rightarrow> GenerationNumber \<Rightarrow> GenerationNumber \<Rightarrow> GenerationDiff result" where
  "authority_Diff p w from_number to_number =
     res_bind (SnapshotAt p w from_number) (\<lambda>before.
     res_bind (SnapshotAt p w to_number) (\<lambda>after. Inr (DiffGenerations before after)))"

definition Provenance :: "Platform \<Rightarrow> World \<Rightarrow> RuleId \<Rightarrow> ProvenanceRecord list" where
  "Provenance p w i =
     ProvenanceHistory i (map (\<lambda>n. case SnapshotAt p w n of Inl _ \<Rightarrow> None | Inr g \<Rightarrow> Some g)
       (sort (map fst (history (fst w)))))"

definition Replay :: "Platform \<Rightarrow> World \<Rightarrow> ComponentSpec list list \<Rightarrow> GenerationNumber \<Rightarrow> GenerationNumber \<Rightarrow>
    DecisionReplayDiff result" where
  "Replay p w queries from_number to_number =
     res_bind (SnapshotAt p w from_number) (\<lambda>before.
     res_bind (SnapshotAt p w to_number) (\<lambda>after. ReplayDiff before after queries))"

section \<open>Status and stamps\<close>

definition GetStatus :: "Authority \<Rightarrow> AuthorityStatus" where
  "GetStatus a =
     \<lparr>has_generation = current a \<noteq> None,
      status_generation = (case current a of None \<Rightarrow> no_generation | Some g \<Rightarrow> gen_id g),
      status_incarnation = auth_incarnation a, status_epoch = auth_epoch a,
      status_registry_name = (case current a of None \<Rightarrow> [] | Some g \<Rightarrow> md_name (md (document g))),
      status_publications = total_publications (auth_meta a), status_updated_at = updated_at (auth_meta a),
      rule_count = (case current a of None \<Rightarrow> 0 | Some g \<Rightarrow> length (rules (document g))),
      active_rule_count = (case current a of None \<Rightarrow> 0
        | Some g \<Rightarrow> length (filter (\<lambda>k. lc_state (lifecycle k) = Active) (rules (document g)))),
      capability_count = (case current a of None \<Rightarrow> 0 | Some g \<Rightarrow> length (capabilities (taxonomy g))),
      kind_count = (case current a of None \<Rightarrow> 0 | Some g \<Rightarrow> length (kinds (taxonomy g))),
      retained_generations = length (history a), persistent = auth_store a \<noteq> None\<rparr>"

definition Stamp :: "Authority \<Rightarrow> IncarnationStamp" where
  "Stamp a = IncarnationStamp (auth_incarnation a) (case current a of None \<Rightarrow> no_generation | Some g \<Rightarrow> gen_id g)"

definition CheckStamp :: "Authority \<Rightarrow> IncarnationStamp \<Rightarrow> unit result" where
  "CheckStamp a stamp =
     (if stamp_incarnation stamp \<noteq> auth_incarnation a then Fail StaleIncarnation
      else case current a of
        None \<Rightarrow> Inr ()
      | Some g \<Rightarrow> if stamp_generation stamp \<noteq> gen_id g then Fail StaleGeneration else Inr ())"

definition authority_Prune :: "Platform \<Rightarrow> World \<Rightarrow> nat \<Rightarrow> GenerationNumber list result \<times> World" where
  "authority_Prune p w keep =
     (let (a, d) = w
      in case auth_store a of
           None \<Rightarrow> (Fail ImmutableGeneration, w)
         | Some s \<Rightarrow>
             (case store_Prune p s d keep of
                (Inl e, d) \<Rightarrow> (Inl e, (a, d))
              | (Inr gone, d) \<Rightarrow> (Inr gone, (a\<lparr>history := foldl (\<lambda>h n. omap_erase n h) (history a) gone\<rparr>, d))))"

end
