(* ===== verification/Protocol.thy ===== *)
theory Protocol
  imports Authority
begin

text \<open>
  The service protocol (\<open>include/fcr/protocol.hpp\<close>, \<open>src/protocol.cpp\<close>): the operations, their handlers and the
  envelope of a response. A request runs on the state of the service: the authority with its directory, and
  whether a shutdown was requested. The wording of errors is a parameter.
\<close>

section \<open>Operations\<close>

definition kServiceProtocolVersion :: u32 where "kServiceProtocolVersion = 1"
definition kServiceName :: string where "kServiceName = ''fcr-registry''"

datatype Operation =
    OpPing | OpStatus | OpValidate | OpPublish | OpQueryPair | OpQuerySet | OpDiff | OpReplayDiff | OpProvenance
  | OpGenerations | OpPrune | OpShutdown

fun OperationName :: "Operation \<Rightarrow> string" where
  "OperationName OpPing = ''ping''"
| "OperationName OpStatus = ''status''"
| "OperationName OpValidate = ''validate''"
| "OperationName OpPublish = ''publish''"
| "OperationName OpQueryPair = ''query_pair''"
| "OperationName OpQuerySet = ''query_set''"
| "OperationName OpDiff = ''diff''"
| "OperationName OpReplayDiff = ''replay''"
| "OperationName OpProvenance = ''provenance''"
| "OperationName OpGenerations = ''generations''"
| "OperationName OpPrune = ''prune''"
| "OperationName OpShutdown = ''shutdown''"

definition ParseOperation :: "string \<Rightarrow> Operation result" where
  "ParseOperation t =
     (if t = ''ping'' then Inr OpPing else if t = ''status'' then Inr OpStatus
      else if t = ''validate'' then Inr OpValidate else if t = ''publish'' then Inr OpPublish
      else if t = ''query_pair'' then Inr OpQueryPair else if t = ''query_set'' then Inr OpQuerySet
      else if t = ''diff'' then Inr OpDiff else if t = ''replay'' then Inr OpReplayDiff
      else if t = ''provenance'' then Inr OpProvenance else if t = ''generations'' then Inr OpGenerations
      else if t = ''prune'' then Inr OpPrune else if t = ''shutdown'' then Inr OpShutdown
      else Fail InvalidArgument)"

section \<open>Responses\<close>

record Error =
  err_code :: ErrorCode
  err_message :: string
  err_detail :: string

definition ErrorToJson :: "Error \<Rightarrow> JsonValue" where
  "ErrorToJson e =
     (let j = Set (JObj []) ''code'' (JStr (ErrorCodeName (err_code e)));
          j = Set j ''message'' (JStr (err_message e))
      in set_when (err_detail e \<noteq> []) ''detail'' (JStr (err_detail e)) j)"

definition OkResponse :: "JsonValue \<Rightarrow> JsonValue" where
  "OkResponse r = Set (Set (JObj []) ''ok'' (JBool True)) ''result'' r"

definition ErrorResponse :: "Error \<Rightarrow> JsonValue" where
  "ErrorResponse e = Set (Set (JObj []) ''ok'' (JBool False)) ''error'' (ErrorToJson e)"

definition count_json :: "nat \<Rightarrow> JsonValue" where
  "count_json n = JUInt (of_nat n)"

definition AuthorityStatusToJson :: "AuthorityStatus \<Rightarrow> JsonValue" where
  "AuthorityStatusToJson s =
     (let j = Set (JObj []) ''service'' (JStr kServiceName);
          j = Set j ''protocol_version'' (JUInt (ucast kServiceProtocolVersion));
          j = Set j ''persistent'' (JBool (persistent s));
          j = Set j ''has_generation'' (JBool (has_generation s));
          j = set_when (has_generation s) ''generation'' (generation_json (status_generation s)) j;
          j = Set j ''incarnation'' (JUInt (status_incarnation s));
          j = Set j ''publisher_epoch'' (JUInt (status_epoch s));
          j = Set j ''registry_name'' (JStr (status_registry_name s));
          j = Set j ''total_publications'' (JUInt (status_publications s));
          j = Set j ''updated_at'' (JStr (ToIso8601 (status_updated_at s)));
          j = Set j ''rule_count'' (count_json (rule_count s));
          j = Set j ''active_rule_count'' (count_json (active_rule_count s));
          j = Set j ''capability_count'' (count_json (capability_count s));
          j = Set j ''kind_count'' (count_json (kind_count s))
      in Set j ''retained_generations'' (count_json (retained_generations s)))"

section \<open>Reading a request\<close>

definition ReadGeneration :: "JsonValue \<Rightarrow> string \<Rightarrow> GenerationNumber result" where
  "ReadGeneration r key =
     (case Find r key of
        None \<Rightarrow> Fail NotFound
      | Some v \<Rightarrow>
          if IsNull v then Fail NotFound
          else (case AsUInt v of None \<Rightarrow> Fail InvalidArgument | Some n \<Rightarrow> Inr n))"

definition flag_set :: "JsonValue \<Rightarrow> string \<Rightarrow> bool" where
  "flag_set r key = (case Find r key of None \<Rightarrow> False | Some v \<Rightarrow> AsBool v False)"

definition SelectGeneration :: "Platform \<Rightarrow> JsonValue \<Rightarrow> World \<Rightarrow> RegistryGeneration result" where
  "SelectGeneration p r w =
     (case ReadGeneration r ''generation'' of Inl _ \<Rightarrow> Snapshot (fst w) | Inr n \<Rightarrow> SnapshotAt p w n)"

definition request_document :: "JsonValue \<Rightarrow> RegistryDocument result" where
  "request_document r = res_bind (RequireField r ''document'') (\<lambda>j. ParseRegistryDocument j DocumentLimits_default)"

definition request_spec :: "RegistryGeneration \<Rightarrow> JsonValue \<Rightarrow> ComponentSpec result" where
  "request_spec g j = ParseComponentSpec j (taxonomy g) ComponentSpecLimits_default"

text \<open>The fence of a request: the incarnation and generation its sender believes it talks to.\<close>

definition ReadStamp :: "JsonValue \<Rightarrow> IncarnationStamp result" where
  "ReadStamp j =
     (if \<not> IsObject j then Fail InvalidArgument
      else
        res_bind (RequireUInt j ''incarnation'') (\<lambda>inc.
        case Find j ''generation'' of
          None \<Rightarrow> Inr (IncarnationStamp inc no_generation)
        | Some g \<Rightarrow>
            if IsNull g then Inr (IncarnationStamp inc no_generation)
            else (case AsString g of
                None \<Rightarrow> Fail InvalidArgument
              | Some t \<Rightarrow> res_bind (ParseGenerationId t) (\<lambda>i. Inr (IncarnationStamp inc i)))))"

definition check_request_stamp :: "JsonValue \<Rightarrow> Authority \<Rightarrow> unit result" where
  "check_request_stamp r a =
     (case Find r ''stamp'' of
        None \<Rightarrow> Inr ()
      | Some j \<Rightarrow> if IsNull j then Inr () else res_bind (ReadStamp j) (CheckStamp a))"

section \<open>Handlers\<close>

record RequestContext =
  has_authority :: bool
  allow_shutdown :: bool
  allow_publish :: bool
  allow_prune :: bool
  has_shutdown_hook :: bool
  shutdown_token :: CancellationToken

definition HandlePing :: JsonValue where
  "HandlePing = Set (Set (JObj []) ''service'' (JStr kServiceName)) ''protocol_version'' (JUInt (ucast kServiceProtocolVersion))"

definition stamp_json :: "IncarnationStamp \<Rightarrow> JsonValue" where
  "stamp_json s =
     set_when (GenerationId_IsValid (stamp_generation s)) ''generation'' (JStr (GenerationId_ToString (stamp_generation s)))
       (Set (JObj []) ''incarnation'' (JUInt (stamp_incarnation s)))"

definition HandleStatus :: "Authority \<Rightarrow> JsonValue" where
  "HandleStatus a = Set (AuthorityStatusToJson (GetStatus a)) ''stamp'' (stamp_json (Stamp a))"

definition HandleValidate :: "JsonValue \<Rightarrow> Authority \<Rightarrow> JsonValue result" where
  "HandleValidate r a =
     res_bind (request_document r) (\<lambda>d.
       let report = ValidateDocument a d; j = report_ToJson report
       in Inr (if Publishable report then
                 (case SimulatePublish a d of
                    Inl _ \<Rightarrow> j
                  | Inr x \<Rightarrow> Set j ''would_publish_as'' (generation_json (res_id x)))
               else j))"

definition publish_json :: "bool \<Rightarrow> PublishResult \<Rightarrow> JsonValue" where
  "publish_json dry x =
     (let j = Set (JObj []) ''dry_run'' (JBool dry);
          j = Set j ''generation'' (generation_json (res_id x));
          j = set_when (\<not> dry) ''rule_count'' (count_json (res_rule_count x)) j
      in Set j ''validation'' (report_ToJson (res_validation x)))"

definition HandlePublish :: "Platform \<Rightarrow> RequestContext \<Rightarrow> JsonValue \<Rightarrow> World \<Rightarrow> JsonValue result \<times> World" where
  "HandlePublish p ctx r w =
     (if \<not> allow_publish ctx then (Fail ImmutableGeneration, w)
      else case request_document r of
        Inl e \<Rightarrow> (Inl e, w)
      | Inr d \<Rightarrow>
          (case ReadGeneration r ''expected_generation'' of
             Inl _ \<Rightarrow> (Fail InvalidArgument, w)
           | Inr expected \<Rightarrow>
               if flag_set r ''dry_run'' then (res_bind (SimulatePublish (fst w) d) (\<lambda>x. Inr (publish_json True x)), w)
               else
                 (case Publish p w d expected (shutdown_token ctx) of
                    (Inl e, w) \<Rightarrow> (Inl e, w)
                  | (Inr x, w) \<Rightarrow> (Inr (publish_json False x), w))))"

definition HandleQueryPair :: "Platform \<Rightarrow> JsonValue \<Rightarrow> World \<Rightarrow> JsonValue result" where
  "HandleQueryPair p r w =
     res_bind (SelectGeneration p r w) (\<lambda>g.
     res_bind (RequireField r ''left'') (\<lambda>lj.
     res_bind (RequireField r ''right'') (\<lambda>rj.
     res_bind (request_spec g lj) (\<lambda>l.
     res_bind (request_spec g rj) (\<lambda>r'.
       let d = EvaluatePair g l r'
       in Inr (set_when (flag_set r ''explain'') ''explanation'' (JStr (narrative d)) (DecisionToJson d)))))))"

definition HandleQuerySet :: "Platform \<Rightarrow> JsonValue \<Rightarrow> World \<Rightarrow> JsonValue result" where
  "HandleQuerySet p r w =
     res_bind (SelectGeneration p r w) (\<lambda>g.
     res_bind (RequireArray r ''members'') (\<lambda>js.
     if js = [] then Fail InvalidArgument
     else
       res_bind (res_mapM (request_spec g) js) (\<lambda>ms.
       res_bind (EvaluateSet g ms) (\<lambda>d.
         Inr (set_when (flag_set r ''explain'') ''explanation'' (JStr (sd_narrative d)) (SetDecisionToJson d))))))"

definition HandleDiff :: "Platform \<Rightarrow> JsonValue \<Rightarrow> World \<Rightarrow> JsonValue result" where
  "HandleDiff p r w =
     res_bind (ReadGeneration r ''from'') (\<lambda>f.
     res_bind (ReadGeneration r ''to'') (\<lambda>t.
     res_bind (authority_Diff p w f t) (\<lambda>d. Inr (GenerationDiffToJson d))))"

definition subject_json :: "ComponentRef \<Rightarrow> JsonValue" where
  "subject_json c =
     (let j = Set (JObj []) ''kind'' (JStr (id_value (cr_kind c)));
          j = Set j ''version'' (JStr (SemVersion_ToString (cr_version c)))
      in set_when (id_value (cr_instance c) \<noteq> []) ''instance'' (JStr (id_value (cr_instance c))) j)"

definition change_json :: "DecisionChange \<Rightarrow> JsonValue" where
  "change_json c =
     (let j = Set (JObj []) ''subjects'' (JArr (map subject_json (chg_subjects c)));
          j = Set j ''before_outcome'' (JStr (DecisionOutcomeName (before_outcome c)));
          j = Set j ''after_outcome'' (JStr (DecisionOutcomeName (after_outcome c)));
          j = Set j ''before_decision'' (JStr (ToHex (before_id c)));
          j = Set j ''after_decision'' (JStr (ToHex (after_id c)));
          j = set_option ''before_rule'' (\<lambda>x. JStr (RuleRef_ToString x)) (before_rule c) j
      in set_option ''after_rule'' (\<lambda>x. JStr (RuleRef_ToString x)) (after_rule c) j)"

definition replay_json :: "DecisionReplayDiff \<Rightarrow> JsonValue" where
  "replay_json d =
     (let j = Set (JObj []) ''from'' (generation_json (replay_from d));
          j = Set j ''to'' (generation_json (replay_to d));
          j = Set j ''compared'' (count_json (compared d));
          j = Set j ''changed'' (count_json (length (replay_changes d)))
      in Set j ''changes'' (JArr (map change_json (replay_changes d))))"

definition replay_query :: "RegistryGeneration \<Rightarrow> JsonValue \<Rightarrow> ComponentSpec list result" where
  "replay_query g j = (case AsArray j of None \<Rightarrow> Fail InvalidArgument | Some js \<Rightarrow> res_mapM (request_spec g) js)"

definition HandleReplay :: "Platform \<Rightarrow> JsonValue \<Rightarrow> World \<Rightarrow> JsonValue result" where
  "HandleReplay p r w =
     res_bind (ReadGeneration r ''from'') (\<lambda>f.
     res_bind (ReadGeneration r ''to'') (\<lambda>t.
     res_bind (RequireArray r ''queries'') (\<lambda>js.
     res_bind (SnapshotAt p w t) (\<lambda>g.
     res_bind (res_mapM (replay_query g) js) (\<lambda>qs.
     res_bind (Replay p w qs f t) (\<lambda>d. Inr (replay_json d)))))))"

definition record_provenance_json :: "RuleProvenance \<Rightarrow> JsonValue" where
  "record_provenance_json v =
     (let j = Set (JObj []) ''publisher'' (JStr (id_value (publisher v)));
          j = Set j ''source'' (JStr (prov_source v));
          j = Set j ''reference'' (JStr (prov_reference v));
          j = Set j ''recorded_at'' (JStr (ToIso8601 (recorded_at v)))
      in Set j ''change_note'' (JStr (change_note v)))"

definition record_json :: "ProvenanceRecord \<Rightarrow> JsonValue" where
  "record_json r =
     (let j = Set (JObj []) ''generation'' (JUInt (rec_generation r));
          j = Set j ''present'' (JBool (rec_present r));
          j = Set j ''rule'' (JStr (RuleRef_ToString (rec_rule r)));
          j = Set j ''rule_digest'' (JStr (ToHex (rec_digest r)));
          j = Set j ''lifecycle'' (JStr (LifecycleStateName (rec_lifecycle r)))
      in Set j ''provenance'' (record_provenance_json (rec_provenance r)))"

definition HandleProvenance :: "Platform \<Rightarrow> JsonValue \<Rightarrow> World \<Rightarrow> JsonValue result" where
  "HandleProvenance p r w =
     res_bind (RequireString r ''rule'') (\<lambda>t.
     res_bind (TypedId_Parse QualifiedName t) (\<lambda>i.
       let records = Provenance p w i; j = Set (JObj []) ''rule'' (JStr (id_value i));
           j = Set j ''text'' (JStr (RenderProvenanceHistory records))
       in Inr (Set j ''records'' (JArr (map record_json records)))))"

definition numbers_json :: "GenerationNumber list \<Rightarrow> JsonValue" where
  "numbers_json ns = JArr (map JUInt ns)"

definition HandleGenerations :: "Platform \<Rightarrow> World \<Rightarrow> JsonValue" where
  "HandleGenerations p w = Set (JObj []) ''generations'' (numbers_json (Generations p w))"

definition HandlePrune :: "Platform \<Rightarrow> RequestContext \<Rightarrow> JsonValue \<Rightarrow> World \<Rightarrow> JsonValue result \<times> World" where
  "HandlePrune p ctx r w =
     (if \<not> allow_prune ctx then (Fail ImmutableGeneration, w)
      else case RequireUInt r ''keep'' of
        Inl e \<Rightarrow> (Inl e, w)
      | Inr keep \<Rightarrow>
          if keep > 100000 then (Fail LimitExceeded, w)
          else
            (case authority_Prune p w (unat keep) of
               (Inl e, w) \<Rightarrow> (Inl e, w)
             | (Inr gone, w) \<Rightarrow> (Inr (Set (JObj []) ''removed'' (numbers_json gone)), w)))"

section \<open>Execution\<close>

record Service =
  service_world :: World
  stop_requested :: bool

definition Execute :: "Platform \<Rightarrow> RequestContext \<Rightarrow> Operation \<Rightarrow> JsonValue \<Rightarrow> Service \<Rightarrow> JsonValue result \<times> Service" where
  "Execute p ctx op r s =
     (let w = service_world s
      in case op of
        OpPing \<Rightarrow> (Inr HandlePing, s)
      | OpStatus \<Rightarrow> (Inr (HandleStatus (fst w)), s)
      | OpValidate \<Rightarrow> (HandleValidate r (fst w), s)
      | OpPublish \<Rightarrow> (case HandlePublish p ctx r w of (x, w) \<Rightarrow> (x, s\<lparr>service_world := w\<rparr>))
      | OpQueryPair \<Rightarrow> (HandleQueryPair p r w, s)
      | OpQuerySet \<Rightarrow> (HandleQuerySet p r w, s)
      | OpDiff \<Rightarrow> (HandleDiff p r w, s)
      | OpReplayDiff \<Rightarrow> (HandleReplay p r w, s)
      | OpProvenance \<Rightarrow> (HandleProvenance p r w, s)
      | OpGenerations \<Rightarrow> (Inr (HandleGenerations p w), s)
      | OpPrune \<Rightarrow> (case HandlePrune p ctx r w of (x, w) \<Rightarrow> (x, s\<lparr>service_world := w\<rparr>))
      | OpShutdown \<Rightarrow>
          if \<not> allow_shutdown ctx \<or> \<not> has_shutdown_hook ctx then (Fail InvalidArgument, s)
          else (Inr (Set (JObj []) ''stopping'' (JBool True)), s\<lparr>stop_requested := True\<rparr>))"

definition ExecuteRequest :: "Platform \<Rightarrow> RequestContext \<Rightarrow> JsonValue \<Rightarrow> Service \<Rightarrow> JsonValue result \<times> Service" where
  "ExecuteRequest p ctx r s =
     (if \<not> has_authority ctx then (Fail Internal, s)
      else if \<not> IsObject r then (Fail InvalidArgument, s)
      else case res_bind (res_bind (RequireString r ''op'') ParseOperation) (\<lambda>op.
          res_bind (check_request_stamp r (fst (service_world s))) (\<lambda>_. Inr op)) of
        Inl e \<Rightarrow> (Inl e, s)
      | Inr op \<Rightarrow> Execute p ctx op r s)"

text \<open>The wording of an error: its message and detail, by code.\<close>

type_synonym Wording = "JsonValue \<Rightarrow> Service \<Rightarrow> ErrorCode \<Rightarrow> string \<times> string"

text \<open>A publication that fails validation carries the report as its detail.\<close>

definition report_detail :: "JsonValue \<Rightarrow> Service \<Rightarrow> ErrorCode \<Rightarrow> string option" where
  "report_detail r s c =
     (if c = ValidationFailed \<and> res_bind (RequireString r ''op'') ParseOperation = Inr OpPublish then
        (case request_document r of
           Inl _ \<Rightarrow> None
         | Inr d \<Rightarrow> Some (report_Render (ValidateDocument (fst (service_world s)) d)))
      else None)"

definition request_error :: "Wording \<Rightarrow> JsonValue \<Rightarrow> Service \<Rightarrow> ErrorCode \<Rightarrow> Error" where
  "request_error wording r s c =
     \<lparr>err_code = c, err_message = fst (wording r s c),
      err_detail = (case report_detail r s c of Some t \<Rightarrow> t | None \<Rightarrow> snd (wording r s c))\<rparr>"

text \<open>The response; there is none only when the code's behaviour is undefined.\<close>

definition DispatchEnvelope :: "Platform \<Rightarrow> RequestContext \<Rightarrow> Wording \<Rightarrow> JsonValue \<Rightarrow> Service \<Rightarrow>
    JsonValue result \<times> Service" where
  "DispatchEnvelope p ctx wording r s =
     (case ExecuteRequest p ctx r s of
        (Inr j, s) \<Rightarrow> (Inr (OkResponse j), s)
      | (Inl (Failed c), s) \<Rightarrow> (Inr (ErrorResponse (request_error wording r s c)), s)
      | (Inl e, s) \<Rightarrow> (Inl e, s))"

end
