(* ===== verification/Transport.thy ===== *)
theory Transport
  imports Store
begin

text \<open>
  Frames over a stream of bytes (\<open>include/fcr/transport.hpp\<close>, \<open>src/transport.cpp\<close>). A socket is what can still
  be received from it: the bytes that arrive and how their sequence ends. The system calls that open, bind
  and wake sockets are not modelled.
\<close>

section \<open>Frames\<close>

definition kFrameHeaderBytes :: nat where "kFrameHeaderBytes = 28"
definition kFrameFormatVersion :: "16 word" where "kFrameFormatVersion = 1"
definition kDefaultMaxFrameBytes :: u32 where "kDefaultMaxFrameBytes = 1024 * 1024"

text \<open>\<open>enum class FrameKind : std::uint16_t\<close>: a received kind may be any number.\<close>

type_synonym FrameKind = "16 word"

definition FrameKind_Hello :: FrameKind where "FrameKind_Hello = 1"
definition FrameKind_HelloAck :: FrameKind where "FrameKind_HelloAck = 2"
definition FrameKind_Request :: FrameKind where "FrameKind_Request = 3"
definition FrameKind_Response :: FrameKind where "FrameKind_Response = 4"
definition FrameKind_Error :: FrameKind where "FrameKind_Error = 5"
definition FrameKind_Ping :: FrameKind where "FrameKind_Ping = 6"
definition FrameKind_Pong :: FrameKind where "FrameKind_Pong = 7"
definition FrameKind_Bye :: FrameKind where "FrameKind_Bye = 8"

lemmas frame_kinds = FrameKind_Hello_def FrameKind_HelloAck_def FrameKind_Request_def FrameKind_Response_def
  FrameKind_Error_def FrameKind_Ping_def FrameKind_Pong_def FrameKind_Bye_def

definition FrameKindName :: "FrameKind \<Rightarrow> string" where
  "FrameKindName k =
     (if k = FrameKind_Hello then ''hello'' else if k = FrameKind_HelloAck then ''hello_ack''
      else if k = FrameKind_Request then ''request'' else if k = FrameKind_Response then ''response''
      else if k = FrameKind_Error then ''error'' else if k = FrameKind_Ping then ''ping''
      else if k = FrameKind_Pong then ''pong'' else if k = FrameKind_Bye then ''bye'' else ''unknown'')"

record Frame =
  frame_kind :: FrameKind
  correlation :: u64
  payload :: "byte list"

definition PayloadText :: "Frame \<Rightarrow> string" where
  "PayloadText f = bytes_text (payload f)"

definition text_frame :: "FrameKind \<Rightarrow> u64 \<Rightarrow> string \<Rightarrow> Frame" where
  "text_frame k c t = \<lparr>frame_kind = k, correlation = c, payload = text_bytes t\<rparr>"

definition kFrameMagic :: "byte list" where "kFrameMagic = text_bytes ''FCRF''"

text \<open>The first 20 bytes of a header, which its checksum covers.\<close>

definition frame_prefix :: "Frame \<Rightarrow> byte list" where
  "frame_prefix f =
     kFrameMagic @ le_bytes 2 kFrameFormatVersion @ le_bytes 2 (frame_kind f) @
     le_bytes 4 (of_nat (length (payload f)) :: u32) @ le_bytes 8 (correlation f)"

definition EncodeFrame :: "Frame \<Rightarrow> u32 \<Rightarrow> byte list result" where
  "EncodeFrame f max_size =
     (if length (payload f) > unat max_size then Fail LimitExceeded
      else Inr (frame_prefix f @ le_bytes 4 (Crc32c (frame_prefix f)) @ le_bytes 4 (Crc32c (payload f)) @ payload f))"

section \<open>Receiving\<close>

text \<open>The bytes that arrive, and whether the peer closes the connection after them; otherwise the receive fails
  there.\<close>

record Stream =
  incoming :: "byte list"
  closes :: bool

datatype ReadOutcome = Complete | Closed | ReadCancelled

text \<open>\<open>RecvAll\<close>: the bytes, or nothing when the stream was closed before the first one.\<close>

definition RecvAll :: "nat \<Rightarrow> Stream \<Rightarrow> byte list option result \<times> Stream" where
  "RecvAll n s =
     (if n \<le> length (incoming s) then (Inr (Some (take n (incoming s))), s\<lparr>incoming := drop n (incoming s)\<rparr>)
      else if closes s \<and> incoming s = [] then (Inr None, s)
      else (Fail TransportError, s\<lparr>incoming := []\<rparr>))"

text \<open>\<open>RecvAllCancellable\<close>: \<open>cancelled\<close> says that the cancel socket becomes readable where the bytes end.\<close>

definition RecvAllCancellable :: "nat \<Rightarrow> bool \<Rightarrow> Stream \<Rightarrow> (ReadOutcome \<times> byte list) result \<times> Stream" where
  "RecvAllCancellable n cancelled s =
     (if n \<le> length (incoming s) then (Inr (Complete, take n (incoming s)), s\<lparr>incoming := drop n (incoming s)\<rparr>)
      else if cancelled then (Inr (ReadCancelled, []), s\<lparr>incoming := []\<rparr>)
      else if closes s \<and> incoming s = [] then (Inr (Closed, []), s)
      else (Fail TransportError, s\<lparr>incoming := []\<rparr>))"

text \<open>The checks of a header: the kind, the correlation, the length of the payload and its checksum.\<close>

definition check_header :: "byte list \<Rightarrow> u32 \<Rightarrow> (FrameKind \<times> u64 \<times> nat \<times> u32) result" where
  "check_header header max_size =
     (if take 4 header \<noteq> kFrameMagic then Fail ProtocolError
      else if le_at header 4 2 \<noteq> kFrameFormatVersion then Fail ProtocolError
      else if le_at header 20 4 \<noteq> Crc32c (take 20 header) then Fail ProtocolError
      else if (le_at header 8 4 :: u32) > max_size then Fail LimitExceeded
      else Inr (le_at header 6 2, le_at header 12 8, unat (le_at header 8 4 :: u32), le_at header 24 4))"

definition check_payload :: "FrameKind \<Rightarrow> u64 \<Rightarrow> byte list \<Rightarrow> u32 \<Rightarrow> Frame result" where
  "check_payload k c bs crc =
     (if crc \<noteq> Crc32c bs then Fail ProtocolError else Inr \<lparr>frame_kind = k, correlation = c, payload = bs\<rparr>)"

definition ReadFrame :: "u32 \<Rightarrow> Stream \<Rightarrow> Frame option result \<times> Stream" where
  "ReadFrame max_size s =
     (case RecvAll kFrameHeaderBytes s of
        (Inl e, s) \<Rightarrow> (Inl e, s)
      | (Inr None, s) \<Rightarrow> (Inr None, s)
      | (Inr (Some header), s) \<Rightarrow>
          (case check_header header max_size of
             Inl e \<Rightarrow> (Inl e, s)
           | Inr (k, c, len, crc) \<Rightarrow>
               (case (if len = 0 then (Inr (Some []), s) else RecvAll len s) of
                  (Inl e, s) \<Rightarrow> (Inl e, s)
                | (Inr None, s) \<Rightarrow> (Fail ProtocolError, s)
                | (Inr (Some bs), s) \<Rightarrow> (res_bind (check_payload k c bs crc) (\<lambda>f. Inr (Some f)), s))))"

definition ReadFrameCancellable :: "u32 \<Rightarrow> bool \<Rightarrow> Stream \<Rightarrow> (ReadOutcome \<times> Frame option) result \<times> Stream" where
  "ReadFrameCancellable max_size cancelled s =
     (case RecvAllCancellable kFrameHeaderBytes cancelled s of
        (Inl e, s) \<Rightarrow> (Inl e, s)
      | (Inr (oc, header), s) \<Rightarrow>
          if oc \<noteq> Complete then (Inr (oc, None), s)
          else
            (case check_header header max_size of
               Inl e \<Rightarrow> (Inl e, s)
             | Inr (k, c, len, crc) \<Rightarrow>
                 (case (if len = 0 then (Inr (Complete, []), s) else RecvAllCancellable len cancelled s) of
                    (Inl e, s) \<Rightarrow> (Inl e, s)
                  | (Inr (oc, bs), s) \<Rightarrow>
                      if oc \<noteq> Complete then (Inr (oc, None), s)
                      else (res_bind (check_payload k c bs crc) (\<lambda>f. Inr (Complete, Some f)), s))))"

end
