(* ===== verification/Client.thy ===== *)
theory Client
  imports Protocol Transport
begin

text \<open>
  The client of the service (\<open>include/fcr/client.hpp\<close>, \<open>src/client.cpp\<close>): the handshake, calls and the envelope
  of a reply. The lock of the client makes a call one step. Sending is a parameter; what arrives is the stream.
\<close>

section \<open>The envelope of a reply\<close>

definition envelope_error :: "string \<Rightarrow> Error" where
  "envelope_error m = \<lparr>err_code = ProtocolError, err_message = m, err_detail = []\<rparr>"

definition string_field :: "JsonValue \<Rightarrow> string \<Rightarrow> string option" where
  "string_field j key = (case Find j key of None \<Rightarrow> None | Some v \<Rightarrow> AsString v)"

definition typed_error :: "JsonValue \<Rightarrow> Error" where
  "typed_error j =
     \<lparr>err_code = (case string_field j ''code'' of None \<Rightarrow> Internal | Some t \<Rightarrow> ErrorCodeFromName t),
      err_message = (case string_field j ''message'' of None \<Rightarrow> ''service reported an unnamed failure'' | Some t \<Rightarrow> t),
      err_detail = (case string_field j ''detail'' of None \<Rightarrow> [] | Some t \<Rightarrow> t)\<rparr>"

definition UnwrapEnvelope :: "JsonValue \<Rightarrow> Error + JsonValue" where
  "UnwrapEnvelope j =
     (if \<not> IsObject j then Inl (envelope_error ''service reply is not a JSON object'')
      else case Find j ''ok'' of
        None \<Rightarrow> Inl (envelope_error ''service reply has no boolean 'ok' field'')
      | Some ok \<Rightarrow>
          if \<not> IsBool ok then Inl (envelope_error ''service reply has no boolean 'ok' field'')
          else if AsBool ok False then
            (case Find j ''result'' of
               None \<Rightarrow> Inl (envelope_error ''successful service reply has no result'')
             | Some r \<Rightarrow> Inr r)
          else
            (case Find j ''error'' of
               None \<Rightarrow> Inl (envelope_error ''failed service reply has no error object'')
             | Some e \<Rightarrow>
                 if \<not> IsObject e then Inl (envelope_error ''failed service reply has no error object'')
                 else Inl (typed_error e)))"

section \<open>State\<close>

record ClientOptions =
  client_port :: "16 word"
  client_max_frame :: u32
  client_version :: u32
  client_id :: string

record HandshakeInfo =
  hs_version :: u32
  hs_max_frame :: u32
  hs_incarnation :: Incarnation
  hs_generation :: "GenerationId option"
  hs_registry_name :: string
  hs_persistent :: bool
  hs_epoch :: PublisherEpoch

record Client =
  handshake :: HandshakeInfo
  cl_stream :: Stream
  cl_correlation :: u64
  cl_closed :: bool

section \<open>Connecting\<close>

definition hello_json :: "ClientOptions \<Rightarrow> JsonValue" where
  "hello_json opts =
     (let j = Set (JObj []) ''client_id'' (JStr (client_id opts));
          j = Set j ''protocol_version'' (JUInt (ucast (client_version opts)))
      in Set j ''max_frame_bytes'' (JUInt (ucast (client_max_frame opts))))"

definition hello_frame :: "ClientOptions \<Rightarrow> Frame" where
  "hello_frame opts = text_frame FrameKind_Hello 0 (Dump (hello_json opts) False)"

definition read_handshake_generation :: "JsonValue \<Rightarrow> GenerationId option result" where
  "read_handshake_generation j =
     (case Find j ''generation'' of
        None \<Rightarrow> Inr None
      | Some g \<Rightarrow>
          if \<not> IsObject g then Inr None
          else
            res_bind (RequireUInt g ''number'') (\<lambda>n.
            res_bind (res_bind (RequireString g ''digest'') FromHex) (\<lambda>d. Inr (Some (GenerationId n d)))))"

definition read_ack :: "ClientOptions \<Rightarrow> JsonValue \<Rightarrow> HandshakeInfo result" where
  "read_ack opts j =
     res_bind (RequireUInt j ''protocol_version'') (\<lambda>version.
     res_bind (RequireUInt j ''max_frame_bytes'') (\<lambda>max_frame.
     res_bind (RequireUInt j ''incarnation'') (\<lambda>inc.
     let effective = ucast (min max_frame (ucast (client_max_frame opts))) :: u32
     in if effective < 1024 then Fail HandshakeFailed
        else
          res_bind (read_handshake_generation j) (\<lambda>g.
          res_bind (OptionalString j ''registry_name'' []) (\<lambda>name.
            Inr \<lparr>hs_version = ucast version, hs_max_frame = effective, hs_incarnation = inc, hs_generation = g,
              hs_registry_name = name, hs_persistent = flag_set j ''persistent'',
              hs_epoch = (case Find j ''publisher_epoch'' of None \<Rightarrow> 0
                | Some v \<Rightarrow> (case AsUInt v of None \<Rightarrow> 0 | Some n \<Rightarrow> n))\<rparr>)))))"

text \<open>The answer to the hello: an acknowledgement, or a refusal with its code.\<close>

definition read_hello_reply :: "ClientOptions \<Rightarrow> Frame \<Rightarrow> HandshakeInfo result" where
  "read_hello_reply opts f =
     (if frame_kind f = FrameKind_Error then
        (case ParseJson (PayloadText f) JsonLimits_default of
           Inl _ \<Rightarrow> Fail HandshakeFailed
         | Inr j \<Rightarrow> (case UnwrapEnvelope j of Inl e \<Rightarrow> Fail (err_code e) | Inr _ \<Rightarrow> Fail HandshakeFailed))
      else if frame_kind f \<noteq> FrameKind_HelloAck then Fail HandshakeFailed
      else res_bind (ParseJson (PayloadText f) JsonLimits_default) (read_ack opts))"

text \<open>The farewell of a client that closes.\<close>

definition client_bye :: "bool \<Rightarrow> u64 \<Rightarrow> u32 \<Rightarrow> byte list" where
  "client_bye sends c m =
     (case EncodeFrame \<lparr>frame_kind = FrameKind_Bye, correlation = c, payload = []\<rparr> m of Inl _ \<Rightarrow> [] | Inr bs \<Rightarrow> if sends then bs else [])"

text \<open>\<open>Connect\<close> on a socket that is connected: the client and the bytes it sent. A failure destroys the client,
  which says farewell.\<close>

definition client_Connect :: "ClientOptions \<Rightarrow> bool \<Rightarrow> Stream \<Rightarrow> Client result \<times> byte list" where
  "client_Connect opts sends s =
     (if client_port opts = 0 then (Fail InvalidArgument, [])
      else case EncodeFrame (hello_frame opts) (client_max_frame opts) of
        Inl e \<Rightarrow> (Inl e, client_bye sends 0 0)
      | Inr bs \<Rightarrow>
          if \<not> sends then (Fail TransportError, [])
          else
            (case ReadFrame (client_max_frame opts) s of
               (Inl e, _) \<Rightarrow> (Inl e, bs @ client_bye sends 0 0)
             | (Inr None, _) \<Rightarrow> (Fail HandshakeFailed, bs @ client_bye sends 0 0)
             | (Inr (Some f), s) \<Rightarrow>
                 (case read_hello_reply opts f of
                    Inl e \<Rightarrow> (Inl e, bs @ client_bye sends 0 0)
                  | Inr h \<Rightarrow> (Inr \<lparr>handshake = h, cl_stream = s, cl_correlation = 0, cl_closed = False\<rparr>, bs))))"

section \<open>Calls\<close>

definition request_frame :: "u64 \<Rightarrow> JsonValue \<Rightarrow> Frame" where
  "request_frame c r = text_frame FrameKind_Request c (Dump r False)"

definition read_reply :: "u64 \<Rightarrow> Frame \<Rightarrow> JsonValue result" where
  "read_reply c f =
     (if correlation f \<noteq> c then Fail ProtocolError
      else if frame_kind f \<noteq> FrameKind_Response \<and> frame_kind f \<noteq> FrameKind_Error then Fail ProtocolError
      else ParseJson (PayloadText f) JsonLimits_default)"

text \<open>A call: the envelope, the client after it and the bytes it sent.\<close>

definition Call :: "bool \<Rightarrow> JsonValue \<Rightarrow> Client \<Rightarrow> JsonValue result \<times> Client \<times> byte list" where
  "Call sends r cl =
     (if cl_closed cl then (Fail TransportError, cl, [])
      else
        let c = cl_correlation cl + 1; cl = cl\<lparr>cl_correlation := c\<rparr>; m = hs_max_frame (handshake cl)
        in case EncodeFrame (request_frame c r) m of
            Inl e \<Rightarrow> (Inl e, cl, [])
          | Inr bs \<Rightarrow>
              if \<not> sends then (Fail TransportError, cl, [])
              else
                (case ReadFrame m (cl_stream cl) of
                   (Inl e, s) \<Rightarrow> (Inl e, cl\<lparr>cl_stream := s\<rparr>, bs)
                 | (Inr None, s) \<Rightarrow> (Fail TransportError, cl\<lparr>cl_stream := s\<rparr>, bs)
                 | (Inr (Some f), s) \<Rightarrow> (read_reply c f, cl\<lparr>cl_stream := s\<rparr>, bs)))"

text \<open>The result of a call: a failure of the client, or the error or the value of the reply.\<close>

definition CallResult :: "bool \<Rightarrow> JsonValue \<Rightarrow> Client \<Rightarrow> (Error + JsonValue) result \<times> Client \<times> byte list" where
  "CallResult sends r cl = (case Call sends r cl of (x, cl, bs) \<Rightarrow> (res_bind x (\<lambda>j. Inr (UnwrapEnvelope j)), cl, bs))"

definition client_Ping :: "bool \<Rightarrow> Client \<Rightarrow> (Error + JsonValue) result \<times> Client \<times> byte list" where
  "client_Ping sends cl = CallResult sends (Set (JObj []) ''op'' (JStr ''ping'')) cl"

definition client_Close :: "bool \<Rightarrow> Client \<Rightarrow> Client \<times> byte list" where
  "client_Close sends cl =
     (if cl_closed cl then (cl, [])
      else
        (cl\<lparr>cl_closed := True\<rparr>, client_bye sends (cl_correlation cl) (hs_max_frame (handshake cl))))"

end
