(* ===== verification/Server.thy ===== *)
theory Server
  imports Protocol Transport
begin

text \<open>
  The registry service (\<open>include/fcr/server.hpp\<close>, \<open>src/server.cpp\<close>): the handshake and the request loop of a
  connection, and the admission of connections to a bounded set and a bounded queue. Threads are steps: the
  acceptor, each worker and the shutdown act one at a time on the state they share.
\<close>

section \<open>Options and counters\<close>

definition kMaxHelloBytes :: u32 where "kMaxHelloBytes = 4096"

record ServerOptions =
  worker_threads :: nat
  max_connections :: nat
  pending_connections :: nat
  max_frame_bytes :: u32
  protocol_version :: u32
  opt_allow_publish :: bool
  opt_allow_prune :: bool
  opt_allow_shutdown :: bool

definition ServerOptions_default :: ServerOptions where
  "ServerOptions_default = \<lparr>worker_threads = 4, max_connections = 32, pending_connections = 256,
     max_frame_bytes = kDefaultMaxFrameBytes, protocol_version = kServiceProtocolVersion,
     opt_allow_publish = True, opt_allow_prune = True, opt_allow_shutdown = True\<rparr>"

text \<open>What \<open>Start\<close> checks before it binds its listener.\<close>

definition start_checks :: "bool \<Rightarrow> ServerOptions \<Rightarrow> unit result" where
  "start_checks authority opts =
     (if \<not> authority then Fail InvalidArgument
      else if worker_threads opts = 0 \<or> worker_threads opts > 64 then Fail InvalidArgument
      else if max_connections opts = 0 \<or> max_connections opts > 4096 then Fail InvalidArgument
      else if pending_connections opts = 0 \<or> pending_connections opts > 65536 then Fail InvalidArgument
      else if max_frame_bytes opts < 1024 \<or> max_frame_bytes opts > 64 * 1024 * 1024 then Fail InvalidArgument
      else Inr ())"

definition start_context :: "ServerOptions \<Rightarrow> CancellationToken \<Rightarrow> RequestContext" where
  "start_context opts token =
     \<lparr>has_authority = True, allow_shutdown = opt_allow_shutdown opts, allow_publish = opt_allow_publish opts,
      allow_prune = opt_allow_prune opts, has_shutdown_hook = True, shutdown_token = token\<rparr>"

record Counters =
  accepted :: u64
  rejected :: u64
  closed :: u64
  completed :: u64
  failed :: u64
  protocol_errors :: u64
  handshakes :: u64
  bytes_received :: u64
  bytes_sent :: u64

definition Counters_zero :: Counters where
  "Counters_zero = \<lparr>accepted = 0, rejected = 0, closed = 0, completed = 0, failed = 0, protocol_errors = 0,
     handshakes = 0, bytes_received = 0, bytes_sent = 0\<rparr>"

section \<open>A connection\<close>

text \<open>What serving leaves: the stream, the service, the counters, the bytes sent and whether the connection
  goes on, with the frame size it has agreed on.\<close>

record Served =
  sv_stream :: Stream
  sv_service :: Service
  sv_counters :: Counters
  sv_sent :: "byte list"
  sv_open :: bool

definition plain_error :: "ErrorCode \<Rightarrow> string \<Rightarrow> string \<Rightarrow> Error" where
  "plain_error c m t = \<lparr>err_code = c, err_message = m, err_detail = t\<rparr>"

definition error_frame :: "u64 \<Rightarrow> Error \<Rightarrow> Frame" where
  "error_frame c e = text_frame FrameKind_Error c (Dump (ErrorResponse e) False)"

text \<open>An error frame on a connection that is closed next: sent if it fits and the peer takes it.\<close>

definition send_refusal :: "bool \<Rightarrow> u32 \<Rightarrow> Frame \<Rightarrow> byte list" where
  "send_refusal sends max_size f = (case EncodeFrame f max_size of Inl _ \<Rightarrow> [] | Inr bs \<Rightarrow> if sends then bs else [])"

definition MakeHelloAck :: "ServerOptions \<Rightarrow> u32 \<Rightarrow> Authority \<Rightarrow> JsonValue" where
  "MakeHelloAck opts effective a =
     (let st = Stamp a; s = GetStatus a;
          j = Set (JObj []) ''service'' (JStr kServiceName);
          j = Set j ''protocol_version'' (JUInt (ucast (protocol_version opts)));
          j = Set j ''max_frame_bytes'' (JUInt (ucast effective));
          j = Set j ''incarnation'' (JUInt (stamp_incarnation st));
          j = set_when (GenerationId_IsValid (stamp_generation st)) ''generation'' (generation_json (stamp_generation st)) j;
          j = Set j ''registry_name'' (JStr (status_registry_name s));
          j = Set j ''persistent'' (JBool (persistent s))
      in Set j ''publisher_epoch'' (JUInt (status_epoch s)))"

text \<open>The frame size of a connection: what the client asks for, at least 1024 bytes, up to the server's.\<close>

definition effective_max :: "ServerOptions \<Rightarrow> JsonValue \<Rightarrow> u32" where
  "effective_max opts j =
     (case Find j ''max_frame_bytes'' of
        None \<Rightarrow> max_frame_bytes opts
      | Some v \<Rightarrow>
          (case AsUInt v of
             None \<Rightarrow> max_frame_bytes opts
           | Some n \<Rightarrow> if n \<ge> 1024 then ucast (min n (ucast (max_frame_bytes opts))) else max_frame_bytes opts))"

definition refused_version :: "ServerOptions \<Rightarrow> Error" where
  "refused_version opts = plain_error HandshakeFailed ''client protocol version is not supported''
     (''server '' @ to_string (unat (protocol_version opts)))"

text \<open>The handshake: the frame size agreed on when the connection goes on.\<close>

definition serve_hello :: "ServerOptions \<Rightarrow> bool \<Rightarrow> bool \<Rightarrow> Stream \<Rightarrow> Service \<Rightarrow> Counters \<Rightarrow> Served \<times> u32" where
  "serve_hello opts cancelled sends s srv c =
     (case ReadFrameCancellable kMaxHelloBytes cancelled s of
        (Inl _, s) \<Rightarrow> (\<lparr>sv_stream = s, sv_service = srv, sv_counters = c\<lparr>protocol_errors := protocol_errors c + 1\<rparr>,
          sv_sent = [], sv_open = False\<rparr>, 0)
      | (Inr (_, None), s) \<Rightarrow> (\<lparr>sv_stream = s, sv_service = srv, sv_counters = c, sv_sent = [], sv_open = False\<rparr>, 0)
      | (Inr (_, Some hello), s) \<Rightarrow>
          if frame_kind hello \<noteq> FrameKind_Hello then
            (\<lparr>sv_stream = s, sv_service = srv, sv_counters = c\<lparr>protocol_errors := protocol_errors c + 1\<rparr>,
              sv_sent = [], sv_open = False\<rparr>, 0)
          else
            let c = c\<lparr>bytes_received := bytes_received c + of_nat (length (payload hello) + kFrameHeaderBytes)\<rparr>
            in case ParseJson (PayloadText hello) JsonLimits_default of
                Inl _ \<Rightarrow> (\<lparr>sv_stream = s, sv_service = srv, sv_counters = c\<lparr>protocol_errors := protocol_errors c + 1\<rparr>,
                  sv_sent = [], sv_open = False\<rparr>, 0)
              | Inr j \<Rightarrow>
                  if RequireUInt j ''protocol_version'' \<noteq> Inr (ucast (protocol_version opts)) then
                    (\<lparr>sv_stream = s, sv_service = srv, sv_counters = c\<lparr>handshakes := handshakes c + 1\<rparr>,
                      sv_sent = send_refusal sends (max_frame_bytes opts)
                        (error_frame (correlation hello) (refused_version opts)), sv_open = False\<rparr>, 0)
                  else
                    let effective = effective_max opts j;
                        ack = text_frame FrameKind_HelloAck (correlation hello)
                          (Dump (MakeHelloAck opts effective (fst (service_world srv))) False)
                    in case EncodeFrame ack (max_frame_bytes opts) of
                        Inl _ \<Rightarrow> (\<lparr>sv_stream = s, sv_service = srv, sv_counters = c, sv_sent = [], sv_open = False\<rparr>, 0)
                      | Inr bs \<Rightarrow>
                          if \<not> sends then
                            (\<lparr>sv_stream = s, sv_service = srv, sv_counters = c\<lparr>failed := failed c + 1\<rparr>,
                              sv_sent = [], sv_open = False\<rparr>, 0)
                          else
                            (\<lparr>sv_stream = s, sv_service = srv,
                              sv_counters = c\<lparr>bytes_sent := bytes_sent c + of_nat (length bs), handshakes := handshakes c + 1\<rparr>,
                              sv_sent = bs, sv_open = True\<rparr>, effective))"

text \<open>A reply: the connection goes on if it was encoded and sent.\<close>

definition send_reply :: "bool \<Rightarrow> u32 \<Rightarrow> Frame \<Rightarrow> Served \<Rightarrow> Served" where
  "send_reply sends effective f x =
     (case EncodeFrame f effective of
        Inl _ \<Rightarrow> x\<lparr>sv_open := False\<rparr>
      | Inr bs \<Rightarrow>
          if \<not> sends then x\<lparr>sv_open := False\<rparr>
          else x\<lparr>sv_sent := sv_sent x @ bs,
            sv_counters := (sv_counters x)\<lparr>bytes_sent := bytes_sent (sv_counters x) + of_nat (length bs)\<rparr>\<rparr>)"

text \<open>The response to the text of a request, with the service and the counters after it; a text that does not
  parse is answered in the words \<open>parse_words\<close> gives for its error.\<close>

definition respond :: "Platform \<Rightarrow> RequestContext \<Rightarrow> Wording \<Rightarrow> (ErrorCode \<Rightarrow> string \<times> string) \<Rightarrow> string \<Rightarrow> Service \<Rightarrow> Counters \<Rightarrow>
    (JsonValue \<times> Service \<times> Counters) result" where
  "respond p ctx wording parse_words t srv c =
     (case ParseJson t JsonLimits_default of
        Inl (Failed e) \<Rightarrow>
          Inr (ErrorResponse (plain_error e (fst (parse_words e)) (snd (parse_words e))), srv, c\<lparr>failed := failed c + 1\<rparr>)
      | Inl e \<Rightarrow> Inl e
      | Inr r \<Rightarrow>
          (case DispatchEnvelope p ctx wording r srv of
             (Inl e, _) \<Rightarrow> Inl e
           | (Inr j, srv) \<Rightarrow>
               Inr (j, srv, if flag_set j ''ok'' then c\<lparr>completed := completed c + 1\<rparr> else c\<lparr>failed := failed c + 1\<rparr>)))"

definition too_large :: "u64 \<Rightarrow> Frame" where
  "too_large c = error_frame c (plain_error LimitExceeded ''response exceeds the negotiated maximum frame size'' [])"

definition only_requests :: "u64 \<Rightarrow> Frame" where
  "only_requests c = error_frame c (plain_error ProtocolError ''only request frames are accepted here'' [])"

definition response_frame :: "u32 \<Rightarrow> u64 \<Rightarrow> JsonValue \<Rightarrow> Frame" where
  "response_frame effective c j =
     (let t = Dump j False in if length t > unat effective then too_large c else text_frame FrameKind_Response c t)"

text \<open>One turn of the request loop.\<close>

definition serve_next :: "Platform \<Rightarrow> RequestContext \<Rightarrow> Wording \<Rightarrow> (ErrorCode \<Rightarrow> string \<times> string) \<Rightarrow> u32 \<Rightarrow> bool \<Rightarrow> bool \<Rightarrow>
    Stream \<Rightarrow> Service \<Rightarrow> Counters \<Rightarrow> Served result" where
  "serve_next p ctx wording parse_words effective cancelled sends s srv c =
     (case ReadFrameCancellable effective cancelled s of
        (Inl _, s) \<Rightarrow> Inr \<lparr>sv_stream = s, sv_service = srv, sv_counters = c\<lparr>protocol_errors := protocol_errors c + 1\<rparr>,
          sv_sent = [], sv_open = False\<rparr>
      | (Inr (_, None), s) \<Rightarrow> Inr \<lparr>sv_stream = s, sv_service = srv, sv_counters = c, sv_sent = [], sv_open = False\<rparr>
      | (Inr (_, Some f), s) \<Rightarrow>
          let c = c\<lparr>bytes_received := bytes_received c + of_nat (length (payload f) + kFrameHeaderBytes)\<rparr>;
              x = \<lparr>sv_stream = s, sv_service = srv, sv_counters = c, sv_sent = [], sv_open = True\<rparr>
          in if frame_kind f = FrameKind_Bye then Inr (x\<lparr>sv_open := False\<rparr>)
             else if frame_kind f = FrameKind_Ping then
               Inr (send_reply sends effective (f\<lparr>frame_kind := FrameKind_Pong\<rparr>) x)
             else if frame_kind f \<noteq> FrameKind_Request then
               Inr (x\<lparr>sv_counters := c\<lparr>protocol_errors := protocol_errors c + 1\<rparr>,
                 sv_sent := send_refusal sends effective (only_requests (correlation f)), sv_open := False\<rparr>)
             else
               res_bind (respond p ctx wording parse_words (PayloadText f) srv c) (\<lambda>(j, srv, c).
                 Inr (send_reply sends effective (response_frame effective (correlation f) j)
                   (x\<lparr>sv_service := srv, sv_counters := c\<rparr>))))"

section \<open>The request loop\<close>

lemma RecvAllCancellable_rest:
  "RecvAllCancellable n cancelled s = (Inr (Complete, bs), s') \<Longrightarrow> length (incoming s) = n + length (incoming s')"
  by (auto simp: RecvAllCancellable_def split: if_splits)

lemma ReadFrameCancellable_rest:
  assumes "ReadFrameCancellable m cancelled s = (Inr (oc, Some f), s')"
  shows "length (incoming s') < length (incoming s)"
proof -
  obtain header s1 where h: "RecvAllCancellable kFrameHeaderBytes cancelled s = (Inr (Complete, header), s1)"
    and rest: "length (incoming s') \<le> length (incoming s1)"
    using assms
    by (auto simp: ReadFrameCancellable_def result_simps RecvAllCancellable_rest split: prod.splits sum.splits if_splits)
  show ?thesis using RecvAllCancellable_rest [OF h] rest by (simp add: kFrameHeaderBytes_def)
qed

lemma send_reply_kept [simp]: "sv_stream (send_reply sends m f x) = sv_stream x" "sv_service (send_reply sends m f x) = sv_service x"
  by (simp_all add: send_reply_def split: sum.split)

lemma serve_next_rest:
  "serve_next p ctx wording parse_words effective cancelled sends s srv c = Inr x \<Longrightarrow> sv_open x \<Longrightarrow>
     length (incoming (sv_stream x)) < length (incoming s)"
  by (auto simp: serve_next_def Let_def result_simps ReadFrameCancellable_rest
      split: prod.splits sum.splits option.splits if_splits)

text \<open>The loop of a connection no other one interferes with, until the client leaves, an error or a shutdown.\<close>

function serve_loop :: "Platform \<Rightarrow> RequestContext \<Rightarrow> Wording \<Rightarrow> (ErrorCode \<Rightarrow> string \<times> string) \<Rightarrow> u32 \<Rightarrow> bool \<Rightarrow>
    Stream \<Rightarrow> Service \<Rightarrow> Counters \<Rightarrow> Served result" where
  "serve_loop p ctx wording parse_words effective sends s srv c =
     (if stop_requested srv then Inr \<lparr>sv_stream = s, sv_service = srv, sv_counters = c, sv_sent = [], sv_open = False\<rparr>
      else case serve_next p ctx wording parse_words effective (stop_requested srv) sends s srv c of
        Inl e \<Rightarrow> Inl e
      | Inr x \<Rightarrow>
          if \<not> sv_open x then Inr x
          else
            res_bind (serve_loop p ctx wording parse_words effective sends (sv_stream x) (sv_service x) (sv_counters x)) (\<lambda>y.
              Inr (y\<lparr>sv_sent := sv_sent x @ sv_sent y\<rparr>)))"
  by pat_completeness auto

termination
  by (relation "measure (\<lambda>(p, ctx, w, pw, e, sends, s, srv, c). length (incoming s))") (auto dest: serve_next_rest)

declare serve_loop.simps [simp del]

definition close_connection :: "Counters \<Rightarrow> Counters" where
  "close_connection c = c\<lparr>closed := closed c + 1\<rparr>"

definition ServeConnection :: "Platform \<Rightarrow> ServerOptions \<Rightarrow> CancellationToken \<Rightarrow> Wording \<Rightarrow> (ErrorCode \<Rightarrow> string \<times> string) \<Rightarrow>
    bool \<Rightarrow> Stream \<Rightarrow> Service \<Rightarrow> Counters \<Rightarrow> Served result" where
  "ServeConnection p opts token wording parse_words sends s srv c =
     (case serve_hello opts (stop_requested srv) sends s srv c of
        (x, effective) \<Rightarrow>
          if \<not> sv_open x then Inr (x\<lparr>sv_counters := close_connection (sv_counters x)\<rparr>)
          else
            res_bind (serve_loop p (start_context opts token) wording parse_words effective sends
              (sv_stream x) (sv_service x) (sv_counters x)) (\<lambda>y.
                Inr (y\<lparr>sv_sent := sv_sent x @ sv_sent y, sv_counters := close_connection (sv_counters y), sv_open := False\<rparr>)))"

end
