(* ===== verification/Tools.thy ===== *)
theory Tools
  imports Client Server
begin

text \<open>
  The command line programs (\<open>apps/cli_common.cpp\<close>, \<open>apps/registryd/main.cpp\<close>, \<open>apps/fcrctl/main.cpp\<close>): endpoints,
  input files, sessions in process or over a connection, the options of the daemon, and the commands of the control
  tool with what they print and their exit codes. The environment of a program (files, directories, the network, its
  variables) is a parameter; what is written to the standard error stream is left out.
\<close>

section \<open>Endpoints and files\<close>

definition kExitOk :: int where "kExitOk = 0"
definition kExitError :: int where "kExitError = 1"
definition kExitNegative :: int where "kExitNegative = 2"
definition kExitUnknown :: int where "kExitUnknown = 3"

definition AllDigits :: "string \<Rightarrow> bool" where
  "AllDigits t = (t \<noteq> [] \<and> list_all IsDigit t)"

text \<open>\<open>rfind\<close> with the two parts around the last occurrence.\<close>

definition rcut_at :: "char \<Rightarrow> string \<Rightarrow> (string \<times> string) option" where
  "rcut_at c s = (case cut_at c (rev s) of None \<Rightarrow> None | Some (b, a) \<Rightarrow> Some (rev a, rev b))"

text \<open>\<open>strtoul\<close> on 32 bits, which saturates.\<close>

definition strtoul :: "string \<Rightarrow> nat" where
  "strtoul t = min (decimal_from 0 t) (2 ^ 32 - 1)"

definition ParseEndpoint :: "string \<Rightarrow> (string \<times> 16 word) result" where
  "ParseEndpoint t =
     (if t = [] then Fail InvalidArgument
      else
        let (address, port_text) = (case rcut_at CHR '':'' t of Some x \<Rightarrow> x | None \<Rightarrow> (''127.0.0.1'', t));
            address = (if address = [] then ''127.0.0.1'' else address)
        in if \<not> AllDigits port_text then Fail InvalidArgument
           else let v = strtoul port_text
             in if v = 0 \<or> v > 65535 then Fail InvalidArgument else Inr (address, of_nat v))"

text \<open>A file of the host: absent, with a size but not to be read, or its bytes.\<close>

datatype HostFile = NoFile | UnreadableFile nat | FileBytes "byte list"

record Environment =
  env_platform :: Platform
  env_directory :: "string \<Rightarrow> Directory"
  env_connect :: "string \<Rightarrow> 16 word \<Rightarrow> Stream result"
  env_sends :: bool
  env_wording :: Wording
  env_file :: "string \<Rightarrow> HostFile"
  env_data_dir :: string

definition DefaultDataDirectory :: "Environment \<Rightarrow> string" where
  "DefaultDataDirectory env = (if env_data_dir env \<noteq> [] then env_data_dir env else ''fcr-data'')"

definition ReadTextFile :: "Environment \<Rightarrow> string \<Rightarrow> nat \<Rightarrow> string result" where
  "ReadTextFile env path max_size =
     (case env_file env path of
        NoFile \<Rightarrow> Fail NotFound
      | UnreadableFile n \<Rightarrow> if n > max_size then Fail LimitExceeded else Fail IoError
      | FileBytes bs \<Rightarrow> if length bs > max_size then Fail LimitExceeded else Inr (bytes_text bs))"

definition LoadJsonFile :: "Environment \<Rightarrow> string \<Rightarrow> nat \<Rightarrow> JsonValue result" where
  "LoadJsonFile env path max_size =
     res_bind (ReadTextFile env path max_size) (\<lambda>t. ParseJson t (JsonLimits_default\<lparr>max_bytes := max_size\<rparr>))"

section \<open>Sessions\<close>

record CliOptions =
  cli_data_dir :: string
  cli_endpoint :: string
  cli_json :: bool
  cli_quiet :: bool
  cli_read_write :: bool
  cli_client_id :: string

datatype Session = RemoteSession Client | LocalSession RequestContext Service

definition session_client_options :: "CliOptions \<Rightarrow> 16 word \<Rightarrow> ClientOptions" where
  "session_client_options opts port = \<lparr>client_port = port, client_max_frame = kDefaultMaxFrameBytes, client_version = 1,
     client_id = cli_client_id opts\<rparr>"

definition session_authority_options :: "CliOptions \<Rightarrow> AuthorityOptions" where
  "session_authority_options opts =
     \<lparr>opt_store = StoreOptions_default\<lparr>directory := cli_data_dir opts,
        open_mode := (if cli_read_write opts then ReadWrite else ReadOnly)\<rparr>,
      opt_validation = ValidationOptions_default, allow_empty = True\<rparr>"

definition session_context :: "CliOptions \<Rightarrow> RequestContext" where
  "session_context opts = \<lparr>has_authority = True, allow_shutdown = False, allow_publish = cli_read_write opts,
     allow_prune = cli_read_write opts, has_shutdown_hook = False, shutdown_token = (\<lambda>_. False)\<rparr>"

definition Session_Open :: "Environment \<Rightarrow> CliOptions \<Rightarrow> Session result" where
  "Session_Open env opts =
     (if cli_endpoint opts \<noteq> [] then
        res_bind (ParseEndpoint (cli_endpoint opts)) (\<lambda>(host, port).
        res_bind (env_connect env host port) (\<lambda>s.
        res_bind (fst (client_Connect (session_client_options opts port) (env_sends env) s)) (\<lambda>cl. Inr (RemoteSession cl))))
      else
        (case authority_Open (env_platform env) (session_authority_options opts) (env_directory env (cli_data_dir opts)) of
           (Inl e, _) \<Rightarrow> Inl e
         | (Inr a, d) \<Rightarrow> Inr (LocalSession (session_context opts) \<lparr>service_world = (a, d), stop_requested = False\<rparr>)))"

definition local_failure :: "string \<Rightarrow> Error" where
  "local_failure m = \<lparr>err_code = Internal, err_message = m, err_detail = []\<rparr>"

definition local_error :: "JsonValue \<Rightarrow> Error" where
  "local_error e =
     \<lparr>err_code = (case string_field e ''code'' of None \<Rightarrow> Internal | Some t \<Rightarrow> ErrorCodeFromName t),
      err_message = (case string_field e ''message'' of None \<Rightarrow> ''local dispatch failed'' | Some t \<Rightarrow> t),
      err_detail = (case string_field e ''detail'' of None \<Rightarrow> [] | Some t \<Rightarrow> t)\<rparr>"

definition unwrap_local :: "JsonValue \<Rightarrow> Error + JsonValue" where
  "unwrap_local j =
     (if flag_set j ''ok'' then
        (case Find j ''result'' of None \<Rightarrow> Inl (local_failure ''local dispatch produced no result'') | Some r \<Rightarrow> Inr r)
      else
        (case Find j ''error'' of None \<Rightarrow> Inl (local_failure ''local dispatch produced no error object'') | Some e \<Rightarrow> Inl (local_error e)))"

definition Session_Call :: "Environment \<Rightarrow> Session \<Rightarrow> JsonValue \<Rightarrow> (Error + JsonValue) result \<times> Session" where
  "Session_Call env s r =
     (case s of
        RemoteSession cl \<Rightarrow> (case CallResult (env_sends env) r cl of (x, cl, _) \<Rightarrow> (x, RemoteSession cl))
      | LocalSession ctx srv \<Rightarrow>
          (case DispatchEnvelope (env_platform env) ctx (env_wording env) r srv of
             (x, srv) \<Rightarrow> (res_bind x (\<lambda>j. Inr (unwrap_local j)), LocalSession ctx srv)))"

section \<open>The daemon\<close>

fun size_loop :: "nat \<Rightarrow> string \<Rightarrow> nat option" where
  "size_loop v [] = Some v"
| "size_loop v (c # cs) =
     (if \<not> IsDigit c then None
      else let v = v * 10 + digit_value c in if v > 100000000 then None else size_loop v cs)"

definition ParseSize :: "string \<Rightarrow> nat option" where
  "ParseSize t = (if t = [] then None else size_loop 0 t)"

record Args =
  data_dir :: string
  listen :: string
  port_file :: string
  arg_workers :: nat
  arg_max_connections :: nat
  arg_pending :: nat
  arg_max_frame :: u32
  read_only :: bool
  allow_shutdown_op :: bool
  arg_allow_prune :: bool

definition Args_default :: "Environment \<Rightarrow> Args" where
  "Args_default env = \<lparr>data_dir = DefaultDataDirectory env, listen = ''127.0.0.1:0'', port_file = [], arg_workers = 4,
     arg_max_connections = 32, arg_pending = 256, arg_max_frame = kDefaultMaxFrameBytes, read_only = False,
     allow_shutdown_op = True, arg_allow_prune = True\<rparr>"

text \<open>An option with a value.\<close>

definition value_option :: "string \<Rightarrow> string \<Rightarrow> Args \<Rightarrow> Args result" where
  "value_option token v a =
     (let sized = (\<lambda>f. case ParseSize v of None \<Rightarrow> Fail InvalidArgument | Some n \<Rightarrow> Inr (f n))
      in if token = ''--data-dir'' then Inr (a\<lparr>data_dir := v\<rparr>)
         else if token = ''--listen'' then Inr (a\<lparr>listen := v\<rparr>)
         else if token = ''--port-file'' then Inr (a\<lparr>port_file := v\<rparr>)
         else if token = ''--workers'' then sized (\<lambda>n. a\<lparr>arg_workers := n\<rparr>)
         else if token = ''--max-connections'' then sized (\<lambda>n. a\<lparr>arg_max_connections := n\<rparr>)
         else if token = ''--pending-connections'' then sized (\<lambda>n. a\<lparr>arg_pending := n\<rparr>)
         else sized (\<lambda>n. a\<lparr>arg_max_frame := of_nat n\<rparr>))"

definition value_tokens :: "string list" where
  "value_tokens = [''--data-dir'', ''--listen'', ''--port-file'', ''--workers'', ''--max-connections'',
     ''--pending-connections'', ''--max-frame'']"

text \<open>Nothing where the usage is asked for, which ends the program.\<close>

fun daemon_options :: "string list \<Rightarrow> Args \<Rightarrow> Args option result" where
  "daemon_options [] a = Inr (Some a)"
| "daemon_options (t # ts) a =
     (if t = ''--help'' \<or> t = ''-h'' then Inr None
      else if t \<in> set value_tokens then
        (case ts of [] \<Rightarrow> Fail InvalidArgument | v # rest \<Rightarrow> res_bind (value_option t v a) (daemon_options rest))
      else if t = ''--read-only'' then daemon_options ts (a\<lparr>read_only := True\<rparr>)
      else if t = ''--no-shutdown-op'' then daemon_options ts (a\<lparr>allow_shutdown_op := False\<rparr>)
      else if t = ''--no-prune'' then daemon_options ts (a\<lparr>arg_allow_prune := False\<rparr>)
      else Fail InvalidArgument)"

definition daemon_Parse :: "Environment \<Rightarrow> string list \<Rightarrow> Args option result" where
  "daemon_Parse env argv = daemon_options argv (Args_default env)"

text \<open>The bind address and port.\<close>

definition parse_listen :: "string \<Rightarrow> (string \<times> 16 word) option" where
  "parse_listen t =
     (case rcut_at CHR '':'' t of
        None \<Rightarrow> None
      | Some (host, port_text) \<Rightarrow>
          (case ParseSize port_text of None \<Rightarrow> None | Some v \<Rightarrow> if v > 65535 then None else Some (host, of_nat v)))"

definition daemon_authority_options :: "Args \<Rightarrow> AuthorityOptions" where
  "daemon_authority_options a =
     \<lparr>opt_store = StoreOptions_default\<lparr>directory := data_dir a, open_mode := (if read_only a then ReadOnly else ReadWrite)\<rparr>,
      opt_validation = ValidationOptions_default, allow_empty = True\<rparr>"

definition daemon_server_options :: "Args \<Rightarrow> ServerOptions" where
  "daemon_server_options a =
     ServerOptions_default\<lparr>worker_threads := arg_workers a, max_connections := arg_max_connections a,
       pending_connections := arg_pending a, max_frame_bytes := arg_max_frame a, opt_allow_publish := \<not> read_only a,
       opt_allow_prune := arg_allow_prune a \<and> \<not> read_only a, opt_allow_shutdown := allow_shutdown_op a\<rparr>"

text \<open>The daemon up to its listener: the options and the world its server starts with, nothing where it fails.\<close>

definition daemon_start :: "Environment \<Rightarrow> string list \<Rightarrow> (ServerOptions \<times> World) option" where
  "daemon_start env argv =
     (case daemon_Parse env argv of
        Inr (Some a) \<Rightarrow>
          (case parse_listen (listen a) of
             None \<Rightarrow> None
           | Some _ \<Rightarrow>
               (case authority_Open (env_platform env) (daemon_authority_options a) (env_directory env (data_dir a)) of
                  (Inr auth, d) \<Rightarrow>
                    if start_checks True (daemon_server_options a) = Inr () then Some (daemon_server_options a, (auth, d))
                    else None
                | _ \<Rightarrow> None))
      | _ \<Rightarrow> None)"

end
