(* ===== verification/Ctl.thy ===== *)
theory Ctl
  imports Tools
begin

text \<open>
  The control tool (\<open>apps/fcrctl/main.cpp\<close>): its arguments, the request of each command, what a command prints on the
  standard output and its exit code.
\<close>

section \<open>Arguments\<close>

record Arguments =
  arg_command :: string
  arg_positional :: "string list"
  arg_flags :: "(string, string) omap"
  arg_switches :: "string list"

definition Arguments_empty :: Arguments where
  "Arguments_empty = \<lparr>arg_command = [], arg_positional = [], arg_flags = [], arg_switches = []\<rparr>"

definition starts_dash :: "string \<Rightarrow> bool" where
  "starts_dash t = (t \<noteq> [] \<and> hd t = CHR ''-'')"

definition put_flag :: "string \<Rightarrow> string \<Rightarrow> Arguments \<Rightarrow> Arguments" where
  "put_flag k v a = a\<lparr>arg_flags := omap_put k v (arg_flags a)\<rparr>"

definition put_switch :: "string \<Rightarrow> Arguments \<Rightarrow> Arguments" where
  "put_switch k a = a\<lparr>arg_switches := arg_switches a @ [k]\<rparr>"

fun parse_tokens :: "string list \<Rightarrow> Arguments \<Rightarrow> Arguments" where
  "parse_tokens [] a = a"
| "parse_tokens (t # ts) a =
     (if take 2 t = ''--'' then
        (case cut_at CHR ''='' (drop 2 t) of
           Some (k, v) \<Rightarrow> parse_tokens ts (put_flag k v a)
         | None \<Rightarrow>
             (case ts of
                [] \<Rightarrow> put_switch (drop 2 t) a
              | v # rest \<Rightarrow>
                  if \<not> starts_dash v then parse_tokens rest (put_flag (drop 2 t) v a)
                  else parse_tokens ts (put_switch (drop 2 t) a)))
      else parse_tokens ts (a\<lparr>arg_positional := arg_positional a @ [t]\<rparr>))"

definition ParseArguments :: "string list \<Rightarrow> Arguments" where
  "ParseArguments argv =
     (case argv of
        [] \<Rightarrow> Arguments_empty
      | c # ts \<Rightarrow>
          if \<not> starts_dash c then parse_tokens ts (Arguments_empty\<lparr>arg_command := c\<rparr>)
          else parse_tokens argv Arguments_empty)"

definition HasSwitch :: "Arguments \<Rightarrow> string \<Rightarrow> bool" where
  "HasSwitch a k = (k \<in> set (arg_switches a))"

definition RequireFlag :: "Arguments \<Rightarrow> string \<Rightarrow> string result" where
  "RequireFlag a k = (case omap_get (arg_flags a) k of None \<Rightarrow> Fail InvalidArgument | Some v \<Rightarrow> Inr v)"

fun uint_loop :: "u64 \<Rightarrow> string \<Rightarrow> u64 result" where
  "uint_loop v [] = Inr v"
| "uint_loop v (c # cs) =
     (if \<not> IsDigit c then Fail InvalidArgument else uint_loop (v * 10 + of_nat (digit_value c)) cs)"

definition RequireUIntFlag :: "Arguments \<Rightarrow> string \<Rightarrow> u64 result" where
  "RequireUIntFlag a k = res_bind (RequireFlag a k) (\<lambda>t. if t = [] then Fail InvalidArgument else uint_loop 0 t)"

section \<open>Printing\<close>

definition out_line :: "string \<Rightarrow> string" where
  "out_line t = t @ nl"

definition print_json :: "JsonValue \<Rightarrow> string" where
  "print_json j = out_line (Dump j True)"

definition uint_text :: "u64 \<Rightarrow> string" where
  "uint_text n = to_string (unat n)"

text \<open>A string, or a fallback where there is none.\<close>

definition text_or :: "string \<Rightarrow> JsonValue option \<Rightarrow> string" where
  "text_or fallback v = (case v of None \<Rightarrow> fallback | Some j \<Rightarrow> (case AsString j of None \<Rightarrow> fallback | Some t \<Rightarrow> t))"

definition count_or_0 :: "JsonValue option \<Rightarrow> u64" where
  "count_or_0 v = (case v of None \<Rightarrow> 0 | Some j \<Rightarrow> (case AsUInt j of None \<Rightarrow> 0 | Some n \<Rightarrow> n))"

definition elements :: "JsonValue option \<Rightarrow> JsonValue list" where
  "elements v = (case v of None \<Rightarrow> [] | Some j \<Rightarrow> (case AsArray j of None \<Rightarrow> [] | Some vs \<Rightarrow> vs))"

definition ReportOutcome :: "CliOptions \<Rightarrow> JsonValue \<Rightarrow> string \<Rightarrow> string" where
  "ReportOutcome opts r key =
     (if cli_quiet opts then []
      else if cli_json opts then print_json r
      else case (case Find r key of None \<Rightarrow> None | Some j \<Rightarrow> AsString j) of
        None \<Rightarrow> print_json r
      | Some t \<Rightarrow> if t = [] \<or> last t \<noteq> CHR 0x0A then out_line t else t)"

definition OutcomeExitCode :: "string \<Rightarrow> int" where
  "OutcomeExitCode t = (if t = ''incompatible'' then kExitNegative else if t = ''unknown'' then kExitUnknown else kExitOk)"

definition PrintValidationReport :: "ValidationReport \<Rightarrow> string" where
  "PrintValidationReport r =
     out_line (''errors:   '' @ to_string (error_count r)) @ out_line (''warnings: '' @ to_string (warning_count r)) @
     out_line (''info:     '' @ to_string (info_count r)) @
     concat (map (\<lambda>d. out_line (''  ['' @ SeverityName (severity d) @ ''] '' @ DiagnosticCodeName (code d) @ '' '' @
       (if diag_path d = [] then ''-'' else diag_path d) @ '': '' @ message d)) (diagnostics r))"

definition status_text :: "JsonValue \<Rightarrow> string \<Rightarrow> string" where
  "status_text s key =
     (case Find s key of
        None \<Rightarrow> ''-''
      | Some v \<Rightarrow>
          (case AsString v of
             Some t \<Rightarrow> t
           | None \<Rightarrow>
               (case AsUInt v of
                  Some n \<Rightarrow> uint_text n
                | None \<Rightarrow> if IsBool v then (if AsBool v False then ''true'' else ''false'') else ''-'')))"

definition status_generation_text :: "JsonValue \<Rightarrow> string" where
  "status_generation_text s =
     (case Find s ''generation'' of
        None \<Rightarrow> ''none published yet''
      | Some g \<Rightarrow> if IsObject g then text_or ''-'' (Find g ''id'') else ''none published yet'')"

definition print_status :: "JsonValue \<Rightarrow> string" where
  "print_status s =
     (let text = status_text s
      in out_line (''service:            '' @ text ''service'' @ '' (protocol '' @ text ''protocol_version'' @ '')'') @
         out_line (''storage:            '' @ (if flag_set s ''persistent'' then ''persistent'' else ''in-memory'')) @
         out_line (''generation:         '' @ status_generation_text s) @
         out_line (''registry name:      '' @ text ''registry_name'') @
         out_line (''rules:              '' @ text ''rule_count'' @ '' ('' @ text ''active_rule_count'' @ '' active)'') @
         out_line (''capabilities:       '' @ text ''capability_count'') @
         out_line (''component kinds:    '' @ text ''kind_count'') @
         out_line (''incarnation:        '' @ text ''incarnation'') @
         out_line (''publisher epoch:    '' @ text ''publisher_epoch'') @
         out_line (''publications:       '' @ text ''total_publications'') @
         out_line (''retained:           '' @ text ''retained_generations'' @ '' generation(s)'') @
         out_line (''updated:            '' @ text ''updated_at''))"

definition print_generations :: "JsonValue \<Rightarrow> string" where
  "print_generations r =
     concat (map (\<lambda>e. case AsUInt e of None \<Rightarrow> [] | Some n \<Rightarrow> out_line (uint_text n)) (elements (Find r ''generations'')))"

definition print_remote_report :: "JsonValue \<Rightarrow> string" where
  "print_remote_report r =
     out_line (''errors:   '' @ uint_text (count_or_0 (Find r ''errors''))) @
     out_line (''warnings: '' @ uint_text (count_or_0 (Find r ''warnings''))) @
     out_line (''info:     '' @ uint_text (count_or_0 (Find r ''infos''))) @
     concat (map (\<lambda>e. out_line (''  ['' @ text_or ''?'' (Find e ''severity'') @ ''] '' @ text_or ''?'' (Find e ''code'') @ '' '' @
       text_or ''-'' (Find e ''path'') @ '': '' @ text_or ''-'' (Find e ''message''))) (elements (Find r ''diagnostics'')))"

definition print_published :: "JsonValue \<Rightarrow> string" where
  "print_published r =
     out_line ((if flag_set r ''dry_run'' then ''would publish '' else ''published '') @
       (case Find r ''generation'' of None \<Rightarrow> [] | Some g \<Rightarrow> if IsObject g then text_or ''-'' (Find g ''id'') else []))"

definition print_rule_change :: "JsonValue \<Rightarrow> string" where
  "print_rule_change e =
     (case (case Find e ''kind'' of None \<Rightarrow> None | Some k \<Rightarrow> AsString k) of
        None \<Rightarrow> []
      | Some k \<Rightarrow>
          if k = ''unchanged'' then []
          else
            out_line (''  '' @ k @ '' '' @ text_or ''-'' (Find e ''rule'') @
              (let fields = elements (Find e ''changed_fields'')
               in if fields = [] then [] else '' fields='' @ join_with '','' (map (\<lambda>f. text_or [] (Some f)) fields))))"

definition print_diff :: "JsonValue \<Rightarrow> string" where
  "print_diff r =
     (let count = (\<lambda>k. uint_text (count_or_0 (Find r k)))
      in out_line (''added:     '' @ count ''added'') @ out_line (''removed:   '' @ count ''removed'') @
         out_line (''modified:  '' @ count ''modified'') @ out_line (''unchanged: '' @ count ''unchanged'') @
         concat (map print_rule_change (elements (Find r ''rules''))) @
         concat (map (\<lambda>c. case AsString c of None \<Rightarrow> [] | Some t \<Rightarrow> out_line (''  taxonomy '' @ t))
           (elements (Find r ''taxonomy_changes''))))"

definition print_change :: "JsonValue \<Rightarrow> string" where
  "print_change e =
     out_line (''  '' @
       join_with '' vs '' (map (\<lambda>s. text_or [] (Find s ''kind'') @
         (case (case Find s ''version'' of None \<Rightarrow> None | Some v \<Rightarrow> AsString v) of None \<Rightarrow> [] | Some t \<Rightarrow> '' '' @ t))
         (elements (Find e ''subjects''))) @
       '': '' @ text_or ''-'' (Find e ''before_outcome'') @ '' -> '' @ text_or ''-'' (Find e ''after_outcome''))"

definition print_replay :: "JsonValue \<Rightarrow> string" where
  "print_replay r =
     out_line (''compared: '' @ uint_text (count_or_0 (Find r ''compared''))) @
     out_line (''changed:  '' @ uint_text (count_or_0 (Find r ''changed''))) @
     concat (map print_change (elements (Find r ''changes'')))"

section \<open>Commands\<close>

text \<open>What a command prints and its exit code, with the session it has opened.\<close>

type_synonym Run = "(string \<times> int) result \<times> Session option"

definition ctl_options :: "Environment \<Rightarrow> Arguments \<Rightarrow> CliOptions" where
  "ctl_options env a =
     \<lparr>cli_data_dir = (case omap_get (arg_flags a) ''data-dir'' of None \<Rightarrow> DefaultDataDirectory env | Some d \<Rightarrow> d),
      cli_endpoint = (case omap_get (arg_flags a) ''endpoint'' of None \<Rightarrow> [] | Some e \<Rightarrow> e),
      cli_json = (HasSwitch a ''json'' \<or> omap_get (arg_flags a) ''json'' \<noteq> None),
      cli_quiet = (HasSwitch a ''quiet'' \<or> omap_get (arg_flags a) ''quiet'' \<noteq> None),
      cli_read_write = (arg_command a = ''publish'' \<or> arg_command a = ''prune''), cli_client_id = ''fcrctl''\<rparr>"

text \<open>A call opens the session first if there is none.\<close>

definition ctl_call :: "Environment \<Rightarrow> CliOptions \<Rightarrow> Session option \<Rightarrow> JsonValue \<Rightarrow> (Error + JsonValue) result \<times> Session option" where
  "ctl_call env opts s r =
     (case (case s of None \<Rightarrow> Session_Open env opts | Some x \<Rightarrow> Inr x) of
        Inl e \<Rightarrow> (Inl e, s)
      | Inr x \<Rightarrow> (case Session_Call env x r of (y, x) \<Rightarrow> (y, Some x)))"

text \<open>A command that fails prints nothing here and ends with an exit code; undefined behaviour remains.\<close>

definition ctl_answer :: "int \<Rightarrow> (Error + JsonValue) result \<Rightarrow> (JsonValue \<Rightarrow> string \<times> int) \<Rightarrow> (string \<times> int) result" where
  "ctl_answer failed_code x f =
     (case x of
        Inr (Inr j) \<Rightarrow> Inr (f j)
      | Inr (Inl _) \<Rightarrow> Inr ([], failed_code)
      | Inl (Failed _) \<Rightarrow> Inr ([], failed_code)
      | Inl e \<Rightarrow> Inl e)"

definition with_value :: "'a result \<Rightarrow> Session option \<Rightarrow> ('a \<Rightarrow> Run) \<Rightarrow> Run" where
  "with_value x s f =
     (case x of Inr v \<Rightarrow> f v | Inl (Failed _) \<Rightarrow> (Inr ([], kExitError), s) | Inl e \<Rightarrow> (Inl e, s))"

definition single_call :: "Environment \<Rightarrow> CliOptions \<Rightarrow> JsonValue \<Rightarrow> (JsonValue \<Rightarrow> string \<times> int) \<Rightarrow> Run" where
  "single_call env opts r f = (case ctl_call env opts None r of (x, s) \<Rightarrow> (ctl_answer kExitError x f, s))"

definition op_request :: "string \<Rightarrow> JsonValue" where
  "op_request op = Set (JObj []) ''op'' (JStr op)"

definition LoadRegistryDocument :: "Environment \<Rightarrow> string \<Rightarrow> RegistryDocument result" where
  "LoadRegistryDocument env path =
     res_bind (LoadJsonFile env path (8 * 1024 * 1024)) (\<lambda>j. ParseRegistryDocument j DocumentLimits_default)"

definition LoadDocument :: "Environment \<Rightarrow> string \<Rightarrow> JsonValue result" where
  "LoadDocument env path = res_bind (LoadRegistryDocument env path) (\<lambda>d. Inr (RegistryDocumentToJson d))"

definition cmd_status :: "Environment \<Rightarrow> CliOptions \<Rightarrow> Run" where
  "cmd_status env opts = single_call env opts (op_request ''status'') (\<lambda>r.
     (if cli_quiet opts then [] else if cli_json opts then print_json r else print_status r, kExitOk))"

definition cmd_generations :: "Environment \<Rightarrow> CliOptions \<Rightarrow> Run" where
  "cmd_generations env opts = single_call env opts (op_request ''generations'') (\<lambda>r.
     (if cli_json opts then print_json r else print_generations r, kExitOk))"

definition publishable_code :: "bool \<Rightarrow> int" where
  "publishable_code b = (if b then kExitOk else kExitNegative)"

definition cmd_validate :: "Environment \<Rightarrow> CliOptions \<Rightarrow> Arguments \<Rightarrow> Run" where
  "cmd_validate env opts a =
     (case arg_positional a of
        [] \<Rightarrow> (Inr ([], kExitError), None)
      | path # _ \<Rightarrow>
          if cli_endpoint opts = [] then
            with_value (LoadRegistryDocument env path) None (\<lambda>d.
              let report = ValidateRegistryDocument d ValidationOptions_default
              in (Inr (if cli_json opts then print_json (report_ToJson report)
                    else if cli_quiet opts then [] else PrintValidationReport report,
                  publishable_code (Publishable report)), None))
          else
            with_value (LoadDocument env path) None (\<lambda>d.
              single_call env opts (Set (op_request ''validate'') ''document'' d) (\<lambda>r.
                (if cli_json opts then print_json r else if cli_quiet opts then [] else print_remote_report r,
                 publishable_code (flag_set r ''publishable'')))))"

text \<open>The generation a publication is based on: what is given, or the one the status names.\<close>

definition status_number :: "JsonValue \<Rightarrow> u64" where
  "status_number s =
     (case Find s ''generation'' of None \<Rightarrow> 0 | Some g \<Rightarrow> if IsObject g then count_or_0 (Find g ''number'') else 0)"

definition publish_request :: "Arguments \<Rightarrow> JsonValue \<Rightarrow> u64 \<Rightarrow> JsonValue" where
  "publish_request a d expected =
     Set (Set (Set (op_request ''publish'') ''document'' d) ''expected_generation'' (JUInt expected))
       ''dry_run'' (JBool (HasSwitch a ''dry-run''))"

definition send_publication :: "Environment \<Rightarrow> CliOptions \<Rightarrow> Arguments \<Rightarrow> Session option \<Rightarrow> JsonValue \<Rightarrow> u64 \<Rightarrow> Run" where
  "send_publication env opts a s d expected =
     (case ctl_call env opts s (publish_request a d expected) of (x, s) \<Rightarrow>
        (ctl_answer kExitNegative x (\<lambda>r.
           (if cli_json opts then print_json r else if cli_quiet opts then [] else print_published r, kExitOk)), s))"

definition cmd_publish :: "Environment \<Rightarrow> CliOptions \<Rightarrow> Arguments \<Rightarrow> Run" where
  "cmd_publish env opts a =
     (case arg_positional a of
        [] \<Rightarrow> (Inr ([], kExitError), None)
      | path # _ \<Rightarrow>
          if cli_endpoint opts \<noteq> [] \<and> \<not> cli_read_write opts then (Inr ([], kExitError), None)
          else
            with_value (LoadDocument env path) None (\<lambda>d.
              if omap_get (arg_flags a) ''expected-generation'' \<noteq> None then
                with_value (RequireUIntFlag a ''expected-generation'') None (send_publication env opts a None d)
              else
                (case ctl_call env opts None (op_request ''status'') of
                   (Inr (Inr st), s) \<Rightarrow> send_publication env opts a s d (status_number st)
                 | (x, s) \<Rightarrow> (ctl_answer kExitError x (\<lambda>_. ([], kExitOk)), s))))"

definition query_request :: "Environment \<Rightarrow> Arguments \<Rightarrow> JsonValue \<Rightarrow> JsonValue result" where
  "query_request env a r =
     (let mode = hd (arg_positional a)
      in if mode = ''pair'' then
           res_bind (RequireFlag a ''left'') (\<lambda>lp.
           res_bind (RequireFlag a ''right'') (\<lambda>rp.
           res_bind (LoadJsonFile env lp (2 ^ 20)) (\<lambda>l.
           res_bind (LoadJsonFile env rp (2 ^ 20)) (\<lambda>r'.
             Inr (Set (Set (Set r ''op'' (JStr ''query_pair'')) ''left'' l) ''right'' r')))))
         else if mode = ''set'' then
           res_bind (RequireFlag a ''members'') (\<lambda>mp.
           res_bind (LoadJsonFile env mp (4 * 2 ^ 20)) (\<lambda>m.
             Inr (Set (Set r ''op'' (JStr ''query_set'')) ''members'' m)))
         else Fail InvalidArgument)"

text \<open>The outcome is passed as a C string, which ends at a zero.\<close>

definition c_str :: "string \<Rightarrow> string" where
  "c_str t = takeWhile (\<lambda>c. c \<noteq> CHR 0x00) t"

definition query_answer :: "CliOptions \<Rightarrow> JsonValue \<Rightarrow> string \<times> int" where
  "query_answer opts r = (ReportOutcome opts r ''explanation'', OutcomeExitCode (c_str (text_or [] (Find r ''outcome''))))"

definition cmd_query :: "Environment \<Rightarrow> CliOptions \<Rightarrow> Arguments \<Rightarrow> Run" where
  "cmd_query env opts a =
     (if arg_positional a = [] then (Inr ([], kExitError), None)
      else
        let r = Set (JObj []) ''explain'' (JBool True)
        in with_value
          (if omap_get (arg_flags a) ''generation'' = None then Inr r
           else res_bind (RequireUIntFlag a ''generation'') (\<lambda>n. Inr (Set r ''generation'' (JUInt n)))) None (\<lambda>r.
           with_value (query_request env a r) None (\<lambda>r. single_call env opts r (query_answer opts))))"

definition cmd_diff :: "Environment \<Rightarrow> CliOptions \<Rightarrow> Arguments \<Rightarrow> Run" where
  "cmd_diff env opts a =
     with_value (RequireUIntFlag a ''from'') None (\<lambda>f.
     with_value (RequireUIntFlag a ''to'') None (\<lambda>t.
       single_call env opts (Set (Set (op_request ''diff'') ''from'' (JUInt f)) ''to'' (JUInt t)) (\<lambda>r.
         (if cli_json opts then print_json r else if cli_quiet opts then [] else print_diff r, kExitOk))))"

definition cmd_replay :: "Environment \<Rightarrow> CliOptions \<Rightarrow> Arguments \<Rightarrow> Run" where
  "cmd_replay env opts a =
     with_value (RequireUIntFlag a ''from'') None (\<lambda>f.
     with_value (RequireUIntFlag a ''to'') None (\<lambda>t.
     with_value (RequireFlag a ''queries'') None (\<lambda>path.
     with_value (LoadJsonFile env path (8 * 2 ^ 20)) None (\<lambda>q.
       single_call env opts (Set (Set (Set (op_request ''replay'') ''from'' (JUInt f)) ''to'' (JUInt t)) ''queries'' q) (\<lambda>r.
         if cli_json opts then (print_json r, kExitOk)
         else if cli_quiet opts then ([], kExitOk)
         else (print_replay r, if count_or_0 (Find r ''changed'') \<noteq> 0 then kExitNegative else kExitOk))))))"

definition cmd_provenance :: "Environment \<Rightarrow> CliOptions \<Rightarrow> Arguments \<Rightarrow> Run" where
  "cmd_provenance env opts a =
     with_value (RequireFlag a ''rule'') None (\<lambda>t.
       single_call env opts (Set (op_request ''provenance'') ''rule'' (JStr t)) (\<lambda>r. (ReportOutcome opts r ''text'', kExitOk)))"

definition cmd_prune :: "Environment \<Rightarrow> CliOptions \<Rightarrow> Arguments \<Rightarrow> Run" where
  "cmd_prune env opts a =
     with_value (RequireUIntFlag a ''keep'') None (\<lambda>n.
       single_call env opts (Set (op_request ''prune'') ''keep'' (JUInt n)) (\<lambda>r.
         (if cli_json opts then print_json r
          else if cli_quiet opts then []
          else out_line (''pruned '' @ to_string (length (elements (Find r ''removed''))) @ '' generation(s)''), kExitOk)))"

definition kRuntimeVersion :: string where "kRuntimeVersion = ''1.0.0''"

text \<open>The program; the text of its usage is a parameter.\<close>

definition fcrctl :: "string \<Rightarrow> Environment \<Rightarrow> string list \<Rightarrow> Run" where
  "fcrctl usage env argv =
     (let a = ParseArguments argv; command = arg_command a; opts = ctl_options env a
      in if command = [] \<or> command = ''help'' \<or> HasSwitch a ''help'' then (Inr (usage, kExitOk), None)
         else if command = ''version'' then (Inr (out_line (''fcrctl '' @ kRuntimeVersion), kExitOk), None)
         else if command = ''status'' then cmd_status env opts
         else if command = ''generations'' then cmd_generations env opts
         else if command = ''validate'' then cmd_validate env opts a
         else if command = ''publish'' then cmd_publish env opts a
         else if command = ''query'' then cmd_query env opts a
         else if command = ''diff'' then cmd_diff env opts a
         else if command = ''replay'' then cmd_replay env opts a
         else if command = ''provenance'' then cmd_provenance env opts a
         else if command = ''prune'' then cmd_prune env opts a
         else (Inr (usage, kExitError), None))"

end
