(* ===== verification/Admission.thy ===== *)
theory Admission
  imports Server
begin

text \<open>
  The shared state of the service and the steps of its threads (\<open>AcceptorLoop\<close>, \<open>EnqueueConnection\<close>,
  \<open>WorkerLoop\<close>, \<open>UnregisterConnection\<close>, \<open>BeginShutdown\<close> in \<open>src/server.cpp\<close>). Each step is what a thread
  does between two points where another one may run.
\<close>

section \<open>State\<close>

text \<open>Connections are known by the handles of their sockets. The acceptor may hold one it has registered and not yet
  queued; each worker serves at most one.\<close>

record Server =
  server_options :: ServerOptions
  service :: Service
  counters :: Counters
  acceptor_running :: bool
  accepting :: "nat option"
  queue :: "nat list"
  serving :: "nat list"
  connections :: "nat set"
  active_connections :: nat

abbreviation stopping :: "Server \<Rightarrow> bool" where
  "stopping s \<equiv> stop_requested (service s)"

definition Server_start :: "ServerOptions \<Rightarrow> World \<Rightarrow> Server" where
  "Server_start opts w =
     \<lparr>server_options = opts, service = \<lparr>service_world = w, stop_requested = False\<rparr>, counters = Counters_zero,
      acceptor_running = True, accepting = None, queue = [], serving = [], connections = {}, active_connections = 0\<rparr>"

section \<open>Steps\<close>

definition UnregisterConnection :: "nat \<Rightarrow> Server \<Rightarrow> Server" where
  "UnregisterConnection h s =
     s\<lparr>connections := connections s - {h},
       active_connections := (if h \<in> connections s \<and> active_connections s > 0 then active_connections s - 1
         else active_connections s)\<rparr>"

text \<open>Unregistering a connection whose socket is then closed.\<close>

definition drop_connection :: "nat \<Rightarrow> Server \<Rightarrow> Server" where
  "drop_connection h s = (let s = UnregisterConnection h s in s\<lparr>counters := close_connection (counters s)\<rparr>)"

definition count_rejected :: "Server \<Rightarrow> Server" where
  "count_rejected s = s\<lparr>counters := (counters s)\<lparr>rejected := rejected (counters s) + 1\<rparr>\<rparr>"

definition connection_limit_error :: Error where
  "connection_limit_error = plain_error ConnectionLimitReached ''registry service connection limit reached'' []"

text \<open>The acceptor has a socket: it registers the connection, or refuses it with an error frame at the limit.\<close>

definition acceptor_admit :: "nat \<Rightarrow> Server \<Rightarrow> Server" where
  "acceptor_admit h s =
     (let s = s\<lparr>counters := (counters s)\<lparr>accepted := accepted (counters s) + 1\<rparr>\<rparr>
      in if active_connections s \<ge> max_connections (server_options s) then count_rejected s
         else s\<lparr>connections := insert h (connections s), active_connections := active_connections s + 1, accepting := Some h\<rparr>)"

definition admission_reply :: "bool \<Rightarrow> Server \<Rightarrow> byte list" where
  "admission_reply sends s =
     (if active_connections s \<ge> max_connections (server_options s)
      then send_refusal sends (max_frame_bytes (server_options s)) (error_frame 0 connection_limit_error) else [])"

definition EnqueueConnection :: "nat \<Rightarrow> Server \<Rightarrow> bool \<times> Server" where
  "EnqueueConnection h s =
     (if length (queue s) \<ge> pending_connections (server_options s) then (False, drop_connection h s)
      else (True, s\<lparr>queue := queue s @ [h]\<rparr>))"

text \<open>The rest of the turn, after the flag of the shutdown was read once more.\<close>

definition acceptor_enqueue :: "nat \<Rightarrow> Server \<Rightarrow> Server" where
  "acceptor_enqueue h s =
     (let s = s\<lparr>accepting := None\<rparr>
      in if stopping s then (drop_connection h s)\<lparr>acceptor_running := False\<rparr>
         else case EnqueueConnection h s of (ok, s) \<Rightarrow> if ok then s else count_rejected s)"

text \<open>The acceptor leaves when it sees the shutdown, or when accepting fails.\<close>

definition acceptor_leave :: "Server \<Rightarrow> Server" where
  "acceptor_leave s =
     s\<lparr>acceptor_running := False,
       counters := (if stopping s then counters s
         else (counters s)\<lparr>protocol_errors := protocol_errors (counters s) + 1\<rparr>)\<rparr>"

definition worker_take :: "Server \<Rightarrow> Server" where
  "worker_take s = s\<lparr>serving := hd (queue s) # serving s, queue := tl (queue s)\<rparr>"

definition worker_finish :: "nat \<Rightarrow> Server \<Rightarrow> Server" where
  "worker_finish h s = drop_connection h (s\<lparr>serving := remove1 h (serving s)\<rparr>)"

definition BeginShutdown :: "Server \<Rightarrow> Server" where
  "BeginShutdown s = s\<lparr>service := (service s)\<lparr>stop_requested := True\<rparr>\<rparr>"

text \<open>The handles of the sockets that are open.\<close>

definition open_handles :: "Server \<Rightarrow> nat list" where
  "open_handles s = (case accepting s of None \<Rightarrow> [] | Some h \<Rightarrow> [h]) @ queue s @ serving s"

inductive server_step :: "Server \<Rightarrow> Server \<Rightarrow> bool" where
  admit: "acceptor_running s \<Longrightarrow> \<not> stopping s \<Longrightarrow> accepting s = None \<Longrightarrow> h \<notin> set (open_handles s) \<Longrightarrow>
     server_step s (acceptor_admit h s)"
| enqueue: "accepting s = Some h \<Longrightarrow> server_step s (acceptor_enqueue h s)"
| leave: "acceptor_running s \<Longrightarrow> accepting s = None \<Longrightarrow> server_step s (acceptor_leave s)"
| take: "queue s \<noteq> [] \<Longrightarrow> length (serving s) < worker_threads (server_options s) \<Longrightarrow> server_step s (worker_take s)"
| hello: "h \<in> set (serving s) \<Longrightarrow> serve_hello (server_options s) (stopping s) sends x (service s) (counters s) = (y, m) \<Longrightarrow>
     server_step s (s\<lparr>service := sv_service y, counters := sv_counters y\<rparr>)"
| serve: "h \<in> set (serving s) \<Longrightarrow> \<not> stopping s \<Longrightarrow>
     serve_next p (start_context (server_options s) token) wording parse_words m cancelled sends x (service s) (counters s) = Inr y \<Longrightarrow>
     server_step s (s\<lparr>service := sv_service y, counters := sv_counters y\<rparr>)"
| finish: "h \<in> set (serving s) \<Longrightarrow> server_step s (worker_finish h s)"
| stop: "server_step s (BeginShutdown s)"

inductive server_run :: "Server \<Rightarrow> Server \<Rightarrow> bool" where
  server_refl: "server_run s s"
| server_next: "server_run s t \<Longrightarrow> server_step t u \<Longrightarrow> server_run s u"

end
