(* ===== verification/DocumentTextFacts.thy ===== *)
theory DocumentTextFacts
  imports DocumentText
begin

text \<open>
  The readers of documents do not tell a number that is not negative from the unsigned number the JSON parser
  makes of it, so what is printed as text is read back like the value it was printed from.
\<close>

section \<open>Accessors on a normalised value\<close>

named_theorems norm_simps \<open>accessors and readers on a normalised value\<close>

lemma Find_norm [norm_simps]: "Find (json_norm j) k = map_option json_norm (Find j k)"
proof (cases j)
  case (JObj ms)
  have "(case dropWhile (\<lambda>m. fst m < k) (map (\<lambda>m. (fst m, json_norm (snd m))) ms) of
       [] \<Rightarrow> None | m # _ \<Rightarrow> if fst m = k then Some (snd m) else None) =
     map_option json_norm (case dropWhile (\<lambda>m. fst m < k) ms of
       [] \<Rightarrow> None | m # _ \<Rightarrow> if fst m = k then Some (snd m) else None)"
    by (induction ms) auto
  then show ?thesis using JObj by (simp add: Find_def)
qed (simp_all add: Find_def)

lemma plain_Find: "json_plain j \<Longrightarrow> Find j k = Some v \<Longrightarrow> json_plain v"
  by (cases j) (auto simp: Find_def split: list.splits if_splits dest!: arg_cong [of _ _ set] set_dropWhileD)

lemma shape_norm [norm_simps]:
  "IsObject (json_norm j) = IsObject j" "IsNull (json_norm j) = IsNull j" "IsBool (json_norm j) = IsBool j"
  "AsBool (json_norm j) b = AsBool j b" "AsString (json_norm j) = AsString j"
  "AsArray (json_norm j) = map_option (map json_norm) (AsArray j)" "json_size (json_norm j) = json_size j"
  "(IsInt (json_norm j) \<or> IsUInt (json_norm j)) = (IsInt j \<or> IsUInt j)"
  by (cases j; simp add: IsObject_def IsNull_def IsBool_def AsBool_def AsString_def AsArray_def json_size_def
      IsInt_def IsUInt_def)+

lemma AsUInt_norm [norm_simps]: "AsUInt (json_norm j) = AsUInt j"
  by (cases j) (simp_all add: AsUInt_def)

lemma AsInt_norm [norm_simps]: "json_plain j \<Longrightarrow> AsInt (json_norm j) = AsInt j"
  by (cases j) (auto simp: AsInt_def uint_word_of_int_eq take_bit_int_eq_self)

lemma json_members_norm [norm_simps]:
  "json_members (json_norm j) = map (\<lambda>m. (fst m, json_norm (snd m))) (json_members j)"
proof (cases j)
  case (JObj ms)
  have "zip (map fst ms) (map (\<lambda>m. json_norm (snd m)) ms) = map (\<lambda>m. (fst m, json_norm (snd m))) ms"
    by (induction ms) simp_all
  moreover have "zip (map fst ms) (map snd ms) = ms" by (rule zip_map_fst_snd)
  ultimately show ?thesis using JObj by (simp add: json_members_def json_keys_def json_values_def comp_def)
qed (simp_all add: json_members_def json_keys_def json_values_def)

lemma plain_members: "json_plain j \<Longrightarrow> m \<in> set (json_members j) \<Longrightarrow> json_plain (snd m)"
  by (cases j) (auto simp: json_members_def json_keys_def json_values_def set_zip)

lemma plain_AsArray: "json_plain j \<Longrightarrow> AsArray j = Some vs \<Longrightarrow> v \<in> set vs \<Longrightarrow> json_plain v"
  by (cases j) (auto simp: AsArray_def)

lemma present_norm [norm_simps]: "present (json_norm j) k = map_option json_norm (present j k)"
  by (auto simp: present_def norm_simps split: option.split)

lemma plain_present: "json_plain j \<Longrightarrow> present j k = Some v \<Longrightarrow> json_plain v"
  by (auto simp: present_def split: option.splits if_splits dest: plain_Find)

lemma OptionalString_norm [norm_simps]: "OptionalString (json_norm j) k d = OptionalString j k d"
  by (auto simp: OptionalString_def norm_simps split: option.split)

lemma RequireField_norm: "RequireField (json_norm j) k =
    (case RequireField j k of Inl e \<Rightarrow> Inl e | Inr v \<Rightarrow> Inr (json_norm v))"
  by (auto simp: RequireField_def norm_simps split: option.split)

lemma plain_RequireField: "json_plain j \<Longrightarrow> RequireField j k = Inr v \<Longrightarrow> json_plain v"
  by (auto simp: RequireField_def split: option.splits if_splits dest: plain_Find)

lemma field_norm:
  assumes "json_plain j" and "\<And>v. json_plain v \<Longrightarrow> f (json_norm v) = f v"
  shows "res_bind (RequireField (json_norm j) k) f = res_bind (RequireField j k) f"
  using assms plain_RequireField [of j k] by (auto simp: RequireField_norm split: sum.split)

lemma require_norm [norm_simps]:
  "RequireString (json_norm j) k = RequireString j k" "RequireUInt (json_norm j) k = RequireUInt j k"
  by (auto simp: RequireString_def RequireUInt_def RequireField_norm norm_simps split: sum.split)

lemma RequireArray_norm [norm_simps]: "RequireArray (json_norm j) k =
    (case RequireArray j k of Inl e \<Rightarrow> Inl e | Inr vs \<Rightarrow> Inr (map json_norm vs))"
  by (auto simp: RequireArray_def RequireField_norm norm_simps split: sum.split option.split)

lemma plain_RequireArray: "json_plain j \<Longrightarrow> RequireArray j k = Inr vs \<Longrightarrow> v \<in> set vs \<Longrightarrow> json_plain v"
  by (auto simp: RequireArray_def result_simps split: option.splits dest: plain_RequireField plain_AsArray)

lemma res_mapM_norm:
  "(\<And>v. v \<in> set vs \<Longrightarrow> f (json_norm v) = f v) \<Longrightarrow> res_mapM f (map json_norm vs) = res_mapM f vs"
  by (induction vs) (auto split: sum.split)

section \<open>Readers\<close>

lemma id_norm [norm_simps]: "required_id g (json_norm j) k = required_id g j k"
  "optional_id g (json_norm j) k = optional_id g j k"
  by (auto simp: required_id_def optional_id_def norm_simps split: option.split)

lemma literal_norm [norm_simps]: "json_plain j \<Longrightarrow> literal_FromJson (json_norm j) = literal_FromJson j"
  unfolding literal_FromJson_def norm_simps(9) by (simp add: norm_simps)

lemma ParseConstraint_norm: "json_plain j \<Longrightarrow> ParseConstraint (json_norm j) = ParseConstraint j"
  by (simp only: ParseConstraint_def norm_simps constraint_range_def field_norm literal_norm)

lemma read_range_norm [norm_simps]: "read_range (json_norm j) k = read_range j k"
  by (auto simp: read_range_def norm_simps split: option.split)

lemma selector_norm [norm_simps]: "ParseComponentSelector (json_norm j) = ParseComponentSelector j"
  by (simp add: ParseComponentSelector_def norm_simps)

lemma read_list_norm:
  assumes "json_plain j" and "\<And>v. json_plain v \<Longrightarrow> f (json_norm v) = f v"
  shows "read_list (json_norm j) k cap f = read_list j k cap f"
proof (cases "present j k")
  case (Some v)
  show ?thesis
  proof (cases "AsArray v")
    case (Some vs)
    have "res_mapM f (map json_norm vs) = res_mapM f vs"
      by (rule res_mapM_norm) (use assms plain_present [OF assms(1) \<open>present j k = Some v\<close>] plain_AsArray [OF _ Some] in blast)
    then show ?thesis using Some \<open>present j k = Some v\<close> by (simp add: read_list_def norm_simps)
  qed (use Some in \<open>simp add: read_list_def norm_simps\<close>)
qed (simp add: read_list_def norm_simps)

lemma read_implication_norm: "read_implication (json_norm j) = read_implication j"
  by (simp add: read_implication_def norm_simps)

lemma read_revision_norm [norm_simps]: "read_revision (json_norm j) = read_revision j"
  by (auto simp: read_revision_def norm_simps split: option.split)

lemma read_priority_norm [norm_simps]: "json_plain j \<Longrightarrow> read_priority (json_norm j) = read_priority j"
  using plain_present [of j "''priority''"] by (auto simp: read_priority_def norm_simps split: option.split)

lemma read_right_norm [norm_simps]: "read_right a (json_norm j) = read_right a j"
  by (auto simp: read_right_def norm_simps split: option.split)

lemma read_superseded_norm [norm_simps]: "read_superseded (json_norm j) = read_superseded j"
  by (auto simp: read_superseded_def norm_simps split: option.split)

lemma read_lifecycle_norm [norm_simps]: "read_lifecycle (json_norm j) = read_lifecycle j"
  by (auto simp: read_lifecycle_def norm_simps split: option.split)

lemma read_provenance_norm [norm_simps]: "json_plain j \<Longrightarrow> read_provenance (json_norm j) = read_provenance j"
  unfolding read_provenance_def by (rule field_norm) (simp_all add: norm_simps)

lemma ParseRule_norm: "json_plain j \<Longrightarrow> ParseRule (json_norm j) = ParseRule j"
  by (simp add: ParseRule_def norm_simps field_norm read_list_norm ParseConstraint_norm read_implication_norm)

lemma read_entries_norm:
  "(\<And>e i d t. json_plain e \<Longrightarrow> add (json_norm e) i d t = add e i d t) \<Longrightarrow> (\<forall>e\<in>set es. json_plain e) \<Longrightarrow>
     read_entries add (map json_norm es) = read_entries add es"
proof (induction es)
  case (Cons e es)
  show ?case using Cons.IH [OF Cons.prems(1)] Cons.prems by (intro ext) (simp add: norm_simps)
qed simp

lemma read_ids_norm:
  assumes "json_plain j" and "\<And>e i d t. json_plain e \<Longrightarrow> add (json_norm e) i d t = add e i d t"
  shows "read_ids (json_norm j) k cap add = read_ids j k cap add"
proof (cases "Find j k")
  case (Some v)
  show ?thesis
  proof (cases "AsArray v")
    case (Some vs)
    have "read_entries add (map json_norm vs) = read_entries add vs"
      by (rule read_entries_norm) (use assms plain_Find [OF assms(1) \<open>Find j k = Some v\<close>] plain_AsArray [OF _ Some] in blast)+
    then show ?thesis using Some \<open>Find j k = Some v\<close> by (simp add: read_ids_def norm_simps fun_eq_iff)
  qed (use Some in \<open>simp add: read_ids_def norm_simps fun_eq_iff\<close>)
qed (simp add: read_ids_def norm_simps fun_eq_iff)

lemma entry_norm:
  "read_simple g f (json_norm e) i d t = read_simple g f e i d t" "read_kind (json_norm e) i d t = read_kind e i d t"
  "read_capability (json_norm e) i d t = read_capability e i d t"
  by (simp_all add: read_simple_def read_kind_def read_capability_def norm_simps)

lemma ParseTaxonomy_norm: "json_plain j \<Longrightarrow> ParseTaxonomy (json_norm j) lim = ParseTaxonomy j lim"
  by (simp add: ParseTaxonomy_def norm_simps read_ids_norm entry_norm)

lemma read_parent_norm [norm_simps]: "read_parent (json_norm j) = read_parent j"
  by (auto simp: read_parent_def norm_simps split: option.split)

lemma read_label_members_norm:
  "read_label_members (map (\<lambda>m. (fst m, json_norm (snd m))) ms) acc = read_label_members ms acc"
  by (induction ms acc rule: read_label_members.induct) (auto simp: norm_simps split: option.split)

lemma read_labels_norm [norm_simps]: "read_labels (json_norm j) = read_labels j"
  by (auto simp: read_labels_def read_object_def norm_simps read_label_members_norm split: option.split)

lemma read_rules_norm: "json_plain j \<Longrightarrow> read_rules (json_norm j) cap = read_rules j cap"
proof (cases "RequireArray j ''rules''")
  case (Inr vs)
  assume j: "json_plain j"
  have "res_mapM ParseRule (map json_norm vs) = res_mapM ParseRule vs"
    by (rule res_mapM_norm, rule ParseRule_norm, rule plain_RequireArray [OF j Inr])
  then show ?thesis using Inr by (simp add: read_rules_def norm_simps)
qed (simp add: read_rules_def norm_simps)

lemma ParseRegistryDocument_norm: "json_plain j \<Longrightarrow> ParseRegistryDocument (json_norm j) lim = ParseRegistryDocument j lim"
  by (simp add: ParseRegistryDocument_def norm_simps read_rules_norm field_norm ParseTaxonomy_norm cong: if_cong)

section \<open>Documents as texts\<close>

text \<open>A value whose text the parser accepts.\<close>

definition json_printable :: "JsonLimits \<Rightarrow> JsonValue \<Rightarrow> bool" where
  "json_printable lim j = (json_plain j \<and> json_fits lim 0 (json_norm j))"

lemma ParseJson_printed:
  "json_printable lim j \<Longrightarrow> length (Dump j p) \<le> max_bytes lim \<Longrightarrow> ParseJson (Dump j p) lim = Inr (json_norm j)"
  unfolding json_printable_def by (rule ParseJson_read) simp_all

text \<open>A document whose canonical text the reader accepts: well-formed, its integers in the range of the
  parser, its strings and lists within the limits of the parser, and not too long.\<close>

definition document_printable :: "DocumentLimits \<Rightarrow> RegistryDocument \<Rightarrow> bool" where
  "document_printable lim d =
     (document_ok lim d \<and> json_printable (JsonLimits_default\<lparr>max_bytes := max_document_bytes lim\<rparr>) (RegistryDocumentToJson d) \<and>
      length (CanonicalJson d) \<le> max_document_bytes lim)"

lemma CanonicalJson_Dump: "CanonicalJson d = Dump (RegistryDocumentToJson d) False"
  by (simp add: CanonicalJson_def RegistryDocumentToJson_def)

lemma document_ok_Normalize: "document_ok lim d \<Longrightarrow> document_ok lim (Normalize d)"
  by (auto simp: document_ok_def Normalize_def list_all_iff rule_ok_Normalize)

lemma document_text_read:
  assumes "document_printable lim d"
  shows "ParseRegistryDocumentText (CanonicalJson d) lim = Inr (Normalize d)"
proof -
  let ?j = "RegistryDocumentToJson d" and ?lim = "JsonLimits_default\<lparr>max_bytes := max_document_bytes lim\<rparr>"
  note ok = assms [unfolded document_printable_def]
  have "ParseJson (CanonicalJson d) ?lim = Inr (json_norm ?j)"
    using ok by (simp add: CanonicalJson_Dump ParseJson_printed)
  moreover have "ParseRegistryDocument (json_norm ?j) lim = Inr (Normalize d)"
    using ok ParseRegistryDocument_Body [OF document_ok_Normalize, of lim d]
    by (simp add: ParseRegistryDocument_norm json_printable_def) (simp add: RegistryDocumentToJson_def)
  ultimately show ?thesis by (simp add: ParseRegistryDocumentText_def)
qed

text \<open>C27. The canonical text of a printable document is read back as the canonical form of the document,
  and canonical texts of printable documents are equal only when their canonical forms are.\<close>

theorem document_text_roundtrip:
  assumes "document_printable lim d" and "document_printable lim e"
  shows "ParseRegistryDocumentText (CanonicalJson d) lim = Inr (Normalize d) \<and>
    (CanonicalJson d = CanonicalJson e \<longleftrightarrow> Normalize d = Normalize e)"
proof -
  have "CanonicalJson d = CanonicalJson e" if "Normalize d = Normalize e"
    using that by (simp add: CanonicalJson_def)
  then show ?thesis using document_text_read [OF assms(1)] document_text_read [OF assms(2)] by auto
qed

lemma json_fits_mono:
  "json_fits lim d v \<Longrightarrow> max_depth lim \<le> max_depth lim' \<Longrightarrow> max_string_bytes lim \<le> max_string_bytes lim' \<Longrightarrow>
     max_elements lim \<le> max_elements lim' \<Longrightarrow> json_fits lim' d v"
proof (induction lim d v rule: json_fits.induct)
  case (4 lim d ms)
  then show ?case by (force dest: order.trans)
qed (force dest: order.trans)+

lemma json_printable_mono:
  "json_printable lim j \<Longrightarrow> max_depth lim \<le> max_depth lim' \<Longrightarrow> max_string_bytes lim \<le> max_string_bytes lim' \<Longrightarrow>
     max_elements lim \<le> max_elements lim' \<Longrightarrow> json_printable lim' j"
  by (auto simp: json_printable_def intro: json_fits_mono)

lemma sample_document_printable:
  "document_printable DocumentLimits_default (sample_document [sample_rule ''a'' Compatible []])"
proof -
  let ?d = "sample_document [sample_rule ''a'' Compatible []]"
  have ok: "metadata_ok (md ?d)" "taxonomy_ok TaxonomyLimits_default (doc_taxonomy ?d)" "id_ok (TypedId ''a'' :: RuleId)"
    by code_simp+
  have "document_ok DocumentLimits_default ?d"
    using ok by (simp add: document_ok_def sample_document_def sample_rule_ok DocumentLimits_default_def kMaxRulesPerGeneration_def)
  moreover have small: "json_printable \<lparr>max_bytes = 0, max_depth = 20, max_string_bytes = 100, max_elements = 100\<rparr>
      (RegistryDocumentToJson ?d)" and "length (CanonicalJson ?d) \<le> 4000"
    by code_simp+
  moreover have "json_printable JsonLimits_default (RegistryDocumentToJson ?d)"
    by (rule json_printable_mono [OF small]) (simp_all add: JsonLimits_default_def)
  ultimately show ?thesis
    by (simp add: document_printable_def DocumentLimits_default_def JsonLimits_default_def)
qed

lemma document_text_roundtrip_witness:
  "ParseRegistryDocumentText (CanonicalJson (sample_document [sample_rule ''a'' Compatible []])) DocumentLimits_default =
     Inr (Normalize (sample_document [sample_rule ''a'' Compatible []]))"
  using document_text_roundtrip [OF sample_document_printable sample_document_printable] by (rule conjunct1)

end
