(* ===== verification/ValidationFacts.thy ===== *)
theory ValidationFacts
  imports Validation SetFacts
begin

text \<open>
  What validation establishes of a compiled generation, and where it reports too much or too little.
\<close>

section \<open>The report\<close>

lemma error_count_Add: "error_count (foldl Add r ds) = error_count r + length (filter (\<lambda>d. severity d = SevError) ds)"
  by (induction ds arbitrary: r) (auto simp: Add_def split: Severity.split)

lemma Publishable_iff:
  "Publishable (ValidateRegistryDocument d opts) \<longleftrightarrow> (\<forall>x\<in>set (all_diagnostics opts d). severity x \<noteq> SevError)"
  by (auto simp: Publishable_def ValidateRegistryDocument_def Let_def error_count_Add filter_empty_conv)

lemma Compile_Inr:
  "Compile d opts = Inr g \<longleftrightarrow> g = compiled d \<and> (\<forall>x\<in>set (all_diagnostics opts (Normalize d)). severity x \<noteq> SevError)"
  by (auto simp: Compile_def Publishable_iff)

lemma document_compiled [simp]: "document (compiled d) = Normalize d"
  by (simp add: compiled_def Let_def)

lemma severity_rule_diagnostic [simp]: "severity (rule_diagnostic s c m k p) = s"
  by (simp add: rule_diagnostic_def MakeDiagnostic_def)

lemma severity_MakeDiagnostic [simp]: "severity (MakeDiagnostic s c m p) = s"
  by (simp add: MakeDiagnostic_def)

lemma set_diag_if [simp]: "set (diag_if b x) = (if b then {x} else {})"
  by (cases b) (simp_all add: diag_if_def)

text \<open>A document of modest size is publishable when its checks report no error.\<close>

definition quiet :: "Diagnostic list \<Rightarrow> bool" where
  "quiet ds = list_all (\<lambda>d. severity d \<noteq> SevError) ds"

lemma Publishable_quiet:
  assumes "length (rules d) \<le> kMaxRulesPerGeneration"
    and "quiet (taxonomy_checks (doc_taxonomy d))" and "quiet (duplicate_checks [] (enumerate 0 (rules d)))"
    and "quiet (concat (map (rule_checks (doc_taxonomy d) (rules d)) (enumerate 0 (rules d))))"
    and "quiet (conflict_checks (rules d))" and "quiet (fst (reachability_checks opts (rules d)))"
    and "quiet (cycle_checks opts (rules d))" and "quiet (unused_checks opts (doc_taxonomy d) (rules d))"
  shows "Publishable (ValidateRegistryDocument d opts)"
  unfolding Publishable_iff all_diagnostics_def Let_def set_append ball_Un
  using assms unfolding quiet_def list_all_iff by (simp add: rule_count_check_def diag_if_def)

section \<open>Identities\<close>

lemma duplicate_checks_clean:
  "(\<forall>x\<in>set (duplicate_checks seen (enumerate n ks)). severity x \<noteq> SevError) \<Longrightarrow>
     distinct (map rule_id ks) \<and> (\<forall>k\<in>set ks. omap_get seen (rule_id k) = None)"
proof (induction ks arbitrary: seen n)
  case (Cons k ks)
  have none: "omap_get seen (rule_id k) = None"
  proof (cases "omap_get seen (rule_id k)")
    case (Some j)
    then show ?thesis using Cons.prems by simp
  qed
  with Cons.prems have "\<forall>x\<in>set (duplicate_checks (omap_put (rule_id k) n seen) (enumerate (Suc n) ks)). severity x \<noteq> SevError"
    using none by simp
  from Cons.IH [OF this] none show ?case by (auto simp: omap_get_put split: if_splits)
qed simp

section \<open>Conflicts\<close>

lemma pairs_of_sorted:
  "sorted_wrt (<) xs \<Longrightarrow> (i::nat) \<in> set xs \<Longrightarrow> j \<in> set xs \<Longrightarrow> i < j \<Longrightarrow> (i, j) \<in> set (pairs_of xs)"
  by (induction xs) auto

lemma tier_groups_aux:
  "omap_ok (foldl (\<lambda>m i. let t = f i in omap_put t (value_or (omap_get m t) [] @ [i]) m) [] xs) \<and>
   value_or (omap_get (foldl (\<lambda>m i. let t = f i in omap_put t (value_or (omap_get m t) [] @ [i]) m) [] xs) t) [] =
     filter (\<lambda>i. f i = t) xs"
  by (induction xs rule: rev_induct) (auto simp: Let_def omap_get_put omap_ok_put value_or_def)

lemma tier_groups_member:
  assumes "t = MakeTierKey (ks ! i)" and "i < length ks"
  shows "\<exists>is. (t, is) \<in> set (tier_groups ks) \<and> is = filter (\<lambda>i. MakeTierKey (ks ! i) = t) [0..<length ks]"
proof -
  have aux: "omap_ok (tier_groups ks)"
    "value_or (omap_get (tier_groups ks) t) [] = filter (\<lambda>i. MakeTierKey (ks ! i) = t) [0..<length ks]"
    using tier_groups_aux [of "\<lambda>i. MakeTierKey (ks ! i)" "[0..<length ks]" t] by (simp_all add: tier_groups_def)
  moreover have "filter (\<lambda>i. MakeTierKey (ks ! i) = t) [0..<length ks] \<noteq> []"
    using assms by (auto simp: filter_empty_conv)
  ultimately have "value_or (omap_get (tier_groups ks) t) [] \<noteq> []" by auto
  then obtain ns where "omap_get (tier_groups ks) t = Some ns"
    by (cases "omap_get (tier_groups ks) t") (auto simp: value_or_def)
  then show ?thesis using aux omap_get_iff [OF aux(1), of t ns] by (auto simp: value_or_def)
qed

lemma conflict_checks_clean:
  assumes "\<forall>x\<in>set (conflict_checks ks). severity x \<noteq> SevError" and "i < j" and "j < length ks"
    and "MakeTierKey (ks ! i) = MakeTierKey (ks ! j)" and "RuleRegionsOverlap (ks ! i) (ks ! j)"
  shows "outcome (ks ! i) = outcome (ks ! j)"
proof -
  let ?t = "MakeTierKey (ks ! i)"
  let ?is = "filter (\<lambda>i. MakeTierKey (ks ! i) = ?t) [0..<length ks]"
  have "(?t, ?is) \<in> set (tier_groups ks)" using tier_groups_member [of ?t ks i] assms(2,3) by auto
  moreover have "(i, j) \<in> set (pairs_of ?is)"
    using assms(2-4) by (intro pairs_of_sorted) (auto intro: sorted_wrt_filter)
  ultimately have "set (conflict_check ks (i, j)) \<subseteq> set (conflict_checks ks)"
    unfolding conflict_checks_def by fastforce
  then have "\<forall>x\<in>set (conflict_check ks (i, j)). severity x \<noteq> SevError" using assms(1) by blast
  then show ?thesis using assms(5) by (cases "outcome (ks ! i) = outcome (ks ! j)") (simp_all add: conflict_check_def Let_def)
qed

text \<open>The version ranges of the selectors are canonical, as the parser makes them.\<close>

definition selectors_ok :: "Rule \<Rightarrow> bool" where
  "selectors_ok k = (selector_ok (left_selector k) \<and> selector_ok (right_selector k))"

lemma RuleMatches_box:
  assumes "arity k = PairRule" and "fst (RuleMatchesSelectors k l r)"
  shows "\<exists>b\<in>set (RuleOrientations k). SelectorMatches (box_left b) l \<and> SelectorMatches (box_right b) r"
  using assms by (cases "symmetry k") (auto simp: RuleMatchesSelectors_def RuleOrientations_def Let_def split: if_splits)

lemma orientations_ok: "selectors_ok k \<Longrightarrow> b \<in> set (RuleOrientations k) \<Longrightarrow> selector_ok (box_left b) \<and> selector_ok (box_right b)"
  by (cases "symmetry k")
     (auto simp: RuleOrientations_def selectors_ok_def selector_ok_def ComponentSelector_any_def split: if_splits)

lemma RuleRegionsOverlap_common:
  assumes "selectors_ok a" and "selectors_ok b" and "arity a = PairRule" and "arity b = PairRule"
    and "fst (RuleMatchesSelectors a l r)" and "fst (RuleMatchesSelectors b l r)"
  shows "RuleRegionsOverlap a b"
proof -
  obtain x where x: "x \<in> set (RuleOrientations a)" "SelectorMatches (box_left x) l" "SelectorMatches (box_right x) r"
    using RuleMatches_box assms(3,5) by blast
  obtain y where y: "y \<in> set (RuleOrientations b)" "SelectorMatches (box_left y) l" "SelectorMatches (box_right y) r"
    using RuleMatches_box assms(4,6) by blast
  have "BoxOverlaps x y True"
    using SelectorsOverlap_common orientations_ok [OF assms(1) x(1)] orientations_ok [OF assms(2) y(1)] x y
    unfolding BoxOverlaps_def by blast
  then show ?thesis using x(1) y(1) assms(3,4) by (auto simp: RuleRegionsOverlap_def list_ex_iff)
qed

lemma MakeTierKey_eq: "MakeTierKey a = MakeTierKey b \<longleftrightarrow> RuleTier a = RuleTier b"
  by (auto simp: MakeTierKey_def)

lemma selectors_ok_Normalize:
  "list_all selectors_ok (rules d) \<Longrightarrow> k \<in> set (rules (Normalize d)) \<Longrightarrow> selectors_ok k"
  by (auto simp: Normalize_def list_all_iff selectors_ok_def NormalizeRule_def)

lemma candidate_index:
  assumes "k \<in> set (pair_candidates (compiled d) l r)"
  obtains i where "i < length (rules (Normalize d))" "k = rules (Normalize d) ! i" "arity k = PairRule"
    "fst (RuleMatchesSelectors k l r)"
  using assms by (auto simp: pair_candidates_def compiled_def active_rules_def Let_def split: if_splits)

text \<open>C9. In a generation that compiles, the rules that match one pair and stand in the same
  precedence tier all declare the same outcome, and no two rules have the same identity. So the tie-break by identity never
  chooses between declared outcomes.\<close>

theorem Compile_no_conflict:
  assumes "Compile d opts = Inr g" and "list_all selectors_ok (rules d)"
  shows "distinct (map rule_id (rules (document g))) \<and>
    (\<forall>a\<in>set (pair_candidates g l r). \<forall>b\<in>set (pair_candidates g l r). RuleTier a = RuleTier b \<longrightarrow> outcome a = outcome b)"
proof -
  let ?n = "Normalize d"
  have g: "g = compiled d" and clean: "\<forall>x\<in>set (all_diagnostics opts ?n). severity x \<noteq> SevError"
    using assms(1) by (simp_all add: Compile_Inr)
  have dup: "\<forall>x\<in>set (duplicate_checks [] (enumerate 0 (rules ?n))). severity x \<noteq> SevError"
    and conf: "\<forall>x\<in>set (conflict_checks (rules ?n)). severity x \<noteq> SevError"
    using clean by (auto simp: all_diagnostics_def Let_def)
  have agree: "outcome a = outcome b"
    if a: "a \<in> set (pair_candidates g l r)" and b: "b \<in> set (pair_candidates g l r)" and t: "RuleTier a = RuleTier b" for a b
  proof -
    obtain i where i: "i < length (rules ?n)" "a = rules ?n ! i" "arity a = PairRule" "fst (RuleMatchesSelectors a l r)"
      using candidate_index a unfolding g by blast
    obtain j where j: "j < length (rules ?n)" "b = rules ?n ! j" "arity b = PairRule" "fst (RuleMatchesSelectors b l r)"
      using candidate_index b unfolding g by blast
    have ok: "selectors_ok a" "selectors_ok b"
      using selectors_ok_Normalize [OF assms(2)] i(1,2) j(1,2) by simp_all
    have over: "RuleRegionsOverlap a b" "RuleRegionsOverlap b a"
      using RuleRegionsOverlap_common ok i(3,4) j(3,4) by blast+
    have tier: "MakeTierKey a = MakeTierKey b" using t by (simp add: MakeTierKey_eq)
    show ?thesis
    proof (cases i j rule: linorder_cases)
      case less
      then show ?thesis using conflict_checks_clean [OF conf less j(1)] over(1) tier i(2) j(2) by simp
    next
      case equal
      then show ?thesis using i(2) j(2) by simp
    next
      case greater
      then show ?thesis using conflict_checks_clean [OF conf greater i(1)] over(2) tier i(2) j(2) by simp
    qed
  qed
  have "distinct (map rule_id (rules (document g)))"
    using duplicate_checks_clean [OF dup] unfolding g document_compiled by (rule conjunct1)
  then show ?thesis using agree by blast
qed

text \<open>The outcome on a pair without the identifier of the generation, which takes a digest.\<close>

definition plain_outcome :: "RegistryDocument \<Rightarrow> ComponentSpec \<Rightarrow> ComponentSpec \<Rightarrow> DecisionOutcome" where
  "plain_outcome n l r =
     (let g = \<lparr>document = n, gen_id = GenerationId 0 [], active_pair_rules = active_rules n PairRule, active_set_rules = []\<rparr>
      in case pair_winner g l r of None \<Rightarrow> DUnknown | Some i \<Rightarrow> value_or (pair_answer g l r (rules n ! i)) DUnknown)"

lemma winner_cong:
  assumes "document g' = document g" and "active_pair_rules g' = active_pair_rules g"
  shows "pair_winner g' l r = pair_winner g l r" and "pair_answer g' l r = pair_answer g l r"
proof -
  show answer: "pair_answer g' l r = pair_answer g l r"
    by (intro ext) (simp add: pair_answer_def assms)
  have "pair_refusal g' l r = pair_refusal g l r" "MatchPairRules g' l r = MatchPairRules g l r"
    by (simp_all add: pair_refusal_def MatchPairRules_def by_precedence_def assms cong: option.case_cong)
  then show "pair_winner g' l r = pair_winner g l r" by (simp add: pair_winner_def answer assms)
qed

lemma compiled_outcome: "dec_outcome (EvaluatePair (compiled d) l r) = plain_outcome (Normalize d) l r"
proof -
  let ?g = "\<lparr>document = Normalize d, gen_id = GenerationId 0 [],
    active_pair_rules = active_rules (Normalize d) PairRule, active_set_rules = []\<rparr>"
  have "document (compiled d) = document ?g" "active_pair_rules (compiled d) = active_pair_rules ?g"
    by (simp_all add: compiled_def Let_def)
  note c = winner_cong [OF this]
  show ?thesis
    unfolding EvaluatePair_fields c plain_outcome_def Let_def document_compiled by simp
qed

section \<open>References\<close>

definition selector_declared :: "Taxonomy \<Rightarrow> ComponentSelector \<Rightarrow> bool" where
  "selector_declared tax s \<longleftrightarrow>
     (case sel_family s of None \<Rightarrow> True | Some f \<Rightarrow> HasFamily tax f) \<and>
     (case sel_kind s of None \<Rightarrow> True | Some q \<Rightarrow>
        (case FindKind tax q of None \<Rightarrow> False | Some d \<Rightarrow> sel_family s \<in> {None, Some (kind_family d)})) \<and>
     (case sel_hardware_class s of None \<Rightarrow> True | Some h \<Rightarrow> HasHardwareClass tax h) \<and>
     sel_version s \<noteq> Some []"

fun constraint_declared :: "Taxonomy \<Rightarrow> Constraint \<Rightarrow> bool" where
  "constraint_declared tax (RequiresCapability _ c) = (FindCapability tax c \<noteq> None)"
| "constraint_declared tax (ForbidsCapability _ c) = (FindCapability tax c \<noteq> None)"
| "constraint_declared tax (RequiresCapabilityValue _ c op lit) =
     (case FindCapability tax c of None \<Rightarrow> False
      | Some d \<Rightarrow> MatchesType lit (decl_type d) \<and> ComparisonOpSupported (decl_type d) op)"
| "constraint_declared tax (RequiresProtocol _ p r) = (HasProtocol tax p \<and> r \<noteq> [])"
| "constraint_declared tax (ForbidsProtocol _ p) = HasProtocol tax p"
| "constraint_declared tax (RequiresSchema _ p r) = (HasSchema tax p \<and> r \<noteq> [])"
| "constraint_declared tax (ForbidsSchema _ p) = HasSchema tax p"
| "constraint_declared tax (RequiresHardwareClass _ h) = HasHardwareClass tax h"
| "constraint_declared tax (ForbidsHardwareClass _ h) = HasHardwareClass tax h"
| "constraint_declared tax (RequiresFeature _ f) = HasFeature tax f"
| "constraint_declared tax (ForbidsFeature _ f) = HasFeature tax f"
| "constraint_declared tax (VersionAtLeast _ _) = True"
| "constraint_declared tax (VersionAtMost _ _) = True"

definition rule_declared :: "Taxonomy \<Rightarrow> Rule \<Rightarrow> bool" where
  "rule_declared tax k \<longleftrightarrow>
     selector_declared tax (left_selector k) \<and>
     (if arity k = PairRule then selector_declared tax (right_selector k)
      else selector_IsWildcard (right_selector k) \<and> list_all (\<lambda>c. ConstraintSide c \<noteq> Right) (constraints k)) \<and>
     list_all (constraint_declared tax) (constraints k)"

lemma quiet_simps [simp]: "quiet []" "quiet (xs @ ys) \<longleftrightarrow> quiet xs \<and> quiet ys"
  "quiet (x # xs) \<longleftrightarrow> severity x \<noteq> SevError \<and> quiet xs"
  "quiet (diag_if b x) \<longleftrightarrow> b \<longrightarrow> severity x \<noteq> SevError"
  "quiet (concat (map f zs)) \<longleftrightarrow> (\<forall>z\<in>set zs. quiet (f z))"
  by (auto simp: quiet_def list_all_iff)

lemma selector_checks_quiet: "quiet (selector_checks tax k path s) \<Longrightarrow> selector_declared tax s"
  by (auto simp: selector_checks_def selector_declared_def split: option.splits)

lemma constraint_checks_quiet:
  "quiet (constraint_checks tax i k (n, c)) \<Longrightarrow> constraint_declared tax c \<and> (arity k = SetRule \<longrightarrow> ConstraintSide c \<noteq> Right)"
  by (cases c) (auto simp: constraint_checks_def undefined_entry_def impossible_range_def Let_def split: option.splits)

lemma mem_enumerate: "x \<in> set xs \<Longrightarrow> \<exists>i. (i, x) \<in> set (enumerate 0 xs)"
proof -
  assume "x \<in> set xs"
  then obtain i where "i < length xs" "xs ! i = x" by (auto simp: in_set_conv_nth)
  then have "(i, x) \<in> set (enumerate 0 xs)" by (simp add: in_set_enumerate_eq)
  then show ?thesis ..
qed

lemma side_neq_Right: "(side \<noteq> Right) = (side = Left \<or> side = AllMembers)"
  by (cases side) auto

lemma rule_checks_quiet:
  assumes "quiet (rule_checks tax ks (i, k))"
  shows "rule_declared tax k"
proof -
  have s: "quiet (structure_checks tax i k)"
    and c: "\<forall>e\<in>set (enumerate 0 (constraints k)). quiet (constraint_checks tax i k e)"
    using assms by (simp_all add: rule_checks_def)
  have "constraint_declared tax x \<and> (arity k = SetRule \<longrightarrow> ConstraintSide x \<noteq> Right)" if "x \<in> set (constraints k)" for x
  proof -
    from mem_enumerate [OF that] obtain n where "(n, x) \<in> set (enumerate 0 (constraints k))" ..
    then have "quiet (constraint_checks tax i k (n, x))" using c by simp
    then show ?thesis by (rule constraint_checks_quiet)
  qed
  then show ?thesis
    using s selector_checks_quiet
    by (cases "arity k") (auto simp: rule_declared_def structure_checks_def list_all_iff)
qed


section \<open>What validation lets through\<close>

text \<open>Two rules of one tier for the same pairs, both declaring them compatible, the first on condition of
  a capability and the second on condition of a feature.\<close>

definition tie_document :: "string \<Rightarrow> string \<Rightarrow> RegistryDocument" where
  "tie_document n m = sample_document
     [sample_rule n Compatible [RequiresCapability Left (TypedId ''rdma'')],
      sample_rule m Compatible [RequiresFeature Left (TypedId ''ecc'')]]"

definition tie_gpu :: ComponentSpec where
  "tie_gpu = (sample_spec ''gpu'' (SemVersion_of 1 0 0))\<lparr>spec_features := []\<rparr>"

lemma tie_publishable:
  "Publishable (ValidateRegistryDocument (Normalize (tie_document ''a'' ''b'')) ValidationOptions_default)"
  "Publishable (ValidateRegistryDocument (Normalize (tie_document ''b'' ''a'')) ValidationOptions_default)"
proof -
  have small: "length (rules (Normalize (tie_document n m))) \<le> kMaxRulesPerGeneration" for n m
    by (simp add: Normalize_def tie_document_def sample_document_def kMaxRulesPerGeneration_def)
  show "Publishable (ValidateRegistryDocument (Normalize (tie_document ''a'' ''b'')) ValidationOptions_default)"
    by (rule Publishable_quiet [OF small]; code_simp)
  show "Publishable (ValidateRegistryDocument (Normalize (tie_document ''b'' ''a'')) ValidationOptions_default)"
    by (rule Publishable_quiet [OF small]; code_simp)
qed

lemma Compile_no_conflict_witness:
  "distinct (map rule_id (rules (document (compiled (tie_document ''a'' ''b'')))))"
proof -
  have "Compile (tie_document ''a'' ''b'') ValidationOptions_default = Inr (compiled (tie_document ''a'' ''b''))"
    using tie_publishable by (simp add: Compile_def)
  moreover have "list_all selectors_ok (rules (tie_document ''a'' ''b''))" by code_simp
  ultimately show ?thesis using Compile_no_conflict by blast
qed


text \<open>The conflict check compares declared outcomes only: two rules of one tier that overlap and
  declare the same outcome pass validation although one of them answers compatible and the other, whose
  requirement is unmet, incompatible. The tie-break by identity then decides: renaming the two rules
  turns the decision around.\<close>

theorem tie_break_decides:
  "let opts = ValidationOptions_default; outcome_of = (\<lambda>d. dec_outcome (EvaluatePair (compiled d) tie_gpu plain_nic))
   in has_value (Compile (tie_document ''a'' ''b'') opts) \<and> has_value (Compile (tie_document ''b'' ''a'') opts) \<and>
      outcome_of (tie_document ''a'' ''b'') = DCompatible \<and> outcome_of (tie_document ''b'' ''a'') = DIncompatible"
proof -
  have "dec_outcome (EvaluatePair (compiled (tie_document ''a'' ''b'')) tie_gpu plain_nic) = DCompatible"
    unfolding compiled_outcome by code_simp
  moreover have "dec_outcome (EvaluatePair (compiled (tie_document ''b'' ''a'')) tie_gpu plain_nic) = DIncompatible"
    unfolding compiled_outcome by code_simp
  ultimately show ?thesis using tie_publishable by (simp add: Compile_def)
qed

section \<open>What validation rejects and accepts wrongly\<close>

text \<open>A rule for one exact version and a rule of higher priority for another exact version.\<close>

definition exact_rule :: "string \<Rightarrow> int \<Rightarrow> SemVersion \<Rightarrow> Rule" where
  "exact_rule n p v = (sample_rule n Compatible [])\<lparr>priority := p,
     left_selector := gpu_selector (VersionRange_Exact v)\<rparr>"

definition exact_document :: RegistryDocument where
  "exact_document = sample_document [exact_rule ''one'' 0 (SemVersion_of 1 0 0), exact_rule ''two'' 10 (SemVersion_of 2 0 0)]"

text \<open>The reachability analysis reports a false unreachable rule: a selector of a single version
  covers no cell of the version plane, so the rule counts as covered by any rule of higher precedence for the
  same kinds, even one for another version. The generation is refused although the first rule would
  decide the pair that the second does not match.\<close>

theorem false_unreachable:
  "let n = Normalize exact_document; gpu = sample_spec ''gpu'' (SemVersion_of 1 0 0); nic = sample_spec ''nic'' (SemVersion_of 1 0 0)
   in \<not> has_value (Compile exact_document ValidationOptions_default) \<and>
      list_ex (\<lambda>x. code x = UnreachableRule \<and> diag_rule x = Some (RuleRef (TypedId ''one'') 1))
        (all_diagnostics ValidationOptions_default n) \<and>
      plain_outcome n gpu nic = DCompatible \<and>
      map (\<lambda>k. fst (RuleMatchesSelectors k gpu nic)) (rules n) = [True, False]"
proof -
  let ?n = "Normalize exact_document"
  have "list_ex (\<lambda>x. severity x = SevError \<and> code x = UnreachableRule \<and> diag_rule x = Some (RuleRef (TypedId ''one'') 1))
      (fst (reachability_checks ValidationOptions_default (rules ?n)))"
    by code_simp
  then have r: "list_ex (\<lambda>x. severity x = SevError \<and> code x = UnreachableRule \<and> diag_rule x = Some (RuleRef (TypedId ''one'') 1))
      (all_diagnostics ValidationOptions_default ?n)"
    by (simp add: all_diagnostics_def Let_def)
  then have "\<not> Publishable (ValidateRegistryDocument ?n ValidationOptions_default)"
    by (auto simp: Publishable_iff list_ex_iff)
  moreover have "plain_outcome ?n (sample_spec ''gpu'' (SemVersion_of 1 0 0)) (sample_spec ''nic'' (SemVersion_of 1 0 0)) = DCompatible"
    by code_simp
  moreover have "map (\<lambda>k. fst (RuleMatchesSelectors k (sample_spec ''gpu'' (SemVersion_of 1 0 0)) (sample_spec ''nic'' (SemVersion_of 1 0 0))))
      (rules ?n) = [True, False]"
    by code_simp
  moreover have "list_ex (\<lambda>x. code x = UnreachableRule \<and> diag_rule x = Some (RuleRef (TypedId ''one'') 1))
      (all_diagnostics ValidationOptions_default ?n)"
    using r by (auto simp: list_ex_iff)
  ultimately show ?thesis by (simp add: Compile_def)
qed

text \<open>The check for an inverted version window looks at the last minimum of a side in the canonical
  order, not at the highest: two minimums \<open>10.0.0\<close> and \<open>9.0.0\<close> under a maximum of \<open>9.5.0\<close> pass, although
  no component can meet all three.\<close>

lemma window_check_misses:
  "let k = NormalizeRule (sample_rule ''w'' Compatible [VersionAtLeast Left (SemVersion_of 10 0 0),
         VersionAtLeast Left (SemVersion_of 9 0 0), VersionAtMost Left (SemVersion_of 9 5 0)])
   in window_checks 0 k = [] \<and>
      (\<forall>s tax. \<exists>c\<in>set (constraints k). fst (EvaluateConstraintAgainstSpec c s tax) = Violated)"
proof -
  let ?cs = "[VersionAtLeast Left (SemVersion_of 10 0 0), VersionAtLeast Left (SemVersion_of 9 0 0), VersionAtMost Left (SemVersion_of 9 5 0)]"
  let ?k = "NormalizeRule (sample_rule ''w'' Compatible ?cs)"
  have "\<exists>c\<in>set ?cs. fst (EvaluateConstraintAgainstSpec c s tax) = Violated" for s tax
  proof (rule ccontr)
    assume "\<not> ?thesis"
    then have "Precedence (spec_version s) (SemVersion_of 10 0 0) \<noteq> Less" "Precedence (SemVersion_of 9 5 0) (spec_version s) \<noteq> Less"
      by (auto simp: version_lt_def split: if_splits)
    moreover have "Precedence (SemVersion_of 9 5 0) (SemVersion_of 10 0 0) = Less" by code_simp
    ultimately show False using prec.ascending.not_lt_trans by blast
  qed
  moreover have "set (constraints ?k) = set ?cs" by (auto simp: NormalizeRule_def sample_rule_def)
  moreover have "window_checks 0 ?k = []" by code_simp
  ultimately show ?thesis unfolding Let_def by metis
qed

end
