(* ===== verification/StoreFacts.thy ===== *)
theory StoreFacts
  imports Store DocumentTextFacts ValidationFacts
begin

text \<open>
  What the names, the binary frame and the head metadata of the store satisfy: each is read back as it was
  written.
\<close>

section \<open>Names\<close>

lemma name_digits_decimal: "list_all IsDigit cs \<Longrightarrow> name_digits (of_nat v) cs = Inr (of_nat (decimal_from v cs))"
proof (induction cs arbitrary: v)
  case (Cons c cs)
  then show ?case using Cons.IH [of "v * 10 + digit_value c"] by simp
qed simp

lemma decimal_zeros: "decimal_from 0 (replicate k CHR ''0'' @ ds) = decimal ds"
  by (induction k) (simp_all add: digit_value_0 IsDigit_def char_code_def digit_value_def)

lemma FormatGenerationNumber_digits:
  "list_all IsDigit (FormatGenerationNumber n)" "length (FormatGenerationNumber n) = 20"
  "decimal (FormatGenerationNumber n) = unat n"
proof -
  have "unat n < 10 ^ Suc 19" using unsigned_less [of n, where ?'a = nat] by simp
  then have "length (to_string (unat n)) \<le> Suc 19" by (rule to_string_length_le)
  then show "length (FormatGenerationNumber n) = 20" by (simp add: FormatGenerationNumber_def kGenerationDigits_def Let_def)
  have "IsDigit CHR ''0''" by code_simp
  then have "list_all IsDigit (replicate k CHR ''0'')" for k by (induction k) simp_all
  then show "list_all IsDigit (FormatGenerationNumber n)"
    using to_string_digits [of "unat n"] by (simp add: FormatGenerationNumber_def Let_def)
  show "decimal (FormatGenerationNumber n) = unat n"
    by (simp only: FormatGenerationNumber_def Let_def decimal_zeros decimal_to_string)
qed

lemma ParseGenerationFileName_framed:
  "ds \<noteq> [] \<Longrightarrow> length ds \<le> kGenerationDigits \<Longrightarrow>
     ParseGenerationFileName (kGenerationPrefix @ ds @ kGenerationSuffix) = name_digits 0 ds"
  by (simp add: ParseGenerationFileName_def Let_def)

lemma ParseGenerationFileName_path: "ParseGenerationFileName (GenerationPath n) = Inr n"
proof -
  have "name_digits 0 (FormatGenerationNumber n) = Inr n"
    using name_digits_decimal [OF FormatGenerationNumber_digits(1), of 0 n]
    by (simp add: FormatGenerationNumber_digits)
  moreover have "FormatGenerationNumber n \<noteq> []" using FormatGenerationNumber_digits(2) [of n] by auto
  ultimately show ?thesis
    using ParseGenerationFileName_framed [of "FormatGenerationNumber n"]
    by (simp add: GenerationPath_def FormatGenerationNumber_digits kGenerationDigits_def)
qed

lemma GenerationPath_inject: "GenerationPath m = GenerationPath n \<longleftrightarrow> m = n"
proof
  assume "GenerationPath m = GenerationPath n"
  then have "ParseGenerationFileName (GenerationPath m) = ParseGenerationFileName (GenerationPath n)" by (rule arg_cong)
  then show "m = n" unfolding ParseGenerationFileName_path by (rule sum.inject(2) [THEN iffD1])
qed (rule arg_cong)

lemma GenerationPath_not_meta: "GenerationPath n \<noteq> kMetaFileName"
  by (simp add: GenerationPath_def kGenerationPrefix_def kMetaFileName_def)

text \<open>The file name of a generation is read back as its number. The reader accepts more names, though:
  without the padding, and numbers beyond 64 bits, which wrap around.\<close>

theorem generation_names:
  "ParseGenerationFileName (GenerationPath n) = Inr n \<and>
   (GenerationPath m = GenerationPath n \<longleftrightarrow> m = n) \<and>
   ParseGenerationFileName ''gen-7.fcr'' = Inr 7 \<and> GenerationPath 7 \<noteq> ''gen-7.fcr'' \<and>
   ParseGenerationFileName ''gen-18446744073709551617.fcr'' = Inr 1"
proof (intro conjI)
  show "GenerationPath 7 \<noteq> ''gen-7.fcr''"
    using FormatGenerationNumber_digits(2) [of 7] by (auto simp: GenerationPath_def kGenerationPrefix_def
        kGenerationSuffix_def dest!: arg_cong [of _ _ length])
qed (fact ParseGenerationFileName_path GenerationPath_inject | code_simp)+

section \<open>Little-endian numbers\<close>

lemma le_word_snoc: "le_word (bs @ [b]) = (le_word bs OR push_bit (8 * length bs) (ucast b) :: 'a::len word)"
  by (simp add: le_word_def enumerate_append_eq)

lemma bit_le_word:
  "bit (le_word bs :: 'a::len word) n \<longleftrightarrow> n < LENGTH('a) \<and> n div 8 < length bs \<and> bit (bs ! (n div 8)) (n mod 8)"
proof (induction bs rule: rev_induct)
  case (snoc b bs)
  have "bit (push_bit (8 * length bs) (ucast b) :: 'a word) n \<longleftrightarrow> n < LENGTH('a) \<and> n div 8 = length bs \<and> bit b (n mod 8)"
  proof -
    have "bit b (n - 8 * length bs) \<and> 8 * length bs \<le> n \<longleftrightarrow> n div 8 = length bs \<and> bit b (n mod 8)"
    proof
      assume l: "bit b (n - 8 * length bs) \<and> 8 * length bs \<le> n"
      then have "n - 8 * length bs < 8" using bit_imp_le_length [of b] by simp
      with l have "n div 8 = length bs" by (simp add: div_nat_eqI)
      moreover from this l have "n - 8 * length bs = n mod 8" by (simp add: modulo_nat_def)
      ultimately show "n div 8 = length bs \<and> bit b (n mod 8)" using l by simp
    next
      assume r: "n div 8 = length bs \<and> bit b (n mod 8)"
      then have "n - 8 * length bs = n mod 8" "8 * length bs \<le> n" by (simp_all add: modulo_nat_def flip: r [THEN conjunct1])
      with r show "bit b (n - 8 * length bs) \<and> 8 * length bs \<le> n" by simp
    qed
    then show ?thesis by (auto simp: bit_simps)
  qed
  then show ?case using snoc by (auto simp: le_word_snoc bit_or_iff nth_append)
qed (simp add: le_word_def)

lemma le_word_bytes: "LENGTH('a) = 8 * k \<Longrightarrow> le_word (le_bytes k v) = (v :: 'a::len word)"
proof (rule bit_word_eqI)
  fix n assume len: "LENGTH('a) = 8 * k" and n: "n < LENGTH('a)"
  then have "n div 8 < k" by (simp add: less_mult_imp_div_less)
  then show "bit (le_word (le_bytes k v) :: 'a word) n = bit v n"
    using n by (simp add: bit_le_word le_bytes_def bit_simps)
qed

lemma length_le_bytes [simp]: "length (le_bytes k v) = k"
  by (simp add: le_bytes_def)

lemma le_at_bytes:
  "LENGTH('a) = 8 * k \<Longrightarrow> length xs = offset \<Longrightarrow> le_at (xs @ le_bytes k (v :: 'a::len word) @ ys) offset k = v"
  by (simp add: le_at_def le_word_bytes)

section \<open>Generation files\<close>

lemma bytes_text_bytes [simp]: "bytes_text (text_bytes t) = t"
proof -
  have "char_of (unat (of_nat (char_code c) :: byte)) = c" for c
    by (simp add: char_code_def unat_of_nat)
  then show ?thesis by (simp add: bytes_text_def text_bytes_def comp_def)
qed

lemma length_text_bytes [simp]: "length (text_bytes t) = length t"
  by (simp add: text_bytes_def)

lemma length_Sha256 [simp]: "length (Sha256_Hash_bytes bs) = 32"
proof -
  have "digest_ok (Sha256_Hash_bytes bs)" using Sha256_Hash_padded [of bs] by blast
  then show ?thesis by (simp add: digest_ok_def kDigestSize_def)
qed

definition generation_frame ::
  "GenerationNumber \<Rightarrow> PublisherEpoch \<Rightarrow> Incarnation \<Rightarrow> byte list \<Rightarrow> byte list" where
  "generation_frame g e i payload =
     (let prefix = header_prefix g e i (length payload) (Sha256_Hash_bytes payload)
      in prefix @ le_bytes 4 (Crc32c prefix) @ replicate 20 0 @ payload)"

lemma length_magic: "length kGenerationMagic = 4"
  by (simp add: kGenerationMagic_def)

lemma length_prefix: "length (header_prefix g e i n (Sha256_Hash_bytes bs)) = 72"
  by (simp add: header_prefix_def length_magic)

lemmas header_layout = header_prefix_def length_magic kGenerationHeaderBytes_def

lemma frame_fields:
  assumes bs_def: "bs = generation_frame g e i payload"
  shows "length bs = kGenerationHeaderBytes + length payload" "take 4 bs = kGenerationMagic"
    "le_at bs 4 2 = kGenerationFormatVersion" "le_at bs 6 2 = (of_nat kGenerationHeaderBytes :: 16 word)"
    "le_at bs 8 8 = g" "le_at bs 16 8 = e" "le_at bs 24 8 = i" "le_at bs 32 8 = (of_nat (length payload) :: u64)"
    "take 32 (drop 40 bs) = Sha256_Hash_bytes payload" "le_at bs 72 4 = Crc32c (take 72 bs)"
    "drop kGenerationHeaderBytes bs = payload"
proof -
  obtain crc :: u32 where bs: "bs = header_prefix g e i (length payload) (Sha256_Hash_bytes payload) @ le_bytes 4 crc @
      replicate 20 0 @ payload" and crc: "crc = Crc32c (header_prefix g e i (length payload) (Sha256_Hash_bytes payload))"
    by (simp add: bs_def generation_frame_def Let_def)
  note at = le_at_bytes [where 'a = 16] le_at_bytes [where 'a = 64] le_at_bytes [where 'a = 32]
  show "length bs = kGenerationHeaderBytes + length payload" by (simp add: bs length_prefix kGenerationHeaderBytes_def)
  show "take 4 bs = kGenerationMagic" by (simp add: bs header_layout)
  show "le_at bs 4 2 = kGenerationFormatVersion"
    using at(1) [of 2 kGenerationMagic 4] by (simp add: bs header_layout)
  show "le_at bs 6 2 = (of_nat kGenerationHeaderBytes :: 16 word)"
    using at(1) [of 2 "kGenerationMagic @ le_bytes 2 kGenerationFormatVersion" 6] by (simp add: bs header_layout)
  let ?h = "kGenerationMagic @ le_bytes 2 kGenerationFormatVersion @ le_bytes 2 (of_nat kGenerationHeaderBytes :: 16 word)"
  show "le_at bs 8 8 = g" using at(2) [of 8 ?h 8] by (simp add: bs header_layout)
  show "le_at bs 16 8 = e" using at(2) [of 8 "?h @ le_bytes 8 g" 16] by (simp add: bs header_layout)
  show "le_at bs 24 8 = i" using at(2) [of 8 "?h @ le_bytes 8 g @ le_bytes 8 e" 24] by (simp add: bs header_layout)
  show "le_at bs 32 8 = (of_nat (length payload) :: u64)"
    using at(2) [of 8 "?h @ le_bytes 8 g @ le_bytes 8 e @ le_bytes 8 i" 32] by (simp add: bs header_layout)
  show "take 32 (drop 40 bs) = Sha256_Hash_bytes payload" by (simp add: bs header_layout)
  have "take 72 bs = header_prefix g e i (length payload) (Sha256_Hash_bytes payload)" by (simp add: bs length_prefix)
  then show "le_at bs 72 4 = Crc32c (take 72 bs)"
    using at(3) [of 4 "take 72 bs" 72] by (simp add: bs crc length_prefix)
  show "drop kGenerationHeaderBytes bs = payload" by (simp add: bs length_prefix kGenerationHeaderBytes_def)
qed

text \<open>The document a generation file holds.\<close>

definition stamped :: "RegistryDocument \<Rightarrow> GenerationNumber \<Rightarrow> PublisherEpoch \<Rightarrow> RegistryDocument" where
  "stamped d g e = Normalize (d\<lparr>md := (md d)\<lparr>md_generation := g, md_epoch := e\<rparr>\<rparr>)"

lemma Normalize_stamped [simp]: "Normalize (stamped d g e) = stamped d g e"
  by (simp add: stamped_def)

lemma md_Normalize [simp]: "md (Normalize d) = md d"
  by (simp add: Normalize_def)

lemma EncodeGeneration_frame: "EncodeGeneration d g e i cap =
    (if length (CanonicalJson (stamped d g e)) > cap then Fail LimitExceeded
     else Inr (generation_frame g e i (text_bytes (CanonicalJson (stamped d g e)))))"
  by (simp add: EncodeGeneration_def generation_frame_def stamped_def Let_def)

lemma DecodeGeneration_frame:
  assumes "document_printable DocumentLimits_default (stamped d g e)"
  shows "DecodeGeneration (generation_frame g e i (text_bytes (CanonicalJson (stamped d g e)))) = Inr (stamped d g e, g, e, i)"
proof -
  let ?t = "CanonicalJson (stamped d g e)"
  let ?bs = "generation_frame g e i (text_bytes ?t)"
  note fields = frame_fields [OF refl, of g e i "text_bytes ?t"]
  have read: "ParseRegistryDocumentText ?t DocumentLimits_default = Inr (stamped d g e)"
    using document_text_read [OF assms] by simp
  have "md_generation (md (stamped d g e)) = g" by (simp add: stamped_def)
  moreover have "document_Digest (stamped d g e) = Sha256_Hash_bytes (text_bytes ?t)"
    by (simp add: document_Digest_def Sha256_Hash_def)
  ultimately show ?thesis by (simp add: DecodeGeneration_def fields read Let_def)
qed

text \<open>C28. A generation file is read back as the canonical form of the document it was written from, with
  its number, epoch and incarnation, when the document is printable.\<close>

theorem DecodeGeneration_Encode:
  assumes "document_printable DocumentLimits_default (stamped d g e)" and "EncodeGeneration d g e i cap = Inr bs"
  shows "DecodeGeneration bs = Inr (stamped d g e, g, e, i)"
proof -
  have "bs = generation_frame g e i (text_bytes (CanonicalJson (stamped d g e)))"
    using assms(2) by (simp add: EncodeGeneration_frame split: if_splits)
  then show ?thesis using DecodeGeneration_frame [OF assms(1)] by simp
qed

lemma printable_Normalize: "document_printable lim d \<Longrightarrow> document_printable lim (Normalize d)"
  by (simp add: document_printable_def document_ok_Normalize CanonicalJson_def RegistryDocumentToJson_def)

lemma DecodeGeneration_Encode_witness:
  "let d = sample_document [sample_rule ''a'' Compatible []] in
   DecodeGeneration (generation_frame 1 1 5 (text_bytes (CanonicalJson d))) = Inr (Normalize d, 1, 1, 5)"
proof -
  let ?d = "sample_document [sample_rule ''a'' Compatible []]"
  have st: "stamped ?d 1 1 = Normalize ?d" by (simp add: stamped_def sample_document_def Builder_new_def)
  have canon: "CanonicalJson (Normalize ?d) = CanonicalJson ?d" by (simp add: CanonicalJson_def)
  have pr: "document_printable DocumentLimits_default (stamped ?d 1 1)"
    unfolding st by (rule printable_Normalize [OF sample_document_printable])
  have "EncodeGeneration ?d 1 1 5 (length (CanonicalJson ?d)) = Inr (generation_frame 1 1 5 (text_bytes (CanonicalJson ?d)))"
    by (simp only: EncodeGeneration_frame st canon) simp
  from DecodeGeneration_Encode [OF pr this] show ?thesis unfolding st Let_def .
qed

text \<open>A generation whose text is longer than the 8 MiB the document reader takes by default is written, up to
  the 64 MiB of the store, but never read.\<close>

lemma DecodeGeneration_oversized:
  assumes "8388608 < length (CanonicalJson (stamped d g e))"
  shows "DecodeGeneration (generation_frame g e i (text_bytes (CanonicalJson (stamped d g e)))) = Fail LimitExceeded"
proof -
  let ?t = "CanonicalJson (stamped d g e)"
  note fields = frame_fields [OF refl, of g e i "text_bytes ?t"]
  have "ParseRegistryDocumentText ?t DocumentLimits_default = Fail LimitExceeded"
    using assms by (simp add: ParseRegistryDocumentText_def ParseJson_def DocumentLimits_default_def)
  then show ?thesis by (simp add: DecodeGeneration_def fields Let_def)
qed

section \<open>The head metadata\<close>

definition meta_ok :: "StoreMeta \<Rightarrow> bool" where
  "meta_ok m = (digest_ok (head_digest m) \<and> iso_range (updated_at m) \<and>
     (id_value (last_publisher m) = [] \<or> has_value (ValidateIdText Opaque (id_value (last_publisher m)))))"

definition meta_printable :: "nat \<Rightarrow> StoreMeta \<Rightarrow> bool" where
  "meta_printable cap m = (meta_ok m \<and> json_printable JsonLimits_default (StoreMetaToJson m) \<and>
     length (Dump (StoreMetaToJson m) False) \<le> cap)"

lemma payload_fold:
  "omap_ok (acc @ ms) \<Longrightarrow>
     foldl (\<lambda>p (k, v). if k = key then p else Set p k v) (JObj acc) ms = JObj (acc @ omap_erase key ms)"
proof (induction ms arbitrary: acc)
  case (Cons e ms)
  obtain k v where e: "e = (k, v)" by fastforce
  have "omap_put k v acc = acc @ [e]"
    using Cons.prems e by (intro omap_put_snoc [of acc k v, folded e]) (auto simp: omap_ok_def sorted_wrt_append)
  moreover have "omap_ok (acc @ ms)" using Cons.prems by (auto simp: omap_ok_def sorted_wrt_append)
  ultimately show ?case using Cons.IH [of acc] Cons.IH [of "acc @ [e]"] Cons.prems e
    by (auto simp: Set_def omap_erase_def)
qed (simp add: omap_erase_def)

lemma meta_payload_object: "omap_ok ms \<Longrightarrow> meta_payload (JObj ms) = JObj (omap_erase ''integrity'' ms)"
  using payload_fold [of "[]" ms "''integrity''"]
  by (simp add: meta_payload_def json_keys_def json_values_def zip_map_fst_snd)

lemma MetaPayload_object: "json_object (MetaPayloadJson m)"
  by (simp add: MetaPayloadJson_def Let_def json_simps)

lemma meta_payload_print: "meta_payload (StoreMetaToJson m) = MetaPayloadJson m"
proof -
  obtain ms where ms: "MetaPayloadJson m = JObj ms" "omap_ok ms"
    using MetaPayload_object [of m] by (auto simp: json_object_iff)
  have "Find (MetaPayloadJson m) ''integrity'' = None" by (simp add: MetaPayloadJson_def Let_def json_simps)
  then have "omap_get ms ''integrity'' = None" by (simp add: ms Find_object)
  then have "omap_erase ''integrity'' (omap_put ''integrity'' x ms) = ms" for x
    using ms(2) by (intro omap_ext) (auto simp: omap_simps fun_eq_iff)
  then show ?thesis
    using ms by (simp add: StoreMetaToJson_def Set_def meta_payload_object omap_simps)
qed

lemma Find_StoreMetaToJson:
  "json_object (StoreMetaToJson m)" "Find (StoreMetaToJson m) ''integrity'' = Some (JStr (integrity_text (MetaPayloadJson m)))"
  "k \<noteq> ''integrity'' \<Longrightarrow> Find (StoreMetaToJson m) k = Find (MetaPayloadJson m) k"
  by (simp_all add: StoreMetaToJson_def json_simps MetaPayload_object)

lemma Find_MetaPayloadJson:
  "Find (MetaPayloadJson m) ''format'' = Some (JStr kStoreMetaFormat)"
  "Find (MetaPayloadJson m) ''format_version'' = Some (JUInt kStoreMetaFormatVersion)"
  "Find (MetaPayloadJson m) ''generation'' = Some (JUInt (head_generation m))"
  "Find (MetaPayloadJson m) ''generation_digest'' = Some (JStr (ToHex (head_digest m)))"
  "Find (MetaPayloadJson m) ''publisher_epoch'' = Some (JUInt (head_epoch m))"
  "Find (MetaPayloadJson m) ''incarnation'' = Some (JUInt (head_incarnation m))"
  "Find (MetaPayloadJson m) ''total_publications'' = Some (JUInt (total_publications m))"
  "Find (MetaPayloadJson m) ''updated_at'' = Some (JStr (ToIso8601 (updated_at m)))"
  "Find (MetaPayloadJson m) ''last_publisher'' = Some (JStr (id_value (last_publisher m)))"
  by (simp_all add: MetaPayloadJson_def Let_def json_simps)

lemma ParseStoreMeta_print: "meta_ok m \<Longrightarrow> ParseStoreMeta (StoreMetaToJson m) = Inr m"
proof -
  assume ok: "meta_ok m"
  let ?j = "StoreMetaToJson m"
  have obj: "IsObject ?j" by (rule json_object_IsObject [OF Find_StoreMetaToJson(1)])
  note str = RequireString_Find [OF obj] and num = RequireUInt_Find [OF obj]
  note F = Find_StoreMetaToJson(3) Find_MetaPayloadJson
  have i: "RequireString ?j ''integrity'' = Inr (integrity_text (MetaPayloadJson m))"
    by (rule str [OF Find_StoreMetaToJson(2)])
  have f: "RequireString ?j ''format'' = Inr kStoreMetaFormat" "RequireString ?j ''generation_digest'' = Inr (ToHex (head_digest m))"
    "RequireString ?j ''updated_at'' = Inr (ToIso8601 (updated_at m))"
    by (rule str; simp add: F)+
  have n: "RequireUInt ?j ''format_version'' = Inr kStoreMetaFormatVersion" "RequireUInt ?j ''generation'' = Inr (head_generation m)"
    "RequireUInt ?j ''publisher_epoch'' = Inr (head_epoch m)" "RequireUInt ?j ''incarnation'' = Inr (head_incarnation m)"
    "RequireUInt ?j ''total_publications'' = Inr (total_publications m)"
    by (rule num; simp add: F)+
  have "OptionalString ?j ''last_publisher'' [] = Inr (id_value (last_publisher m))"
    by (rule OptionalString_Find) (simp add: F)
  then have p: "read_last_publisher ?j = Inr (last_publisher m)"
    using ok Opaque_Parse [of "last_publisher m"] by (cases "last_publisher m") (auto simp: read_last_publisher_def meta_ok_def)
  show ?thesis
    using ok by (simp add: ParseStoreMeta_def obj meta_payload_print i f n p meta_ok_def FromHex_ToHex FromIso8601_print)
qed

lemma json_norm_Set: "json_norm (Set j k v) = Set (json_norm j) k (json_norm v)"
proof -
  have "map (\<lambda>m. (fst m, json_norm (snd m))) (omap_put k v ms) =
      omap_put k (json_norm v) (map (\<lambda>m. (fst m, json_norm (snd m))) ms)" for ms
    by (induction ms) auto
  then show ?thesis by (cases j) (simp_all add: Set_def)
qed

lemma json_norm_StoreMeta [simp]: "json_norm (StoreMetaToJson m) = StoreMetaToJson m"
proof -
  have "json_norm (MetaPayloadJson m) = MetaPayloadJson m"
    by (simp only: MetaPayloadJson_def Let_def json_norm_Set json_norm.simps list.map)
  then show ?thesis by (simp only: StoreMetaToJson_def json_norm_Set json_norm.simps)
qed

lemma StoreMeta_read:
  assumes "meta_printable cap m"
  shows "res_bind (ParseJson (Dump (StoreMetaToJson m) False) (JsonLimits_default\<lparr>max_bytes := cap\<rparr>)) ParseStoreMeta = Inr m"
proof -
  have "json_printable (JsonLimits_default\<lparr>max_bytes := cap\<rparr>) (StoreMetaToJson m)"
    by (rule json_printable_mono [of JsonLimits_default]) (use assms in \<open>simp_all add: meta_printable_def\<close>)
  then have "ParseJson (Dump (StoreMetaToJson m) False) (JsonLimits_default\<lparr>max_bytes := cap\<rparr>) = Inr (StoreMetaToJson m)"
    using assms by (simp add: ParseJson_printed meta_printable_def)
  then show ?thesis using assms by (simp add: meta_printable_def ParseStoreMeta_print)
qed

end
