(* ===== verification/StoreMetaFacts.thy ===== *)
theory StoreMetaFacts
  imports StoreFacts
begin

text \<open>
  The head metadata is always small enough to be read back: a bound on the text of its JSON form, from the
  bounds on digests, times and identifiers.
\<close>

section \<open>Metadata always fits\<close>

text \<open>An object of small members: its text is at most \<open>b\<close> characters long and within the default limits.\<close>

definition members_weight :: "(string \<times> JsonValue) list \<Rightarrow> nat" where
  "members_weight ms = sum_list (map (\<lambda>m. length (dump_member False 1 m) + 1) ms)"

fun small_leaf :: "JsonValue \<Rightarrow> bool" where
  "small_leaf (JStr s) = (length s \<le> 71)"
| "small_leaf (JUInt u) = True"
| "small_leaf v = False"

definition light :: "nat \<Rightarrow> JsonValue \<Rightarrow> bool" where
  "light b j = (\<exists>ms. j = JObj ms \<and> omap_ok ms \<and> 600 * length ms \<le> b \<and> members_weight ms \<le> b \<and>
     (\<forall>m\<in>set ms. length (fst m) \<le> 20 \<and> small_leaf (snd m)))"

lemma length_dump_char: "length (dump_char c) \<le> 6"
  by (simp add: dump_char_def)

lemma length_DumpString: "length (DumpString s) \<le> 2 + 6 * length s"
proof -
  have "length (concat (map dump_char s)) \<le> 6 * length s"
  proof (induction s)
    case (Cons c s)
    then show ?case using length_dump_char [of c] by simp
  qed simp
  then show ?thesis by (simp add: DumpString_def)
qed

lemma length_number: "length (to_string (unat (u :: u64))) \<le> 20"
proof -
  have "unat u < 10 ^ Suc 19" using unsigned_less [of u, where ?'a = nat] by simp
  then show ?thesis using to_string_length_le by fastforce
qed

lemma length_small_member: "length k \<le> 20 \<Longrightarrow> small_leaf v \<Longrightarrow> length (dump_member False 1 (k, v)) + 1 \<le> 600"
  using length_DumpString [of k]
proof (cases v)
  case (JUInt u)
  assume "length k \<le> 20" "length (DumpString k) \<le> 2 + 6 * length k"
  then show ?thesis using JUInt length_number [of u] by (simp add: dump_member_def newline_indent_def)
next
  case (JStr s)
  assume "length k \<le> 20" "length (DumpString k) \<le> 2 + 6 * length k" "small_leaf v"
  then show ?thesis using JStr length_DumpString [of s] by (simp add: dump_member_def newline_indent_def)
qed simp_all

lemma members_weight_put:
  "members_weight (omap_put k v ms) \<le> length (dump_member False 1 (k, v)) + 1 + members_weight ms"
  by (induction ms) (auto simp: members_weight_def)

lemma length_omap_put: "length (omap_put k v m) \<le> length m + 1"
  by (induction m) auto

lemma light_Nil: "light 0 (JObj [])"
  by (simp add: light_def members_weight_def)

lemma light_Set:
  assumes "light b j" and "length k \<le> 20" and "small_leaf v"
  shows "light (b + 600) (Set j k v)"
proof -
  obtain ms where ms: "j = JObj ms" "omap_ok ms" "600 * length ms \<le> b" "members_weight ms \<le> b"
    "\<forall>m\<in>set ms. length (fst m) \<le> 20 \<and> small_leaf (snd m)"
    using assms(1) by (auto simp: light_def)
  have "members_weight (omap_put k v ms) \<le> b + 600"
    using members_weight_put [of k v ms] length_small_member [OF assms(2,3)] ms(4) by linarith
  moreover have "600 * length (omap_put k v ms) \<le> b + 600" using length_omap_put [of k v ms] ms(3) by linarith
  moreover have "\<forall>m\<in>set (omap_put k v ms). length (fst m) \<le> 20 \<and> small_leaf (snd m)"
    using ms(5) assms(2,3) by (auto dest: set_omap_put)
  ultimately show ?thesis using ms by (simp add: light_def Set_def omap_simps)
qed

lemma length_join: "length (join_with '','' xs) \<le> sum_list (map (\<lambda>x. length x + 1) xs)"
proof (induction xs)
  case (Cons x xs)
  then show ?case by (cases xs) simp_all
qed simp

lemma light_Dump: "light b j \<Longrightarrow> length (Dump j False) \<le> b + 2"
proof -
  assume "light b j"
  then obtain ms where ms: "j = JObj ms" "members_weight ms \<le> b" by (auto simp: light_def)
  show ?thesis
  proof (cases "ms = []")
    case False
    have "length (join_with '','' (map (dump_member False 1) ms)) \<le> members_weight ms"
      using length_join [of "map (dump_member False 1) ms"] by (simp add: members_weight_def comp_def)
    then show ?thesis
      using ms DumpTo_object [OF False, of False 0] by (simp add: Dump_def newline_indent_def del: DumpTo.simps)
  qed (use ms in \<open>simp add: Dump_def\<close>)
qed

lemma small_leaf_plain: "small_leaf v \<Longrightarrow> json_plain v \<and> json_norm v = v \<and> json_fits JsonLimits_default 1 v"
  by (cases v) (simp_all add: JsonLimits_default_def)

lemma light_printable: "light b j \<Longrightarrow> b \<le> 600000 \<Longrightarrow> json_printable JsonLimits_default j"
proof -
  assume "light b j" and b: "b \<le> 600000"
  then obtain ms where ms: "j = JObj ms" "omap_ok ms" "600 * length ms \<le> b"
    "\<forall>m\<in>set ms. length (fst m) \<le> 20 \<and> small_leaf (snd m)"
    by (auto simp: light_def)
  have "map (\<lambda>m. (fst m, json_norm (snd m))) ms = ms" using ms(4) small_leaf_plain by (intro map_idI) fastforce
  then have "json_norm j = j" by (simp add: ms)
  moreover have "json_plain j" using ms(4) by (auto simp: ms(1) dest: small_leaf_plain)
  moreover have "json_fits JsonLimits_default 0 j"
  proof -
    have "\<forall>m\<in>set ms. length (fst m) \<le> 20 \<and> json_fits JsonLimits_default 1 (snd m)"
      using ms(4) small_leaf_plain by blast
    moreover have "length ms \<le> 1000" using ms(3) b by simp
    moreover have "max_string_bytes JsonLimits_default \<ge> 20" "max_elements JsonLimits_default \<ge> 1000"
      by (simp_all add: JsonLimits_default_def)
    ultimately show ?thesis using ms(1,2) by fastforce
  qed
  ultimately show ?thesis by (simp add: json_printable_def)
qed

lemma FromIso8601_length: "FromIso8601 t = Inr x \<Longrightarrow> length t \<le> 30"
proof -
  assume "FromIso8601 t = Inr x"
  then obtain fr where "fraction_of t = Inr fr"
    by (auto simp: FromIso8601_def result_simps split: if_splits option.splits)
  then show ?thesis by (auto simp: fraction_of_def Let_def split: if_splits)
qed

lemma ToIso8601_length: "iso_range i \<Longrightarrow> length (ToIso8601 i) \<le> 30"
  by (rule FromIso8601_length [OF FromIso8601_print])

lemma length_Opaque: "has_value (ValidateIdText g t) \<Longrightarrow> length t \<le> 64"
  by (auto simp: ValidateIdText_def split: if_splits)

lemma light_StoreMeta:
  assumes "meta_ok m"
  shows "light 6000 (StoreMetaToJson m)"
proof -
  have "length (ToHex (head_digest m)) = 64" "length (ToIso8601 (updated_at m)) \<le> 30" "length (id_value (last_publisher m)) \<le> 64"
    using assms by (auto simp: meta_ok_def digest_ok_def kDigestSize_def ToIso8601_length dest: length_Opaque)
  then have "light (0 + 600 + 600 + 600 + 600 + 600 + 600 + 600 + 600 + 600) (MetaPayloadJson m)"
    unfolding MetaPayloadJson_def Let_def
    by (intro light_Set light_Nil) (simp_all add: kStoreMetaFormat_def)
  moreover have "length (integrity_text j) = 71" for j
    by (simp add: integrity_text_def Sha256_Hash_def)
  ultimately have "light (0 + 600 + 600 + 600 + 600 + 600 + 600 + 600 + 600 + 600 + 600) (StoreMetaToJson m)"
    unfolding StoreMetaToJson_def by (intro light_Set) simp_all
  then show ?thesis by simp
qed

lemma meta_ok_printable: "meta_ok m \<Longrightarrow> 6002 \<le> cap \<Longrightarrow> meta_printable cap m"
  using light_StoreMeta [of m] light_Dump [of 6000 "StoreMetaToJson m"] light_printable [of 6000 "StoreMetaToJson m"]
  by (simp add: meta_printable_def)

text \<open>The head metadata is read back from the text that was written, whatever the generation, the epoch and the
  incarnation it records.\<close>

theorem StoreMeta_roundtrip:
  assumes "meta_ok m" and "6002 \<le> cap"
  shows "res_bind (ParseJson (Dump (StoreMetaToJson m) False) (JsonLimits_default\<lparr>max_bytes := cap\<rparr>)) ParseStoreMeta = Inr m"
  by (rule StoreMeta_read [OF meta_ok_printable [OF assms]])

lemma StoreMeta_roundtrip_witness:
  "let m = StoreMeta_empty\<lparr>head_generation := 3, last_publisher := TypedId ''acme''\<rparr> in
   res_bind (ParseJson (Dump (StoreMetaToJson m) False) (JsonLimits_default\<lparr>max_bytes := 65536\<rparr>)) ParseStoreMeta = Inr m"
  unfolding Let_def
proof (rule StoreMeta_roundtrip)
  show "meta_ok (StoreMeta_empty\<lparr>head_generation := 3, last_publisher := TypedId ''acme''\<rparr>)" by code_simp
qed simp

text \<open>Metadata that was read is good enough to be written again with a new time.\<close>

lemma ParseStoreMeta_ok: "ParseStoreMeta j = Inr m \<Longrightarrow> iso_range t \<Longrightarrow> meta_ok (m\<lparr>updated_at := t\<rparr>)"
  by (auto simp: ParseStoreMeta_def read_last_publisher_def meta_ok_def result_simps TypedId_Parse_Inr
      dest: FromHex_ok split: if_splits)

end
