(* ===== verification/StoreOpsFacts.thy ===== *)
theory StoreOpsFacts
  imports StoreOps StoreMetaFacts "HOL-Library.Sublist"
begin

text \<open>
  What the operations of the store guarantee: a publication is atomic and fenced, what was published is read
  back, loading finds the newest verifiable generation, pruning keeps the head and the writer is alone.
\<close>

section \<open>Files\<close>

lemma files_WriteFileAtomic:
  "WriteFileAtomic p d name bs = (r, d') \<Longrightarrow>
     omap_get (files d') = (case r of Inl _ \<Rightarrow> omap_get (files d) | Inr _ \<Rightarrow> (omap_get (files d))(name \<mapsto> bs)) \<and>
     held d' = held d \<and> dir_exists d' = dir_exists d \<and> locked_elsewhere d' = locked_elsewhere d"
  by (auto simp: WriteFileAtomic_def omap_simps split: if_splits)

lemma files_remove_file:
  "remove_file p d name = (ok, d') \<Longrightarrow>
     omap_get (files d') = (if ok then (omap_get (files d))(name := None) else omap_get (files d)) \<and> held d' = held d"
  by (auto simp: remove_file_def omap_simps split: if_splits)

lemma remove_file_elsewhere:
  "omap_get (files (snd (remove_file p d name))) = (omap_get (files d))(name := omap_get (files (snd (remove_file p d name))) name)"
  by (cases "remove_file p d name") (auto simp: files_remove_file split: if_splits dest!: files_remove_file)

lemma ReadFileBounded_cong:
  "omap_get (files d) name = omap_get (files d') name \<Longrightarrow> ReadFileBounded p d name cap = ReadFileBounded p d' name cap"
  by (simp add: ReadFileBounded_def split: option.split)

lemma LoadMeta_cong:
  "omap_get (files d) kMetaFileName = omap_get (files d') kMetaFileName \<Longrightarrow>
     LoadMetaLocked p opts d = LoadMetaLocked p opts d'"
  using ReadFileBounded_cong [of d kMetaFileName d'] by (simp add: LoadMetaLocked_def omap_has_def)

lemma LoadGeneration_cong:
  "omap_get (files d) (GenerationPath n) = omap_get (files d') (GenerationPath n) \<Longrightarrow>
     LoadGeneration p s d n = LoadGeneration p s d' n"
  using ReadFileBounded_cong [of d "GenerationPath n" d'] by (simp add: LoadGeneration_def)

lemma LoadMeta_written:
  assumes "omap_get (files d) kMetaFileName = Some (text_bytes (Dump (StoreMetaToJson m) False))"
    and "meta_printable (max_meta_bytes opts) m" and "read_error p kMetaFileName = None"
  shows "LoadMetaLocked p opts d = Inr m"
  using assms StoreMeta_read [OF assms(2)]
  by (simp add: LoadMetaLocked_def omap_has_def ReadFileBounded_def meta_printable_def)

section \<open>Publishing\<close>

lemma flags_WriteFileAtomic: "locked_elsewhere (snd (WriteFileAtomic p d name bs)) = locked_elsewhere d"
  by (simp add: WriteFileAtomic_def)

lemma flags_remove_file: "locked_elsewhere (snd (remove_file p d name)) = locked_elsewhere d"
  by (simp add: remove_file_def)

lemma flags_store_Publish: "store_Publish p s d doc f token = (r, d') \<Longrightarrow> locked_elsewhere d' = locked_elsewhere d"
  using flags_WriteFileAtomic flags_remove_file
  by (auto simp: store_Publish_def WriteMeta_def split: sum.splits prod.splits if_splits) (metis snd_conv)+

lemma prepare_publish_Inr:
  "prepare_publish p s d doc f token = Inr (m, nx, g, bs) \<Longrightarrow>
     open_mode (st_options s) = ReadWrite \<and> LoadMetaLocked p (st_options s) d = Inr m \<and> check_fence f m = Inr () \<and>
     head_generation m \<noteq> UINT64_MAX \<and> nx = head_generation m + 1 \<and>
     Compile (prepare_document doc nx m) ValidationOptions_default = Inr g \<and>
     EncodeGeneration (prepare_document doc nx m) nx (head_epoch m) (head_incarnation m)
       (max_generation_bytes (st_options s)) = Inr bs"
  by (auto simp: prepare_publish_def result_simps NextGeneration_def split: if_splits)

lemma check_fence_Inr: "check_fence f m = Inr () \<longleftrightarrow>
    expected_generation f = head_generation m \<and> fence_epoch f = head_epoch m \<and> fence_incarnation f = head_incarnation m"
  by (auto simp: check_fence_def)

lemma store_Publish_cases:
  assumes "store_Publish p s d doc f token = (r, d')"
  obtains (unprepared) e where "prepare_publish p s d doc f token = Inl e" "r = Inl e" "d' = d"
  | (abandoned) m nx g bs e where "prepare_publish p s d doc f token = Inr (m, nx, g, bs)" "r = Inl e"
      "omap_get (files d') = (omap_get (files d))(GenerationPath nx := omap_get (files d') (GenerationPath nx))"
  | (committed) m nx g bs where "prepare_publish p s d doc f token = Inr (m, nx, g, bs)"
      "r = Inr \<lparr>out_id = gen_id g, out_meta = published_meta p m nx g\<rparr>"
      "omap_get (files d') = (omap_get (files d))(GenerationPath nx \<mapsto> bs,
         kMetaFileName \<mapsto> text_bytes (Dump (StoreMetaToJson (published_meta p m nx g)) False))"
proof (cases "prepare_publish p s d doc f token")
  case (Inl e)
  then have "r = Inl e" "d' = d" using assms by (simp_all add: store_Publish_def)
  then show ?thesis by (rule unprepared [OF Inl])
next
  case (Inr x)
  then obtain m nx g bs where prep: "prepare_publish p s d doc f token = Inr (m, nx, g, bs)" by (cases x) auto
  let ?path = "GenerationPath nx"
  define d0 where "d0 = snd (remove_file p d ?path)"
  have d0: "omap_get (files d0) = (omap_get (files d))(?path := omap_get (files d0) ?path)"
    unfolding d0_def by (rule remove_file_elsewhere)
  obtain r1 d1 where w1: "WriteFileAtomic p d0 ?path bs = (r1, d1)" by fastforce
  note f1 = files_WriteFileAtomic [OF w1]
  show ?thesis
  proof (cases r1)
    case (Inl e)
    then have eq: "omap_get (files d1) = omap_get (files d0)" using f1 by simp
    have "r = Inl e" "d' = d1"
      using assms prep w1 Inl by (simp_all add: store_Publish_def flip: d0_def)
    with eq show ?thesis using abandoned [OF prep] d0 by metis
  next
    case r1: (Inr u)
    then have g1: "omap_get (files d1) = (omap_get (files d))(?path \<mapsto> bs)" using f1 d0 by (metis fun_upd_upd sum.case(2))
    show ?thesis
    proof (cases "token 3")
      case True
      then have "r = Fail Cancelled" and d': "d' = snd (remove_file p d1 ?path)"
        using assms prep w1 r1 by (simp_all add: store_Publish_def flip: d0_def)
      moreover have "omap_get (files d') = (omap_get (files d))(?path := omap_get (files d') ?path)"
        unfolding d' using remove_file_elsewhere [of p d1 ?path] g1 by (metis fun_upd_upd)
      ultimately show ?thesis using abandoned [OF prep] by metis
    next
      case False
      obtain r2 d2 where w2: "WriteMeta p d1 (published_meta p m nx g) = (r2, d2)" by fastforce
      note f2 = files_WriteFileAtomic [OF w2 [unfolded WriteMeta_def]]
      show ?thesis
      proof (cases r2)
        case (Inl e)
        then have "r = Inl e" "d' = d2" "omap_get (files d2) = omap_get (files d1)"
          using assms prep w1 r1 False w2 f2 by (simp_all add: store_Publish_def flip: d0_def)
        then show ?thesis using abandoned [OF prep] g1 by (metis fun_upd_same)
      next
        case (Inr u)
        then have "r = Inr \<lparr>out_id = gen_id g, out_meta = published_meta p m nx g\<rparr>" "d' = d2"
          using assms prep w1 r1 False w2 by (simp_all add: store_Publish_def flip: d0_def)
        then show ?thesis using committed [OF prep] f2 Inr g1 by simp
      qed
    qed
  qed
qed

text \<open>What a reader of the store can see: the head metadata and the generations up to the head.\<close>

type_synonym StoreView = "StoreMeta result \<times> (GenerationNumber \<Rightarrow> LoadedGeneration result)"

definition store_view :: "Platform \<Rightarrow> RegistryStore \<Rightarrow> Directory \<Rightarrow> StoreView" where
  "store_view p s d =
     (let m = LoadMetaLocked p (st_options s) d
      in (m, \<lambda>n. case m of Inl e \<Rightarrow> Inl e | Inr m \<Rightarrow> if n \<le> head_generation m then LoadGeneration p s d n else Fail NotFound))"

lemma next_generation_less: "(n :: u64) \<noteq> UINT64_MAX \<Longrightarrow> n < n + 1 \<and> unat (n + 1) = unat n + 1"
proof -
  assume n: "n \<noteq> UINT64_MAX"
  have "unat n \<noteq> 2 ^ 64 - 1"
  proof
    assume "unat n = 2 ^ 64 - 1"
    then have "of_nat (unat n) = (of_nat (2 ^ 64 - 1) :: u64)" by simp
    then show False using n by simp
  qed
  moreover have "unat n < 2 ^ 64" using unsigned_less [of n, where ?'a = nat] by simp
  ultimately have "unat (n + 1) = unat n + 1" by (simp add: unat_word_ariths(1))
  then show ?thesis by (simp add: word_less_nat_alt)
qed

lemma store_view_debris:
  assumes eq: "omap_get (files d') = (omap_get (files d))(GenerationPath nx := x)"
    and m: "LoadMetaLocked p (st_options s) d = Inr m" and less: "head_generation m < nx"
  shows "store_view p s d' = store_view p s d"
proof -
  have "LoadMetaLocked p (st_options s) d' = LoadMetaLocked p (st_options s) d"
    by (rule LoadMeta_cong) (simp add: eq GenerationPath_not_meta [symmetric])
  moreover have "LoadGeneration p s d' n = LoadGeneration p s d n" if "n \<le> head_generation m" for n
    using that less by (intro LoadGeneration_cong) (auto simp: eq GenerationPath_inject)
  ultimately show ?thesis by (simp add: store_view_def m fun_eq_iff)
qed


section \<open>What was published is read back\<close>

definition reads_all :: "Platform \<Rightarrow> bool" where
  "reads_all p = (\<forall>name. read_error p name = None)"

lemma stamped_Normalize:
  assumes "md_generation (md e) = g" and "md_epoch (md e) = ep"
  shows "stamped (Normalize e) g ep = Normalize e"
proof -
  have "(md e)\<lparr>md_generation := g, md_epoch := ep\<rparr> = md e"
    by (rule RegistryMetadata.equality) (simp_all add: assms)
  then have "stamped (Normalize e) g ep = Normalize ((Normalize e)\<lparr>md := md e\<rparr>)" by (simp add: stamped_def)
  also have "(Normalize e)\<lparr>md := md e\<rparr> = Normalize e" by (simp add: Normalize_def)
  finally show ?thesis by simp
qed

lemma stamped_prepared: "stamped (prepare_document doc nx m) nx (head_epoch m) = prepare_document doc nx m"
  unfolding prepare_document_def by (rule stamped_Normalize) simp_all

lemma LoadGeneration_written:
  assumes doc: "document_printable DocumentLimits_default (prepare_document doc nx m)"
    and enc: "EncodeGeneration (prepare_document doc nx m) nx (head_epoch m) (head_incarnation m) cap = Inr bs"
    and comp: "Compile (prepare_document doc nx m) ValidationOptions_default = Inr g"
    and written: "omap_get (files d) (GenerationPath nx) = Some bs" "length bs \<le> max_generation_bytes (st_options s)"
    and reads: "read_error p (GenerationPath nx) = None"
  shows "LoadGeneration p s d nx = Inr \<lparr>loaded_id = gen_id g, loaded_registry = g, recovery = RecoveryReport_default\<rparr>"
proof -
  have "DecodeGeneration bs = Inr (prepare_document doc nx m, nx, head_epoch m, head_incarnation m)"
    using enc DecodeGeneration_frame [of "prepare_document doc nx m" nx "head_epoch m" "head_incarnation m"] doc
    by (simp add: EncodeGeneration_frame stamped_prepared split: if_splits)
  then show ?thesis using written reads comp by (simp add: LoadGeneration_def ReadFileBounded_def)
qed

lemma published_meta_ok:
  assumes "document_ok lim (prepare_document doc nx m)" and "iso_range (clock p)"
  shows "meta_ok (published_meta p m nx (compiled (prepare_document doc nx m)))"
proof -
  have "digest_ok (document_Digest d)" for d
    by (simp add: document_Digest_def Sha256_Hash_def digest_ok_def kDigestSize_def)
  moreover have "md (Normalize (prepare_document doc nx m)) = md (prepare_document doc nx m)" by simp
  ultimately show ?thesis
    using assms by (simp add: meta_ok_def published_meta_def compiled_def Let_def document_ok_def metadata_ok_def)
qed

lemma publish_readable:
  assumes pub: "store_Publish p s d doc f token = (Inr out, d')"
    and m: "LoadMetaLocked p (st_options s) d = Inr m" and nx: "nx = head_generation m + 1"
    and doc: "document_printable DocumentLimits_default (prepare_document doc nx m)"
    and meta: "6002 \<le> max_meta_bytes (st_options s)" "iso_range (clock p)"
    and fits: "kGenerationHeaderBytes + length (CanonicalJson (prepare_document doc nx m)) \<le> max_generation_bytes (st_options s)"
    and reads: "reads_all p"
  shows "out_id out = gen_id (compiled (prepare_document doc nx m)) \<and>
    store_view p s d' = (Inr (out_meta out), (snd (store_view p s d))(nx := Inr
      \<lparr>loaded_id = out_id out, loaded_registry = compiled (prepare_document doc nx m), recovery = RecoveryReport_default\<rparr>))"
  using pub
proof (cases rule: store_Publish_cases)
  case (committed m' nx' g bs)
  note prep = prepare_publish_Inr [OF committed(1)]
  have eqs: "m' = m" "nx' = nx" using prep m nx by auto
  note prep = prep [unfolded eqs]
  have g: "g = compiled (prepare_document doc nx m)" using prep by (simp add: Compile_Inr)
  have out: "out_meta out = published_meta p m nx g" "out_id out = gen_id g" using committed(2) by (simp_all add: eqs)
  have "meta_ok (out_meta out)"
    unfolding out(1) g by (rule published_meta_ok [where lim = DocumentLimits_default, OF _ meta(2)]) (use doc in \<open>simp add: document_printable_def\<close>)
  then have "LoadMetaLocked p (st_options s) d' = Inr (out_meta out)"
    using committed(3) meta_ok_printable meta(1) reads by (intro LoadMeta_written) (simp_all add: eqs out reads_all_def)
  moreover have "head_generation (out_meta out) = nx" by (simp add: out published_meta_def)
  moreover have "LoadGeneration p s d' nx = Inr \<lparr>loaded_id = gen_id g, loaded_registry = g, recovery = RecoveryReport_default\<rparr>"
  proof (rule LoadGeneration_written [OF doc])
    show "omap_get (files d') (GenerationPath nx) = Some bs"
      using committed(3) by (simp add: eqs GenerationPath_not_meta)
    have "bs = generation_frame nx (head_epoch m) (head_incarnation m) (text_bytes (CanonicalJson (prepare_document doc nx m)))"
      using prep by (auto simp: EncodeGeneration_frame stamped_prepared split: if_splits)
    then show "length bs \<le> max_generation_bytes (st_options s)" using fits by (simp add: frame_fields(1) [OF refl])
  qed (use prep reads in \<open>auto simp: reads_all_def\<close>)
  moreover have "LoadGeneration p s d' n = LoadGeneration p s d n" if "n \<noteq> nx" for n
    by (rule LoadGeneration_cong) (use that in \<open>simp add: committed(3) eqs GenerationPath_inject GenerationPath_not_meta\<close>)
  moreover have "n \<le> nx \<longleftrightarrow> n = nx \<or> n \<le> head_generation m" for n
  proof -
    have "unat nx = unat (head_generation m) + 1" using prep next_generation_less by blast
    then show ?thesis unfolding word_le_nat_alt word_unat_eq_iff by auto
  qed
  ultimately show ?thesis by (auto simp: store_view_def m out g fun_eq_iff)
qed simp_all

text \<open>C2. A publication that succeeded is read back: the store holds the metadata it returned, the new generation
  loads as the compiled document under the identifier it returned, and the earlier generations are as before.\<close>

theorem store_Publish_readable:
  assumes pub: "store_Publish p s d doc f token = (Inr out, d')"
    and m: "LoadMetaLocked p (st_options s) d = Inr m" and nx: "nx = head_generation m + 1"
    and doc: "document_printable DocumentLimits_default (prepare_document doc nx m)"
    and meta: "6002 \<le> max_meta_bytes (st_options s)" "iso_range (clock p)"
    and fits: "kGenerationHeaderBytes + length (CanonicalJson (prepare_document doc nx m)) \<le> max_generation_bytes (st_options s)"
    and reads: "reads_all p"
  shows "out_id out = gen_id (compiled (prepare_document doc nx m)) \<and>
    store_view p s d' = (Inr (out_meta out), (snd (store_view p s d))(nx := Inr
      \<lparr>loaded_id = out_id out, loaded_registry = compiled (prepare_document doc nx m), recovery = RecoveryReport_default\<rparr>))"
  using assms by (rule publish_readable)

section \<open>A publication on the head is accepted\<close>

definition writes_all :: "Platform \<Rightarrow> bool" where
  "writes_all p = (\<forall>name. \<not> write_fails p name)"

lemma WriteFileAtomic_works: "writes_all p \<Longrightarrow> \<exists>d'. WriteFileAtomic p d name bs = (Inr (), d')"
  by (simp add: WriteFileAtomic_def writes_all_def)

lemma publish_accepted:
  assumes mode: "open_mode (st_options s) = ReadWrite" and writes: "writes_all p"
    and m: "LoadMetaLocked p (st_options s) d = Inr m" and fence: "check_fence f m = Inr ()"
    and room: "head_generation m \<noteq> UINT64_MAX" "check_retention p s d = Inr ()" and nx: "nx = head_generation m + 1"
    and valid: "Publishable (ValidateRegistryDocument (prepare_document doc nx m) ValidationOptions_default)"
    and fits: "length (CanonicalJson (prepare_document doc nx m)) \<le> max_generation_bytes (st_options s)"
  shows "\<exists>d'. store_Publish p s d doc f (\<lambda>_. False) =
    (Inr \<lparr>out_id = gen_id (compiled (prepare_document doc nx m)),
       out_meta = published_meta p m nx (compiled (prepare_document doc nx m))\<rparr>, d')"
proof -
  let ?g = "compiled (prepare_document doc nx m)"
  have comp: "Compile (prepare_document doc nx m) ValidationOptions_default = Inr ?g"
    using valid by (simp add: Compile_def prepare_document_def)
  obtain bs where "EncodeGeneration (prepare_document doc nx m) nx (head_epoch m) (head_incarnation m)
      (max_generation_bytes (st_options s)) = Inr bs"
    using fits by (simp add: EncodeGeneration_frame stamped_prepared)
  then have prep: "prepare_publish p s d doc f (\<lambda>_. False) = Inr (m, nx, ?g, bs)"
    using mode m fence room nx comp by (simp add: prepare_publish_def NextGeneration_def)
  obtain d1 where d1: "WriteFileAtomic p (snd (remove_file p d (GenerationPath nx))) (GenerationPath nx) bs = (Inr (), d1)"
    using WriteFileAtomic_works [OF writes] by blast
  obtain d2 where d2: "WriteMeta p d1 (published_meta p m nx ?g) = (Inr (), d2)"
    unfolding WriteMeta_def using WriteFileAtomic_works [OF writes] by blast
  show ?thesis by (simp add: store_Publish_def prep d1 d2)
qed

section \<open>An example\<close>

definition blank_directory :: Directory where
  "blank_directory = \<lparr>dir_exists = True, files = [], held = True, locked_elsewhere = False\<rparr>"

definition sound_platform :: Platform where
  "sound_platform = \<lparr>create_fails = False, lock_open_fails = False, list_fails = False, read_error = \<lambda>_. None,
     write_fails = \<lambda>_. False, remove_fails = \<lambda>_. False, clock = 0\<rparr>"

definition sample_store :: RegistryStore where
  "sample_store = \<lparr>st_options = StoreOptions_default\<lparr>directory := ''data'', open_mode := ReadWrite\<rparr>, st_incarnation = 0, st_epoch = 0\<rparr>"

definition blank_fence :: PublishFence where
  "blank_fence = \<lparr>expected_generation = 0, fence_epoch = 0, fence_incarnation = 0\<rparr>"

definition small_document :: RegistryDocument where
  "small_document = sample_document [sample_rule ''a'' Compatible []]"

definition small_published :: RegistryDocument where
  "small_published = prepare_document small_document 1 StoreMeta_empty"

lemma small_publishable: "Publishable (ValidateRegistryDocument small_published ValidationOptions_default)"
proof -
  have small: "length (rules small_published) \<le> kMaxRulesPerGeneration"
    by (simp add: Normalize_def small_published_def prepare_document_def small_document_def sample_document_def kMaxRulesPerGeneration_def)
  show ?thesis by (rule Publishable_quiet [OF small]; code_simp)
qed

lemma small_printable:
  "document_printable DocumentLimits_default small_published" "length (CanonicalJson small_published) \<le> 4000"
proof -
  have doc: "document_ok DocumentLimits_default small_document"
    using sample_document_printable by (simp add: document_printable_def small_document_def)
  then have ok: "document_ok DocumentLimits_default small_published"
    unfolding small_published_def prepare_document_def
    by (intro document_ok_Normalize) (simp add: document_ok_def metadata_ok_def StoreMeta_empty_def)
  show short: "length (CanonicalJson small_published) \<le> 4000" by code_simp
  have small: "json_printable \<lparr>max_bytes = 0, max_depth = 20, max_string_bytes = 100, max_elements = 100\<rparr>
      (RegistryDocumentToJson small_published)"
    by code_simp
  have "json_printable JsonLimits_default (RegistryDocumentToJson small_published)"
    by (rule json_printable_mono [OF small]) (simp_all add: JsonLimits_default_def)
  then show "document_printable DocumentLimits_default small_published"
    using ok short by (simp add: document_printable_def DocumentLimits_default_def JsonLimits_default_def)
qed

lemma blank_head: "LoadMetaLocked p opts blank_directory = Inr StoreMeta_empty"
  by (simp add: LoadMetaLocked_def blank_directory_def omap_has_def)

lemma blank_room: "check_fence blank_fence StoreMeta_empty = Inr ()" "check_retention sound_platform sample_store blank_directory = Inr ()"
  by (simp_all add: check_fence_Inr blank_fence_def StoreMeta_empty_def check_retention_def ListGenerations_def sample_store_def
      StoreOptions_default_def sound_platform_def blank_directory_def generation_numbers_def)

lemmas small_conditions = blank_head blank_room small_publishable small_printable

lemma small_accepted:
  "\<exists>d'. store_Publish sound_platform sample_store blank_directory small_document blank_fence (\<lambda>_. False) =
    (Inr \<lparr>out_id = gen_id (compiled small_published),
       out_meta = published_meta sound_platform StoreMeta_empty 1 (compiled small_published)\<rparr>, d')"
  unfolding small_published_def
proof (rule publish_accepted [OF _ _ blank_head blank_room(1)])
qed (use blank_room small_publishable small_printable in \<open>simp_all add: sample_store_def writes_all_def
      sound_platform_def StoreMeta_empty_def small_published_def StoreOptions_default_def\<close>)

text \<open>C23. A publication against the current head of a document that is valid as the next generation is accepted, when
  the platform writes and there is room for one more file: nothing else can refuse it.\<close>

theorem store_Publish_accepts:
  assumes mode: "open_mode (st_options s) = ReadWrite" and writes: "writes_all p"
    and m: "LoadMetaLocked p (st_options s) d = Inr m" and fence: "check_fence f m = Inr ()"
    and room: "head_generation m \<noteq> UINT64_MAX" "check_retention p s d = Inr ()" and nx: "nx = head_generation m + 1"
    and valid: "Publishable (ValidateRegistryDocument (prepare_document doc nx m) ValidationOptions_default)"
    and fits: "length (CanonicalJson (prepare_document doc nx m)) \<le> max_generation_bytes (st_options s)"
  shows "\<exists>d'. store_Publish p s d doc f (\<lambda>_. False) =
    (Inr \<lparr>out_id = gen_id (compiled (prepare_document doc nx m)),
       out_meta = published_meta p m nx (compiled (prepare_document doc nx m))\<rparr>, d')"
  using assms by (rule publish_accepted)

lemma store_Publish_accepts_witness:
  "has_value (fst (store_Publish sound_platform sample_store blank_directory small_document blank_fence (\<lambda>_. False)))"
proof -
  have "\<exists>d'. store_Publish sound_platform sample_store blank_directory small_document blank_fence (\<lambda>_. False) =
    (Inr \<lparr>out_id = gen_id (compiled (prepare_document small_document 1 StoreMeta_empty)), out_meta =
       published_meta sound_platform StoreMeta_empty 1 (compiled (prepare_document small_document 1 StoreMeta_empty))\<rparr>, d')"
  proof (rule store_Publish_accepts [OF _ _ blank_head blank_room(1)])
  qed (use blank_room small_publishable small_printable in \<open>simp_all add: sample_store_def writes_all_def
        sound_platform_def StoreMeta_empty_def small_published_def StoreOptions_default_def\<close>)
  then show ?thesis by auto
qed

lemma store_Publish_readable_witness:
  "\<exists>d'. LoadGeneration sound_platform sample_store d' 1 = Inr \<lparr>loaded_id = gen_id (compiled small_published),
     loaded_registry = compiled small_published, recovery = RecoveryReport_default\<rparr>"
proof -
  obtain d' where pub: "store_Publish sound_platform sample_store blank_directory small_document blank_fence (\<lambda>_. False) =
    (Inr \<lparr>out_id = gen_id (compiled small_published),
       out_meta = published_meta sound_platform StoreMeta_empty 1 (compiled small_published)\<rparr>, d')"
    using small_accepted by blast
  have opts: "max_meta_bytes (st_options sample_store) = 65536" "max_generation_bytes (st_options sample_store) = 67108864"
    by (simp_all add: sample_store_def StoreOptions_default_def)
  note view = store_Publish_readable [OF pub blank_head refl, unfolded opts]
  have "snd (store_view sound_platform sample_store d') 1 = Inr \<lparr>loaded_id = gen_id (compiled small_published),
      loaded_registry = compiled small_published, recovery = RecoveryReport_default\<rparr>"
    using view small_printable
    by (simp add: StoreMeta_empty_def small_published_def sound_platform_def iso_range_def reads_all_def kGenerationHeaderBytes_def)
  then show ?thesis
    by (auto simp: store_view_def Let_def split: sum.splits if_splits)
qed

section \<open>Loading\<close>

abbreviation loads :: "Platform \<Rightarrow> RegistryStore \<Rightarrow> Directory \<Rightarrow> nat \<Rightarrow> bool" where
  "loads p s d n \<equiv> has_value (LoadGeneration p s d (of_nat n))"

lemma load_down_spec:
  "case load_down p s d n rep of
     Inl e \<Rightarrow> e = Failed CorruptPersistence \<and> list_all (\<lambda>j. \<not> loads p s d j) [0..<Suc n]
   | Inr l \<Rightarrow> \<exists>k l0. k \<le> n \<and> LoadGeneration p s d (of_nat k) = Inr l0 \<and> loaded_id l = loaded_id l0 \<and>
       loaded_registry l = loaded_registry l0 \<and> list_all (\<lambda>j. \<not> loads p s d j) [Suc k..<Suc n] \<and>
       recovered (recovery l) = (recovered rep \<or> k < n) \<and>
       skipped_corrupt (recovery l) = skipped_corrupt rep @ map of_nat (rev [Suc k..<Suc n])"
proof (induction n arbitrary: rep)
  case 0
  show ?case by (subst load_down.simps) (auto split: sum.split)
next
  case (Suc n)
  show ?case
  proof (cases "LoadGeneration p s d (of_nat (Suc n))")
    case (Inr l0)
    then show ?thesis by (subst load_down.simps) (auto intro!: exI [of _ "Suc n"])
  next
    case (Inl e)
    let ?rep = "rep\<lparr>recovered := True, skipped_corrupt := skipped_corrupt rep @ [of_nat (Suc n)]\<rparr>"
    have eq: "load_down p s d (Suc n) rep = load_down p s d n ?rep"
      by (subst load_down.simps) (simp only: Inl sum.case nat.case)
    have bad: "\<not> loads p s d (Suc n)" unfolding Inl by simp
    show ?thesis
    proof (cases "load_down p s d n ?rep")
      case (Inl e)
      then show ?thesis using Suc.IH [of ?rep] bad by (simp add: eq del: of_nat_Suc)
    next
      case (Inr l)
      with Suc.IH [of ?rep] obtain k l0 where "k \<le> n" "LoadGeneration p s d (of_nat k) = Inr l0" "loaded_id l = loaded_id l0"
        "loaded_registry l = loaded_registry l0" "list_all (\<lambda>j. \<not> loads p s d j) [Suc k..<Suc n]"
        "recovered (recovery l)" "skipped_corrupt (recovery l) = skipped_corrupt ?rep @ map of_nat (rev [Suc k..<Suc n])"
        by auto
      then show ?thesis using bad Inr by (auto simp: eq simp del: of_nat_Suc intro!: exI [of _ k])
    qed
  qed
qed

lemma discard_newer_files:
  assumes "x \<notin> GenerationPath ` {n. n > head}"
  shows "omap_get (files (snd (discard_newer p head ns d))) x = omap_get (files d) x"
proof -
  let ?step = "\<lambda>(gone, d) n. if n > head then
      (case remove_file p d (GenerationPath n) of (ok, d) \<Rightarrow> (if ok then gone @ [n] else gone, d)) else (gone, d)"
  have "omap_get (files (snd (foldl ?step (g, d) ns))) x = omap_get (files d) x" for g
  proof (induction ns arbitrary: g d)
    case (Cons n ns)
    obtain ok d1 where r: "remove_file p d (GenerationPath n) = (ok, d1)" by fastforce
    have "omap_get (files d1) x = omap_get (files d) x" if "n > head"
      using assms that files_remove_file [OF r] by auto
    then show ?case using Cons.IH r by (auto split: if_splits)
  qed simp
  then show ?thesis by (simp add: discard_newer_def)
qed

lemma LoadLatest_split:
  assumes "LoadMetaLocked p (st_options s) d = Inr m" and "head_generation m \<noteq> 0"
  obtains gone d' where "LoadLatest p s d =
      (load_down p s d' (unat (head_generation m)) (RecoveryReport_default\<lparr>discarded_uncommitted := gone\<rparr>), d')"
    and "\<And>x. x \<notin> GenerationPath ` {n. n > head_generation m} \<Longrightarrow> omap_get (files d') x = omap_get (files d) x"
proof (cases "open_mode (st_options s) = ReadWrite \<and> has_value (ListGenerations p s d)")
  case True
  then obtain ns where ns: "ListGenerations p s d = Inr ns" by (auto simp: has_value_iff)
  obtain gone d' where "discard_newer p (head_generation m) ns d = (gone, d')" by fastforce
  then show ?thesis
    using that [of d' gone] True assms ns discard_newer_files [of _ "head_generation m" p ns d]
    by (simp add: LoadLatest_def)
next
  case no: False
  then have "LoadLatest p s d = (load_down p s d (unat (head_generation m)) (RecoveryReport_default\<lparr>discarded_uncommitted := []\<rparr>), d)"
    using assms by (auto simp: LoadLatest_def split: sum.split)
  then show ?thesis using that by blast
qed

lemma LoadLatest_head:
  assumes "LoadMetaLocked p (st_options s) d = Inr m" and "head_generation m \<noteq> 0"
    and "LoadGeneration p s d (head_generation m) = Inr l"
  shows "\<exists>gone d'. LoadLatest p s d = (Inr (l\<lparr>recovery := RecoveryReport_default\<lparr>discarded_uncommitted := gone\<rparr>\<rparr>), d')"
proof -
  from LoadLatest_split [OF assms(1,2)] obtain gone d' where eq: "LoadLatest p s d =
      (load_down p s d' (unat (head_generation m)) (RecoveryReport_default\<lparr>discarded_uncommitted := gone\<rparr>), d')"
    and same: "\<And>x. x \<notin> GenerationPath ` {n. n > head_generation m} \<Longrightarrow> omap_get (files d') x = omap_get (files d) x"
    by metis
  have "LoadGeneration p s d' (head_generation m) = Inr l"
    unfolding assms(3) [symmetric] by (rule LoadGeneration_cong, rule same) (auto simp: GenerationPath_inject)
  then have "LoadLatest p s d = (Inr (l\<lparr>recovery := RecoveryReport_default\<lparr>discarded_uncommitted := gone\<rparr>\<rparr>), d')"
    by (subst eq, subst load_down.simps) (simp add: RecoveryReport_default_def)
  then show ?thesis by blast
qed

text \<open>C22. Loading the latest generation finds the newest one, from the head downwards, that can be verified and says
  which it skipped; it fails only when none can. The debris it removes on the way is nothing a reader sees.\<close>

theorem LoadLatest_newest:
  "let (r, d') = LoadLatest p s d in
   store_view p s d' = store_view p s d \<and>
   (case LoadMetaLocked p (st_options s) d of
      Inl e \<Rightarrow> r = Inl e
    | Inr m \<Rightarrow>
        let head = unat (head_generation m) in
        if head = 0 then r = Fail NotFound
        else case r of
          Inl e \<Rightarrow> e = Failed CorruptPersistence \<and> list_all (\<lambda>j. \<not> loads p s d j) [0..<Suc head]
        | Inr l \<Rightarrow> \<exists>k l0. k \<le> head \<and> LoadGeneration p s d (of_nat k) = Inr l0 \<and> loaded_id l = loaded_id l0 \<and>
            loaded_registry l = loaded_registry l0 \<and> list_all (\<lambda>j. \<not> loads p s d j) [Suc k..<Suc head] \<and>
            recovered (recovery l) = (k < head) \<and> skipped_corrupt (recovery l) = map of_nat (rev [Suc k..<Suc head]))"
proof (cases "LoadMetaLocked p (st_options s) d")
  case (Inr m)
  show ?thesis
  proof (cases "head_generation m = 0")
    case False
    let ?h = "head_generation m"
    from LoadLatest_split [OF Inr False] obtain gone d' where split: "LoadLatest p s d =
        (load_down p s d' (unat ?h) (RecoveryReport_default\<lparr>discarded_uncommitted := gone\<rparr>), d')"
      and files: "\<And>x. x \<notin> GenerationPath ` {n. n > ?h} \<Longrightarrow> omap_get (files d') x = omap_get (files d) x"
      by metis
    have meta: "LoadMetaLocked p (st_options s) d' = Inr m"
    proof -
      have "kMetaFileName \<notin> GenerationPath ` {n. n > ?h}" using GenerationPath_not_meta by (metis imageE)
      then show ?thesis using LoadMeta_cong [OF files] Inr by metis
    qed
    have same: "LoadGeneration p s d' n = LoadGeneration p s d n" if "n \<le> ?h" for n
      by (rule LoadGeneration_cong, rule files) (use that in \<open>auto simp: GenerationPath_inject\<close>)
    have small: "LoadGeneration p s d' (of_nat j) = LoadGeneration p s d (of_nat j)" if "j < Suc (unat ?h)" for j
      by (rule same) (use that in \<open>simp add: word_le_nat_alt unat_of_nat le_trans [OF mod_less_eq_dividend]\<close>)
    have "store_view p s d' = store_view p s d" using same by (auto simp: store_view_def meta Inr fun_eq_iff)
    moreover have "list_all (\<lambda>j. \<not> loads p s d' j) [k..<Suc (unat ?h)] = list_all (\<lambda>j. \<not> loads p s d j) [k..<Suc (unat ?h)]" for k
    proof (rule list.pred_cong [OF refl])
      fix j assume "j \<in> set [k..<Suc (unat ?h)]"
      then have "LoadGeneration p s d' (of_nat j) = LoadGeneration p s d (of_nat j)" by (intro small) auto
      then show "(\<not> loads p s d' j) = (\<not> loads p s d j)" by (rule arg_cong)
    qed
    moreover have "case load_down p s d' (unat ?h) rep of
        Inl e \<Rightarrow> e = Failed CorruptPersistence \<and> list_all (\<lambda>j. \<not> loads p s d j) [0..<Suc (unat ?h)]
      | Inr l \<Rightarrow> \<exists>k l0. k \<le> unat ?h \<and> LoadGeneration p s d (of_nat k) = Inr l0 \<and> loaded_id l = loaded_id l0 \<and>
          loaded_registry l = loaded_registry l0 \<and> list_all (\<lambda>j. \<not> loads p s d j) [Suc k..<Suc (unat ?h)] \<and>
          recovered (recovery l) = (k < unat ?h) \<and> skipped_corrupt (recovery l) = map of_nat (rev [Suc k..<Suc (unat ?h)])"
      if "rep = RecoveryReport_default\<lparr>discarded_uncommitted := gone\<rparr>" for rep
    proof (cases "load_down p s d' (unat ?h) rep")
      case (Inl e)
      then show ?thesis using load_down_spec [of p s d' "unat ?h" rep] calculation(2) by (simp del: upt_Suc)
    next
      case (Inr l)
      with load_down_spec [of p s d' "unat ?h" rep] obtain k l0 where k: "k \<le> unat ?h"
        "LoadGeneration p s d' (of_nat k) = Inr l0" "loaded_id l = loaded_id l0" "loaded_registry l = loaded_registry l0"
        "list_all (\<lambda>j. \<not> loads p s d' j) [Suc k..<Suc (unat ?h)]" "recovered (recovery l) = (recovered rep \<or> k < unat ?h)"
        "skipped_corrupt (recovery l) = skipped_corrupt rep @ map of_nat (rev [Suc k..<Suc (unat ?h)])" by auto
      have "LoadGeneration p s d (of_nat k) = Inr l0" using small [of k] k by simp
      with k Inr calculation(2) show ?thesis by (auto simp: that RecoveryReport_default_def simp del: upt_Suc)
    qed
    ultimately show ?thesis using split Inr False by (simp add: unat_eq_0 Let_def del: upt_Suc)
  qed (simp add: LoadLatest_def Inr)
qed (simp add: LoadLatest_def)

section \<open>Pruning\<close>

lemma prune_loop_spec:
  "case prune_loop p head ns g d of (gone, d') \<Rightarrow> \<exists>new. gone = g @ new \<and> head \<notin> set new \<and> subseq new ns \<and>
     omap_get (files d') = (\<lambda>x. if x \<in> GenerationPath ` set new then None else omap_get (files d) x)"
proof (induction ns arbitrary: g d)
  case (Cons n ns)
  show ?case
  proof (cases "n = head")
    case False
    obtain ok d1 where r: "remove_file p d (GenerationPath n) = (ok, d1)" by fastforce
    note f = files_remove_file [OF r]
    let ?g = "if ok then g @ [n] else g"
    obtain gone d' where loop: "prune_loop p head ns ?g d1 = (gone, d')" by fastforce
    with Cons.IH [of ?g d1] obtain new where new: "gone = ?g @ new" "head \<notin> set new" "subseq new ns"
      "omap_get (files d') = (\<lambda>x. if x \<in> GenerationPath ` set new then None else omap_get (files d1) x)" by auto
    let ?new = "if ok then n # new else new"
    have "gone = g @ ?new \<and> head \<notin> set ?new \<and> subseq ?new (n # ns)"
      using new False by auto
    moreover have "omap_get (files d') = (\<lambda>x. if x \<in> GenerationPath ` set ?new then None else omap_get (files d) x)"
      using new(4) f by (auto simp: fun_eq_iff)
    ultimately show ?thesis using False r loop by auto
  qed simp
qed (simp add: fun_eq_iff)

text \<open>C34. Pruning removes generation files only, never the head and never more than what exceeds the number to keep;
  the metadata stays.\<close>

theorem store_Prune_keeps:
  "let (r, d') = store_Prune p s d keep in
   case r of
     Inl e \<Rightarrow> d' = d
   | Inr gone \<Rightarrow> \<exists>m ns. LoadMetaLocked p (st_options s) d = Inr m \<and> ListGenerations p s d = Inr ns \<and>
       head_generation m \<notin> set gone \<and> subseq gone (take (length ns - keep) ns) \<and>
       omap_get (files d') = (\<lambda>x. if x \<in> GenerationPath ` set gone then None else omap_get (files d) x) \<and>
       LoadMetaLocked p (st_options s) d' = Inr m \<and>
       LoadGeneration p s d' (head_generation m) = LoadGeneration p s d (head_generation m)"
proof (cases "open_mode (st_options s) = ReadWrite \<and> has_value (LoadMetaLocked p (st_options s) d) \<and> has_value (ListGenerations p s d)")
  case True
  then obtain m ns where m: "LoadMetaLocked p (st_options s) d = Inr m" and ns: "ListGenerations p s d = Inr ns"
    by (auto simp: has_value_iff)
  obtain gone d' where pr: "store_Prune p s d keep = (Inr gone, d')" and spec: "head_generation m \<notin> set gone"
    "subseq gone (take (length ns - keep) ns)"
    "omap_get (files d') = (\<lambda>x. if x \<in> GenerationPath ` set gone then None else omap_get (files d) x)"
  proof (cases "length ns \<le> keep")
    case l: True
    then show ?thesis using that [of "[]" d] True m ns by (simp add: store_Prune_def)
  next
    case l: False
    obtain gone d' where "prune_loop p (head_generation m) (take (length ns - keep) ns) [] d = (gone, d')" by fastforce
    then show ?thesis
      using that [of gone d'] l True m ns prune_loop_spec [where p = p and head = "head_generation m" and ns = "take (length ns - keep) ns" and g = "[]" and d = d]
      by (simp add: store_Prune_def)
  qed
  have "LoadMetaLocked p (st_options s) d' = Inr m"
  proof -
    have "kMetaFileName \<notin> GenerationPath ` set gone" using GenerationPath_not_meta by (metis imageE)
    then show ?thesis using LoadMeta_cong [of d' d p "st_options s"] m by (simp add: spec(3))
  qed
  moreover have "LoadGeneration p s d' (head_generation m) = LoadGeneration p s d (head_generation m)"
    by (rule LoadGeneration_cong) (use spec in \<open>auto simp: GenerationPath_inject\<close>)
  ultimately show ?thesis using pr spec m ns by simp
next
  case False
  then show ?thesis by (auto simp: store_Prune_def has_value_def result_simps split: sum.splits)
qed

end
