(* ===== verification/OpenFacts.thy ===== *)
theory OpenFacts
  imports StoreOpsFacts
begin

text \<open>
  What opening a data directory guarantees: one writer at a time, and a new writer fences out the old ones.
\<close>

section \<open>The writer lock\<close>

lemma take_lock_files:
  "take_lock p d = (r, d') \<Longrightarrow>
     (\<forall>x. x \<noteq> kLockFileName \<longrightarrow> omap_get (files d') x = omap_get (files d) x) \<and>
     dir_exists d' = dir_exists d \<and>
     (case r of Inl e \<Rightarrow> held d' = held d | Inr _ \<Rightarrow> \<not> held d \<and> held d' \<and> \<not> locked_elsewhere d)"
  by (auto simp: take_lock_def ReleaseLock_def omap_simps Let_def fun_eq_iff split: if_splits)

lemma lock_not_meta: "kLockFileName \<noteq> kMetaFileName" "GenerationPath n \<noteq> kLockFileName"
  by (simp_all add: kLockFileName_def kMetaFileName_def GenerationPath_def kGenerationPrefix_def)

definition advanced :: "Platform \<Rightarrow> StoreMeta \<Rightarrow> StoreMeta" where
  "advanced p m = m\<lparr>head_incarnation := head_incarnation m + 1, head_epoch := head_epoch m + 1, updated_at := clock p\<rparr>"

lemma Open_writer:
  assumes "Open p opts d = (Inr s, d')" and "open_mode opts = ReadWrite"
  obtains m where "LoadMetaLocked p opts d = Inr m" "head_incarnation m \<noteq> UINT64_MAX" "head_epoch m \<noteq> UINT64_MAX"
    "s = \<lparr>st_options = opts, st_incarnation = head_incarnation m + 1, st_epoch = head_epoch m + 1\<rparr>"
    "omap_get (files d') = (omap_get (files d))(kLockFileName := omap_get (files d') kLockFileName,
       kMetaFileName \<mapsto> text_bytes (Dump (StoreMetaToJson (advanced p m)) False))"
    "\<not> held d" "held d'" "\<not> locked_elsewhere d" "dir_exists d'"
proof -
  obtain r d1 where lock: "take_lock p (d\<lparr>dir_exists := True\<rparr>) = (r, d1)" by fastforce
  note f1 = take_lock_files [OF lock, simplified]
  obtain u where r: "r = Inr u" and ow: "open_writer p opts d1 = (Inr s, d')"
    using assms lock by (auto simp: Open_def split: if_splits sum.splits)
  obtain m where m1: "LoadMetaLocked p opts d1 = Inr m" and adv: "head_incarnation m \<noteq> UINT64_MAX" "head_epoch m \<noteq> UINT64_MAX"
    and w: "WriteMeta p d1 (advanced p m) = (Inr (), d')"
    and s: "s = \<lparr>st_options = opts, st_incarnation = head_incarnation m + 1, st_epoch = head_epoch m + 1\<rparr>"
    using ow by (auto simp: open_writer_def advance_meta_def result_simps NextIncarnation_def NextEpoch_def advanced_def
        split: sum.splits prod.splits if_splits)
  note f2 = files_WriteFileAtomic [OF w [unfolded WriteMeta_def]]
  have "LoadMetaLocked p opts d = Inr m"
  proof -
    have "omap_get (files d1) kMetaFileName = omap_get (files d) kMetaFileName"
      by (rule f1 [THEN conjunct1, rule_format]) (rule lock_not_meta(1) [symmetric])
    from LoadMeta_cong [OF this, of p opts] m1 show ?thesis by simp
  qed
  moreover have "omap_get (files d') = (omap_get (files d))(kLockFileName := omap_get (files d') kLockFileName,
       kMetaFileName \<mapsto> text_bytes (Dump (StoreMetaToJson (advanced p m)) False))"
  proof
    fix x
    have "omap_get (files d1) x = omap_get (files d) x" if "x \<noteq> kLockFileName"
      by (rule f1 [THEN conjunct1, rule_format]) (rule that)
    then show "omap_get (files d') x = ((omap_get (files d))(kLockFileName := omap_get (files d') kLockFileName,
       kMetaFileName \<mapsto> text_bytes (Dump (StoreMetaToJson (advanced p m)) False))) x"
      using f2 lock_not_meta by simp
  qed
  moreover have "\<not> held d" "held d'" "\<not> locked_elsewhere d" "dir_exists d'"
    using f1 [THEN conjunct2] f2 [THEN conjunct2] r by simp_all
  ultimately show ?thesis using that adv s by blast
qed

text \<open>C21. A directory has one writer: whoever opens it for writing found it free and holds it until it closes, a second
  open for writing is refused meanwhile, and an open that fails leaves the lock as it was.\<close>

theorem Open_exclusive:
  "let (r, d') = Open p opts d in
   case r of
     Inl e \<Rightarrow> held d' = held d
   | Inr s \<Rightarrow>
       if open_mode opts = ReadOnly then d' = d
       else \<not> held d \<and> \<not> locked_elsewhere d \<and> held d' \<and> \<not> held (ReleaseLock d') \<and>
         fst (Open q (other\<lparr>directory := directory opts, open_mode := ReadWrite\<rparr>) d') = Fail LockContention"
proof -
  obtain r d' where op: "Open p opts d = (r, d')" by fastforce
  show ?thesis
  proof (cases r)
    case (Inl e)
    obtain r1 d1 where lock: "take_lock p (d\<lparr>dir_exists := True\<rparr>) = (r1, d1)" by fastforce
    have "held (snd (open_writer p opts d1)) = False" if "open_writer p opts d1 = (Inl x, y)" for x y
      using that by (auto simp: open_writer_def ReleaseLock_def split: sum.splits prod.splits)
    then have "held d' = held d"
      using op Inl lock take_lock_files [OF lock] by (auto simp: Open_def split: if_splits sum.splits)
    then show ?thesis by (simp add: op Inl)
  next
    case (Inr s)
    show ?thesis
    proof (cases "open_mode opts")
      case ReadOnly
      then show ?thesis using op Inr by (auto simp: Open_def split: if_splits)
    next
      case ReadWrite
      from op Inr have "Open p opts d = (Inr s, d')" by simp
      from Open_writer [OF this ReadWrite] have h: "\<not> held d" "held d'" "\<not> locked_elsewhere d" "dir_exists d'" by blast+
      have "directory opts \<noteq> []" using op Inr by (auto simp: Open_def)
      then have "fst (Open q (other\<lparr>directory := directory opts, open_mode := ReadWrite\<rparr>) d') = Fail LockContention"
        using h by (simp add: Open_def take_lock_def)
      then show ?thesis using h by (simp add: op Inr ReadWrite ReleaseLock_def)
    qed
  qed
qed

lemma advanced_ok: "LoadMetaLocked p opts d = Inr m \<Longrightarrow> iso_range (clock p) \<Longrightarrow> meta_ok (advanced p m)"
proof -
  assume m: "LoadMetaLocked p opts d = Inr m" and t: "iso_range (clock p)"
  then have "m = StoreMeta_empty \<or> (\<exists>j. ParseStoreMeta j = Inr m)"
    by (auto simp: LoadMetaLocked_def result_simps split: if_splits)
  then have "meta_ok (m\<lparr>updated_at := clock p\<rparr>)"
    using t ParseStoreMeta_ok by (auto simp: meta_ok_def StoreMeta_empty_def digest_ok_def digest_zero_def)
  then show "meta_ok (advanced p m)" by (simp add: meta_ok_def advanced_def)
qed

text \<open>C20. A new writer fences out the old ones: once it has opened the directory, the head carries the next epoch and
  incarnation, and a publication with a fence taken before is refused and changes nothing.\<close>

theorem Open_fences:
  assumes "Open p opts d = (Inr s, d')" and "open_mode opts = ReadWrite" and "LoadMetaLocked p opts d = Inr m"
    and "6002 \<le> max_meta_bytes opts" and "iso_range (clock p)" and "reads_all q"
    and "check_fence f m = Inr ()" and "st_options old = opts"
  shows "LoadMetaLocked q opts d' = Inr (advanced p m) \<and>
    store_Publish q old d' doc f (\<lambda>_. False) = (Fail StaleEpoch, d')"
proof -
  obtain m' where w: "LoadMetaLocked p opts d = Inr m'" "head_epoch m' \<noteq> UINT64_MAX"
    "omap_get (files d') = (omap_get (files d))(kLockFileName := omap_get (files d') kLockFileName,
       kMetaFileName \<mapsto> text_bytes (Dump (StoreMetaToJson (advanced p m')) False))"
    using Open_writer [OF assms(1,2)] by metis
  have [simp]: "m' = m" using w(1) assms(3) by simp
  have "LoadMetaLocked q opts d' = Inr (advanced p m)"
  proof (rule LoadMeta_written)
    show "omap_get (files d') kMetaFileName = Some (text_bytes (Dump (StoreMetaToJson (advanced p m)) False))"
      by (subst w(3)) simp
    show "meta_printable (max_meta_bytes opts) (advanced p m)"
      by (rule meta_ok_printable [OF advanced_ok [OF assms(3,5)] assms(4)])
  qed (use assms(6) in \<open>simp add: reads_all_def\<close>)
  moreover have "check_fence f (advanced p m) = Fail StaleEpoch"
    using assms(7) by (simp add: check_fence_def advanced_def split: if_splits)
  ultimately show ?thesis
    using assms(2,8) by (simp add: store_Publish_def prepare_publish_def)
qed

lemma Open_fences_witness:
  "\<exists>d'. store_Publish sound_platform (sample_store\<lparr>st_epoch := 0\<rparr>) d' small_document blank_fence (\<lambda>_. False) = (Fail StaleEpoch, d')"
proof -
  let ?d = "blank_directory\<lparr>held := False\<rparr>" and ?opts = "st_options sample_store"
  have head: "LoadMetaLocked sound_platform ?opts ?d = Inr StoreMeta_empty"
    by (simp add: LoadMetaLocked_def blank_directory_def omap_has_def)
  have "has_value (fst (Open sound_platform ?opts ?d))"
    by (simp add: Open_def take_lock_def open_writer_def LoadMetaLocked_def WriteMeta_def WriteFileAtomic_def advance_meta_def
        NextIncarnation_def NextEpoch_def StoreMeta_empty_def sound_platform_def sample_store_def StoreOptions_default_def
        blank_directory_def omap_has_def omap_get_def omap_simps kLockFileName_def kMetaFileName_def Let_def)
  then obtain s d' where op: "Open sound_platform ?opts ?d = (Inr s, d')"
    by (cases "Open sound_platform ?opts ?d") (auto simp: has_value_iff)
  show ?thesis
    using Open_fences [OF op _ head, of sound_platform blank_fence "sample_store\<lparr>st_epoch := 0\<rparr>" small_document] blank_room(1)
    by (auto simp: sample_store_def StoreOptions_default_def sound_platform_def iso_range_def reads_all_def)
qed

end
