(* ===== verification/AuthorityFacts.thy ===== *)
theory AuthorityFacts
  imports Authority OpenFacts
begin

text \<open>
  The authority as a state machine: publications of several publishers prepare outside the lock and commit inside
  it in any order, with prunes in between. Accepted generations are consecutive, so no publication is lost to another;
  the generations of an in-memory authority form a chain by digest; a persistent one serves after a restart what
  it served before.
\<close>

section \<open>Interleaved publications\<close>

abbreviation head_number :: "World \<Rightarrow> GenerationNumber" where
  "head_number w \<equiv> head_generation (auth_meta (fst w))"

text \<open>A candidate that waits for the lock, with the generation its publisher expects at the head.\<close>

type_synonym Waiting = "RegistryDocument \<times> GenerationNumber"

text \<open>One step of some publisher or of a prune, and the generation it publishes, if any. The platform may behave
  differently at each step.\<close>

inductive authority_step :: "World \<times> Waiting list \<Rightarrow> GenerationId list \<Rightarrow> World \<times> Waiting list \<Rightarrow> bool" where
  prepare: "Prepare (fst w) doc expected token = Inr (c, report) \<Longrightarrow> authority_step (w, q) [] (w, (c, expected) # q)"
| accept: "(c, expected) \<in> set q \<Longrightarrow> Commit p w c expected = (Inr r, w') \<Longrightarrow>
     authority_step (w, q) [res_id r] (w', remove1 (c, expected) q)"
| refuse: "(c, expected) \<in> set q \<Longrightarrow> Commit p w c expected = (Inl e, w') \<Longrightarrow>
     authority_step (w, q) [] (w', remove1 (c, expected) q)"
| prune: "authority_Prune p w keep = (r, w') \<Longrightarrow> authority_step (w, q) [] (w', q)"

inductive authority_run :: "World \<times> Waiting list \<Rightarrow> GenerationId list \<Rightarrow> World \<times> Waiting list \<Rightarrow> bool" where
  start: "authority_run s [] s"
| go: "authority_run s ids t \<Longrightarrow> authority_step t new u \<Longrightarrow> authority_run s (ids @ new) u"

lemma commit_memory_Inr:
  "commit_memory p a doc = Inr (r, a') \<Longrightarrow>
     \<exists>g. head_generation (auth_meta a) \<noteq> UINT64_MAX \<and>
       Compile (candidate a doc (head_generation (auth_meta a) + 1)) (auth_validation a) = Inr g \<and>
       res_id r = gen_id g \<and> gen_number (gen_id g) = head_generation (auth_meta a) + 1 \<and>
       a' = a\<lparr>current := Some g, history := omap_put (head_generation (auth_meta a) + 1) g (history a),
         auth_meta := (auth_meta a)\<lparr>head_generation := head_generation (auth_meta a) + 1, head_digest := gen_digest (gen_id g),
           total_publications := total_publications (auth_meta a) + 1, updated_at := clock p,
           last_publisher := md_publisher (md doc)\<rparr>\<rparr>"
  by (auto simp: commit_memory_def result_simps NextGeneration_def Compile_Inr compiled_def candidate_def Let_def split: if_splits)

lemma commit_store_cases:
  assumes "commit_store p (a, d) s doc = (r, w')"
  obtains (refused) e d' where "r = Inl e" "w' = (a, d')" "store_Publish p s d doc
      \<lparr>expected_generation = head_generation (auth_meta a), fence_epoch = auth_epoch a, fence_incarnation = auth_incarnation a\<rparr>
      (\<lambda>_. False) = (Inl e, d')"
  | (unread) e out d' where "r = Inl e" "w' = (a, d')" "store_Publish p s d doc
      \<lparr>expected_generation = head_generation (auth_meta a), fence_epoch = auth_epoch a, fence_incarnation = auth_incarnation a\<rparr>
      (\<lambda>_. False) = (Inr out, d')" "LoadGeneration p s d' (gen_number (out_id out)) = Inl e"
  | (published) out l d' where "r = Inr \<lparr>res_id = out_id out, res_validation = empty_report,
        res_rule_count = length (rules (document (loaded_registry l)))\<rparr>"
      "w' = (a\<lparr>current := Some (loaded_registry l), history := omap_put (gen_number (loaded_id l)) (loaded_registry l) (history a),
        auth_meta := out_meta out\<rparr>, d')"
      "store_Publish p s d doc
      \<lparr>expected_generation = head_generation (auth_meta a), fence_epoch = auth_epoch a, fence_incarnation = auth_incarnation a\<rparr>
      (\<lambda>_. False) = (Inr out, d')" "LoadGeneration p s d' (gen_number (out_id out)) = Inr l"
  using assms by (auto simp: commit_store_def Let_def split: prod.splits sum.splits)

lemma store_Publish_number:
  assumes "store_Publish p s d doc f token = (Inr out, d')"
  shows "gen_number (out_id out) = expected_generation f + 1 \<and> head_generation (out_meta out) = expected_generation f + 1 \<and>
    expected_generation f \<noteq> UINT64_MAX"
  using assms
proof (cases rule: store_Publish_cases)
  case (committed m nx g bs)
  note prep = prepare_publish_Inr [OF committed(1)]
  have "g = compiled (prepare_document doc nx m)" using prep by (simp add: Compile_Inr)
  then show ?thesis
    using committed(2) prep by (simp add: published_meta_def check_fence_Inr compiled_def prepare_document_def Let_def)
qed simp_all

lemma Commit_accepted:
  assumes "Commit p w doc expected = (Inr r, w')"
  shows "head_number w = expected \<and> expected \<noteq> UINT64_MAX \<and> head_number w' = expected + 1 \<and> gen_number (res_id r) = expected + 1"
proof -
  obtain a d where w: "w = (a, d)" by fastforce
  have e: "head_generation (auth_meta a) = expected" using assms by (auto simp: w Commit_def split: if_splits)
  show ?thesis
  proof (cases "auth_store a")
    case None
    then obtain a' where "commit_memory p a doc = Inr (r, a')" "w' = (a', d)"
      using assms e by (auto simp: w Commit_def split: sum.splits)
    then show ?thesis using commit_memory_Inr [of p a doc r a'] e by (auto simp: w)
  next
    case (Some s)
    then have "commit_store p (a, d) s doc = (Inr r, w')" using assms e by (simp add: w Commit_def)
    then show ?thesis
    proof (cases rule: commit_store_cases)
      case (published out l d')
      then show ?thesis using store_Publish_number [OF published(3)] e by (simp add: w)
    qed simp_all
  qed
qed

lemma Commit_refused: "Commit p w doc expected = (Inl e, w') \<Longrightarrow> fst w' = fst w"
  by (auto simp: Commit_def commit_store_def Let_def split: if_splits option.splits prod.splits sum.splits)

lemma authority_Prune_meta: "authority_Prune p w keep = (r, w') \<Longrightarrow>
    auth_meta (fst w') = auth_meta (fst w) \<and> current (fst w') = current (fst w) \<and> auth_store (fst w') = auth_store (fst w)"
  by (auto simp: authority_Prune_def split: option.splits prod.splits sum.splits)

lemma step_numbers:
  "authority_step s ids t \<Longrightarrow>
     map (\<lambda>i. unat (gen_number i)) ids = [Suc (unat (head_number (fst s)))..<Suc (unat (head_number (fst t)))] \<and>
     unat (head_number (fst s)) \<le> unat (head_number (fst t))"
proof (induction rule: authority_step.induct)
  case (accept c expected q p w r w')
  note acc = Commit_accepted [OF accept(2)]
  then have "unat (expected + 1) = unat expected + 1" using next_generation_less by blast
  then show ?case using acc by simp
qed (auto dest: Commit_refused authority_Prune_meta)

lemma run_numbers:
  "authority_run s ids t \<Longrightarrow>
     map (\<lambda>i. unat (gen_number i)) ids = [Suc (unat (head_number (fst s)))..<Suc (unat (head_number (fst t)))] \<and>
     unat (head_number (fst s)) \<le> unat (head_number (fst t))"
proof (induction rule: authority_run.induct)
  case (go s ids t new u)
  have "[Suc x..<Suc y] @ [Suc y..<Suc z] = [Suc x..<Suc z]" if "x \<le> y" "y \<le> z" for x y z
    using that upt_add_eq_append [of "Suc x" "Suc y" "z - y"] by simp
  then show ?case using go.IH step_numbers [OF go.hyps(2)] by (simp del: upt_Suc)
qed simp

lemma authority_run_trans: "authority_run t new u \<Longrightarrow> authority_run s ids t \<Longrightarrow> authority_run s (ids @ new) u"
proof (induction rule: authority_run.induct)
  case (go t new u more v)
  show ?case using authority_run.go [OF go.IH [OF go.prems] go.hyps(2)] by simp
qed simp


section \<open>The chain of an in-memory authority\<close>

text \<open>The generations in memory: each under its own number, a valid document, linked to its predecessor by digest; the
  current one is the newest and the one the metadata names.\<close>

definition linked :: "(GenerationNumber, RegistryGeneration) omap \<Rightarrow> RegistryGeneration \<Rightarrow> bool" where
  "linked h g = (case omap_get h (gen_number (gen_id g) - 1) of None \<Rightarrow> True
     | Some b \<Rightarrow> parent_digest (md (document g)) =
         (if gen_number (gen_id b) = 0 then None else Some (gen_digest (gen_id b))))"

definition memory_ok :: "GenerationNumber \<Rightarrow> Authority \<Rightarrow> bool" where
  "memory_ok first a \<longleftrightarrow> auth_store a = None \<and> omap_ok (history a) \<and>
     (\<exists>g. current a = Some g \<and> gen_id g = GenerationId (head_generation (auth_meta a)) (head_digest (auth_meta a)) \<and>
       omap_get (history a) (head_generation (auth_meta a)) = Some g) \<and>
     (\<forall>n. omap_get (history a) n \<noteq> None \<longleftrightarrow> first \<le> n \<and> n \<le> head_generation (auth_meta a)) \<and>
     (\<forall>n g. omap_get (history a) n = Some g \<longrightarrow> gen_number (gen_id g) = n \<and> g = compiled (document g) \<and>
        Publishable (ValidateRegistryDocument (document g) (auth_validation a)) \<and> (first = n \<or> linked (history a) g))"

lemma compiled_facts:
  "Compile d opts = Inr g \<Longrightarrow> g = compiled (document g) \<and> gen_number (gen_id g) = md_generation (md d) \<and>
     document g = Normalize d \<and> Publishable (ValidateRegistryDocument (document g) opts)"
  by (auto simp: Compile_def compiled_def Let_def split: if_splits)

lemma OpenInMemory_ok:
  "OpenInMemory seed opts = Inr a \<Longrightarrow> memory_ok (md_generation (md seed)) a \<and> head_generation (auth_meta a) = md_generation (md seed)"
proof -
  assume op: "OpenInMemory seed opts = Inr a"
  then obtain g where g: "Compile seed opts = Inr g" and a: "a = \<lparr>auth_validation = opts, current = Some g,
      history = [(gen_number (gen_id g), g)], auth_meta = StoreMeta_empty\<lparr>head_generation := gen_number (gen_id g),
        head_digest := gen_digest (gen_id g), head_epoch := 1, head_incarnation := 1, total_publications := gen_number (gen_id g)\<rparr>,
      auth_store = None, auth_incarnation = 1, auth_epoch = 1\<rparr>"
    by (auto simp: OpenInMemory_def result_simps)
  note cg = compiled_facts [OF g]
  have get: "omap_get [(n, g)] k = (if k = n then Some g else None)" for n k by (simp add: omap_get_def)
  let ?n = "gen_number (gen_id g)"
  have h: "auth_store a = None" "history a = [(?n, g)]" "current a = Some g" "head_generation (auth_meta a) = ?n"
    "head_digest (auth_meta a) = gen_digest (gen_id g)" "auth_validation a = opts"
    by (simp_all add: a)
  have entries: "gen_number (gen_id e) = n \<and> e = compiled (document e) \<and> Publishable (ValidateRegistryDocument (document e) opts) \<and> ?n = n"
    if "omap_get [(?n, g)] n = Some e" for n e
  proof -
    have "n = ?n" "e = g" using that by (simp_all add: get split: if_splits)
    then show ?thesis using cg by metis
  qed
  have "memory_ok ?n a" unfolding memory_ok_def h
  proof (intro conjI allI impI exI [of _ g])
    show "(omap_get [(?n, g)] n \<noteq> None) = (?n \<le> n \<and> n \<le> ?n)" for n by (auto simp: get)
    show "omap_ok [(?n, g)]" by (simp add: omap_ok_def)
    show "gen_id g = GenerationId ?n (gen_digest (gen_id g))" by simp
    show "omap_get [(?n, g)] ?n = Some g" by (simp add: get)
  qed (use entries in blast)+
  then show ?thesis using cg h(4) by metis
qed

lemma memory_ok_commit:
  assumes ok: "memory_ok first a" and comm: "commit_memory p a doc = Inr (r, a')"
  shows "memory_ok first a'"
proof -
  let ?h = "head_generation (auth_meta a)" and ?n = "head_generation (auth_meta a) + 1"
  obtain g where g: "?h \<noteq> UINT64_MAX" "Compile (candidate a doc ?n) (auth_validation a) = Inr g" "gen_number (gen_id g) = ?n"
    and a': "a' = a\<lparr>current := Some g, history := omap_put ?n g (history a),
        auth_meta := (auth_meta a)\<lparr>head_generation := ?n, head_digest := gen_digest (gen_id g),
           total_publications := total_publications (auth_meta a) + 1, updated_at := clock p,
           last_publisher := md_publisher (md doc)\<rparr>\<rparr>"
    using commit_memory_Inr [OF comm] by blast
  note cg = compiled_facts [OF g(2)]
  have less: "?h < ?n" and le: "n \<le> ?n \<longleftrightarrow> n = ?n \<or> n \<le> ?h" for n
  proof -
    have u: "unat ?n = unat ?h + 1" using next_generation_less [OF g(1)] by blast
    then show "?h < ?n" by (simp add: word_less_nat_alt)
    show "n \<le> ?n \<longleftrightarrow> n = ?n \<or> n \<le> ?h" using u unfolding word_le_nat_alt word_unat_eq_iff by auto
  qed
  obtain b where b: "omap_get (history a) ?h = Some b" "gen_id b = GenerationId ?h (head_digest (auth_meta a))"
    using ok by (auto simp: memory_ok_def)
  have range: "\<And>n. omap_get (history a) n \<noteq> None \<longleftrightarrow> first \<le> n \<and> n \<le> ?h" using ok unfolding memory_ok_def by blast
  have first: "first \<le> ?h" using range [of ?h] b by simp
  have new: "omap_get (history a) ?n = None" using range [of ?n] less by (metis leD)
  have newest: "linked (omap_put ?n g (history a)) g"
    using b cg g(3) by (simp add: linked_def omap_simps candidate_def parent_of_head_def)
  have older: "linked (omap_put ?n g (history a)) e" if "omap_get (history a) n = Some e" "linked (history a) e" "first \<noteq> n" for n e
  proof -
    have e: "gen_number (gen_id e) = n" "first \<le> n" "n \<le> ?h" using ok that(1) range [of n] by (auto simp: memory_ok_def)
    have "n - 1 \<noteq> ?n"
    proof
      assume "n - 1 = ?n"
      moreover have "n \<noteq> 0" using that(3) e(2) by auto
      then have "unat (n - 1) = unat n - 1" by (rule unat_minus_one)
      ultimately have "unat n - 1 = unat ?n" by metis
      then show False using e(3) less unfolding word_le_nat_alt word_less_nat_alt by linarith
    qed
    then show ?thesis using that(2) by (simp add: linked_def omap_simps e(1))
  qed
  have entries: "gen_number (gen_id e) = n \<and> e = compiled (document e) \<and>
        Publishable (ValidateRegistryDocument (document e) (auth_validation a)) \<and> (first = n \<or> linked (omap_put ?n g (history a)) e)"
    if "omap_get (omap_put ?n g (history a)) n = Some e" for n e
  proof (cases "n = ?n")
    case True
    then have "e = g" using that by (simp add: omap_simps)
    then show ?thesis using True cg g(3) newest by blast
  next
    case False
    then have "omap_get (history a) n = Some e" using that by (simp add: omap_simps)
    then show ?thesis using ok older unfolding memory_ok_def by metis
  qed
  have "omap_ok (omap_put ?n g (history a))" "auth_store a = None" using ok by (simp_all add: memory_ok_def omap_simps)
  moreover have "omap_get (omap_put ?n g (history a)) n \<noteq> None \<longleftrightarrow> first \<le> n \<and> n \<le> ?n" for n
    using range [of n] le [of n] first less by (auto simp: omap_simps)
  moreover have "gen_id g = GenerationId ?n (gen_digest (gen_id g))" using g(3) by (metis GenerationId.collapse)
  ultimately show ?thesis
    using entries unfolding memory_ok_def a' by (simp add: omap_simps)
qed

lemma memory_ok_step:
  assumes "authority_step (w, q) ids t" and "memory_ok first (fst w)"
  shows "memory_ok first (fst (fst t))"
  using assms(1)
proof cases
  case (accept c expected p r w')
  obtain a d where w: "w = (a, d)" by fastforce
  have "auth_store a = None" using assms(2) by (simp add: w memory_ok_def)
  then obtain a' where "commit_memory p a c = Inr (r, a')" "w' = (a', d)"
    using accept by (auto simp: w Commit_def split: sum.splits if_splits)
  then show ?thesis using memory_ok_commit [of first a p c r a'] assms(2) accept by (simp add: w)
next
  case (refuse c expected p e w')
  then show ?thesis using assms(2) Commit_refused [OF refuse(4)] by simp
next
  case (prune p keep r w')
  have "fst w' = fst w" using prune assms(2) by (auto simp: authority_Prune_def memory_ok_def split: prod.splits)
  then show ?thesis using prune assms(2) by simp
qed (use assms(2) in simp)

lemma memory_ok_run: "authority_run s ids t \<Longrightarrow> memory_ok first (fst (fst s)) \<Longrightarrow> memory_ok first (fst (fst t))"
proof (induction rule: authority_run.induct)
  case (go s ids t new u)
  then show ?case using memory_ok_step [of "fst t" "snd t" new u first] by simp
qed

text \<open>C6. Whatever is published and refused, an in-memory authority keeps a chain: it holds every generation from its
  seed to the head, each a valid document under its own number that names the digest of its predecessor, and serves
  the newest.\<close>

theorem memory_chain:
  assumes "OpenInMemory seed opts = Inr a" and "authority_run ((a, d), []) ids t"
  shows "memory_ok (md_generation (md seed)) (fst (fst t))"
  using memory_ok_run [OF assms(2)] OpenInMemory_ok [OF assms(1)] by simp

section \<open>Validation does not depend on the head\<close>

lemma Validate_cong:
  "doc_taxonomy d = doc_taxonomy e \<Longrightarrow> rules d = rules e \<Longrightarrow> ValidateRegistryDocument d opts = ValidateRegistryDocument e opts"
  by (simp add: ValidateRegistryDocument_def all_diagnostics_def)

lemma Validate_candidate:
  "ValidateRegistryDocument (candidate a doc n) opts = ValidateRegistryDocument (Normalize doc) opts"
  "ValidateRegistryDocument (Normalize (candidate a doc n)) opts = ValidateRegistryDocument (Normalize doc) opts"
  "ValidateRegistryDocument (simulated_candidate a doc n) opts = ValidateRegistryDocument (Normalize doc) opts"
  "ValidateRegistryDocument (prepare_document doc n m) opts = ValidateRegistryDocument (Normalize doc) opts"
proof -
  have n: "rules (Normalize (doc\<lparr>md := x\<rparr>)) = rules (Normalize doc)" "doc_taxonomy (Normalize e) = doc_taxonomy e" for x e
    by (simp_all add: Normalize_def)
  show "ValidateRegistryDocument (candidate a doc n) opts = ValidateRegistryDocument (Normalize doc) opts"
    "ValidateRegistryDocument (Normalize (candidate a doc n)) opts = ValidateRegistryDocument (Normalize doc) opts"
    "ValidateRegistryDocument (simulated_candidate a doc n) opts = ValidateRegistryDocument (Normalize doc) opts"
    "ValidateRegistryDocument (prepare_document doc n m) opts = ValidateRegistryDocument (Normalize doc) opts"
    by (rule Validate_cong; simp add: candidate_def simulated_candidate_def prepare_document_def n)+
qed

lemma publish_valid:
  assumes "auth_store a = None" and "head_generation (auth_meta a) \<noteq> UINT64_MAX"
  shows "let (r, w') = Publish p (a, d) doc (head_generation (auth_meta a)) (\<lambda>_. False) in
    if Publishable (ValidateDocument a doc) then
      (\<exists>x. r = Inr x \<and> res_validation x = ValidateDocument a doc \<and> res_rule_count x = length (rules (Normalize doc)) \<and> CurrentGeneration (fst w') = Inr (res_id x) \<and>
         res_id x = gen_id (compiled (candidate a doc (head_generation (auth_meta a) + 1))))
    else r = Fail ValidationFailed \<and> w' = (a, d)"
proof -
  let ?n = "head_generation (auth_meta a) + 1"
  let ?c = "candidate a doc ?n"
  have cc: "candidate a ?c ?n = ?c"
  proof -
    have "(md ?c)\<lparr>md_generation := ?n, md_epoch := auth_epoch a, parent_digest := parent_of_head (auth_meta a)\<rparr> = md ?c"
      by (rule RegistryMetadata.equality) (simp_all add: candidate_def)
    then have "candidate a ?c ?n = Normalize (?c\<lparr>md := md ?c\<rparr>)" by (simp add: candidate_def [of a ?c])
    also have "?c\<lparr>md := md ?c\<rparr> = ?c" by simp
    finally show ?thesis by (simp add: candidate_def)
  qed
  show ?thesis
  proof (cases "Publishable (ValidateDocument a doc)")
    case True
    then have v: "Publishable (ValidateRegistryDocument (Normalize doc) (auth_validation a))" by (simp add: ValidateDocument_def)
    have comp: "Compile ?c (auth_validation a) = Inr (compiled ?c)"
      using v by (simp add: Compile_def Validate_candidate)
    have count: "length (rules (document (compiled ?c))) = length (rules (Normalize doc))"
      by (simp add: compiled_def Let_def candidate_def Normalize_def)
    have prep: "Prepare a doc (head_generation (auth_meta a)) (\<lambda>_. False) = Inr (?c, ValidateDocument a doc)"
      using assms v by (simp add: Prepare_def NextGeneration_def Validate_candidate ValidateDocument_def Let_def)
    obtain r a' where cm: "commit_memory p a ?c = Inr (r, a')" and r: "res_id r = gen_id (compiled ?c)" "res_rule_count r = length (rules (Normalize doc))" "current a' = Some (compiled ?c)"
      using assms comp cc count by (simp add: commit_memory_def NextGeneration_def)
    have "Commit p (a, d) ?c (head_generation (auth_meta a)) = (Inr r, (a', d))"
      using assms cm by (simp add: Commit_def)
    then have "Publish p (a, d) doc (head_generation (auth_meta a)) (\<lambda>_. False) =
        (Inr (r\<lparr>res_validation := ValidateDocument a doc\<rparr>), (a', d))"
      using prep by (simp add: Publish_def)
    then show ?thesis using True r by (simp add: CurrentGeneration_def)
  next
    case False
    then have "Prepare a doc (head_generation (auth_meta a)) (\<lambda>_. False) = Fail ValidationFailed"
      using assms by (simp add: Prepare_def NextGeneration_def Validate_candidate ValidateDocument_def Let_def)
    then show ?thesis using False by (simp add: Publish_def)
  qed
qed


section \<open>An example\<close>

lemma small_document_publishable: "Publishable (ValidateRegistryDocument (Normalize small_document) ValidationOptions_default)"
  using small_publishable by (simp add: small_published_def Validate_candidate)

definition small_authority :: Authority where
  "small_authority = (case OpenInMemory small_document ValidationOptions_default of Inr a \<Rightarrow> a)"

lemma OpenInMemory_fields: "OpenInMemory seed opts = Inr a \<Longrightarrow> auth_store a = None \<and> auth_validation a = opts"
  by (auto simp: OpenInMemory_def result_simps)

lemma small_authority:
  "OpenInMemory small_document ValidationOptions_default = Inr small_authority" "auth_store small_authority = None"
  "head_generation (auth_meta small_authority) = 1" "auth_validation small_authority = ValidationOptions_default"
proof -
  have "Compile small_document ValidationOptions_default = Inr (compiled small_document)"
    using small_document_publishable by (simp add: Compile_def)
  then have op: "has_value (OpenInMemory small_document ValidationOptions_default)" by (simp add: OpenInMemory_def)
  then show eq: "OpenInMemory small_document ValidationOptions_default = Inr small_authority"
    by (auto simp: small_authority_def has_value_iff)
  have "md_generation (md small_document) = 1" by (simp add: small_document_def sample_document_def Builder_new_def)
  then show "head_generation (auth_meta small_authority) = 1" using OpenInMemory_ok [OF eq] by simp
  show "auth_store small_authority = None" "auth_validation small_authority = ValidationOptions_default"
    using OpenInMemory_fields [OF eq] by blast+
qed

lemma small_valid: "Publishable (ValidateDocument small_authority small_document)"
  by (simp add: ValidateDocument_def small_authority small_document_publishable)


text \<open>One publication, as a run.\<close>

lemma small_run:
  "\<exists>(r :: PublishResult) t. authority_run ((small_authority, blank_directory), []) [res_id r] t \<and> gen_number (res_id r) = 2 \<and>
     head_number (fst t) = 2"
proof -
  let ?w = "(small_authority, blank_directory)"
  let ?c = "candidate small_authority small_document 2"
  have prep: "Prepare (fst ?w) small_document 1 (\<lambda>_. False) = Inr (?c, ValidateDocument small_authority small_document)"
    using small_valid small_authority by (simp add: Prepare_def NextGeneration_def Validate_candidate ValidateDocument_def Let_def)
  have "Publishable (ValidateRegistryDocument (Normalize (candidate small_authority ?c 2)) ValidationOptions_default)"
    using small_document_publishable by (simp add: Validate_candidate)
  then have "has_value (commit_memory sound_platform small_authority ?c)"
    by (simp add: commit_memory_def NextGeneration_def small_authority Compile_def)
  then obtain r a' where "commit_memory sound_platform small_authority ?c = Inr (r, a')" by (auto simp: has_value_iff)
  then have commit: "Commit sound_platform ?w ?c 1 = (Inr r, (a', blank_directory))" by (simp add: Commit_def small_authority)
  let ?t = "((a', blank_directory), remove1 (?c, 1) [(?c, 1 :: GenerationNumber)])"
  have "authority_run (?w, []) [] (?w, [(?c, 1)])"
    using authority_run.go [OF authority_run.start authority_step.prepare [OF prep]] by simp
  from authority_run.go [OF this authority_step.accept [OF _ commit]]
  have "authority_run (?w, []) [res_id r] ?t" by simp
  moreover have "gen_number (res_id r) = 2" "head_number (fst ?t) = 2" using Commit_accepted [OF commit] by simp_all
  ultimately show ?thesis by blast
qed


lemma memory_chain_witness: "\<exists>a. memory_ok 1 a \<and> head_generation (auth_meta a) = 2"
proof -
  obtain r :: PublishResult and t where run: "authority_run ((small_authority, blank_directory), []) [res_id r] t" and h: "head_number (fst t) = 2"
    using small_run by blast
  have "md_generation (md small_document) = 1" by (simp add: small_document_def sample_document_def Builder_new_def)
  then have "memory_ok 1 (fst (fst t))" using memory_chain [OF small_authority(1) run] by simp
  then show ?thesis using h by blast
qed

section \<open>A persistent authority and its directory\<close>

text \<open>The metadata of the store behind an authority, which its fence names.\<close>

lemma commit_store_published:
  assumes commit: "commit_store p (a, d) s c = (Inr r, (a', d'))"
    and m: "LoadMetaLocked p (st_options s) d = Inr m" and nx: "nx = head_generation m + 1"
    and doc: "document_printable DocumentLimits_default (prepare_document c nx m)"
    and meta: "6002 \<le> max_meta_bytes (st_options s)" "iso_range (clock p)"
    and fits: "kGenerationHeaderBytes + length (CanonicalJson (prepare_document c nx m)) \<le> max_generation_bytes (st_options s)"
    and reads: "reads_all p"
  shows "current a' = Some (compiled (prepare_document c nx m)) \<and> LoadMetaLocked p (st_options s) d' = Inr (auth_meta a') \<and>
    head_generation (auth_meta a') = nx \<and> head_epoch (auth_meta a') = head_epoch m \<and>
    head_incarnation (auth_meta a') = head_incarnation m \<and> locked_elsewhere d' = locked_elsewhere d \<and> nx \<noteq> 0 \<and>
    LoadGeneration p s d' nx = Inr \<lparr>loaded_id = gen_id (compiled (prepare_document c nx m)),
      loaded_registry = compiled (prepare_document c nx m), recovery = RecoveryReport_default\<rparr>"
  using commit
proof (cases rule: commit_store_cases)
  case (published out l d1)
  note view = publish_readable [OF published(3) m nx doc meta fits reads]
  have out: "head_generation (out_meta out) = nx \<and> gen_number (out_id out) = nx \<and> head_epoch (out_meta out) = head_epoch m \<and>
      head_incarnation (out_meta out) = head_incarnation m \<and> nx \<noteq> 0"
    using published(3)
  proof (cases rule: store_Publish_cases)
    case (committed m' nx' g bs)
    note prep = prepare_publish_Inr [OF committed(1)]
    have "m' = m" using prep m by simp
    moreover have "nx \<noteq> 0" using prep nx calculation next_generation_less [of "head_generation m"] by auto
    ultimately show ?thesis
      using committed(2) prep nx store_Publish_number [OF published(3)] by (simp add: published_meta_def check_fence_Inr)
  qed simp_all
  have meta': "LoadMetaLocked p (st_options s) d1 = Inr (out_meta out)" using view by (simp add: store_view_def Let_def)
  have load: "LoadGeneration p s d1 nx = Inr \<lparr>loaded_id = out_id out,
      loaded_registry = compiled (prepare_document c nx m), recovery = RecoveryReport_default\<rparr>"
    using view out meta' by (simp add: store_view_def Let_def fun_eq_iff) (metis order_refl)
  have l: "l = \<lparr>loaded_id = out_id out, loaded_registry = compiled (prepare_document c nx m), recovery = RecoveryReport_default\<rparr>"
    using published(4) load out by (metis sum.inject(2))
  have id: "out_id out = gen_id (compiled (prepare_document c nx m))" using view by blast
  show ?thesis
    using published(2) load out meta' flags_store_Publish [OF published(3)] by (simp add: l id)
qed simp_all

lemma LoadMeta_platform: "reads_all p \<Longrightarrow> reads_all q \<Longrightarrow> LoadMetaLocked p opts d = LoadMetaLocked q opts d"
  by (simp add: LoadMetaLocked_def ReadFileBounded_def reads_all_def)

lemma LoadGeneration_platform:
  "st_options b = st_options s \<Longrightarrow> reads_all p \<Longrightarrow> reads_all q \<Longrightarrow> LoadGeneration q b d n = LoadGeneration p s d n"
  by (simp add: LoadGeneration_def ReadFileBounded_def reads_all_def)

text \<open>A free directory whose counters have room can be opened for writing.\<close>

lemma Open_works:
  assumes "writes_all p" "\<not> lock_open_fails p" "\<not> create_fails p" and "open_mode opts = ReadWrite" "directory opts \<noteq> []"
    and "\<not> held d" "\<not> locked_elsewhere d" and m: "LoadMetaLocked p opts d = Inr m"
    and "head_epoch m \<noteq> UINT64_MAX" "head_incarnation m \<noteq> UINT64_MAX"
  shows "\<exists>s d'. Open p opts d = (Inr s, d')"
proof -
  have "\<exists>d1. take_lock p (d\<lparr>dir_exists := True\<rparr>) = (Inr (), d1)"
    using assms(2,6,7) by (simp add: take_lock_def Let_def)
  then obtain d1 where lock: "take_lock p (d\<lparr>dir_exists := True\<rparr>) = (Inr (), d1)" by blast
  have "omap_get (files d1) kMetaFileName = omap_get (files d) kMetaFileName"
    by (rule take_lock_files [OF lock, simplified, THEN conjunct1, rule_format]) (rule lock_not_meta(1) [symmetric])
  from LoadMeta_cong [OF this, of p opts] m have m1: "LoadMetaLocked p opts d1 = Inr m" by simp
  obtain d2 where "WriteMeta p d1 (advanced p m) = (Inr (), d2)"
    unfolding WriteMeta_def using WriteFileAtomic_works [OF assms(1)] by blast
  then have "\<exists>s. open_writer p opts d1 = (Inr s, d2)"
    using m1 assms by (simp add: open_writer_def advance_meta_def NextIncarnation_def NextEpoch_def advanced_def)
  then show ?thesis using lock assms by (auto simp: Open_def)
qed

text \<open>C3. A publication survives a restart: after a successful commit and the end of its process, opening the directory
  again succeeds and serves the published generation, under the next epoch and incarnation.\<close>

theorem restart_serves_published:
  assumes commit: "commit_store p (a, d) s c = (Inr r, (a', d'))"
    and m: "LoadMetaLocked p (st_options s) d = Inr m" and nx: "nx = head_generation m + 1"
    and doc: "document_printable DocumentLimits_default (prepare_document c nx m)"
    and meta: "6002 \<le> max_meta_bytes (st_options s)" "iso_range (clock p)" "iso_range (clock q)"
    and fits: "kGenerationHeaderBytes + length (CanonicalJson (prepare_document c nx m)) \<le> max_generation_bytes (st_options s)"
    and reads: "reads_all p" "reads_all q" and writes: "writes_all q" "\<not> lock_open_fails q" "\<not> create_fails q"
    and free: "\<not> locked_elsewhere d" "head_epoch m \<noteq> UINT64_MAX" "head_incarnation m \<noteq> UINT64_MAX"
    and opts: "opt_store opts = st_options s" "open_mode (st_options s) = ReadWrite" "directory (st_options s) \<noteq> []"
  shows "\<exists>b d''. authority_Open q opts (ReleaseLock d') = (Inr b, d'') \<and> current a' = Some (compiled (prepare_document c nx m)) \<and>
    current b = current a' \<and> auth_epoch b = head_epoch m + 1 \<and> auth_incarnation b = head_incarnation m + 1"
proof -
  let ?g = "compiled (prepare_document c nx m)" and ?opts = "st_options s"
  note served = commit_store_published [OF commit m nx doc meta(1,2) fits reads(1)]
  let ?m = "auth_meta a'" and ?d = "ReleaseLock d'"
  let ?l = "\<lparr>loaded_id = gen_id ?g, loaded_registry = ?g, recovery = RecoveryReport_default\<rparr>"
  have m': "LoadMetaLocked q ?opts ?d = Inr ?m"
    using served LoadMeta_platform [OF reads, of ?opts d'] LoadMeta_cong [of ?d d' q ?opts] by (simp add: ReleaseLock_def)
  have adv: "head_epoch ?m \<noteq> UINT64_MAX" "head_incarnation ?m \<noteq> UINT64_MAX" using served free by simp_all
  obtain b d2 where op: "Open q ?opts ?d = (Inr b, d2)"
    using Open_works [OF writes opts(2,3) _ _ m' adv] served free by (auto simp: ReleaseLock_def)
  from Open_writer [OF op opts(2)] obtain m1 where w: "LoadMetaLocked q ?opts ?d = Inr m1"
    "b = \<lparr>st_options = ?opts, st_incarnation = head_incarnation m1 + 1, st_epoch = head_epoch m1 + 1\<rparr>"
    "omap_get (files d2) = (omap_get (files ?d))(kLockFileName := omap_get (files d2) kLockFileName,
       kMetaFileName \<mapsto> text_bytes (Dump (StoreMetaToJson (advanced q m1)) False))"
    by metis
  have [simp]: "m1 = ?m" using w(1) m' by simp
  have "LoadMetaLocked q ?opts d2 = Inr (advanced q ?m)"
  proof (rule LoadMeta_written)
    show "omap_get (files d2) kMetaFileName = Some (text_bytes (Dump (StoreMetaToJson (advanced q ?m)) False))"
      by (subst w(3)) simp
    show "meta_printable (max_meta_bytes ?opts) (advanced q ?m)"
      by (rule meta_ok_printable [OF advanced_ok [OF m' meta(3)] meta(1)])
  qed (use reads in \<open>simp add: reads_all_def\<close>)
  then have meta2: "ReadMeta q b d2 = Inr (advanced q ?m)" by (simp add: ReadMeta_def w(2))
  have gen: "LoadGeneration q b d2 nx = Inr ?l"
  proof -
    have "omap_get (files d2) (GenerationPath nx) = omap_get (files d') (GenerationPath nx)"
      by (subst w(3)) (simp add: GenerationPath_not_meta lock_not_meta ReleaseLock_def)
    from LoadGeneration_cong [OF this] have "LoadGeneration q b d2 nx = LoadGeneration q b d' nx" by blast
    also have "\<dots> = LoadGeneration p s d' nx" by (rule LoadGeneration_platform) (simp_all add: w(2) reads)
    finally show ?thesis using served by simp
  qed
  have head: "head_generation (advanced q ?m) = nx" "nx \<noteq> 0" using served by (simp_all add: advanced_def)
  have "LoadMetaLocked q (st_options b) d2 = Inr (advanced q ?m)" using meta2 by (simp add: ReadMeta_def)
  from LoadLatest_head [OF this] gen head obtain gone d3 where
    "LoadLatest q b d2 = (Inr (?l\<lparr>recovery := RecoveryReport_default\<lparr>discarded_uncommitted := gone\<rparr>\<rparr>), d3)"
    by metis
  then have reopened: "authority_Open q opts ?d = (Inr ((authority_on opts b (advanced q ?m))\<lparr>current := Some ?g,
       history := [(gen_number (gen_id ?g), ?g)]\<rparr>), d3)"
    using op meta2 head opts(1) by (simp add: authority_Open_def)
  show ?thesis
    by (rule exI, rule exI, rule conjI, rule reopened) (use served in \<open>simp add: authority_on_def w(2)\<close>)
qed

definition small_options :: AuthorityOptions where
  "small_options = \<lparr>opt_store = st_options sample_store, opt_validation = ValidationOptions_default, allow_empty = True\<rparr>"

definition small_persistent :: Authority where
  "small_persistent = authority_on small_options sample_store StoreMeta_empty"

lemma sample_options: "max_meta_bytes (st_options sample_store) = 65536" "max_generation_bytes (st_options sample_store) = 67108864"
  "open_mode (st_options sample_store) = ReadWrite" "directory (st_options sample_store) \<noteq> []" "max_generations (st_options sample_store) = 512"
  by (simp_all add: sample_store_def StoreOptions_default_def)

lemma sound_platform: "reads_all sound_platform" "writes_all sound_platform" "iso_range (clock sound_platform)"
  "\<not> lock_open_fails sound_platform" "\<not> create_fails sound_platform"
  by (simp_all add: sound_platform_def reads_all_def writes_all_def iso_range_def)

lemma small_fits: "kGenerationHeaderBytes + length (CanonicalJson small_published) \<le> max_generation_bytes (st_options sample_store)"
  using small_printable(2) unfolding sample_options kGenerationHeaderBytes_def by linarith

lemma small_commit:
  "\<exists>r a' d'. commit_store sound_platform (small_persistent, blank_directory) sample_store small_document = (Inr r, (a', d'))"
proof -
  obtain d' where pub: "store_Publish sound_platform sample_store blank_directory small_document blank_fence (\<lambda>_. False) =
    (Inr \<lparr>out_id = gen_id (compiled small_published),
       out_meta = published_meta sound_platform StoreMeta_empty 1 (compiled small_published)\<rparr>, d')"
    using small_accepted by blast
  have fence: "\<lparr>expected_generation = head_generation (auth_meta small_persistent), fence_epoch = auth_epoch small_persistent,
      fence_incarnation = auth_incarnation small_persistent\<rparr> = blank_fence"
    by (simp add: small_persistent_def authority_on_def sample_store_def blank_fence_def StoreMeta_empty_def)
  note view = publish_readable [OF pub blank_head, of 1, folded small_published_def]
  have "snd (store_view sound_platform sample_store d') 1 = Inr \<lparr>loaded_id = gen_id (compiled small_published),
      loaded_registry = compiled small_published, recovery = RecoveryReport_default\<rparr>"
    using view small_printable small_fits sound_platform by (simp add: sample_options StoreMeta_empty_def)
  then have load: "LoadGeneration sound_platform sample_store d' 1 = Inr \<lparr>loaded_id = gen_id (compiled small_published),
      loaded_registry = compiled small_published, recovery = RecoveryReport_default\<rparr>"
    by (auto simp: store_view_def Let_def split: sum.splits if_splits)
  have "gen_number (gen_id (compiled small_published)) = 1"
    by (simp add: small_published_def compiled_def Let_def prepare_document_def)
  then show ?thesis by (simp add: commit_store_def fence pub load)
qed

lemma restart_serves_published_witness:
  "\<exists>r a' d' b d''. commit_store sound_platform (small_persistent, blank_directory) sample_store small_document = (Inr r, (a', d')) \<and>
     authority_Open sound_platform small_options (ReleaseLock d') = (Inr b, d'') \<and> current b = Some (compiled small_published)"
proof -
  obtain r a' d' where c: "commit_store sound_platform (small_persistent, blank_directory) sample_store small_document = (Inr r, (a', d'))"
    using small_commit by blast
  note served = restart_serves_published [OF c blank_head, where nx = 1 and q = sound_platform and opts = small_options, folded small_published_def]
  have "\<exists>b d''. authority_Open sound_platform small_options (ReleaseLock d') = (Inr b, d'') \<and> current b = Some (compiled small_published)"
    using served small_printable small_fits sound_platform
    by (auto simp: sample_options StoreMeta_empty_def small_options_def blank_directory_def)
  then show ?thesis using c by blast
qed

end
