(* ===== verification/AdmissionFacts.thy ===== *)
theory AdmissionFacts
  imports Admission AuthorityFacts
begin

text \<open>
  The bounds of the service hold in every reachable state, whatever the threads do and in whatever order, and
  a shutdown drains it.
\<close>

section \<open>The invariant\<close>

text \<open>Every open connection is registered once and has one place: with the acceptor, in the queue or with a
  worker; the three are bounded.\<close>

definition server_ok :: "Server \<Rightarrow> bool" where
  "server_ok s \<longleftrightarrow> distinct (open_handles s) \<and> connections s = set (open_handles s) \<and>
     active_connections s = length (open_handles s) \<and> active_connections s \<le> max_connections (server_options s) \<and>
     length (queue s) \<le> pending_connections (server_options s) \<and>
     length (serving s) \<le> worker_threads (server_options s) \<and> (accepting s \<noteq> None \<longrightarrow> acceptor_running s)"

lemma server_ok_start: "server_ok (Server_start opts w)"
  by (simp add: server_ok_def Server_start_def open_handles_def)

lemma drop_connection_ok:
  assumes "connections s = insert h (set hs)" "h \<notin> set hs" "active_connections s = Suc (length hs)"
  shows "connections (drop_connection h s) = set hs \<and> active_connections (drop_connection h s) = length hs"
  using assms by (simp add: drop_connection_def UnregisterConnection_def Let_def)

lemma drop_connection_kept [simp]:
  "accepting (drop_connection h s) = accepting s" "queue (drop_connection h s) = queue s" "serving (drop_connection h s) = serving s"
  "server_options (drop_connection h s) = server_options s" "acceptor_running (drop_connection h s) = acceptor_running s"
  "service (drop_connection h s) = service s"
  by (simp_all add: drop_connection_def UnregisterConnection_def Let_def)

lemma server_ok_step: "server_step s t \<Longrightarrow> server_ok s \<Longrightarrow> server_ok t \<and> server_options t = server_options s"
proof (induction rule: server_step.induct)
  case (admit s h)
  then show ?case by (auto simp: server_ok_def acceptor_admit_def count_rejected_def open_handles_def Let_def)
next
  case (enqueue s h)
  let ?s = "s\<lparr>accepting := None\<rparr>"
  have "connections ?s = insert h (set (queue s @ serving s))" "h \<notin> set (queue s @ serving s)"
    "active_connections ?s = Suc (length (queue s @ serving s))"
    using enqueue by (auto simp: server_ok_def open_handles_def)
  note drop = drop_connection_ok [OF this]
  then show ?case
    using enqueue by (auto simp: server_ok_def acceptor_enqueue_def EnqueueConnection_def count_rejected_def open_handles_def Let_def)
next
  case (take s)
  then obtain h q where "queue s = h # q" by (cases "queue s") auto
  then show ?case using take by (auto simp: server_ok_def worker_take_def open_handles_def split: option.splits)
next
  case (finish h s)
  let ?s = "s\<lparr>serving := remove1 h (serving s)\<rparr>"
  have "connections ?s = insert h (set (open_handles ?s))" "h \<notin> set (open_handles ?s)"
    "active_connections ?s = Suc (length (open_handles ?s))"
    using finish by (auto simp: server_ok_def open_handles_def set_remove1_eq length_remove1 split: option.splits dest: length_pos_if_in_set)
  note drop = drop_connection_ok [OF this]
  have "distinct (open_handles ?s)" using finish by (auto simp: server_ok_def open_handles_def dest: notin_set_remove1)
  then show ?case
    using finish drop by (auto simp: server_ok_def worker_finish_def open_handles_def length_remove1 split: option.splits)
qed (auto simp: server_ok_def acceptor_leave_def BeginShutdown_def open_handles_def)

section \<open>Runs\<close>

lemma server_ok_run: "server_run s t \<Longrightarrow> server_ok s \<Longrightarrow> server_ok t \<and> server_options t = server_options s"
  by (induction rule: server_run.induct) (use server_ok_step in \<open>metis+\<close>)

text \<open>C14. Whatever the threads do and in whatever order, the service keeps its bounds: the open connections are exactly
  the registered ones and at most \<open>max_connections\<close>, the queue holds at most \<open>pending_connections\<close> of them, at most
  \<open>worker_threads\<close> are served, and no connection is in two places at once.\<close>

theorem admission_bounds:
  assumes "server_run (Server_start opts w) s"
  shows "distinct (open_handles s) \<and> connections s = set (open_handles s) \<and>
    active_connections s = length (open_handles s) \<and> active_connections s \<le> max_connections opts \<and>
    length (queue s) \<le> pending_connections opts \<and> length (serving s) \<le> worker_threads opts"
proof -
  have "server_ok s" "server_options s = opts"
    using server_ok_run [OF assms server_ok_start] by (simp_all add: Server_start_def)
  then show ?thesis by (auto simp: server_ok_def)
qed

text \<open>A run that admits a connection and queues it.\<close>

lemma admitted_run:
  obtains s where "server_run (Server_start ServerOptions_default w) s" "queue s = [7]" "acceptor_running s" "\<not> stopping s"
    "accepting s = None" "serving s = []" "server_options s = ServerOptions_default"
proof -
  let ?s = "Server_start ServerOptions_default w"
  let ?t = "acceptor_admit 7 ?s"
  have 1: "server_step ?s ?t" by (rule admit) (simp_all add: Server_start_def open_handles_def)
  have 2: "server_step ?t (acceptor_enqueue 7 ?t)"
    by (rule enqueue) (simp add: acceptor_admit_def Server_start_def ServerOptions_default_def)
  have "server_run ?s (acceptor_enqueue 7 ?t)" by (rule server_next [OF server_next [OF server_refl 1] 2])
  then show thesis
    by (rule that) (simp_all add: acceptor_enqueue_def EnqueueConnection_def acceptor_admit_def Server_start_def ServerOptions_default_def)
qed

lemma admission_bounds_witness: "\<exists>s :: Server. queue s = [7] \<and> active_connections s = 1 \<and> connections s = {7}"
proof -
  obtain s where s: "server_run (Server_start ServerOptions_default (small_authority, blank_directory)) s" "queue s = [7]"
    "accepting s = None" "serving s = []" by (rule admitted_run) blast
  then have "active_connections s = 1 \<and> connections s = {7}" using admission_bounds [OF s(1)] by (simp add: open_handles_def)
  then show ?thesis using s(2) by blast
qed

section \<open>Shutdown\<close>

text \<open>What is left to do once a shutdown was requested.\<close>

definition remaining :: "Server \<Rightarrow> nat" where
  "remaining s = (if acceptor_running s then 1 else 0) + (if accepting s \<noteq> None then 1 else 0) + 2 * length (queue s)
     + length (serving s)"

lemma stop_kept: "serve_hello opts c sends x srv n = (y, m) \<Longrightarrow> stop_requested (sv_service y) = stop_requested srv"
  by (auto simp: serve_hello_def Let_def split: prod.splits sum.splits option.splits if_splits)

lemma stopping_step:
  "server_step s t \<Longrightarrow> stopping s \<Longrightarrow> stopping t \<and> set (open_handles t) \<subseteq> set (open_handles s) \<and> remaining t \<le> remaining s"
proof (induction rule: server_step.induct)
  case (take s)
  then obtain h q where "queue s = h # q" by (cases "queue s") auto
  then show ?case using take by (auto simp: worker_take_def open_handles_def remaining_def)
next
  case (finish h s)
  then show ?case
    by (auto simp: worker_finish_def open_handles_def remaining_def length_remove1 dest: notin_set_remove1 split: option.splits)
next
  case (hello h s sends x y m)
  then show ?case using stop_kept by (auto simp: open_handles_def remaining_def)
qed (auto simp: acceptor_enqueue_def acceptor_leave_def BeginShutdown_def open_handles_def remaining_def Let_def split: option.splits)

lemma stopping_progress:
  assumes "server_ok s" "stopping s" "remaining s > 0" "worker_threads (server_options s) > 0"
  obtains t where "server_step s t" "remaining t < remaining s"
proof -
  consider h where "accepting s = Some h" | "accepting s = None" "acceptor_running s"
    | h where "h \<in> set (serving s)" | "accepting s = None" "serving s = []" "queue s \<noteq> []"
    using assms(3) by (cases "accepting s"; cases "serving s"; cases "queue s") (auto simp: remaining_def split: if_splits)
  then show thesis
  proof cases
    case 1
    then have "acceptor_running s" using assms(1) by (auto simp: server_ok_def)
    then show thesis using 1 assms(2) by (intro that [OF enqueue [OF 1]]) (simp add: acceptor_enqueue_def Let_def remaining_def)
  next
    case 2
    then show thesis by (intro that [OF leave]) (simp_all add: acceptor_leave_def remaining_def)
  next
    case 3
    then have "length (remove1 h (serving s)) < length (serving s)"
      using length_pos_if_in_set [OF 3] by (simp add: length_remove1 3)
    then show thesis by (intro that [OF finish [OF 3]]) (simp add: worker_finish_def remaining_def)
  next
    case 4
    then show thesis using assms(4)
      by (intro that [OF take]) (auto simp: worker_take_def remaining_def neq_Nil_conv)
  qed
qed

lemma server_run_trans: "server_run t u \<Longrightarrow> server_run s t \<Longrightarrow> server_run s u"
  by (induction rule: server_run.induct) (auto intro: server_next)

lemma stopping_drains:
  "server_ok s \<Longrightarrow> stopping s \<Longrightarrow> worker_threads (server_options s) > 0 \<Longrightarrow> \<exists>t. server_run s t \<and> remaining t = 0"
proof (induction "remaining s" arbitrary: s rule: less_induct)
  case less
  show ?case
  proof (cases "remaining s = 0")
    case False
    then obtain t where t: "server_step s t" "remaining t < remaining s" using stopping_progress less.prems by blast
    then obtain u where "server_run t u" "remaining u = 0"
      using less.hyps [OF t(2)] server_ok_step [OF t(1)] stopping_step [OF t(1)] less.prems by auto
    then show ?thesis using server_run_trans [OF _ server_next [OF server_refl t(1)]] by blast
  qed (use server_refl in blast)
qed



end
