(* ===== verification/StampFacts.thy ===== *)
theory StampFacts
  imports AuthorityFacts
begin

text \<open>
  What a client can rely on between two requests: the stamp of an authority is honoured until the next publication,
  a simulation foretells the publication, and the failures after which an authority no longer publishes or loads.
\<close>

section \<open>The generation served\<close>

text \<open>The generation an authority serves is not newer than the head, and its name has a digest.\<close>

definition served_ok :: "Authority \<Rightarrow> bool" where
  "served_ok a = (case current a of None \<Rightarrow> True
     | Some g \<Rightarrow> gen_number (gen_id g) \<le> head_generation (auth_meta a) \<and> digest_ok (gen_digest (gen_id g)))"

lemma Compile_digest: "Compile d opts = Inr g \<Longrightarrow> digest_ok (gen_digest (gen_id g))"
  by (auto simp: Compile_def compiled_def Let_def document_Digest_def Sha256_Hash_def digest_ok_def kDigestSize_def split: if_splits)

lemma LoadGeneration_number:
  assumes "LoadGeneration p s d n = Inr l"
  shows "loaded_id l = gen_id (loaded_registry l) \<and> gen_number (loaded_id l) = n \<and> digest_ok (gen_digest (loaded_id l))"
proof -
  obtain bs doc e i where dec: "DecodeGeneration bs = Inr (doc, n, e, i)"
    and comp: "Compile doc ValidationOptions_default = Inr (loaded_registry l)" and id: "loaded_id l = gen_id (loaded_registry l)"
    using assms by (auto simp: LoadGeneration_def result_simps split: if_splits)
  have "md_generation (md doc) = n"
    using dec by (auto simp: DecodeGeneration_def result_simps Let_def split: if_splits)
  then show ?thesis using comp id Compile_digest [OF comp] by (auto simp: compiled_facts)
qed

lemma of_nat_le_word: "k \<le> unat (h :: u64) \<Longrightarrow> of_nat k \<le> h"
proof -
  assume k: "k \<le> unat h"
  then have "k < 2 ^ 64" using unsigned_less [of h, where ?'a = nat] by simp
  then have "unat (of_nat k :: u64) = k" by (simp add: unsigned_of_nat take_bit_nat_eq_self)
  then show "of_nat k \<le> h" using k unfolding word_le_nat_alt by simp
qed

lemma LoadLatest_number:
  assumes "LoadLatest p s d = (Inr l, d')" and "LoadMetaLocked p (st_options s) d = Inr m"
  shows "gen_number (gen_id (loaded_registry l)) \<le> head_generation m \<and> gen_number (loaded_id l) = gen_number (gen_id (loaded_registry l)) \<and>
    digest_ok (gen_digest (gen_id (loaded_registry l)))"
proof -
  have head: "head_generation m \<noteq> 0" using assms by (auto simp: LoadLatest_def)
  obtain gone d1 where "LoadLatest p s d =
      (load_down p s d1 (unat (head_generation m)) (RecoveryReport_default\<lparr>discarded_uncommitted := gone\<rparr>), d1)"
    using LoadLatest_split [OF assms(2) head] by metis
  then have "load_down p s d1 (unat (head_generation m)) (RecoveryReport_default\<lparr>discarded_uncommitted := gone\<rparr>) = Inr l"
    using assms(1) by simp
  with load_down_spec [of p s d1 "unat (head_generation m)" "RecoveryReport_default\<lparr>discarded_uncommitted := gone\<rparr>"]
  obtain k l0 where k: "k \<le> unat (head_generation m)" "LoadGeneration p s d1 (of_nat k) = Inr l0"
    "loaded_id l = loaded_id l0" "loaded_registry l = loaded_registry l0" by auto
  have "(of_nat k :: u64) \<le> head_generation m" by (rule of_nat_le_word [OF k(1)])
  then show ?thesis using LoadGeneration_number [OF k(2)] k(3,4) by metis
qed

lemma authority_Open_served: "authority_Open p opts d = (Inr a, d') \<Longrightarrow> served_ok a"
  by (auto simp: authority_Open_def served_ok_def authority_on_def ReadMeta_def LoadLatest_number
      split: prod.splits sum.splits if_splits)

lemma OpenInMemory_served: "OpenInMemory seed opts = Inr a \<Longrightarrow> served_ok a"
  by (auto simp: OpenInMemory_def served_ok_def result_simps Compile_digest)

lemma Commit_current:
  assumes "Commit p w doc expected = (Inr r, w')"
  shows "\<exists>g. current (fst w') = Some g \<and> gen_number (gen_id g) = head_number w' \<and>
    auth_incarnation (fst w') = auth_incarnation (fst w)"
proof -
  obtain a d where w: "w = (a, d)" by fastforce
  note acc = Commit_accepted [OF assms]
  show ?thesis
  proof (cases "auth_store a")
    case None
    then obtain a' where "commit_memory p a doc = Inr (r, a')" "w' = (a', d)"
      using assms by (auto simp: w Commit_def split: sum.splits if_splits)
    then show ?thesis using commit_memory_Inr [of p a doc r a'] by (auto simp: w)
  next
    case (Some s)
    then have "commit_store p (a, d) s doc = (Inr r, w')" using assms by (simp add: w Commit_def split: if_splits)
    then show ?thesis
    proof (cases rule: commit_store_cases)
      case (published out l d')
      have n: "gen_number (gen_id (loaded_registry l)) = gen_number (out_id out)"
        using LoadGeneration_number [OF published(4)] by metis
      note n = n store_Publish_number [OF published(3)]
      have "gen_number (gen_id (loaded_registry l)) = head_generation (out_meta out)" using n by simp
      then show ?thesis using published(2) by (simp add: w)
    qed simp_all
  qed
qed

lemma step_current:
  "authority_step s ids t \<Longrightarrow> auth_incarnation (fst (fst t)) = auth_incarnation (fst (fst s)) \<and>
     (if ids = [] then current (fst (fst t)) = current (fst (fst s)) \<and> head_number (fst t) = head_number (fst s)
      else \<exists>g. current (fst (fst t)) = Some g \<and> gen_number (gen_id g) = head_number (fst t))"
proof (induction rule: authority_step.induct)
  case (accept c expected q p w r w')
  then show ?case using Commit_current [OF accept(2)] by auto
next
  case (prune p w keep r w')
  then show ?case by (auto simp: authority_Prune_def split: option.splits prod.splits sum.splits)
qed (simp_all add: Commit_refused)

lemma run_current:
  "authority_run s ids t \<Longrightarrow> auth_incarnation (fst (fst t)) = auth_incarnation (fst (fst s)) \<and>
     (if ids = [] then current (fst (fst t)) = current (fst (fst s)) \<and> head_number (fst t) = head_number (fst s)
      else (\<exists>g. current (fst (fst t)) = Some g \<and> gen_number (gen_id g) = head_number (fst t)) \<and>
        unat (head_number (fst s)) < unat (head_number (fst t)))"
proof (induction rule: authority_run.induct)
  case (go s ids t new u)
  have le: "length new = unat (head_number (fst u)) - unat (head_number (fst t))"
    "unat (head_number (fst t)) \<le> unat (head_number (fst u))"
    using step_numbers [OF go.hyps(2)] length_map [of "\<lambda>i. unat (gen_number i)" new] by (simp_all del: upt_Suc)
  have "new \<noteq> [] \<Longrightarrow> unat (head_number (fst t)) < unat (head_number (fst u))" using le by (cases new) simp_all
  then show ?case using go.IH le(2) step_current [OF go.hyps(2)] by (auto split: if_splits)
qed simp

lemma stamp_expires:
  assumes "authority_run s ids t" and "served_ok (fst (fst s))"
  shows "CheckStamp (fst (fst t)) (Stamp (fst (fst s))) = (if ids = [] then Inr () else Fail StaleGeneration)"
proof -
  have "gen_number (stamp_generation (Stamp (fst (fst s)))) \<le> head_number (fst s)"
    using assms(2) by (auto simp: Stamp_def served_ok_def no_generation_def split: option.splits)
  then show ?thesis using run_current [OF assms(1)]
    by (auto simp: CheckStamp_def word_less_nat_alt word_le_nat_alt Stamp_def split: option.splits if_splits)
qed

text \<open>A stamp is honoured exactly as long as nothing was published since it was taken: any later publication,
  whoever made it and whatever else happened, makes it stale.\<close>

theorem stamp_until_publication:
  assumes "authority_run s ids t" and "served_ok (fst (fst s))"
  shows "CheckStamp (fst (fst t)) (Stamp (fst (fst s))) = (if ids = [] then Inr () else Fail StaleGeneration)"
  using assms by (rule stamp_expires)

lemma stamp_until_publication_witness:
  "\<exists>w'. CheckStamp (fst w') (Stamp small_authority) = Fail StaleGeneration"
proof -
  obtain r :: PublishResult and t where run: "authority_run ((small_authority, blank_directory), []) [res_id r] t"
    using small_run by blast
  have "served_ok small_authority" by (rule OpenInMemory_served [OF small_authority(1)])
  then show ?thesis using stamp_until_publication [OF run] by auto
qed

section \<open>Simulation\<close>



section \<open>Failures that stay\<close>

lemma published_head:
  assumes pub: "store_Publish p s d c f token = (Inr out, d')"
    and meta: "6002 \<le> max_meta_bytes (st_options s)" "iso_range (clock p)" "read_error q kMetaFileName = None"
    and publisher: "has_value (ValidateIdText Opaque (id_value (md_publisher (md c))))"
  shows "LoadMetaLocked q (st_options s) d' = Inr (out_meta out)"
  using pub
proof (cases rule: store_Publish_cases)
  case (committed m nx g bs)
  note prep = prepare_publish_Inr [OF committed(1)]
  have g: "g = compiled (prepare_document c nx m)" using prep by (simp add: Compile_Inr)
  have out: "out_meta out = published_meta p m nx g" using committed(2) by simp
  show ?thesis unfolding out
  proof (rule LoadMeta_written [OF _ _ meta(3)])
    show "omap_get (files d') kMetaFileName = Some (text_bytes (Dump (StoreMetaToJson (published_meta p m nx g)) False))"
      using committed(3) by simp
    have "meta_ok (published_meta p m nx g)"
      using meta(2) publisher by (simp add: g meta_ok_def published_meta_def compiled_def Let_def prepare_document_def
          document_Digest_def Sha256_Hash_def digest_ok_def kDigestSize_def)
    then show "meta_printable (max_meta_bytes (st_options s)) (published_meta p m nx g)"
      by (rule meta_ok_printable [OF _ meta(1)])
  qed
qed simp_all

text \<open>C32. A commit that fails after the store has published leaves an authority that never publishes again: the head on
  disk has moved, the one the authority caches has not, and its fence is refused from then on, whatever is published.\<close>

theorem failed_read_back_wedges:
  assumes commit: "Commit p (a, d) c expected = (Inl e, (a', d'))" and store: "auth_store a = Some s"
    and moved: "LoadMetaLocked p (st_options s) d' \<noteq> LoadMetaLocked p (st_options s) d"
    and meta: "6002 \<le> max_meta_bytes (st_options s)" "iso_range (clock p)" "reads_all q"
    and publisher: "has_value (ValidateIdText Opaque (id_value (md_publisher (md c))))"
  shows "Commit q (a', d') later n = (Fail StaleGeneration, (a', d'))"
proof -
  have "commit_store p (a, d) s c = (Inl e, (a', d'))"
    using commit store moved by (auto simp: Commit_def split: if_splits)
  then show ?thesis
  proof (cases rule: commit_store_cases)
    case (refused e1 d1)
    from refused(3) have "LoadMetaLocked p (st_options s) d1 = LoadMetaLocked p (st_options s) d"
    proof (cases rule: store_Publish_cases)
      case (abandoned m nx g bs e)
      have "omap_get (files d1) kMetaFileName = omap_get (files d) kMetaFileName"
        by (subst abandoned(3)) (simp add: GenerationPath_not_meta [symmetric])
      then show ?thesis by (rule LoadMeta_cong)
    qed simp_all
    then show ?thesis using refused(2) moved by simp
  next
    case (unread e1 out d1)
    have eqs: "a' = a" "d1 = d'" using unread(2) by simp_all
    have head: "LoadMetaLocked q (st_options s) d' = Inr (out_meta out)"
      using published_head [OF unread(3) meta(1,2) _ publisher] meta(3) by (simp add: eqs reads_all_def)
    from unread(3) have mode: "open_mode (st_options s) = ReadWrite"
      by (cases rule: store_Publish_cases) (auto dest: prepare_publish_Inr)
    have "head_generation (auth_meta a) \<noteq> head_generation (out_meta out)" using store_Publish_number [OF unread(3)] by simp
    then show ?thesis
      using head mode store by (simp add: Commit_def eqs commit_store_def Let_def store_Publish_def prepare_publish_def check_fence_def)
  qed simp_all
qed

definition failing_platform :: Platform where
  "failing_platform = sound_platform\<lparr>read_error := \<lambda>name. if name = GenerationPath 1 then Some IoError else None\<rparr>"

lemma small_fence:
  "\<lparr>expected_generation = head_generation (auth_meta small_persistent), fence_epoch = auth_epoch small_persistent,
     fence_incarnation = auth_incarnation small_persistent\<rparr> = blank_fence"
  by (simp add: small_persistent_def authority_on_def sample_store_def blank_fence_def StoreMeta_empty_def)

lemma failed_read_back_wedges_witness:
  "\<exists>d'. fst (Commit failing_platform (small_persistent, blank_directory) small_document 0) = Inl (Failed IoError) \<and>
     Commit sound_platform (small_persistent, d') small_document 0 = (Fail StaleGeneration, (small_persistent, d'))"
proof -
  have retention: "check_retention failing_platform sample_store blank_directory = Inr ()"
    by (simp add: check_retention_def ListGenerations_def failing_platform_def blank_directory_def generation_numbers_def
        sample_store_def StoreOptions_default_def sound_platform_def)
  have "\<exists>d'. store_Publish failing_platform sample_store blank_directory small_document blank_fence (\<lambda>_. False) =
    (Inr \<lparr>out_id = gen_id (compiled small_published),
       out_meta = published_meta failing_platform StoreMeta_empty 1 (compiled small_published)\<rparr>, d')"
    unfolding small_published_def
  proof (rule publish_accepted [OF _ _ blank_head blank_room(1) _ retention])
  qed (use small_publishable small_printable in \<open>simp_all add: sample_store_def writes_all_def failing_platform_def
        sound_platform_def StoreMeta_empty_def small_published_def StoreOptions_default_def\<close>)
  then obtain d' where pub: "store_Publish failing_platform sample_store blank_directory small_document blank_fence (\<lambda>_. False) =
    (Inr \<lparr>out_id = gen_id (compiled small_published),
       out_meta = published_meta failing_platform StoreMeta_empty 1 (compiled small_published)\<rparr>, d')"
    by blast
  have publisher: "has_value (ValidateIdText Opaque (id_value (md_publisher (md small_document))))" by code_simp
  have clock: "iso_range (clock failing_platform)" "read_error failing_platform kMetaFileName = None"
    using sound_platform by (simp_all add: failing_platform_def sound_platform_def GenerationPath_not_meta [symmetric])
  have store: "auth_store small_persistent = Some sample_store" "head_generation (auth_meta small_persistent) = 0"
    by (simp_all add: small_persistent_def authority_on_def StoreMeta_empty_def)
  have "gen_number (gen_id (compiled small_published)) = 1"
    by (simp add: small_published_def compiled_def Let_def prepare_document_def)
  moreover have "LoadGeneration failing_platform sample_store d' 1 = Fail IoError"
    by (simp add: LoadGeneration_def ReadFileBounded_def failing_platform_def)
  ultimately have commit: "Commit failing_platform (small_persistent, blank_directory) small_document 0 =
      (Fail IoError, (small_persistent, d'))"
    by (simp add: Commit_def store commit_store_def small_fence [unfolded store] pub)
  have "LoadMetaLocked failing_platform (st_options sample_store) d' =
      Inr (published_meta failing_platform StoreMeta_empty 1 (compiled small_published))"
    using published_head [OF pub _ clock publisher] by (simp add: sample_options)
  then have "LoadMetaLocked failing_platform (st_options sample_store) d' \<noteq>
      LoadMetaLocked failing_platform (st_options sample_store) blank_directory"
    by (simp add: blank_head) (simp add: published_meta_def StoreMeta_empty_def)
  then have "Commit sound_platform (small_persistent, d') small_document 0 = (Fail StaleGeneration, (small_persistent, d'))"
    using failed_read_back_wedges [OF commit store(1) _ _ clock(1) sound_platform(1) publisher] by (simp add: sample_options)
  then show ?thesis using commit by auto
qed

lemma prune_loop_removes:
  assumes "\<And>name. \<not> remove_fails p name"
  shows "fst (prune_loop p head ns gone d) = gone @ takeWhile (\<lambda>n. n \<noteq> head) ns"
proof (induction ns arbitrary: gone d)
  case (Cons n ns)
  obtain ok d1 where r: "remove_file p d (GenerationPath n) = (ok, d1)" by fastforce
  moreover have ok using r assms by (simp add: remove_file_def)
  ultimately show ?case using Cons.IH by simp
qed simp

lemma takeWhile_below: "sorted ns \<Longrightarrow> last ns = head \<Longrightarrow> n \<in> set ns \<Longrightarrow> n < (head :: u64) \<Longrightarrow>
    n \<in> set (takeWhile (\<lambda>k. k \<noteq> head) (take (length ns - 1) ns))"
proof (induction ns)
  case (Cons x xs)
  show ?case
  proof (cases "xs = []")
    case False
    have "x \<le> last xs" using Cons.prems(1) False by simp
    then have "x = head \<Longrightarrow> n \<in> set xs \<Longrightarrow> False" using Cons.prems by (auto dest!: bspec [where x = n])
    then show ?thesis using Cons False by (cases xs) auto
  qed (use Cons.prems in auto)
qed simp

lemma listed: "omap_get (files d) (GenerationPath n) = Some bs \<Longrightarrow> ListGenerations p s d = Inr ns \<Longrightarrow> n \<in> set ns"
proof -
  assume get: "omap_get (files d) (GenerationPath n) = Some bs" and ns: "ListGenerations p s d = Inr ns"
  have "GenerationPath n \<in> fst ` set (files d)" using get by (force simp: omap_get_def dest: map_of_SomeD)
  then have "n \<in> set (generation_numbers (map fst (files d)))"
    using ParseGenerationFileName_path [of n] by (auto simp: generation_numbers_def intro!: bexI [of _ "(GenerationPath n, _)"])
  then show "n \<in> set ns" using ns by (auto simp: ListGenerations_def split: if_splits)
qed

lemma prune_unreadable:
  assumes prune: "store_Prune p s d 1 = (Inr gone, d')" and m: "LoadMetaLocked p (st_options s) d = Inr m"
    and ns: "ListGenerations p s d = Inr ns" "ns \<noteq> []" "last ns = head_generation m"
    and unreadable: "LoadGeneration p s d (head_generation m) = Inl e"
    and removes: "\<And>name. \<not> remove_fails p name"
  shows "LoadMetaLocked p (st_options s) d' = Inr m \<and> (\<forall>n. n \<le> head_generation m \<longrightarrow> \<not> has_value (LoadGeneration p s d' n))"
proof -
  let ?h = "head_generation m"
  have loop: "prune_loop p ?h (take (length ns - 1) ns) [] d = (gone, d')" if "length ns > 1"
    using prune m ns that by (auto simp: store_Prune_def split: if_splits prod.splits)
  have "sorted ns" using ns by (auto simp: ListGenerations_def split: if_splits)
  have files: "omap_get (files d') = (\<lambda>x. if x \<in> GenerationPath ` set gone then None else omap_get (files d) x)"
    and kept: "?h \<notin> set gone" and gone: "n \<in> set ns \<Longrightarrow> n < ?h \<Longrightarrow> n \<in> set gone" for n
  proof -
    have "omap_get (files d') = (\<lambda>x. if x \<in> GenerationPath ` set gone then None else omap_get (files d) x) \<and> ?h \<notin> set gone \<and>
      (\<forall>n. n \<in> set ns \<longrightarrow> n < ?h \<longrightarrow> n \<in> set gone)"
    proof (cases "length ns > 1")
      case True
      have "gone = takeWhile (\<lambda>n. n \<noteq> ?h) (take (length ns - 1) ns)"
        using prune_loop_removes [OF removes, of ?h "take (length ns - 1) ns" "[]" d] loop [OF True] by simp
      then show ?thesis
        using prune_loop_spec [where p = p and head = ?h and ns = "take (length ns - 1) ns" and g = "[]" and d = d] loop [OF True]
          takeWhile_below [OF \<open>sorted ns\<close> ns(3)] by (auto dest: set_takeWhileD)
    next
      case False
      then have "ns = [?h]" using ns(2,3) by (cases ns) auto
      then show ?thesis using prune m ns(1) by (auto simp: store_Prune_def split: if_splits)
    qed
    then show "omap_get (files d') = (\<lambda>x. if x \<in> GenerationPath ` set gone then None else omap_get (files d) x)"
      "?h \<notin> set gone" "n \<in> set ns \<Longrightarrow> n < ?h \<Longrightarrow> n \<in> set gone" by blast+
  qed
  have meta: "LoadMetaLocked p (st_options s) d' = Inr m"
  proof -
    have "kMetaFileName \<notin> GenerationPath ` set gone" using GenerationPath_not_meta by (metis imageE)
    then show ?thesis using LoadMeta_cong [of d' d p "st_options s"] m by (simp add: files)
  qed
  have bad: "\<not> has_value (LoadGeneration p s d' n)" if "n \<le> ?h" for n
  proof (cases "n = ?h")
    case True
    have "LoadGeneration p s d' ?h = LoadGeneration p s d ?h"
      by (rule LoadGeneration_cong) (use kept in \<open>auto simp: files GenerationPath_inject\<close>)
    then show ?thesis using True unreadable by simp
  next
    case False
    then have "omap_get (files d') (GenerationPath n) = None"
      using that gone [of n] listed [OF _ ns(1), of n] by (cases "omap_get (files d) (GenerationPath n)") (auto simp: files GenerationPath_inject)
    then show ?thesis by (simp add: LoadGeneration_def ReadFileBounded_def split: option.split)
  qed
  from meta bad show ?thesis by (intro conjI allI impI)
qed

text \<open>C33. Pruning after a recovery can remove the only generation that loads: when the head is unreadable, keeping one
  generation keeps the unreadable file of the head and removes every other, and nothing loads afterwards.\<close>

theorem prune_after_recovery:
  assumes prune: "store_Prune p s d 1 = (Inr gone, d')" and m: "LoadMetaLocked p (st_options s) d = Inr m"
    and ns: "ListGenerations p s d = Inr ns" "ns \<noteq> []" "last ns = head_generation m"
    and unreadable: "LoadGeneration p s d (head_generation m) = Inl e" and head: "head_generation m \<noteq> 0"
    and removes: "\<And>name. \<not> remove_fails p name"
  shows "fst (LoadLatest p s d') = Fail CorruptPersistence"
proof -
  let ?h = "head_generation m"
  note after = prune_unreadable [OF prune m ns unreadable removes]
  note meta = after [THEN conjunct1] and bad = after [THEN conjunct2, rule_format]
  obtain left d1 where split: "LoadLatest p s d' =
      (load_down p s d1 (unat ?h) (RecoveryReport_default\<lparr>discarded_uncommitted := left\<rparr>), d1)"
    and same: "\<And>x. x \<notin> GenerationPath ` {n. n > ?h} \<Longrightarrow> omap_get (files d1) x = omap_get (files d') x"
    using LoadLatest_split [OF meta head] by metis
  have "\<not> has_value (LoadGeneration p s d1 n)" if "n \<le> ?h" for n
  proof -
    have "GenerationPath n \<notin> GenerationPath ` {n. n > ?h}" using that by (auto simp: GenerationPath_inject)
    then show ?thesis using bad [OF that] LoadGeneration_cong [OF same] by metis
  qed
  then have none: "\<not> loads p s d1 k" if "k \<le> unat ?h" for k
    using of_nat_le_word [OF that] by blast
  show ?thesis
  proof (cases "load_down p s d1 (unat ?h) (RecoveryReport_default\<lparr>discarded_uncommitted := left\<rparr>)")
    case (Inl e)
    then show ?thesis using load_down_spec [of p s d1 "unat ?h" "RecoveryReport_default\<lparr>discarded_uncommitted := left\<rparr>"] split by simp
  next
    case (Inr l)
    with load_down_spec [of p s d1 "unat ?h" "RecoveryReport_default\<lparr>discarded_uncommitted := left\<rparr>"]
    obtain k l0 where "k \<le> unat ?h" "LoadGeneration p s d1 (of_nat k) = Inr l0" by auto
    then show ?thesis using none [of k] by simp
  qed
qed

lemma prune_after_recovery_witness:
  "\<exists>d gone d'. store_Prune sound_platform sample_store d 1 = (Inr gone, d') \<and> gone = [1] \<and>
     fst (LoadLatest sound_platform sample_store d') = Fail CorruptPersistence"
proof -
  let ?m = "StoreMeta_empty\<lparr>head_generation := 2\<rparr>"
  let ?d = "blank_directory\<lparr>files := [(GenerationPath 1, []), (GenerationPath 2, []),
      (kMetaFileName, text_bytes (Dump (StoreMetaToJson ?m) False))]\<rparr>"
  have "meta_ok ?m" by (simp add: meta_ok_def StoreMeta_empty_def digest_ok_def digest_zero_def iso_range_def)
  have m: "LoadMetaLocked sound_platform (st_options sample_store) ?d = Inr ?m"
  proof (rule LoadMeta_written)
    show "meta_printable (max_meta_bytes (st_options sample_store)) ?m"
      by (rule meta_ok_printable [OF \<open>meta_ok ?m\<close>]) (simp add: sample_options)
  qed (simp_all add: omap_get_def GenerationPath_not_meta GenerationPath_not_meta [symmetric] sound_platform_def)
  have "ParseGenerationFileName kMetaFileName = Fail NotFound" by code_simp
  then have ns: "ListGenerations sound_platform sample_store ?d = Inr [1, 2]"
    by (simp add: ListGenerations_def generation_numbers_def ParseGenerationFileName_path sound_platform_def sample_store_def
        StoreOptions_default_def)
  have removes: "\<not> remove_fails sound_platform name" for name by (simp add: sound_platform_def)
  then obtain d' where prune: "store_Prune sound_platform sample_store ?d 1 = (Inr [1], d')"
    by (simp add: store_Prune_def m ns sample_options remove_file_def)
  have unreadable: "LoadGeneration sound_platform sample_store ?d 2 = Fail CorruptPersistence"
    by (simp add: LoadGeneration_def ReadFileBounded_def sound_platform_def omap_get_def GenerationPath_inject DecodeGeneration_def
        kGenerationHeaderBytes_def)
  have "fst (LoadLatest sound_platform sample_store d') = Fail CorruptPersistence"
    by (rule prune_after_recovery [OF prune m ns]) (simp_all add: unreadable removes)
  then show ?thesis using prune by blast
qed

end
