(* ===== verification/ProtocolFacts.thy ===== *)
theory ProtocolFacts
  imports AdmissionFacts StampFacts
begin

text \<open>
  What the service promises for a request: which requests change its state and under which conditions, that a
  stamp fences a request, and that the requests of all connections, however the threads interleave, drive the authority
  through runs of its own state machine.
\<close>

section \<open>Names of operations\<close>

lemma ParseOperation_iff: "ParseOperation t = Inr op \<longleftrightarrow> t = OperationName op"
  by (cases op) (auto simp: ParseOperation_def)

section \<open>Which requests change the service\<close>

lemma ExecuteRequest_cases:
  assumes "ExecuteRequest p ctx r s = (x, t)"
  obtains e where "x = Inl e" "t = s"
  | op where "RequireString r ''op'' = Inr (OperationName op)" "check_request_stamp r (fst (service_world s)) = Inr ()"
      "has_authority ctx" "Execute p ctx op r s = (x, t)"
proof (cases "res_bind (res_bind (RequireString r ''op'') ParseOperation) (\<lambda>op.
    res_bind (check_request_stamp r (fst (service_world s))) (\<lambda>_. Inr op))")
  case (Inl e)
  then show ?thesis using assms that(1) by (auto simp: ExecuteRequest_def split: if_splits)
next
  case (Inr op)
  then have "RequireString r ''op'' = Inr (OperationName op)" "check_request_stamp r (fst (service_world s)) = Inr ()"
    by (auto simp: result_simps ParseOperation_iff)
  then show ?thesis using assms Inr that by (auto simp: ExecuteRequest_def split: if_splits)
qed

lemma Prepare_accepts:
  "Prepare a doc expected token = Inr (c, report) \<Longrightarrow>
     expected = head_generation (auth_meta a) \<and> \<not> token 0 \<and> Publishable (ValidateDocument a doc)"
  by (auto simp: Prepare_def Let_def result_simps Validate_candidate ValidateDocument_def split: if_splits)

lemma Publish_changes:
  "Publish p w d expected token = (x, w') \<Longrightarrow> w' \<noteq> w \<Longrightarrow>
     expected = head_number w \<and> \<not> token 0 \<and> Publishable (ValidateDocument (fst w) d)"
  by (auto simp: Publish_def dest: Prepare_accepts split: sum.splits)

lemma HandlePublish_changes:
  "HandlePublish p ctx r w = (x, w') \<Longrightarrow> w' \<noteq> w \<Longrightarrow>
     allow_publish ctx \<and> \<not> flag_set r ''dry_run'' \<and> ReadGeneration r ''expected_generation'' = Inr (head_number w) \<and>
     \<not> shutdown_token ctx 0 \<and> (\<exists>d. request_document r = Inr d \<and> Publishable (ValidateDocument (fst w) d))"
  by (auto simp: HandlePublish_def dest: Publish_changes split: if_splits sum.splits prod.splits)

lemma HandlePrune_changes:
  "HandlePrune p ctx r w = (x, w') \<Longrightarrow> w' \<noteq> w \<Longrightarrow>
     allow_prune ctx \<and> auth_store (fst w) \<noteq> None \<and> auth_meta (fst w') = auth_meta (fst w) \<and>
     current (fst w') = current (fst w) \<and> (\<exists>keep\<le>100000. RequireUInt r ''keep'' = Inr keep)"
  by (auto simp: HandlePrune_def authority_Prune_def split: if_splits sum.splits prod.splits option.splits)

text \<open>C11. A request changes the service only if it names an operation that may and passes its fence: a publication that is
  allowed, not a dry run, expects the head, carries a valid document and comes before the shutdown; a prune that is
  allowed, bounded and on a persistent authority, which leaves the head alone; or a shutdown that is allowed. Every other
  request, refused or answered, leaves the service as it was.\<close>

theorem change_authorized:
  assumes "ExecuteRequest p ctx r s = (x, t)" and "t \<noteq> s"
  shows "\<exists>op. RequireString r ''op'' = Inr (OperationName op) \<and>
    check_request_stamp r (fst (service_world s)) = Inr () \<and>
    (case op of
       OpPublish \<Rightarrow> allow_publish ctx \<and> \<not> flag_set r ''dry_run'' \<and>
         ReadGeneration r ''expected_generation'' = Inr (head_number (service_world s)) \<and> \<not> shutdown_token ctx 0 \<and>
         (\<exists>d. request_document r = Inr d \<and> Publishable (ValidateDocument (fst (service_world s)) d)) \<and>
         stop_requested t = stop_requested s
     | OpPrune \<Rightarrow> allow_prune ctx \<and> (\<exists>keep\<le>100000. RequireUInt r ''keep'' = Inr keep) \<and>
         auth_store (fst (service_world s)) \<noteq> None \<and> head_number (service_world t) = head_number (service_world s) \<and>
         current (fst (service_world t)) = current (fst (service_world s)) \<and> stop_requested t = stop_requested s
     | OpShutdown \<Rightarrow> allow_shutdown ctx \<and> has_shutdown_hook ctx \<and> t = s\<lparr>stop_requested := True\<rparr>
     | _ \<Rightarrow> False)"
  using assms(1)
proof (cases rule: ExecuteRequest_cases)
  case (2 op)
  then show ?thesis
    using assms(2)
    by (intro exI [of _ op]; cases op)
      (auto simp: Execute_def Let_def dest: HandlePublish_changes HandlePrune_changes split: prod.splits if_splits)
qed (use assms(2) in simp)

text \<open>A service on the example.\<close>

definition small_service :: Service where
  "small_service = \<lparr>service_world = (small_authority, blank_directory), stop_requested = False\<rparr>"

definition small_context :: RequestContext where
  "small_context = start_context ServerOptions_default (\<lambda>_. False)"

lemma change_authorized_witness:
  "let r = Set (JObj []) ''op'' (JStr ''shutdown''); t = snd (ExecuteRequest sound_platform small_context r small_service)
   in t \<noteq> small_service \<and> (\<exists>op. RequireString r ''op'' = Inr (OperationName op) \<and> t = small_service\<lparr>stop_requested := True\<rparr>)"
proof -
  let ?r = "Set (JObj []) ''op'' (JStr ''shutdown'')" and ?t = "small_service\<lparr>stop_requested := True\<rparr>"
  have "RequireString ?r ''op'' = Inr ''shutdown''" by (rule RequireString_Find) (simp_all add: json_simps)
  moreover have "ParseOperation ''shutdown'' = Inr OpShutdown" by (simp add: ParseOperation_iff)
  moreover have "check_request_stamp ?r a = Inr ()" for a by (simp add: check_request_stamp_def json_simps)
  ultimately have ex: "ExecuteRequest sound_platform small_context ?r small_service = (Inr (Set (JObj []) ''stopping'' (JBool True)), ?t)"
    by (simp add: ExecuteRequest_def Execute_def small_context_def start_context_def ServerOptions_default_def json_simps)
  have "?t \<noteq> small_service" by (simp add: small_service_def)
  then show ?thesis using change_authorized [OF ex] ex by (auto simp: Let_def)
qed

section \<open>Stamps\<close>

lemma ReadStamp_json:
  assumes "digest_ok (gen_digest (stamp_generation st))"
  shows "ReadStamp (stamp_json st) = Inr (if GenerationId_IsValid (stamp_generation st) then st
    else IncarnationStamp (stamp_incarnation st) no_generation)"
proof -
  have "IsObject (stamp_json st)" by (simp add: stamp_json_def set_when_def json_simps)
  moreover from this have "RequireUInt (stamp_json st) ''incarnation'' = Inr (stamp_incarnation st)"
    by (rule RequireUInt_Find) (simp add: stamp_json_def json_simps)
  moreover have "Find (stamp_json st) ''generation'' = (if GenerationId_IsValid (stamp_generation st)
      then Some (JStr (GenerationId_ToString (stamp_generation st))) else None)"
    by (simp add: stamp_json_def json_simps)
  ultimately show ?thesis using ParseGenerationId_ToString [OF assms] by (cases st) (simp add: ReadStamp_def)
qed

lemma served_digest: "served_ok a \<Longrightarrow> digest_ok (gen_digest (stamp_generation (Stamp a)))"
  by (auto simp: served_ok_def Stamp_def no_generation_def digest_ok_def digest_zero_def kDigestSize_def split: option.split)

lemma check_request_stamp_run:
  assumes "authority_run s ids t" and "served_ok (fst (fst s))" and "Find r ''stamp'' = Some (stamp_json (Stamp (fst (fst s))))"
  shows "ids \<noteq> [] \<Longrightarrow> check_request_stamp r (fst (fst t)) = Fail StaleGeneration"
    and "ids = [] \<Longrightarrow> current (fst (fst s)) = None \<or> GenerationId_IsValid (stamp_generation (Stamp (fst (fst s)))) \<Longrightarrow>
      check_request_stamp r (fst (fst t)) = Inr ()"
proof -
  let ?st = "Stamp (fst (fst s))"
  have nn: "\<not> IsNull (stamp_json ?st)" by (auto simp: stamp_json_def set_when_def)
  have check: "check_request_stamp r a = CheckStamp a (if GenerationId_IsValid (stamp_generation ?st) then ?st
      else IncarnationStamp (stamp_incarnation ?st) no_generation)" for a
    using assms(3) nn ReadStamp_json [OF served_digest [OF assms(2)]] by (simp add: check_request_stamp_def)
  note expires = stamp_expires [OF assms(1,2)]
  show "check_request_stamp r (fst (fst t)) = Fail StaleGeneration" if "ids \<noteq> []"
  proof -
    note published = run_current [OF assms(1)] that
    obtain g where g: "current (fst (fst t)) = Some g" "gen_number (gen_id g) \<noteq> 0"
      using published by (metis not_less_zero unsigned_0)
    then have "gen_id g \<noteq> no_generation" by (auto simp: no_generation_def)
    then show ?thesis using check expires g that by (auto simp: CheckStamp_def split: if_splits)
  qed
  show "check_request_stamp r (fst (fst t)) = Inr ()"
    if "ids = []" "current (fst (fst s)) = None \<or> GenerationId_IsValid (stamp_generation ?st)"
  proof (cases "GenerationId_IsValid (stamp_generation ?st)")
    case False
    then show ?thesis using check run_current [OF assms(1)] that by (simp add: CheckStamp_def Stamp_def)
  qed (use check expires that in simp)
qed

text \<open>C13. A stamp that a status or handshake gave, sent back with a request, fences it: if anything was published in between,
  the request is refused as stale and changes nothing, whatever it asks; if nothing was, it is executed as
  it would be without a stamp.\<close>

theorem stamped_request:
  assumes "authority_run s ids t" and "served_ok (fst (fst s))"
    and "Find r ''stamp'' = Some (stamp_json (Stamp (fst (fst s))))"
    and "has_authority ctx" and "RequireString r ''op'' = Inr (OperationName op)" and "service_world srv = fst t"
  shows "if ids \<noteq> [] then ExecuteRequest p ctx r srv = (Fail StaleGeneration, srv)
    else current (fst (fst s)) = None \<or> GenerationId_IsValid (stamp_generation (Stamp (fst (fst s)))) \<longrightarrow>
      ExecuteRequest p ctx r srv = Execute p ctx op r srv"
proof -
  have "IsObject r" using assms(5) by (auto simp: RequireString_def RequireField_def split: if_splits)
  then have ex: "ExecuteRequest p ctx r srv = (case check_request_stamp r (fst (fst t)) of Inl e \<Rightarrow> (Inl e, srv)
      | Inr _ \<Rightarrow> Execute p ctx op r srv)"
    using assms(4-6) ParseOperation_iff [of "OperationName op" op] by (simp add: ExecuteRequest_def split: sum.split)
  then show ?thesis using check_request_stamp_run [OF assms(1-3)] by (cases "ids = []") auto
qed

lemma stamped_request_witness:
  "\<exists>srv r. Find r ''stamp'' = Some (stamp_json (Stamp small_authority)) \<and>
     ExecuteRequest sound_platform small_context r srv = (Fail StaleGeneration, srv)"
proof -
  obtain x :: PublishResult and t where run: "authority_run ((small_authority, blank_directory), []) [res_id x] t"
    using small_run by blast
  let ?r = "Set (Set (JObj []) ''op'' (JStr ''publish'')) ''stamp'' (stamp_json (Stamp small_authority))"
  let ?srv = "\<lparr>service_world = fst t, stop_requested = False\<rparr>"
  have ok: "served_ok small_authority" by (rule OpenInMemory_served [OF small_authority(1)])
  have op: "RequireString ?r ''op'' = Inr (OperationName OpPublish)" by (rule RequireString_Find) (simp_all add: json_simps)
  have stamp: "Find ?r ''stamp'' = Some (stamp_json (Stamp small_authority))" by (simp add: json_simps)
  have "has_authority small_context" by (simp add: small_context_def start_context_def)
  then have "ExecuteRequest sound_platform small_context ?r ?srv = (Fail StaleGeneration, ?srv)"
    using stamped_request [OF run _ _ _ op, of small_context ?srv sound_platform] ok stamp by simp
  then show ?thesis using stamp by blast
qed

section \<open>The service runs the authority\<close>

lemma no_step [simp]: "\<exists>ids. authority_run s ids s"
  using authority_run.start by blast

lemma Publish_run: "Publish p w d expected token = (x, w') \<Longrightarrow> \<exists>ids. authority_run (w, []) ids (w', [])"
proof (cases "Prepare (fst w) d expected token")
  case (Inr y)
  obtain c report where prep: "Prepare (fst w) d expected token = Inr (c, report)" using Inr by (cases y) simp
  assume pub: "Publish p w d expected token = (x, w')"
  have one: "authority_run (w, []) [] (w, [(c, expected)])"
    using authority_run.go [OF authority_run.start authority_step.prepare [OF prep]] by simp
  obtain y v where commit: "Commit p w c expected = (y, v)" by (rule prod.exhaust)
  have v: "v = w'" using pub prep commit by (auto simp: Publish_def split: sum.splits)
  show ?thesis
  proof (cases y)
    case (Inl e)
    then show ?thesis using authority_run.go [OF one authority_step.refuse [OF _ commit [unfolded Inl]]] v by auto
  next
    case (Inr r)
    then show ?thesis using authority_run.go [OF one authority_step.accept [OF _ commit [unfolded Inr]]] v by auto
  qed
qed (auto simp: Publish_def)

lemma HandlePublish_run: "HandlePublish p ctx r w = (x, w') \<Longrightarrow> \<exists>ids. authority_run (w, []) ids (w', [])"
  by (auto simp: HandlePublish_def dest: Publish_run split: if_splits sum.splits prod.splits)

lemma HandlePrune_run:
  assumes "HandlePrune p ctx r w = (x, w')"
  shows "\<exists>ids. authority_run (w, []) ids (w', [])"
proof (cases "w' = w")
  case False
  then obtain keep y where "authority_Prune p w keep = (y, w')"
    using assms by (auto simp: HandlePrune_def split: if_splits sum.splits prod.splits)
  then show ?thesis using authority_run.go [OF authority_run.start authority_step.prune] by metis
qed (auto)

lemma ExecuteRequest_run:
  assumes "ExecuteRequest p ctx r s = (x, t)"
  shows "\<exists>ids. authority_run (service_world s, []) ids (service_world t, [])"
  using assms
proof (cases rule: ExecuteRequest_cases)
  case (2 op)
  then show ?thesis
    by (cases op) (auto simp: Execute_def Let_def dest: HandlePublish_run HandlePrune_run
        split: prod.splits if_splits)
qed (auto)

lemma respond_run:
  "respond p ctx wording parse_words u s c = Inr (j, t, c') \<Longrightarrow> \<exists>ids. authority_run (service_world s, []) ids (service_world t, [])"
  by (auto simp: respond_def DispatchEnvelope_def 
      dest: ExecuteRequest_run split: sum.splits prod.splits failure.splits)

lemma serve_next_run:
  "serve_next p ctx wording parse_words m cancelled sends x s c = Inr y \<Longrightarrow>
     \<exists>ids. authority_run (service_world s, []) ids (service_world (sv_service y), [])"
  by (auto simp: serve_next_def Let_def result_simps 
      dest: respond_run split: sum.splits prod.splits option.splits if_splits)

lemma serve_hello_service: "serve_hello opts cancelled sends x s c = (y, m) \<Longrightarrow> sv_service y = s"
  by (auto simp: serve_hello_def Let_def split: sum.splits prod.splits option.splits if_splits)

lemma server_step_run:
  "server_step s t \<Longrightarrow> \<exists>ids. authority_run (service_world (service s), []) ids (service_world (service t), [])"
proof (induction rule: server_step.induct)
  case (hello h s sends x y m)
  then show ?case using serve_hello_service by simp
next
  case (serve h s p token wording parse_words m cancelled sends x y)
  then show ?case using serve_next_run by auto
qed (auto simp: acceptor_admit_def acceptor_enqueue_def EnqueueConnection_def acceptor_leave_def worker_take_def worker_finish_def
    BeginShutdown_def count_rejected_def Let_def)

lemma server_run_refines:
  "server_run s t \<Longrightarrow> \<exists>ids. authority_run (service_world (service s), []) ids (service_world (service t), [])"
proof (induction rule: server_run.induct)
  case (server_next s t u)
  then show ?case using server_step_run authority_run_trans by blast
qed (auto)




section \<open>Selecting a generation\<close>

text \<open>A selector that is not a number is not refused: the query is answered from the current generation.\<close>

lemma malformed_selector_ignored:
  "Find r ''generation'' = Some (JStr t) \<Longrightarrow> SelectGeneration p r w = Snapshot (fst w)"
  by (simp add: SelectGeneration_def ReadGeneration_def AsUInt_def)

end
