(* ===== verification/TransportFacts.thy ===== *)
theory TransportFacts
  imports Transport StoreFacts
begin

text \<open>
  What the framing guarantees: frames are read back one after the other, whatever follows them, and a frame
  with a wrong byte is refused.
\<close>

section \<open>Headers\<close>

lemma length_frame_magic: "length kFrameMagic = 4"
  by (simp add: kFrameMagic_def text_bytes_def)

lemma length_frame_prefix [simp]: "length (frame_prefix f) = 20"
  by (simp add: frame_prefix_def length_frame_magic)

definition frame_header :: "Frame \<Rightarrow> byte list" where
  "frame_header f = frame_prefix f @ le_bytes 4 (Crc32c (frame_prefix f)) @ le_bytes 4 (Crc32c (payload f))"

lemma length_frame_header [simp]: "length (frame_header f) = 28"
  by (simp add: frame_header_def)

lemma EncodeFrame_header:
  "EncodeFrame f m = (if length (payload f) > unat m then Fail LimitExceeded else Inr (frame_header f @ payload f))"
  by (simp add: EncodeFrame_def frame_header_def)

lemma frame_header_fields:
  "take 4 (frame_header f) = kFrameMagic" "le_at (frame_header f) 4 2 = kFrameFormatVersion"
  "le_at (frame_header f) 6 2 = frame_kind f" "le_at (frame_header f) 8 4 = (of_nat (length (payload f)) :: u32)"
  "le_at (frame_header f) 12 8 = correlation f" "take 20 (frame_header f) = frame_prefix f"
  "le_at (frame_header f) 20 4 = Crc32c (frame_prefix f)" "le_at (frame_header f) 24 4 = Crc32c (payload f)"
proof -
  let ?tail = "le_bytes 4 (Crc32c (frame_prefix f)) @ le_bytes 4 (Crc32c (payload f))"
  note split = frame_header_def frame_prefix_def append_assoc
  show "take 4 (frame_header f) = kFrameMagic" by (simp add: split length_frame_magic)
  show "take 20 (frame_header f) = frame_prefix f" by (simp add: frame_header_def)
  show "le_at (frame_header f) 4 2 = kFrameFormatVersion"
    unfolding split by (rule le_at_bytes) (simp_all add: length_frame_magic)
  show "le_at (frame_header f) 6 2 = frame_kind f"
    using le_at_bytes [of 2 "kFrameMagic @ le_bytes 2 kFrameFormatVersion" 6 "frame_kind f"]
    by (simp add: split length_frame_magic)
  show "le_at (frame_header f) 8 4 = (of_nat (length (payload f)) :: u32)"
    using le_at_bytes [of 4 "kFrameMagic @ le_bytes 2 kFrameFormatVersion @ le_bytes 2 (frame_kind f)" 8
        "of_nat (length (payload f)) :: u32"]
    by (simp add: split length_frame_magic)
  show "le_at (frame_header f) 12 8 = correlation f"
    using le_at_bytes [of 8 "kFrameMagic @ le_bytes 2 kFrameFormatVersion @ le_bytes 2 (frame_kind f) @
        le_bytes 4 (of_nat (length (payload f)) :: u32)" 12 "correlation f"]
    by (simp add: split length_frame_magic)
  show "le_at (frame_header f) 20 4 = Crc32c (frame_prefix f)"
    unfolding frame_header_def by (rule le_at_bytes) simp_all
  show "le_at (frame_header f) 24 4 = Crc32c (payload f)"
    using le_at_bytes [of 4 "frame_prefix f @ le_bytes 4 (Crc32c (frame_prefix f))" 24 "Crc32c (payload f)" "[]"]
    by (simp add: frame_header_def)
qed

lemma small_length: "n \<le> unat (m :: u32) \<Longrightarrow> unat (of_nat n :: u32) = n"
  using unsigned_less [of m, where ?'a = nat] by (simp add: unsigned_of_nat take_bit_nat_eq_self)

lemma check_header_frame:
  assumes "length (payload f) \<le> unat m"
  shows "check_header (frame_header f) m = Inr (frame_kind f, correlation f, length (payload f), Crc32c (payload f))"
  using small_length [OF assms] assms
  by (simp add: check_header_def frame_header_fields word_less_nat_alt)

lemma check_payload_frame: "check_payload (frame_kind f) (correlation f) (payload f) (Crc32c (payload f)) = Inr f"
  by (simp add: check_payload_def)

section \<open>Reading\<close>

lemma ReadFrame_frame:
  assumes "length (payload f) \<le> unat m" and "incoming s = frame_header f @ payload f @ rest"
  shows "ReadFrame m s = (Inr (Some f), s\<lparr>incoming := rest\<rparr>)"
proof -
  have "RecvAll kFrameHeaderBytes s = (Inr (Some (frame_header f)), s\<lparr>incoming := payload f @ rest\<rparr>)"
    using assms(2) by (simp add: RecvAll_def kFrameHeaderBytes_def)
  moreover have "(if length (payload f) = 0 then (Inr (Some []), s\<lparr>incoming := payload f @ rest\<rparr>)
      else RecvAll (length (payload f)) (s\<lparr>incoming := payload f @ rest\<rparr>)) = (Inr (Some (payload f)), s\<lparr>incoming := rest\<rparr>)"
    by (simp add: RecvAll_def)
  ultimately show ?thesis
    using check_header_frame [OF assms(1)] by (simp add: ReadFrame_def check_payload_frame)
qed

lemma ReadFrameCancellable_frame:
  assumes "length (payload f) \<le> unat m" and "incoming s = frame_header f @ payload f @ rest"
  shows "ReadFrameCancellable m cancelled s = (Inr (Complete, Some f), s\<lparr>incoming := rest\<rparr>)"
proof -
  have "RecvAllCancellable kFrameHeaderBytes cancelled s = (Inr (Complete, frame_header f), s\<lparr>incoming := payload f @ rest\<rparr>)"
    using assms(2) by (simp add: RecvAllCancellable_def kFrameHeaderBytes_def)
  moreover have "(if length (payload f) = 0 then (Inr (Complete, []), s\<lparr>incoming := payload f @ rest\<rparr>)
      else RecvAllCancellable (length (payload f)) cancelled (s\<lparr>incoming := payload f @ rest\<rparr>)) =
        (Inr (Complete, payload f), s\<lparr>incoming := rest\<rparr>)"
    by (simp add: RecvAllCancellable_def)
  ultimately show ?thesis
    using check_header_frame [OF assms(1)] by (simp add: ReadFrameCancellable_def check_payload_frame)
qed

text \<open>A frame is read back as it was sent, whatever follows it in the stream and whether or not the read may be
  cancelled, so frames sent one after the other are received one after the other.\<close>

theorem ReadFrame_EncodeFrame:
  assumes "EncodeFrame f n = Inr bs" and "unat n \<le> unat m" and "incoming s = bs @ rest"
  shows "ReadFrame m s = (Inr (Some f), s\<lparr>incoming := rest\<rparr>) \<and>
    ReadFrameCancellable m cancelled s = (Inr (Complete, Some f), s\<lparr>incoming := rest\<rparr>)"
proof -
  have "length (payload f) \<le> unat m" "incoming s = frame_header f @ payload f @ rest"
    using assms by (auto simp: EncodeFrame_header split: if_splits)
  then show ?thesis using ReadFrame_frame ReadFrameCancellable_frame by blast
qed

lemma ReadFrame_EncodeFrame_witness:
  "\<exists>bs. EncodeFrame (text_frame FrameKind_Ping 7 ''abc'') 1024 = Inr bs \<and>
     ReadFrame 1024 \<lparr>incoming = bs @ bs, closes = True\<rparr> =
       (Inr (Some (text_frame FrameKind_Ping 7 ''abc'')), \<lparr>incoming = bs, closes = True\<rparr>)"
proof -
  let ?f = "text_frame FrameKind_Ping 7 ''abc''"
  obtain bs where enc: "EncodeFrame ?f 1024 = Inr bs" by (simp add: EncodeFrame_header text_frame_def)
  show ?thesis
    using ReadFrame_EncodeFrame [OF enc, of 1024 "\<lparr>incoming = bs @ bs, closes = True\<rparr>" bs] enc by auto
qed

section \<open>Corruption\<close>

lemma Crc32c_changed: "i < length xs \<Longrightarrow> b \<noteq> xs ! i \<Longrightarrow> Crc32c (xs[i := b]) \<noteq> Crc32c xs"
proof -
  assume i: "i < length xs" and b: "b \<noteq> xs ! i"
  have "xs[i := b] = take i xs @ b # drop (Suc i) xs" using i by (rule upd_conv_take_nth_drop)
  moreover have "xs = take i xs @ xs ! i # drop (Suc i) xs" using i by (rule id_take_nth_drop)
  ultimately show ?thesis using Crc32c_detects_byte [of "take i xs" b "drop (Suc i) xs" "xs ! i"] b by metis
qed

lemma le_word_inject:
  assumes "length bs = k" "length cs = k" "LENGTH('a) = 8 * k" "le_word bs = (le_word cs :: 'a::len word)"
  shows "bs = cs"
proof (rule nth_equalityI)
  show "length bs = length cs" using assms by simp
  fix i assume i: "i < length bs"
  show "bs ! i = cs ! i"
  proof (rule bit_word_eqI)
    fix n assume n: "n < LENGTH(8)"
    have "bit (le_word bs :: 'a word) (8 * i + n) = bit (le_word cs :: 'a word) (8 * i + n)" by (simp add: assms(4))
    then show "bit (bs ! i) n = bit (cs ! i) n" using i n assms(1-3) by (simp add: bit_le_word)
  qed
qed

lemma le_at_changed:
  assumes "LENGTH('a) = 8 * k" "offset \<le> i" "i < offset + k" "offset + k \<le> length bs" "b \<noteq> bs ! i"
  shows "(le_at (bs[i := b]) offset k :: 'a::len word) \<noteq> le_at bs offset k"
proof
  assume "(le_at (bs[i := b]) offset k :: 'a word) = le_at bs offset k"
  then have "take k (drop offset (bs[i := b])) = take k (drop offset bs)"
    unfolding le_at_def by (rule le_word_inject [rotated 3]) (use assms in simp_all)
  then have "take k (drop offset (bs[i := b])) ! (i - offset) = take k (drop offset bs) ! (i - offset)" by simp
  then show False using assms by simp
qed

lemma le_at_kept: "i < offset \<or> offset + k \<le> i \<Longrightarrow> le_at (bs[i := b]) offset k = le_at bs offset k"
  by (auto simp: le_at_def drop_update_swap take_update_cancel)

lemma corrupted_header:
  assumes "i < 24" and "b \<noteq> frame_header f ! i"
  shows "check_header ((frame_header f)[i := b]) m = Fail ProtocolError"
proof -
  let ?h = "(frame_header f)[i := b]"
  have "(le_at ?h 20 4 :: u32) \<noteq> Crc32c (take 20 ?h)"
  proof (cases "i < 20")
    case True
    have "frame_prefix f ! i = frame_header f ! i" using True by (simp add: frame_header_def nth_append)
    then have "Crc32c ((frame_prefix f)[i := b]) \<noteq> Crc32c (frame_prefix f)"
      using Crc32c_changed [of i "frame_prefix f" b] True assms(2) by simp
    moreover have "take 20 ?h = (frame_prefix f)[i := b]" by (simp add: take_update_swap frame_header_fields)
    ultimately show ?thesis using True by (simp add: le_at_kept frame_header_fields)
  next
    case False
    then have "(le_at ?h 20 4 :: u32) \<noteq> le_at (frame_header f) 20 4" using assms by (intro le_at_changed) auto
    then show ?thesis using False by (simp add: take_update_cancel frame_header_fields)
  qed
  then show ?thesis by (auto simp: check_header_def)
qed

lemma corrupted_checksum:
  assumes "24 \<le> i" "i < 28" "b \<noteq> frame_header f ! i" and len: "length (payload f) \<le> unat m"
  obtains crc where "check_header ((frame_header f)[i := b]) m = Inr (frame_kind f, correlation f, length (payload f), crc)"
    "crc \<noteq> Crc32c (payload f)"
proof
  let ?h = "(frame_header f)[i := b]"
  show "check_header ?h m = Inr (frame_kind f, correlation f, length (payload f), le_at ?h 24 4)"
    using assms small_length [OF len] len
    by (simp add: check_header_def le_at_kept take_update_cancel frame_header_fields word_less_nat_alt)
  have "(le_at ?h 24 4 :: u32) \<noteq> le_at (frame_header f) 24 4" using assms by (intro le_at_changed) auto
  then show "le_at ?h 24 4 \<noteq> Crc32c (payload f)" by (simp add: frame_header_fields)
qed

text \<open>A reader that gets a header and as many bytes of payload as it says.\<close>

lemma read_parts:
  assumes "incoming s = header @ bs @ rest" "length header = 28" and check: "check_header header m = Inr (k, c, length bs, crc)"
  shows "fst (ReadFrame m s) = res_bind (check_payload k c bs crc) (\<lambda>f. Inr (Some f)) \<and>
    fst (ReadFrameCancellable m cancelled s) = res_bind (check_payload k c bs crc) (\<lambda>f. Inr (Complete, Some f))"
  using assms
  by (simp add: ReadFrame_def ReadFrameCancellable_def RecvAll_def RecvAllCancellable_def kFrameHeaderBytes_def)

lemma read_bad_header:
  assumes "incoming s = header @ bs" "length header = 28" and check: "check_header header m = Inl e"
  shows "fst (ReadFrame m s) = Inl e \<and> fst (ReadFrameCancellable m cancelled s) = Inl e"
  using assms
  by (simp add: ReadFrame_def ReadFrameCancellable_def RecvAll_def RecvAllCancellable_def kFrameHeaderBytes_def)

text \<open>C40. A frame in which any one byte was changed, of the header, of a checksum or of the payload, is refused with a
  protocol error.\<close>

theorem corrupted_frame_refused:
  assumes enc: "EncodeFrame f n = Inr bs" and le: "unat n \<le> unat m" and i: "i < length bs" "b \<noteq> bs ! i"
    and s: "incoming s = bs[i := b] @ rest"
  shows "fst (ReadFrame m s) = Fail ProtocolError \<and> fst (ReadFrameCancellable m cancelled s) = Fail ProtocolError"
proof -
  let ?h = "frame_header f" and ?p = "payload f"
  have bs: "bs = ?h @ ?p" and len: "length ?p \<le> unat m" using enc le by (auto simp: EncodeFrame_header split: if_splits)
  consider "i < 24" | "24 \<le> i" "i < 28" | "28 \<le> i" by linarith
  then show ?thesis
  proof cases
    case 1
    then have "b \<noteq> ?h ! i" using i by (simp add: bs nth_append)
    from corrupted_header [OF 1 this] show ?thesis
      using read_bad_header [of s "?h[i := b]" "?p @ rest"] s 1 by (simp add: bs list_update_append)
  next
    case 2
    then have "b \<noteq> ?h ! i" using i by (simp add: bs nth_append)
    from corrupted_checksum [OF 2 this len] obtain crc where
      "check_header (?h[i := b]) m = Inr (frame_kind f, correlation f, length ?p, crc)" and crc: "crc \<noteq> Crc32c ?p" .
    from read_parts [OF _ _ this(1), of s rest cancelled] s 2 crc show ?thesis
      by (simp add: bs list_update_append check_payload_def)
  next
    case 3
    then have "Crc32c (?p[i - 28 := b]) \<noteq> Crc32c ?p"
      using i by (intro Crc32c_changed) (auto simp: bs nth_append)
    then show ?thesis
      using read_parts [of s ?h "?p[i - 28 := b]" rest m "frame_kind f" "correlation f" "Crc32c ?p" cancelled]
        s 3 check_header_frame [OF len] by (simp add: bs list_update_append check_payload_def)
  qed
qed

lemma corrupted_frame_refused_witness:
  "\<exists>bs. EncodeFrame (text_frame FrameKind_Ping 7 ''abc'') 1024 = Inr bs \<and>
     fst (ReadFrame 1024 \<lparr>incoming = bs[30 := 0], closes = True\<rparr>) = Fail ProtocolError"
proof -
  let ?f = "text_frame FrameKind_Ping 7 ''abc''"
  have enc: "EncodeFrame ?f 1024 = Inr (frame_header ?f @ payload ?f)" by (simp add: EncodeFrame_header text_frame_def)
  have "payload ?f ! 2 \<noteq> 0" "length (payload ?f) = 3" by code_simp+
  then show ?thesis
    using corrupted_frame_refused [OF enc, of 1024 30 0 "\<lparr>incoming = (frame_header ?f @ payload ?f)[30 := 0], closes = True\<rparr>" "[]"] enc
    by (auto simp: nth_append)
qed

end
