(* ===== verification/WireFacts.thy ===== *)
theory WireFacts
  imports Client ProtocolFacts TransportFacts
begin

text \<open>
  The client and the server joined by their bytes: both sides of a handshake agree on the frame size and on the
  generation, and a call returns what the service computes, results and typed errors alike.
\<close>

section \<open>Envelopes\<close>

text \<open>The error a client makes of an error response is the error the service reported.\<close>

lemma typed_error_json: "typed_error (json_norm (ErrorToJson e)) = e"
  by (simp add: typed_error_def string_field_def ErrorToJson_def Let_def norm_simps json_simps
      ErrorCodeFromName_ErrorCodeName)

lemma UnwrapEnvelope_Error: "UnwrapEnvelope (json_norm (ErrorResponse e)) = Inl e"
proof -
  have "IsObject (ErrorToJson e)" by (simp add: ErrorToJson_def Let_def set_when_def json_simps)
  then show ?thesis
    by (simp add: UnwrapEnvelope_def ErrorResponse_def norm_simps json_simps typed_error_json IsBool_def AsBool_def)
qed

lemma UnwrapEnvelope_Ok: "UnwrapEnvelope (json_norm (OkResponse v)) = Inr (json_norm v)"
  by (simp add: UnwrapEnvelope_def OkResponse_def norm_simps json_simps IsBool_def AsBool_def)

section \<open>Texts in frames\<close>

text \<open>A value whose text goes through frames of a size and is read back.\<close>

definition fits_frame :: "u32 \<Rightarrow> JsonValue \<Rightarrow> bool" where
  "fits_frame m j \<longleftrightarrow> json_printable JsonLimits_default j \<and> length (Dump j False) \<le> unat m \<and>
     length (Dump j False) \<le> max_bytes JsonLimits_default"

lemma text_frame_fields [simp]:
  "frame_kind (text_frame k c t) = k" "correlation (text_frame k c t) = c" "PayloadText (text_frame k c t) = t"
  "length (payload (text_frame k c t)) = length t"
  by (simp_all add: text_frame_def PayloadText_def)

abbreviation frame_bytes :: "Frame \<Rightarrow> byte list" where
  "frame_bytes f \<equiv> frame_header f @ payload f"

lemma EncodeFrame_text: "length t \<le> unat m \<Longrightarrow> EncodeFrame (text_frame k c t) m = Inr (frame_bytes (text_frame k c t))"
  by (simp add: EncodeFrame_header)

lemma ReadFrame_text:
  "length t \<le> unat m \<Longrightarrow> incoming s = frame_bytes (text_frame k c t) @ rest \<Longrightarrow>
     ReadFrame m s = (Inr (Some (text_frame k c t)), s\<lparr>incoming := rest\<rparr>)"
  "length t \<le> unat m \<Longrightarrow> incoming s = frame_bytes (text_frame k c t) @ rest \<Longrightarrow>
     ReadFrameCancellable m cancelled s = (Inr (Complete, Some (text_frame k c t)), s\<lparr>incoming := rest\<rparr>)"
  using ReadFrame_frame [of "text_frame k c t" m s rest] ReadFrameCancellable_frame [of "text_frame k c t" m s rest cancelled]
  by simp_all

lemma ParseJson_frame: "fits_frame m j \<Longrightarrow> ParseJson (Dump j False) JsonLimits_default = Inr (json_norm j)"
  by (simp add: fits_frame_def ParseJson_printed)

section \<open>A call\<close>

lemma CallResult_sent:
  assumes "\<not> cl_closed cl" and "fits_frame (hs_max_frame (handshake cl)) r"
  shows "snd (snd (CallResult True r cl)) = frame_bytes (request_frame (cl_correlation cl + 1) r)"
  using assms
  by (simp add: CallResult_def Call_def Let_def fits_frame_def request_frame_def EncodeFrame_text split: prod.split sum.split option.split)

lemma CallResult_reply:
  assumes "\<not> cl_closed cl" and "fits_frame (hs_max_frame (handshake cl)) r" and "fits_frame (hs_max_frame (handshake cl)) j"
    and "incoming (cl_stream cl) = frame_bytes (text_frame FrameKind_Response (cl_correlation cl + 1) (Dump j False)) @ later"
  shows "CallResult True r cl = (Inr (UnwrapEnvelope (json_norm j)),
    cl\<lparr>cl_correlation := cl_correlation cl + 1, cl_stream := (cl_stream cl)\<lparr>incoming := later\<rparr>\<rparr>,
    frame_bytes (request_frame (cl_correlation cl + 1) r))"
proof -
  have size: "length (Dump j False) \<le> unat (hs_max_frame (handshake cl))" "length (Dump r False) \<le> unat (hs_max_frame (handshake cl))"
    using assms(2,3) by (simp_all add: fits_frame_def)
  show ?thesis
    using assms(1) ReadFrame_text(1) [OF size(1) assms(4)] EncodeFrame_text [OF size(2)] ParseJson_frame [OF assms(3)]
    by (simp add: CallResult_def Call_def Let_def request_frame_def read_reply_def)
qed

lemma serve_next_request:
  assumes "fits_frame m r" and "incoming x = frame_bytes (request_frame n r) @ rest"
    and "DispatchEnvelope p ctx wording (json_norm r) srv = (Inr j, t)" and "fits_frame m j"
  obtains c' where "serve_next p ctx wording parse_words m cancelled True x srv c =
    Inr \<lparr>sv_stream = x\<lparr>incoming := rest\<rparr>, sv_service = t, sv_counters = c',
      sv_sent = frame_bytes (text_frame FrameKind_Response n (Dump j False)), sv_open = True\<rparr>"
proof -
  let ?f = "request_frame n r"
  have read: "ReadFrameCancellable m cancelled x = (Inr (Complete, Some ?f), x\<lparr>incoming := rest\<rparr>)"
    using assms(1,2) ReadFrame_text(2) by (simp add: request_frame_def fits_frame_def)
  have kind: "frame_kind ?f = FrameKind_Request" "correlation ?f = n" "PayloadText ?f = Dump r False"
    by (simp_all add: request_frame_def)
  have kinds: "FrameKind_Request \<noteq> FrameKind_Bye" "FrameKind_Request \<noteq> FrameKind_Ping" by (simp_all add: frame_kinds)
  let ?c = "c\<lparr>bytes_received := bytes_received c + of_nat (length (payload ?f) + kFrameHeaderBytes)\<rparr>"
  obtain d where resp: "respond p ctx wording parse_words (Dump r False) srv ?c = Inr (j, t, d)"
    using ParseJson_frame [OF assms(1)] assms(3) by (simp add: respond_def)
  have size: "length (Dump j False) \<le> unat m" using assms(4) by (simp add: fits_frame_def)
  then have frame: "response_frame m n j = text_frame FrameKind_Response n (Dump j False)"
    by (simp add: response_frame_def Let_def)
  show thesis
    by (rule that, unfold serve_next_def read)
      (simp add: Let_def kind kinds resp frame send_reply_def EncodeFrame_text [OF size] del: length_append of_nat_add)
qed


text \<open>The reply of the service to a request, as its client sees it.\<close>

lemma reply_of:
  assumes "DispatchEnvelope p ctx wording r srv = (Inr j, t)"
  shows "(\<forall>v. ExecuteRequest p ctx r srv = (Inr v, t) \<longrightarrow> UnwrapEnvelope (json_norm j) = Inr (json_norm v)) \<and>
    (\<forall>e. ExecuteRequest p ctx r srv = (Fail e, t) \<longrightarrow> UnwrapEnvelope (json_norm j) = Inl (request_error wording r t e))"
  using assms by (auto simp: DispatchEnvelope_def UnwrapEnvelope_Ok UnwrapEnvelope_Error)

text \<open>C5. A call gets the answer of the service, over the wire: when the bytes of a call reach a server with the frame size that
  was agreed on, the server sends one response and keeps the connection, and the client, once those bytes reach it,
  returns exactly what executing the request gave, the value or the typed error with its code, message and detail, with
  both streams after the frames. Request and response are texts that fit a frame and are read back.\<close>

theorem call_answered:
  assumes "\<not> cl_closed cl" and "fits_frame (hs_max_frame (handshake cl)) r"
    and "incoming x = snd (snd (CallResult True r cl)) @ rest"
    and "DispatchEnvelope p ctx wording (json_norm r) srv = (Inr j, t)" and "fits_frame (hs_max_frame (handshake cl)) j"
  shows "\<exists>y. serve_next p ctx wording parse_words (hs_max_frame (handshake cl)) cancelled True x srv c = Inr y \<and>
    sv_open y \<and> sv_service y = t \<and> incoming (sv_stream y) = rest \<and>
    (\<forall>later. incoming (cl_stream cl) = sv_sent y @ later \<longrightarrow>
      (let (result, cl', _) = CallResult True r cl in incoming (cl_stream cl') = later \<and> cl_correlation cl' = cl_correlation cl + 1 \<and>
        (\<forall>v. ExecuteRequest p ctx (json_norm r) srv = (Inr v, t) \<longrightarrow> result = Inr (Inr (json_norm v))) \<and>
        (\<forall>e. ExecuteRequest p ctx (json_norm r) srv = (Fail e, t) \<longrightarrow>
          result = Inr (Inl (request_error wording (json_norm r) t e)))))"
proof -
  let ?n = "cl_correlation cl + 1"
  have bytes: "incoming x = frame_bytes (request_frame ?n r) @ rest" using assms(3) CallResult_sent [OF assms(1,2)] by simp
  obtain d where served: "serve_next p ctx wording parse_words (hs_max_frame (handshake cl)) cancelled True x srv c =
      Inr \<lparr>sv_stream = x\<lparr>incoming := rest\<rparr>, sv_service = t, sv_counters = d,
        sv_sent = frame_bytes (text_frame FrameKind_Response ?n (Dump j False)), sv_open = True\<rparr>"
    by (rule serve_next_request [OF assms(2) bytes assms(4,5)])
  then show ?thesis
    using CallResult_reply [OF assms(1,2,5)] reply_of [OF assms(4)] by simp
qed

definition small_client :: "byte list \<Rightarrow> Client" where
  "small_client bs = \<lparr>handshake = \<lparr>hs_version = 1, hs_max_frame = 4096, hs_incarnation = 1, hs_generation = None,
     hs_registry_name = [], hs_persistent = False, hs_epoch = 1\<rparr>, cl_stream = \<lparr>incoming = bs, closes = True\<rparr>,
     cl_correlation = 0, cl_closed = False\<rparr>"

definition ping_request :: JsonValue where
  "ping_request = Set (JObj []) ''op'' (JStr ''ping'')"

lemma fits_small: "json_printable JsonLimits_default j \<Longrightarrow> length (Dump j False) \<le> 1000 \<Longrightarrow> fits_frame 4096 j"
  by (simp add: fits_frame_def JsonLimits_default_def)

lemma ping_fits: "fits_frame 4096 ping_request" "fits_frame 4096 (OkResponse HandlePing)"
proof -
  have ping: "ping_request = JObj [(''op'', JStr ''ping'')]" by (simp add: ping_request_def Set_def)
  have "json_printable JsonLimits_default ping_request"
    unfolding ping by (simp add: json_printable_def JsonLimits_default_def omap_ok_def)
  then show "fits_frame 4096 ping_request" by (rule fits_small) code_simp
  have pong: "OkResponse HandlePing = JObj [(''ok'', JBool True), (''result'', JObj [(''protocol_version'', JUInt 1), (''service'', JStr ''fcr-registry'')])]"
    by code_simp
  have "json_printable JsonLimits_default (OkResponse HandlePing)"
    unfolding pong by (simp add: json_printable_def JsonLimits_default_def omap_ok_def less_list_code)
  then show "fits_frame 4096 (OkResponse HandlePing)" by (rule fits_small) code_simp
qed

lemma ping_dispatch:
  "ExecuteRequest p small_context (json_norm ping_request) small_service = (Inr HandlePing, small_service)"
proof -
  have "json_norm ping_request = ping_request" by (simp add: ping_request_def Set_def)
  moreover have "RequireString ping_request ''op'' = Inr ''ping''" by (rule RequireString_Find) (simp_all add: ping_request_def json_simps)
  moreover have "ParseOperation ''ping'' = Inr OpPing" by (simp add: ParseOperation_iff)
  moreover have "IsObject ping_request" "check_request_stamp ping_request a = Inr ()" for a
    by (simp_all add: ping_request_def check_request_stamp_def json_simps)
  ultimately show ?thesis by (simp add: ExecuteRequest_def Execute_def small_context_def start_context_def)
qed

lemma call_answered_witness:
  "\<exists>bs. fst (CallResult True ping_request (small_client bs)) = Inr (Inr (json_norm HandlePing))"
proof -
  let ?w = "\<lambda>_ _ _. ([], [])" and ?pw = "\<lambda>_. ([], [])"
  let ?x = "\<lparr>incoming = snd (snd (CallResult True ping_request (small_client []))), closes = True\<rparr>"
  have open0: "\<not> cl_closed (small_client bs)" and size: "hs_max_frame (handshake (small_client bs)) = 4096"
    and n: "cl_correlation (small_client bs) = 0" for bs
    by (simp_all add: small_client_def)
  have fits: "fits_frame (hs_max_frame (handshake (small_client bs))) ping_request"
    "fits_frame (hs_max_frame (handshake (small_client bs))) (OkResponse HandlePing)" for bs
    using ping_fits by (simp_all add: size)
  have disp: "DispatchEnvelope sound_platform small_context ?w (json_norm ping_request) small_service =
      (Inr (OkResponse HandlePing), small_service)"
    by (simp add: DispatchEnvelope_def ping_dispatch)
  have bytes: "incoming ?x = snd (snd (CallResult True ping_request (small_client bs))) @ []" for bs
    by (simp add: CallResult_sent [OF open0 fits(1)] n)
  note call = call_answered [OF open0 fits(1) bytes disp fits(2), where parse_words = ?pw and cancelled = False and c = Counters_zero]
  obtain y where y: "serve_next sound_platform small_context ?w ?pw 4096 False True ?x small_service Counters_zero = Inr y"
    using call [of "[]"] by (auto simp: size)
  have "incoming (cl_stream (small_client (sv_sent y))) = sv_sent y @ []" by (simp add: small_client_def)
  then have "fst (CallResult True ping_request (small_client (sv_sent y))) = Inr (Inr (json_norm HandlePing))"
    using call [of "sv_sent y"] y ping_dispatch [of sound_platform] by (auto simp: size Let_def split: prod.splits)
  then show ?thesis by blast
qed


section \<open>The handshake\<close>

lemma unat_up: "unat (ucast (x :: u32) :: u64) = unat x"
proof -
  have "unat x < 2 ^ 64" using unsigned_less [of x, where ?'a = nat] by simp
  then show ?thesis by (simp add: unsigned_ucast_eq take_bit_nat_eq_self)
qed
lemma up_le: "(ucast x \<le> (ucast y :: u64)) = (x \<le> (y :: u32))"
  by (simp add: word_le_nat_alt unat_up)
lemma up_down: "(ucast (ucast (x :: u32) :: u64) :: u32) = x"
proof -
  have "unat (ucast (ucast x :: u64) :: u32) = take_bit LENGTH(32) (unat (ucast x :: u64))" by (rule unsigned_ucast_eq)
  also have "\<dots> = unat x" using unsigned_less [of x, where ?'a = nat] unfolding unat_up by (simp add: take_bit_nat_eq_self)
  finally show ?thesis by (simp add: word_unat_eq_iff)
qed
lemma up_num: "(1024 \<le> (ucast (x :: u32) :: u64)) = (1024 \<le> x)"
  by (simp add: word_le_nat_alt unat_up)
lemma up_min: "ucast (min (ucast x :: u64) (ucast y)) = min x (y :: u32)"
  by (simp add: min_def up_le up_down)

text \<open>The generation of a handshake: the one its stamp names.\<close>

lemma read_handshake_generation_ack:
  assumes "served_ok a"
  shows "read_handshake_generation (json_norm (MakeHelloAck opts m a)) =
    Inr (if GenerationId_IsValid (stamp_generation (Stamp a)) then Some (stamp_generation (Stamp a)) else None)"
proof -
  let ?g = "stamp_generation (Stamp a)"
  have obj: "IsObject (generation_json ?g)" by (simp add: generation_json_def Let_def json_simps)
  have "RequireUInt (generation_json ?g) ''number'' = Inr (gen_number ?g)"
    by (rule RequireUInt_Find [OF obj]) (simp add: generation_json_def Let_def json_simps)
  moreover have "RequireString (generation_json ?g) ''digest'' = Inr (ToHex (gen_digest ?g))"
    by (rule RequireString_Find [OF obj]) (simp add: generation_json_def Let_def json_simps)
  ultimately show ?thesis
    using obj FromHex_ToHex [OF served_digest [OF assms]]
    by (simp add: read_handshake_generation_def MakeHelloAck_def Let_def norm_simps json_simps)
qed

lemma read_ack_agreed:
  assumes "served_ok a" and "1024 \<le> m" and "m \<le> client_max_frame copts"
  shows "read_ack copts (json_norm (MakeHelloAck sopts m a)) =
    Inr \<lparr>hs_version = protocol_version sopts, hs_max_frame = m, hs_incarnation = auth_incarnation a,
      hs_generation = (if GenerationId_IsValid (stamp_generation (Stamp a)) then Some (stamp_generation (Stamp a)) else None),
      hs_registry_name = status_registry_name (GetStatus a), hs_persistent = persistent (GetStatus a),
      hs_epoch = status_epoch (GetStatus a)\<rparr>"
proof -
  let ?j = "MakeHelloAck sopts m a"
  have obj: "IsObject ?j" by (simp add: MakeHelloAck_def Let_def json_simps)
  have fields: "Find ?j ''protocol_version'' = Some (JUInt (ucast (protocol_version sopts)))"
    "Find ?j ''max_frame_bytes'' = Some (JUInt (ucast m))" "Find ?j ''incarnation'' = Some (JUInt (auth_incarnation a))"
    "Find ?j ''registry_name'' = Some (JStr (status_registry_name (GetStatus a)))"
    "Find ?j ''persistent'' = Some (JBool (persistent (GetStatus a)))"
    "Find ?j ''publisher_epoch'' = Some (JUInt (status_epoch (GetStatus a)))"
    by (simp_all add: MakeHelloAck_def Let_def json_simps Stamp_def)
  have size: "ucast (min (ucast m :: u64) (ucast (client_max_frame copts))) = m" using assms(3) unfolding up_min by (simp add: min_def)
  show ?thesis
    using assms(2) fields RequireUInt_Find [OF obj fields(1)] RequireUInt_Find [OF obj fields(2)] RequireUInt_Find [OF obj fields(3)]
      read_handshake_generation_ack [OF assms(1), of sopts m] OptionalString_Find(1) [OF fields(4)] size up_down
    by (simp add: read_ack_def norm_simps Let_def flag_set_def AsBool_def AsUInt_def not_less [symmetric])
qed

lemma effective_max_hello:
  assumes "1024 \<le> client_max_frame copts"
  shows "effective_max sopts (json_norm (hello_json copts)) = min (client_max_frame copts) (max_frame_bytes sopts)"
  using assms
  by (simp add: effective_max_def hello_json_def Let_def norm_simps json_simps AsUInt_def up_num up_min)

text \<open>C16. Client and server agree on a connection: when both speak one protocol version and allow frames of at least
  1024 bytes, the handshake succeeds over the wire, both sides go on with the smaller of their frame sizes, and the client
  holds the stamp of the authority, so its first request is fenced by the generation the server served.\<close>

theorem handshake_agrees:
  assumes "client_port copts \<noteq> 0" and "client_version copts = protocol_version sopts"
    and "1024 \<le> client_max_frame copts" and "1024 \<le> max_frame_bytes sopts"
    and "fits_frame kMaxHelloBytes (hello_json copts)" and "length (Dump (hello_json copts) False) \<le> unat (client_max_frame copts)"
    and "served_ok (fst (service_world srv))"
    and "m = min (client_max_frame copts) (max_frame_bytes sopts)"
    and "fits_frame m (MakeHelloAck sopts m (fst (service_world srv)))"
    and "EncodeFrame (hello_frame copts) (client_max_frame copts) = Inr hello" and "incoming x = hello @ rest"
  shows "\<exists>y. serve_hello sopts cancelled True x srv c = (y, m) \<and> sv_open y \<and> sv_service y = srv \<and> incoming (sv_stream y) = rest \<and>
    (\<forall>s later. incoming s = sv_sent y @ later \<longrightarrow>
      (\<exists>cl. client_Connect copts True s = (Inr cl, hello) \<and> \<not> cl_closed cl \<and> incoming (cl_stream cl) = later \<and>
        hs_max_frame (handshake cl) = m \<and> hs_version (handshake cl) = protocol_version sopts \<and>
        hs_incarnation (handshake cl) = stamp_incarnation (Stamp (fst (service_world srv))) \<and>
        (GenerationId_IsValid (stamp_generation (Stamp (fst (service_world srv)))) \<longrightarrow>
          hs_generation (handshake cl) = Some (stamp_generation (Stamp (fst (service_world srv)))))))"
proof -
  let ?a = "fst (service_world srv)" and ?j = "hello_json copts"
  let ?ack = "MakeHelloAck sopts m ?a"
  let ?f = "text_frame FrameKind_HelloAck 0 (Dump ?ack False)"
  have le: "m \<le> client_max_frame copts" "m \<le> max_frame_bytes sopts" "1024 \<le> m" using assms(3,4) by (simp_all add: assms(8))
  have hello: "hello = frame_bytes (hello_frame copts)"
    using assms(6,10) by (simp add: hello_frame_def EncodeFrame_text)
  have size: "length (Dump ?ack False) \<le> unat (client_max_frame copts)" "length (Dump ?ack False) \<le> unat (max_frame_bytes sopts)"
    "length (Dump ?j False) \<le> unat kMaxHelloBytes"
    using assms(5,9) le(1,2) by (simp_all add: fits_frame_def word_le_nat_alt)
  have read: "ReadFrameCancellable kMaxHelloBytes cancelled x = (Inr (Complete, Some (hello_frame copts)), x\<lparr>incoming := rest\<rparr>)"
    using ReadFrame_text(2) [OF size(3)] assms(11) by (simp add: hello hello_frame_def)
  have "IsObject ?j" by (simp add: hello_json_def Let_def json_simps)
  then have version: "RequireUInt (json_norm ?j) ''protocol_version'' = Inr (ucast (protocol_version sopts))"
    using assms(2) RequireUInt_Find [of ?j] by (simp add: norm_simps hello_json_def Let_def json_simps)
  obtain y where y: "serve_hello sopts cancelled True x srv c = (y, m)" "sv_open y" "sv_service y = srv"
      "sv_stream y = x\<lparr>incoming := rest\<rparr>" "sv_sent y = frame_bytes ?f"
    using ParseJson_frame [OF assms(5)] EncodeFrame_text [OF size(2)] version effective_max_hello [OF assms(3)] assms(8)
    by (simp add: serve_hello_def read Let_def hello_frame_def)
  have "client_Connect copts True s = (Inr \<lparr>handshake = h, cl_stream = s\<lparr>incoming := later\<rparr>, cl_correlation = 0, cl_closed = False\<rparr>, hello)"
    if "incoming s = frame_bytes ?f @ later" "read_ack copts (json_norm ?ack) = Inr h" for s later h
    using assms(1,10) ReadFrame_text(1) [OF size(1) that(1)] ParseJson_frame [OF assms(9)] that(2)
    by (simp add: client_Connect_def read_hello_reply_def frame_kinds)
  note this [OF _ read_ack_agreed [OF assms(7) le(3,1)]]
  then show ?thesis using y by (auto simp: Stamp_def)
qed


text \<open>A service that has not published yet, and a client of it.\<close>

definition fresh_service :: Service where
  "fresh_service = \<lparr>service_world = (\<lparr>auth_validation = ValidationOptions_default, current = None, history = [],
     auth_meta = StoreMeta_empty, auth_store = Some sample_store, auth_incarnation = 1, auth_epoch = 0\<rparr>, blank_directory),
     stop_requested = False\<rparr>"

definition small_client_options :: ClientOptions where
  "small_client_options = \<lparr>client_port = 7, client_max_frame = 4096, client_version = 1, client_id = ''ctl''\<rparr>"

lemma small_hello: "hello_json small_client_options =
    JObj [(''client_id'', JStr ''ctl''), (''max_frame_bytes'', JUInt 4096), (''protocol_version'', JUInt 1)]"
  by code_simp

lemma fresh_ack: "MakeHelloAck ServerOptions_default 4096 (fst (service_world fresh_service)) =
    JObj [(''incarnation'', JUInt 1), (''max_frame_bytes'', JUInt 4096), (''persistent'', JBool True), (''protocol_version'', JUInt 1),
      (''publisher_epoch'', JUInt 0), (''registry_name'', JStr []), (''service'', JStr ''fcr-registry'')]"
  by (simp add: MakeHelloAck_def Let_def fresh_service_def Stamp_def GetStatus_def no_generation_def GenerationId_IsValid_def)
    code_simp

lemma handshake_agrees_witness:
  "\<exists>bs cl. client_Connect small_client_options True \<lparr>incoming = bs, closes = True\<rparr> =
     (Inr cl, frame_bytes (hello_frame small_client_options)) \<and> hs_max_frame (handshake cl) = 4096"
proof -
  let ?c = small_client_options and ?o = ServerOptions_default and ?a = "fst (service_world fresh_service)"
  let ?hello = "frame_bytes (hello_frame ?c)"
  have m: "4096 = min (client_max_frame ?c) (max_frame_bytes ?o)"
    by (simp add: small_client_options_def ServerOptions_default_def kDefaultMaxFrameBytes_def)
  have port: "client_port ?c \<noteq> 0" "client_version ?c = protocol_version ?o" "1024 \<le> client_max_frame ?c" "1024 \<le> max_frame_bytes ?o"
    by (simp_all add: small_client_options_def ServerOptions_default_def kDefaultMaxFrameBytes_def kServiceProtocolVersion_def)
  have "json_printable JsonLimits_default (hello_json ?c)"
    unfolding small_hello by (simp add: json_printable_def JsonLimits_default_def omap_ok_def less_list_code)
  moreover have len: "length (Dump (hello_json ?c) False) \<le> 1000" unfolding small_hello by code_simp
  ultimately have fits: "fits_frame kMaxHelloBytes (hello_json ?c)" by (simp add: kMaxHelloBytes_def fits_small)
  have size: "length (Dump (hello_json ?c) False) \<le> unat (client_max_frame ?c)"
    using len by (simp add: small_client_options_def)
  have "json_printable JsonLimits_default (MakeHelloAck ?o 4096 ?a)"
    unfolding fresh_ack by (simp add: json_printable_def JsonLimits_default_def omap_ok_def less_list_code)
  moreover have "length (Dump (MakeHelloAck ?o 4096 ?a) False) \<le> 1000" unfolding fresh_ack by code_simp
  ultimately have ack: "fits_frame 4096 (MakeHelloAck ?o 4096 ?a)" by (rule fits_small)
  have ok: "served_ok ?a" by (simp add: served_ok_def fresh_service_def)
  have enc: "EncodeFrame (hello_frame ?c) (client_max_frame ?c) = Inr ?hello"
    using size by (simp add: hello_frame_def EncodeFrame_text)
  have "incoming \<lparr>incoming = ?hello, closes = True\<rparr> = ?hello @ []" by simp
  from handshake_agrees [OF port fits size ok m ack enc this, of False Counters_zero]
  obtain y :: Served where "\<forall>s later. incoming s = sv_sent y @ later \<longrightarrow>
      (\<exists>cl. client_Connect ?c True s = (Inr cl, ?hello) \<and> hs_max_frame (handshake cl) = 4096)" by blast
  then have "\<exists>cl. client_Connect ?c True \<lparr>incoming = sv_sent y, closes = True\<rparr> = (Inr cl, ?hello) \<and> hs_max_frame (handshake cl) = 4096"
    by simp
  then show ?thesis by blast
qed

end
