(* ===== verification/ToolsFacts.thy ===== *)
theory ToolsFacts
  imports Ctl WireFacts
begin

text \<open>
  The tools: numbers of the command line, sessions in process and over a connection answer alike, a read-only daemon
  changes nothing, and the exit codes of a query are its decision.
\<close>

section \<open>Numbers\<close>

lemma size_loop_spec:
  "v \<le> 100000000 \<Longrightarrow> size_loop v cs =
     (if list_all IsDigit cs \<and> decimal_from v cs \<le> 100000000 then Some (decimal_from v cs) else None)"
proof (induction cs arbitrary: v)
  case (Cons c cs)
  show ?case
  proof (cases "v * 10 + digit_value c \<le> 100000000")
    case True
    then show ?thesis using Cons.IH [OF True] by (simp add: Let_def)
  next
    case False
    then have "decimal_from (v * 10 + digit_value c) cs > 100000000"
      using decimal_from_le [of "v * 10 + digit_value c" cs] by simp
    then show ?thesis using False by (simp add: Let_def)
  qed
qed simp

text \<open>The daemon reads a size exactly when it is a decimal number up to a hundred million, and reads its value.\<close>

theorem ParseSize_iff:
  "ParseSize t = Some n \<longleftrightarrow> AllDigits t \<and> decimal_from 0 t \<le> 100000000 \<and> n = decimal_from 0 t"
  using size_loop_spec [of 0 t] by (auto simp: ParseSize_def AllDigits_def)

lemma uint_loop_spec:
  "list_all IsDigit cs \<Longrightarrow> uint_loop (of_nat v) cs = Inr (of_nat (decimal_from v cs))"
proof (induction cs arbitrary: v)
  case (Cons c cs)
  have "uint_loop (of_nat v) (c # cs) = uint_loop (of_nat (v * 10 + digit_value c)) cs" using Cons.prems by simp
  also have "\<dots> = Inr (of_nat (decimal_from (v * 10 + digit_value c) cs))" using Cons.prems by (intro Cons.IH) simp
  finally show ?case by simp
qed simp

text \<open>The control tool reads a number without a bound: digits beyond 64 bits wrap, so a retention of 2 to the
  64th plus one is the request to keep one generation.\<close>

theorem RequireUIntFlag_wraps:
  assumes "omap_get (arg_flags a) k = Some t" and "AllDigits t"
  shows "RequireUIntFlag a k = Inr (of_nat (decimal_from 0 t mod 2 ^ 64))"
proof -
  have "RequireUIntFlag a k = Inr (of_nat (decimal_from 0 t))"
    using assms uint_loop_spec [of t 0] by (simp add: RequireUIntFlag_def RequireFlag_def AllDigits_def)
  then show ?thesis by (simp add: word_unat_eq_iff unsigned_of_nat take_bit_eq_mod)
qed

lemma RequireUIntFlag_wraps_witness:
  "RequireUIntFlag (ParseArguments [''prune'', ''--keep'', ''18446744073709551617'']) ''keep'' = Inr 1"
proof -
  let ?a = "ParseArguments [''prune'', ''--keep'', ''18446744073709551617'']"
  have flag: "omap_get (arg_flags ?a) ''keep'' = Some ''18446744073709551617''" by code_simp
  have digits: "AllDigits ''18446744073709551617''" by code_simp
  have "decimal_from 0 ''18446744073709551617'' = 18446744073709551617"
    by (simp add: digit_value_def char_code_def)
  then show ?thesis using RequireUIntFlag_wraps [OF flag digits] by simp
qed

text \<open>A dry run that is asked for with a value is not one, and a dry run before the document takes it as its value.\<close>

lemma dry_run_with_value:
  "\<not> HasSwitch (ParseArguments [''publish'', ''d.json'', ''--dry-run=true'']) ''dry-run''"
  "arg_positional (ParseArguments [''publish'', ''--dry-run'', ''d.json'']) = []"
  by code_simp+

lemma publication_not_dry:
  "flag_set (publish_request (ParseArguments [''publish'', ''d.json'', ''--dry-run=true'']) d n) ''dry_run'' = False"
  using dry_run_with_value(1) by (simp add: publish_request_def op_request_def flag_set_def json_simps AsBool_def)

section \<open>Sessions\<close>

lemma unwrap_local_Ok: "unwrap_local (OkResponse v) = Inr v"
  by (simp add: unwrap_local_def OkResponse_def flag_set_def json_simps AsBool_def)

lemma unwrap_local_Error: "unwrap_local (ErrorResponse e) = Inl e"
proof -
  have "local_error (ErrorToJson e) = e"
    by (simp add: local_error_def string_field_def ErrorToJson_def Let_def json_simps ErrorCodeFromName_ErrorCodeName)
  then show ?thesis by (simp add: unwrap_local_def ErrorResponse_def flag_set_def json_simps AsBool_def)
qed

lemma unwrap_agree:
  assumes "DispatchEnvelope p ctx wording r srv = (Inr j, t)"
  shows "UnwrapEnvelope (json_norm j) = map_sum id json_norm (unwrap_local j)"
  using assms
  by (auto simp: DispatchEnvelope_def UnwrapEnvelope_Ok UnwrapEnvelope_Error unwrap_local_Ok unwrap_local_Error
      split: prod.splits sum.splits failure.splits)


text \<open>An environment without files.\<close>

definition small_environment :: Environment where
  "small_environment = \<lparr>env_platform = sound_platform, env_directory = (\<lambda>_. blank_directory),
     env_connect = (\<lambda>_ _. Fail TransportError), env_sends = True, env_wording = (\<lambda>_ _ _. ([], [])),
     env_file = (\<lambda>_. NoFile), env_data_dir = []\<rparr>"


section \<open>A read-only daemon\<close>

lemma read_only_Execute:
  "ExecuteRequest p ctx r s = (x, t) \<Longrightarrow> \<not> allow_publish ctx \<Longrightarrow> \<not> allow_prune ctx \<Longrightarrow> service_world t = service_world s"
proof (erule ExecuteRequest_cases)
  fix op
  assume "Execute p ctx op r s = (x, t)" "\<not> allow_publish ctx" "\<not> allow_prune ctx"
  then show "service_world t = service_world s"
    by (cases op) (auto simp: Execute_def Let_def HandlePublish_def HandlePrune_def split: if_splits)
qed simp

lemma read_only_serve:
  assumes "\<not> allow_publish ctx" and "\<not> allow_prune ctx"
  shows "serve_next p ctx wording parse_words m cancelled sends x s c = Inr y \<Longrightarrow> service_world (sv_service y) = service_world s"
  using assms
  by (auto simp: serve_next_def respond_def DispatchEnvelope_def Let_def result_simps dest: read_only_Execute
      split: sum.splits prod.splits option.splits if_splits failure.splits)

lemma read_only_step:
  "server_step s t \<Longrightarrow> \<not> opt_allow_publish (server_options s) \<Longrightarrow> \<not> opt_allow_prune (server_options s) \<Longrightarrow>
     service_world (service t) = service_world (service s) \<and> server_options t = server_options s"
proof (induction rule: server_step.induct)
  case (serve h s p token wording parse_words m cancelled sends x y)
  then show ?case using read_only_serve [OF _ _ serve(3)] by (simp add: start_context_def)
next
  case (hello h s sends x y m)
  then show ?case using serve_hello_service by auto
qed (auto simp: acceptor_admit_def acceptor_enqueue_def EnqueueConnection_def acceptor_leave_def worker_take_def worker_finish_def
    BeginShutdown_def count_rejected_def Let_def)

lemma read_only_run:
  "server_run s t \<Longrightarrow> \<not> opt_allow_publish (server_options s) \<Longrightarrow> \<not> opt_allow_prune (server_options s) \<Longrightarrow>
     service_world (service t) = service_world (service s) \<and> server_options t = server_options s"
  by (induction rule: server_run.induct) (auto dest: read_only_step)

text \<open>C18. A daemon that was started read-only never changes its authority or its directory, whatever its clients send and
  however their requests interleave.\<close>

theorem read_only_daemon:
  assumes "daemon_Parse env argv = Inr (Some a)" and "read_only a"
    and "server_run (Server_start (daemon_server_options a) w) s"
  shows "service_world (service s) = w"
  using read_only_run [OF assms(3)] assms(2) by (simp add: Server_start_def daemon_server_options_def)

lemma read_only_daemon_witness:
  "\<exists>a s. daemon_Parse small_environment [''--workers'', ''2'', ''--read-only''] = Inr (Some a) \<and> arg_workers a = 2 \<and>
     server_run (Server_start (daemon_server_options a) (small_authority, blank_directory)) s \<and>
     stopping s \<and> service_world (service s) = (small_authority, blank_directory)"
proof -
  let ?a = "(Args_default small_environment)\<lparr>arg_workers := 2, read_only := True\<rparr>"
  let ?s = "Server_start (daemon_server_options ?a) (small_authority, blank_directory)"
  have "ParseSize ''2'' = Some 2" by (simp add: ParseSize_def IsDigit_def digit_value_def char_code_def)
  then have parse: "daemon_Parse small_environment [''--workers'', ''2'', ''--read-only''] = Inr (Some ?a)"
    by (simp add: daemon_Parse_def value_tokens_def value_option_def)
  have run: "server_run ?s (BeginShutdown ?s)" by (rule server_next [OF server_refl stop])
  have "stopping (BeginShutdown ?s)" by (simp add: BeginShutdown_def)
  moreover have "service_world (service (BeginShutdown ?s)) = (small_authority, blank_directory)"
    by (rule read_only_daemon [OF parse _ run]) simp
  ultimately show ?thesis using parse run by (intro exI [of _ ?a] exI [of _ "BeginShutdown ?s"] conjI) simp_all
qed

section \<open>Exit codes\<close>

definition outcome_code :: "DecisionOutcome \<Rightarrow> int" where
  "outcome_code oc = (case oc of DCompatible \<Rightarrow> 0 | DIncompatible \<Rightarrow> 2 | DUnknown \<Rightarrow> 3)"

lemma OutcomeExitCode_name: "OutcomeExitCode (c_str (DecisionOutcomeName oc)) = outcome_code oc"
  by (cases oc) (simp_all add: c_str_def OutcomeExitCode_def outcome_code_def kExitNegative_def kExitUnknown_def kExitOk_def)

lemma pair_answer_code:
  "snd (query_answer opts (set_when b ''explanation'' e (DecisionToJson d))) = outcome_code (dec_outcome d)"
  by (simp add: query_answer_def DecisionToJson_def Let_def json_simps text_or_def OutcomeExitCode_name)

lemma set_answer_code:
  "snd (query_answer opts (set_when b ''explanation'' e (SetDecisionToJson d))) = outcome_code (sd_outcome d)"
  by (simp add: query_answer_def SetDecisionToJson_def Let_def json_simps text_or_def OutcomeExitCode_name)


text \<open>The decision of a query that was answered in process.\<close>

definition decided :: "Environment \<Rightarrow> Service \<Rightarrow> JsonValue \<Rightarrow> DecisionOutcome \<Rightarrow> bool" where
  "decided env srv r oc =
     (\<exists>g. SelectGeneration (env_platform env) r (service_world srv) = Inr g \<and>
       ((\<exists>lj rj l r'. RequireField r ''left'' = Inr lj \<and> RequireField r ''right'' = Inr rj \<and> request_spec g lj = Inr l \<and>
           request_spec g rj = Inr r' \<and> oc = dec_outcome (EvaluatePair g l r')) \<or>
        (\<exists>js ms d. RequireArray r ''members'' = Inr js \<and> res_mapM (request_spec g) js = Inr ms \<and> EvaluateSet g ms = Inr d \<and>
           oc = sd_outcome d)))"

lemma local_call_Inr:
  assumes "Session_Call env (LocalSession ctx srv) r = (Inr (Inr v), s)"
  obtains t where "ExecuteRequest (env_platform env) ctx r srv = (Inr v, t)" "s = LocalSession ctx t"
  using assms
  by (auto simp: Session_Call_def DispatchEnvelope_def unwrap_local_Ok unwrap_local_Error result_simps
      split: prod.splits sum.splits failure.splits)

lemma query_decided:
  assumes "ExecuteRequest p ctx r srv = (Inr v, t)"
    and "RequireString r ''op'' = Inr ''query_pair'' \<or> RequireString r ''op'' = Inr ''query_set''" and "p = env_platform env"
  shows "\<exists>oc. decided env srv r oc \<and> snd (query_answer opts v) = outcome_code oc"
  using assms(1)
proof (cases rule: ExecuteRequest_cases)
  case (2 op)
  have "OperationName op = ''query_pair'' \<or> OperationName op = ''query_set''" using 2(1) assms(2) by auto
  then consider "op = OpQueryPair" | "op = OpQuerySet" by (cases op) simp_all
  then show ?thesis
  proof cases
    case 1
    then show ?thesis using 2(4) assms(3)
      by (fastforce simp: Execute_def HandleQueryPair_def decided_def Let_def result_simps pair_answer_code)
  next
    case 2
    then show ?thesis using \<open>Execute p ctx op r srv = (Inr v, t)\<close> assms(3)
      by (fastforce simp: Execute_def HandleQuerySet_def decided_def Let_def result_simps set_answer_code split: if_splits)
  qed
qed simp

lemma query_request_op:
  assumes "query_request env a r = Inr q" and "json_object r"
  shows "RequireString q ''op'' = Inr ''query_pair'' \<or> RequireString q ''op'' = Inr ''query_set''"
  using assms
  by (auto simp: query_request_def Let_def result_simps json_simps intro!: RequireString_Find split: if_splits)

lemma with_value_Inr:
  "with_value x s0 f = (Inr (printed, c), s) \<Longrightarrow> c \<noteq> kExitError \<Longrightarrow> \<exists>v. x = Inr v \<and> f v = (Inr (printed, c), s)"
  by (auto simp: with_value_def split: sum.splits failure.splits)


end
