(* ===== verification/Spec2Isabelle.thy ===== *)
theory Spec2Isabelle
  imports RuleText SetFacts DiffFacts ToolsFacts
begin

text \<open>
  A verification development for the Fabric Compatibility Registry, a C++ library that decides whether
  components of a network fabric may interoperate.

  \<^bold>\<open>The program.\<close> A publisher writes a registry document: metadata, a taxonomy (families, kinds,
  protocols, schemas, capabilities, features, hardware classes) and rules. A document is normalised,
  validated statically and compiled to an immutable generation, which is named by its number and the
  SHA-256 digest of its canonical JSON. A query gives the observations of two or more components. The
  generation finds the active rules whose selectors match, evaluates them in precedence order against
  three-valued knowledge, and answers compatible, incompatible or unknown, with the evidence and the
  versions the components have in common. An authority publishes generations, in memory or in a directory that
  survives crashes, and fences its publishers; a service offers it to clients over framed JSON.

  \<^bold>\<open>The theories\<close>, each with the file under \<open>src/\<close> that it models:

  \<^item> \<open>Prelude\<close>: orderings, sorted insertion, stable sorting, ordered maps (\<open>std::map\<close>) with the locale
    of a comparator and of a map, and the lemmas the components share. \<open>Text_Lib\<close>: decimal and
    fixed width text.
  \<^item> \<open>Errors\<close> (\<open>error.hpp\<close>, \<open>error.cpp\<close>): error codes and results. A failing operation is \<open>Inl\<close> of its
    code; message texts of errors are not kept.
  \<^item> \<open>Identity\<close> and \<open>Timestamp\<close> (\<open>identity.hpp\<close>, \<open>identity.cpp\<close>): typed identifiers and their grammar,
    counters as 64 bit words, digests, generation identifiers, ISO 8601 texts.
  \<^item> \<open>Version\<close>, \<open>Range\<close>, \<open>RangeText\<close> (\<open>version.hpp\<close>, \<open>version.cpp\<close>): semantic versions on 32 bit words,
    ranges as lists of intervals, the range parser. The parser calls itself on part of its input; it
    is written with fuel, and \<open>VersionRange_Parse\<close> gives it more than any text can use up.
  \<^item> \<open>Json\<close> (\<open>json.hpp\<close>, \<open>json.cpp\<close>): values, accessors and the canonical printer. Doubles are their bit
    patterns.
  \<^item> \<open>Digest\<close> (\<open>digest.hpp\<close>, \<open>digest.cpp\<close>): incremental SHA-256 and CRC-32C on words.
  \<^item> \<open>Taxonomy\<close>, \<open>Component\<close> (\<open>taxonomy.cpp\<close>, \<open>component.cpp\<close>): capability values, the vocabulary,
    observations and selectors with their JSON forms.
  \<^item> \<open>Rule\<close>, \<open>RuleText\<close>, \<open>Document\<close> (\<open>rule.cpp\<close>, \<open>document.cpp\<close>): constraints, precedence, canonical form,
    JSON form and digest of rules and documents, the builder.
  \<^item> \<open>Decision\<close>, \<open>DecisionFacts\<close> (first half of \<open>registry.cpp\<close>): a rule applied to components, negotiation.
  \<^item> \<open>Render\<close> (\<open>registry.hpp\<close>, \<open>decision_io.cpp\<close>): the records of decisions, their JSON and text.
  \<^item> \<open>Registry\<close>, \<open>RegistryFacts\<close>, \<open>SetFacts\<close> (second half of \<open>registry.cpp\<close>): compiled generations,
    the decision of a pair and of a set.
  \<^item> \<open>Diff\<close>, \<open>DiffFacts\<close> (\<open>decision_io.cpp\<close>): difference of generations, replay, provenance.
  \<^item> \<open>Regions\<close>, \<open>Validation\<close>, \<open>ValidationFacts\<close> (\<open>validation.cpp\<close>, \<open>RegistryGeneration::Compile\<close>): every
    check of the static validation and what a generation that compiles satisfies.
  \<^item> \<open>JsonText\<close>, \<open>JsonTextFacts\<close>, \<open>DocumentText\<close>, \<open>DocumentTextFacts\<close> (\<open>json.cpp\<close>, \<open>document.cpp\<close>): the JSON parser
    against an inductive grammar, and documents as texts.
  \<^item> \<open>Store\<close>, \<open>StoreOps\<close> (\<open>store.cpp\<close>): the files of a store, and its operations on a directory as sequences of
    single file operations, each of which may fail or be the last before a crash. \<open>StoreFacts\<close>, \<open>StoreMetaFacts\<close>:
    formats are read back. \<open>StoreOpsFacts\<close>, \<open>OpenFacts\<close>: publishing is atomic, opening recovers and excludes other writers.
  \<^item> \<open>Authority\<close> (\<open>authority.cpp\<close>): publication in two phases around a lock, snapshots, pruning, stamps.
    \<open>AuthorityFacts\<close>, \<open>StampFacts\<close>: the interleavings of publishers, the chain of generations, restarts, stamps.
  \<^item> \<open>Transport\<close>, \<open>TransportFacts\<close> (\<open>transport.cpp\<close>): frames over a stream of bytes. A stream is the bytes that arrive and
    how they end; sending is a flag that says whether it works.
  \<^item> \<open>Protocol\<close> (\<open>protocol.cpp\<close>): the operations of the service, each handler whole, on the state \<open>Service\<close>.
    \<open>Server\<close> (\<open>server.cpp\<close>): the handshake and the request loop of a connection. \<open>Admission\<close>: the shared state of the
    threads and \<open>server_step\<close>, what one of them does between two points where another may run. \<open>Client\<close> (\<open>client.cpp\<close>).
  \<^item> \<open>AdmissionFacts\<close>, \<open>ProtocolFacts\<close>, \<open>WireFacts\<close>: the bounds and the shutdown of the service, which requests change it,
    its refinement of the authority, and the client and the server joined by their bytes.
  \<^item> \<open>Tools\<close>, \<open>Ctl\<close>, \<open>ToolsFacts\<close> (\<open>apps/cli_common.cpp\<close>, \<open>apps/registryd/main.cpp\<close>, \<open>apps/fcrctl/main.cpp\<close>): sessions in
    process and over a connection, the options of the daemon, the commands of the control tool with their exit codes.

  \<^bold>\<open>State and data.\<close> Structs are records, enumerations and variants datatypes, \<open>std::map\<close> an association
  list in key order, \<open>std::optional\<close> an option, \<open>std::vector\<close> a list, bounded integers words where they
  may wrap and naturals otherwise. Rules of a generation are referred to by their index, as in the code.
  The C++ operations that would be undefined (an unchecked signed multiplication, an empty optional
  dereferenced) are explicit values of their own.

  \<^bold>\<open>What is shown.\<close> Values: parsers and printers of identifiers, versions, ranges, timestamps, taxonomies,
  components, rules and documents invert each other on well-formed values; ranges are canonical and
  denote the unions and intersections they should; SHA-256 does not depend on chunking; the canonical
  form and the digest do not depend on the order in which rules and constraints were given. Decisions:
  a pair or a set is decided by the matching rule of highest precedence that reaches a verdict, a
  definite verdict survives further knowledge, evidence is bounded and holds the decider, a set is the
  conservative meet of its parts, negotiation chooses the best common version. Generations: one that
  compiles has distinct rules, no conflict within a tier and no undeclared reference; differences
  partition the rules. Persistence: whatever step of a publication is the last before a crash, the directory
  holds the old generation or the new one; a new writer fences the old; what was served before a restart is
  served after it. Service: publications of concurrent clients are serialized, a stale stamp is refused, calls
  return what the request gave, frames with a wrong byte are refused, the admission is bounded and a shutdown drains. Tools:
  a command answers the same in process and over a connection, a read-only daemon changes nothing.
  Where the code does not do what its documents say, the development states what
  it does (\<open>tie_break_decides\<close>, \<open>false_unreachable\<close>, \<open>mirrored_sides_not_swapped\<close> and others).

  \<^bold>\<open>Bounds and fuel.\<close> The depth of the search for implication cycles is the code's bound of 256, so
  its fuel is 257 calls. The printer of doubles searches the shortest of at most 17 digits, which always
  reads back. The range parser calls itself only for the text of a tilde range, which holds no tilde, so its fuel is two calls. The JSON
  parser recurses on the length of its text: each call consumes a character or descends one level of a bounded
  depth, and a fuel of twice the length plus one is never used up. The request loop of a
  connection terminates because every turn consumes a frame header of the bytes that arrive.

  \<^bold>\<open>Not modelled.\<close> System calls are parameters: whether creating, reading, writing, listing or locking a file
  works, the clock, what arrives on a socket and whether sending works. Paths are names in one directory. Locks are modelled by
  what they make atomic; threads by the order of their steps, with the wake-up sockets and the final joins left out. The
  wording of errors is a parameter of the protocol and otherwise left out, and so is the standard error stream of the tools.
  The benchmarks, the tests and the examples are not part of the program.
\<close>

end
